(* ===== verification/Prelude.thy ===== *)
theory Prelude
  imports Main "HOL-Library.Word" "HOL-Library.Monad_Syntax"
begin

text \<open>
  What every component of the loader model shares: the machine integers of the 32-bit ARM target,
  C arrays with checked copies, and the named collections of facts the component theories extend.

  A C operation whose behaviour is undefined (a copy that leaves its array, a read past a table)
  is the value \<open>None\<close> of an \<open>option\<close>; the component theories prove that it does not happen under
  the component's invariant.  Log output (\<open>debugPrintf\<close>) and the static counters that only rate-limit
  it have no effect on any other state and are left out everywhere.
\<close>

unbundle bit_operations_syntax

section \<open>Machine integers\<close>

type_synonym u8 = "8 word"
type_synonym u16 = "16 word"
type_synonym i16 = "16 word"
type_synonym u32 = "32 word"
type_synonym i32 = "32 word"
type_synonym u64 = "64 word"

named_theorems word_to_nat \<open>word comparisons and differences as facts about natural numbers\<close>
named_theorems array_simps \<open>lengths and reads of updated C arrays\<close>

lemma unat_of_nat32_diff [word_to_nat]:
  assumes "R \<le> W" "W < R + 2 ^ 32"
  shows "unat ((of_nat W :: u32) - of_nat R) = W - R"
proof -
  have "(of_nat W :: u32) - of_nat R = of_nat (W - R)"
    using assms(1) by (simp add: of_nat_diff)
  moreover have "W - R < 2 ^ 32" using assms by simp
  ultimately show ?thesis by (simp add: unat_of_nat)
qed

lemma sint_of_nat32 [word_to_nat]: "n < 2 ^ 31 \<Longrightarrow> sint (of_nat n :: i32) = int n"
  by (simp add: signed_of_nat signed_take_bit_int_eq_self)

lemma of_nat_unat_add:
  "(of_nat (W + unat n) :: u32) = of_nat W + n"
  by simp

lemma unat_and_mask_eq_mod:
  "unat (x AND mask n :: 'a::len word) = unat x mod 2 ^ n"
proof -
  have "unat (x AND mask n) = take_bit n (unat x)"
    by (simp only: take_bit_eq_mask [symmetric] unsigned_take_bit_eq)
  then show ?thesis by (simp only: take_bit_eq_mod)
qed

section \<open>C arrays\<close>

text \<open>
  \<open>memcpy_at dst di src si n\<close> is \<open>memcpy(&dst[di], &src[si], n * sizeof *dst)\<close>: \<open>None\<close> where a read or
  a write would leave its array.
\<close>

definition blit :: "'a list \<Rightarrow> nat \<Rightarrow> 'a list \<Rightarrow> 'a list" where
  "blit dst i src = take i dst @ src @ drop (i + length src) dst"

definition memcpy_at :: "'a list \<Rightarrow> nat \<Rightarrow> 'a list \<Rightarrow> nat \<Rightarrow> nat \<Rightarrow> 'a list option" where
  "memcpy_at dst di src si n =
     (if di + n \<le> length dst \<and> si + n \<le> length src
      then Some (blit dst di (take n (drop si src))) else None)"

text \<open>\<open>memset_at dst di x n\<close> fills \<open>n\<close> cells from \<open>di\<close> on with \<open>x\<close>.\<close>

definition memset_at :: "'a list \<Rightarrow> nat \<Rightarrow> 'a \<Rightarrow> nat \<Rightarrow> 'a list option" where
  "memset_at dst di x n =
     (if di + n \<le> length dst then Some (blit dst di (replicate n x)) else None)"

lemma length_blit [simp, array_simps]:
  "i + length src \<le> length dst \<Longrightarrow> length (blit dst i src) = length dst"
  by (simp add: blit_def)

lemma nth_blit [array_simps]:
  assumes "i + length src \<le> length dst" "k < length dst"
  shows "blit dst i src ! k = (if i \<le> k \<and> k < i + length src then src ! (k - i) else dst ! k)"
  using assms by (auto simp: blit_def nth_append min_def)

lemma blit_Nil [simp]: "blit dst i [] = dst"
  by (simp add: blit_def)

lemma take_blit_full:
  "length src = length dst \<Longrightarrow> blit dst 0 src = src"
  by (simp add: blit_def)

text \<open>
  A circular buffer of \<open>N\<close> cells copied into in two pieces, and read back in two pieces: what the
  two \<open>memcpy\<close> calls of a ring do is one copy over indices modulo \<open>N\<close>.
\<close>

lemma mod_index_split:
  fixes N :: nat
  assumes "i < N" "k < N"
  shows "(i + k) mod N = (if k < N - i then i + k else i + k - N)"
  using assms by (auto simp: mod_if)

lemma mod_index_inj:
  fixes N :: nat
  assumes "i \<le> j" "j < i + N" "i mod N = j mod N"
  shows "i = j"
proof -
  have "(j - i) mod N = 0" using assms(1,3) by (metis mod_eq_dvd_iff_nat mod_0_imp_dvd dvd_imp_mod_0)
  moreover have "j - i < N" using assms(1,2) by simp
  ultimately show ?thesis using assms(1) by simp
qed

lemma wrap_write_new:
  assumes "length buf = N" "i < N" "n \<le> N" "length src = n" "f = min n (N - i)" "k < n"
  shows "blit (blit buf i (take f src)) 0 (drop f src) ! ((i + k) mod N) = src ! k"
  using assms by (auto simp: mod_index_split nth_blit min_def)

lemma wrap_write_old:
  assumes "length buf = N" "i < N" "n \<le> N" "length src = n" "f = min n (N - i)" "n \<le> k" "k < N"
  shows "blit (blit buf i (take f src)) 0 (drop f src) ! ((i + k) mod N) = buf ! ((i + k) mod N)"
  using assms by (auto simp: mod_index_split nth_blit min_def)

lemma wrap_read:
  assumes "length buf = N" "i < N" "n \<le> N" "f = min n (N - i)"
  shows "take f (drop i buf) @ take (n - f) buf = map (\<lambda>k. buf ! ((i + k) mod N)) [0..<n]"
  using assms by (auto simp: list_eq_iff_nth_eq nth_append mod_index_split min_def) (simp add: add.commute)

text \<open>The directory of the card that holds everything (\<open>stubs.h\<close>).\<close>

definition DATA_PATH :: string where
  "DATA_PATH = ''uma0:data/ssx''"

end
