(* ===== verification/Audio_Ring.thy ===== *)
theory Audio_Ring
  imports Prelude
begin

text \<open>
  The sample ring of \<open>loader/audio.c\<close>: a single-producer single-consumer ring buffer of 65536 shorts
  between the engine's audio thread (\<open>ring_write\<close>, called by \<open>SubmitAudio_hook\<close>) and the output thread
  (\<open>ring_read_chunk\<close>, called by \<open>audio_thread\<close>).  The cursors \<open>s_w\<close> and \<open>s_r\<close> are 32-bit and count
  every short ever written or read, wrapping at \<open>2 ^ 32\<close>; a cursor is masked to index the buffer.

  First the two operations as functions on the ring, with a locale \<open>bounded_fifo\<close> that states what a
  lossy bounded queue promises and is interpreted on them; then the two threads as a step relation
  whose steps are the single atomic loads and stores and the single cell copies, so that every
  interleaving of producer and consumer is a run of it.
\<close>

section \<open>State and operations\<close>

definition RING_SHORTS :: u32 where "RING_SHORTS = push_bit 16 1"
definition RING_MASK :: u32 where "RING_MASK = RING_SHORTS - 1"
definition AUDIO_GRAIN :: u32 where "AUDIO_GRAIN = 1024"
definition AUDIO_CHANNELS :: u32 where "AUDIO_CHANNELS = 2"
definition CHUNK_SHORTS :: u32 where "CHUNK_SHORTS = AUDIO_GRAIN * AUDIO_CHANNELS"

record ring =
  s_ring :: "i16 list"
  s_w :: u32
  s_r :: u32
  s_drops :: u32

definition ring_init :: ring where
  "ring_init = \<lparr>s_ring = replicate 65536 0, s_w = 0, s_r = 0, s_drops = 0\<rparr>"

definition ring_write :: "i16 list \<Rightarrow> u32 \<Rightarrow> ring \<Rightarrow> ring option" where
  "ring_write src n st =
     (let w = s_w st; r = s_r st;
          free_shorts = RING_SHORTS - (w - r)
      in if n > free_shorts then Some (st\<lparr>s_drops := s_drops st + 1\<rparr>)
         else
           let idx = w AND RING_MASK;
               first0 = RING_SHORTS - idx;
               first = (if first0 > n then n else first0)
           in do {
                b1 \<leftarrow> memcpy_at (s_ring st) (unat idx) src 0 (unat first);
                b2 \<leftarrow> (if n > first then memcpy_at b1 0 src (unat first) (unat (n - first)) else Some b1);
                Some (st\<lparr>s_ring := b2, s_w := w + n\<rparr>)
              })"

definition ring_read_chunk :: "i16 list \<Rightarrow> ring \<Rightarrow> (i16 list \<times> ring) option" where
  "ring_read_chunk dst st =
     (let r = s_r st; w = s_w st;
          avail = w - r;
          take_n = (if avail < CHUNK_SHORTS then avail else CHUNK_SHORTS);
          idx = r AND RING_MASK;
          first0 = RING_SHORTS - idx;
          first = (if first0 > take_n then take_n else first0)
      in do {
           d1 \<leftarrow> memcpy_at dst 0 (s_ring st) (unat idx) (unat first);
           d2 \<leftarrow> (if take_n > first
                  then memcpy_at d1 (unat first) (s_ring st) 0 (unat (take_n - first)) else Some d1);
           d3 \<leftarrow> (if take_n < CHUNK_SHORTS
                  then memset_at d2 (unat take_n) 0 (unat (CHUNK_SHORTS - take_n)) else Some d2);
           Some (d3, st\<lparr>s_r := r + take_n\<rparr>)
         })"

text \<open>\<open>pcm\<close> is \<open>None\<close> for a null pointer; \<open>count\<close> is a signed C \<open>int\<close>.\<close>

definition SubmitAudio_hook :: "i32 \<Rightarrow> i16 list option \<Rightarrow> ring \<Rightarrow> (i32 \<times> ring) option" where
  "SubmitAudio_hook count pcm st =
     (case pcm of
        Some p \<Rightarrow> if sint count > 0 then map_option (\<lambda>st'. (count, st')) (ring_write p count st)
                  else Some (count, st)
      | None \<Rightarrow> Some (count, st))"

section \<open>The invariant and the queue a ring stands for\<close>

definition ring_inv :: "ring \<Rightarrow> bool" where
  "ring_inv st \<longleftrightarrow> length (s_ring st) = 65536 \<and> unat (s_w st - s_r st) \<le> 65536"

definition ring_cell :: "ring \<Rightarrow> u32 \<Rightarrow> i16" where
  "ring_cell st c = s_ring st ! unat (c AND RING_MASK)"

definition queued :: "ring \<Rightarrow> i16 list" where
  "queued st = map (\<lambda>k. ring_cell st (s_r st + of_nat k)) [0..<unat (s_w st - s_r st)]"

lemmas ring_consts = RING_SHORTS_def RING_MASK_def CHUNK_SHORTS_def AUDIO_GRAIN_def AUDIO_CHANNELS_def

lemma RING_MASK_mask: "RING_MASK = mask 16"
  by (simp add: ring_consts mask_eq_exp_minus_1)

lemma ring_index [word_to_nat]: "unat (c AND RING_MASK) = unat c mod 65536"
  by (simp add: RING_MASK_mask unat_and_mask_eq_mod)

lemma ring_index_add [word_to_nat]:
  "unat ((c + of_nat k) AND RING_MASK) = (unat (c AND RING_MASK) + k) mod 65536"
proof -
  have "unat (c + of_nat k :: u32) mod 65536 = ((unat c + k) mod 2 ^ 32) mod 65536"
    by (simp add: unat_word_ariths unat_of_nat mod_simps)
  also have "\<dots> = (unat c + k) mod 65536"
    by (rule mod_mod_cancel) simp
  finally show ?thesis by (simp add: ring_index mod_simps)
qed

lemma length_queued [simp]: "length (queued st) = unat (s_w st - s_r st)"
  by (simp add: queued_def)

lemma nth_queued:
  "k < unat (s_w st - s_r st) \<Longrightarrow>
   queued st ! k = s_ring st ! ((unat (s_r st AND RING_MASK) + k) mod 65536)"
  by (simp add: queued_def ring_cell_def ring_index_add)

lemma ring_inv_init: "ring_inv ring_init"
  by (simp add: ring_inv_def ring_init_def)

lemma queued_init: "queued ring_init = []"
  by (simp add: queued_def ring_init_def)

lemma unat_free_shorts [word_to_nat]:
  "unat (d::u32) \<le> 65536 \<Longrightarrow> unat (RING_SHORTS - d) = 65536 - unat d"
  by (simp add: ring_consts unat_sub word_le_nat_alt)

lemma unat_first [word_to_nat]:
  "unat (RING_SHORTS - (c AND RING_MASK)) = 65536 - unat (c AND RING_MASK)"
  "unat (c AND RING_MASK) < 65536"
  by (simp_all add: unat_free_shorts ring_index less_imp_le)

section \<open>What the two operations do to the queue\<close>

lemma ring_write_drop:
  assumes "ring_inv st" "length (queued st) + unat n > 65536"
  shows "ring_write src n st = Some (st\<lparr>s_drops := s_drops st + 1\<rparr>)"
proof -
  have "n > RING_SHORTS - (s_w st - s_r st)"
    using assms by (auto simp: ring_inv_def word_less_nat_alt unat_free_shorts)
  then show ?thesis by (simp add: ring_write_def Let_def)
qed

lemma ring_write_room:
  assumes inv: "ring_inv st" and room: "length (queued st) + unat n \<le> 65536"
    and src: "unat n \<le> length src"
  defines "i \<equiv> unat (s_w st AND RING_MASK)"
  defines "f \<equiv> min (unat n) (65536 - i)"
  shows "ring_write src n st =
    Some (st\<lparr>s_ring := blit (blit (s_ring st) i (take f (take (unat n) src))) 0 (drop f (take (unat n) src)),
             s_w := s_w st + n\<rparr>)"
proof -
  have len: "length (s_ring st) = 65536" using inv by (simp add: ring_inv_def)
  have i: "i < 65536" by (simp add: i_def unat_first)
  have first0: "unat (RING_SHORTS - (s_w st AND RING_MASK)) = 65536 - i"
    by (simp add: i_def unat_first)
  have nodrop: "\<not> n > RING_SHORTS - (s_w st - s_r st)"
    using inv room by (simp add: ring_inv_def word_less_nat_alt unat_free_shorts)
  show ?thesis
  proof (cases "RING_SHORTS - (s_w st AND RING_MASK) > n")
    case True
    then have "unat n < 65536 - i" by (simp add: word_less_nat_alt first0)
    then have f: "f = unat n" by (simp add: f_def)
    show ?thesis using True nodrop src i len \<open>unat n < 65536 - i\<close>
      by (simp add: ring_write_def Let_def memcpy_at_def f i_def [symmetric])
  next
    case False
    then have le: "65536 - i \<le> unat n" by (simp add: word_less_nat_alt first0)
    then have f: "f = 65536 - i" by (simp add: f_def)
    have sub: "unat (n - (RING_SHORTS - (s_w st AND RING_MASK))) = unat n - (65536 - i)"
      using False by (simp add: unat_sub first0)
    have gt: "(RING_SHORTS - (s_w st AND RING_MASK) < n) = (65536 - i < unat n)"
      by (simp add: word_less_nat_alt first0)
    show ?thesis using False nodrop src i len le room
      by (auto simp: ring_write_def Let_def memcpy_at_def f i_def [symmetric] first0 sub gt drop_take)
  qed
qed

lemma ring_write_accepts:
  assumes inv: "ring_inv st" and room: "length (queued st) + unat n \<le> 65536"
    and src: "unat n \<le> length src"
  shows "\<exists>st'. ring_write src n st = Some st' \<and> ring_inv st' \<and>
           queued st' = queued st @ take (unat n) src \<and> s_drops st' = s_drops st"
proof -
  let ?d = "unat (s_w st - s_r st)" and ?n = "unat n" and ?xs = "take (unat n) src"
  let ?i = "unat (s_w st AND RING_MASK)" and ?j = "unat (s_r st AND RING_MASK)"
  let ?f = "min ?n (65536 - ?i)"
  let ?b = "blit (blit (s_ring st) ?i (take ?f ?xs)) 0 (drop ?f ?xs)"
  let ?st = "st\<lparr>s_ring := ?b, s_w := s_w st + n\<rparr>"
  have len: "length (s_ring st) = 65536" and d: "?d \<le> 65536" using inv by (simp_all add: ring_inv_def)
  have room': "?d + ?n \<le> 65536" using room by simp
  have dn: "unat (s_w st + n - s_r st) = ?d + ?n"
  proof -
    have "s_w st + n - s_r st = (s_w st - s_r st) + n" by simp
    then show ?thesis using room' by (simp only: unat_word_ariths) simp
  qed
  have i: "?i = (?j + ?d) mod 65536"
    using ring_index_add [of "s_r st" ?d] by simp
  have lb: "length ?b = 65536" using len unat_first(2) [of "s_w st"] src room' by (simp add: min_def)
  have cell: "?b ! ((?j + k) mod 65536) = (queued st @ ?xs) ! k" if k: "k < ?d + ?n" for k
  proof (cases "k < ?d")
    case True
    have split: "(?i + (65536 - (?d - k))) mod 65536 = (?j + k) mod 65536"
    proof -
      have "(?i + (65536 - (?d - k))) mod 65536 = (?j + ?d + (65536 - (?d - k))) mod 65536"
        by (simp only: i mod_simps)
      also have "?j + ?d + (65536 - (?d - k)) = ?j + k + 65536" using True d by simp
      finally show ?thesis by simp
    qed
    have "?b ! ((?i + (65536 - (?d - k))) mod 65536) =
            s_ring st ! ((?i + (65536 - (?d - k))) mod 65536)"
      using len room' src True by (intro wrap_write_old [where n = ?n]) (auto simp: unat_first)
    then have "?b ! ((?j + k) mod 65536) = s_ring st ! ((?j + k) mod 65536)" by (simp only: split)
    then show ?thesis using True by (simp only: nth_append nth_queued length_queued if_True)
  next
    case False
    then obtain m where m: "k = ?d + m" by (metis le_add_diff_inverse not_less)
    have "(?j + k) mod 65536 = (?i + m) mod 65536" by (simp only: i m mod_simps add.assoc)
    moreover have "?b ! ((?i + m) mod 65536) = ?xs ! m"
      using len room' src k m by (intro wrap_write_new [where n = ?n]) (auto simp: unat_first)
    ultimately show ?thesis using k m by (simp add: nth_append)
  qed
  have "queued ?st = queued st @ ?xs"
    using cell src by (auto simp: list_eq_iff_nth_eq nth_queued dn)
  moreover have "ring_inv ?st" using lb room' by (simp add: ring_inv_def dn)
  ultimately show ?thesis using ring_write_room [OF inv room src] by auto
qed

lemma unat_CHUNK_SHORTS [simp]: "unat CHUNK_SHORTS = 2048"
  by (simp add: ring_consts)

lemma ring_read_chunk_eq:
  assumes inv: "ring_inv st" and dst: "length dst = 2048"
  defines "t \<equiv> min 2048 (length (queued st))"
  shows "ring_read_chunk dst st =
    Some (take t (queued st) @ replicate (2048 - t) 0, st\<lparr>s_r := s_r st + of_nat t\<rparr>)"
proof -
  let ?d = "unat (s_w st - s_r st)" and ?i = "unat (s_r st AND RING_MASK)"
  let ?B = "s_ring st"
  let ?tw = "if s_w st - s_r st < CHUNK_SHORTS then s_w st - s_r st else CHUNK_SHORTS"
  let ?first = "if RING_SHORTS - (s_r st AND RING_MASK) > ?tw then ?tw
                else RING_SHORTS - (s_r st AND RING_MASK)"
  have len: "length ?B = 65536" and d: "?d \<le> 65536" using inv by (simp_all add: ring_inv_def)
  have i: "?i < 65536" by (simp add: unat_first)
  have tw: "unat ?tw = t" by (auto simp: t_def word_less_nat_alt)
  have tw': "?tw = of_nat t" unfolding tw [symmetric] by simp
  have t: "t \<le> 2048" "t \<le> ?d" by (simp_all add: t_def)
  let ?f = "min t (65536 - ?i)"
  have first: "unat ?first = ?f" using tw by (auto simp: word_less_nat_alt unat_first)
  have more: "(?tw > ?first) = (t > ?f)" by (subst word_less_nat_alt) (simp only: tw first)
  have rest: "unat (?tw - ?first) = t - ?f"
  proof -
    have "?first \<le> ?tw" by (simp add: word_le_nat_alt tw first)
    then show ?thesis by (simp add: unat_sub tw first)
  qed
  have pad: "unat (CHUNK_SHORTS - ?tw) = 2048 - t" using t tw by (simp add: unat_sub word_le_nat_alt)
  have short: "(?tw < CHUNK_SHORTS) = (t < 2048)"
    by (subst word_less_nat_alt) (simp only: tw unat_CHUNK_SHORTS)
  have q: "take ?f (drop ?i ?B) @ take (t - ?f) ?B = take t (queued st)"
    using wrap_read [of ?B 65536 ?i t ?f] len i t
    by (auto simp: list_eq_iff_nth_eq nth_queued)
  have c1: "memcpy_at dst 0 ?B ?i ?f = Some (take ?f (drop ?i ?B) @ drop ?f dst)"
    using dst len t i by (auto simp: memcpy_at_def blit_def min_def)
  have c2: "(if t > ?f then memcpy_at (take ?f (drop ?i ?B) @ drop ?f dst) ?f ?B 0 (t - ?f)
             else Some (take ?f (drop ?i ?B) @ drop ?f dst)) = Some (take t (queued st) @ drop t dst)"
    using dst len t i by (auto simp: memcpy_at_def blit_def min_def simp flip: q)
  have c3: "(if t < 2048 then memset_at (take t (queued st) @ drop t dst) t 0 (2048 - t)
             else Some (take t (queued st) @ drop t dst)) = Some (take t (queued st) @ replicate (2048 - t) 0)"
    using dst t by (auto simp: memset_at_def blit_def)
  show ?thesis
    unfolding ring_read_chunk_def Let_def first more rest pad short tw
    by (simp only: c1 c2 c3 bind.bind_lunit tw')
qed

lemma queued_advance:
  assumes "t \<le> length (queued st)" "t < 2 ^ 32"
  shows "queued (st\<lparr>s_r := s_r st + of_nat t\<rparr>) = drop t (queued st)"
    and "unat (s_w st - (s_r st + of_nat t)) = length (queued st) - t"
proof -
  let ?d = "unat (s_w st - s_r st)"
  have ut: "unat (of_nat t :: u32) = t" using assms(2) by (simp add: unat_of_nat)
  have "of_nat t \<le> s_w st - s_r st" using assms(1) by (simp add: word_le_nat_alt ut)
  then have "unat ((s_w st - s_r st) - of_nat t) = ?d - unat (of_nat t :: u32)" by (rule unat_sub)
  then show d': "unat (s_w st - (s_r st + of_nat t)) = length (queued st) - t"
    by (simp add: ut algebra_simps)
  show "queued (st\<lparr>s_r := s_r st + of_nat t\<rparr>) = drop t (queued st)"
    using assms by (auto simp: list_eq_iff_nth_eq nth_queued d' ring_index_add mod_simps add.assoc)
qed

lemma ring_read_chunk_takes:
  assumes inv: "ring_inv st" and dst: "length dst = 2048"
  shows "\<exists>st'. ring_read_chunk dst st =
             Some (take 2048 (queued st) @ replicate (2048 - length (queued st)) 0, st') \<and>
           ring_inv st' \<and> queued st' = drop 2048 (queued st) \<and> s_drops st' = s_drops st"
proof -
  define t where "t = min 2048 (length (queued st))"
  let ?st = "st\<lparr>s_r := s_r st + of_nat t\<rparr>"
  have t: "t \<le> length (queued st)" "t < 2 ^ 32" by (simp_all add: t_def)
  have "queued ?st = drop 2048 (queued st)"
    using queued_advance(1) [OF t] by (simp add: t_def min_def)
  moreover have "ring_inv ?st" using inv queued_advance(2) [OF t] by (auto simp: ring_inv_def)
  moreover have "take t (queued st) @ replicate (2048 - t) 0 =
      take 2048 (queued st) @ replicate (2048 - length (queued st)) 0"
    by (simp add: t_def min_def)
  ultimately show ?thesis using ring_read_chunk_eq [OF inv dst] by (auto simp: t_def)
qed

section \<open>The contract: a lossy bounded queue\<close>

text \<open>
  What the two audio threads rely on: \<open>put\<close> either takes a whole submit or drops it and counts it,
  \<open>get\<close> delivers what is queued, oldest first, and pads with silence.  A run of the queue is a
  sequence of submits and chunk requests; \<open>accepted\<close> are the samples the queue took.
\<close>

datatype 'a audio_event = Submit "'a list" | Chunk

fun fifo_run :: "('a list \<Rightarrow> 's \<Rightarrow> 's option) \<Rightarrow> ('s \<Rightarrow> ('a list \<times> 's) option) \<Rightarrow>
    'a audio_event list \<Rightarrow> 's \<Rightarrow> ('a list list \<times> 's) option" where
  "fifo_run put get [] s = Some ([], s)"
| "fifo_run put get (Submit xs # es) s = do { s' \<leftarrow> put xs s; fifo_run put get es s' }"
| "fifo_run put get (Chunk # es) s =
     do { (c, s') \<leftarrow> get s; (cs, s'') \<leftarrow> fifo_run put get es s'; Some (c # cs, s'') }"

text \<open>The abstract run: a list of queued samples and nothing else.\<close>

fun fifo_spec :: "nat \<Rightarrow> nat \<Rightarrow> 'a \<Rightarrow> 'a audio_event list \<Rightarrow> 'a list \<Rightarrow> 'a list list \<times> 'a list" where
  "fifo_spec cap g z [] q = ([], q)"
| "fifo_spec cap g z (Submit xs # es) q =
     fifo_spec cap g z es (if length q + length xs \<le> cap then q @ xs else q)"
| "fifo_spec cap g z (Chunk # es) q =
     (let (cs, q') = fifo_spec cap g z es (drop g q)
      in ((take g q @ replicate (g - length q) z) # cs, q'))"

locale bounded_fifo =
  fixes put :: "'a list \<Rightarrow> 's \<Rightarrow> 's option"
    and get :: "'s \<Rightarrow> ('a list \<times> 's) option"
    and inv :: "'s \<Rightarrow> bool"
    and items :: "'s \<Rightarrow> 'a list"
    and valid :: "'a list \<Rightarrow> bool"
    and capacity :: nat
    and grain :: nat
    and silence :: 'a
  assumes put_accept: "inv s \<Longrightarrow> valid xs \<Longrightarrow> length (items s) + length xs \<le> capacity \<Longrightarrow>
      \<exists>s'. put xs s = Some s' \<and> inv s' \<and> items s' = items s @ xs"
    and put_drop: "inv s \<Longrightarrow> valid xs \<Longrightarrow> length (items s) + length xs > capacity \<Longrightarrow>
      \<exists>s'. put xs s = Some s' \<and> inv s' \<and> items s' = items s"
    and get_chunk: "inv s \<Longrightarrow> \<exists>s'. get s =
      Some (take grain (items s) @ replicate (grain - length (items s)) silence, s') \<and>
      inv s' \<and> items s' = drop grain (items s)"
begin

lemma run_refines_spec:
  assumes "inv s" and "\<And>xs. Submit xs \<in> set es \<Longrightarrow> valid xs"
  shows "\<exists>s'. fifo_run put get es s = Some (fst (fifo_spec capacity grain silence es (items s)), s') \<and>
           inv s' \<and> items s' = snd (fifo_spec capacity grain silence es (items s))"
  using assms
proof (induction es arbitrary: s)
  case Nil
  then show ?case by simp
next
  case (Cons e es)
  note valid = Cons.prems(2)
  have IH: "\<exists>s'. fifo_run put get es s1 =
        Some (fst (fifo_spec capacity grain silence es (items s1)), s') \<and> inv s' \<and>
        items s' = snd (fifo_spec capacity grain silence es (items s1))" if "inv s1" for s1
    using Cons.IH [OF that] valid by auto
  show ?case
  proof (cases e)
    case (Submit xs)
    then have v: "valid xs" using valid by simp
    obtain s1 where s1: "put xs s = Some s1" "inv s1"
      "items s1 = (if length (items s) + length xs \<le> capacity then items s @ xs else items s)"
      using put_accept [OF Cons.prems(1) v] put_drop [OF Cons.prems(1) v] by (metis not_le)
    show ?thesis using IH [OF s1(2)] by (simp add: Submit s1)
  next
    case Chunk
    obtain s1 where s1: "get s =
        Some (take grain (items s) @ replicate (grain - length (items s)) silence, s1)" "inv s1"
        "items s1 = drop grain (items s)"
      using get_chunk [OF Cons.prems(1)] by blast
    show ?thesis using IH [OF s1(2)] by (auto simp: Chunk s1 split_beta)
  qed
qed

end


text \<open>
  The interpretation: a submit of the list \<open>xs\<close> is the hook called with \<open>count = length xs\<close> on a
  buffer holding \<open>xs\<close>; the output thread always passes its 2048-short chunk.
\<close>

definition submit :: "i16 list \<Rightarrow> ring \<Rightarrow> ring option" where
  "submit xs st = map_option snd (SubmitAudio_hook (of_nat (length xs)) (Some xs) st)"

definition next_chunk :: "ring \<Rightarrow> (i16 list \<times> ring) option" where
  "next_chunk st = ring_read_chunk (replicate 2048 0) st"

definition submit_ok :: "i16 list \<Rightarrow> bool" where
  "submit_ok xs \<longleftrightarrow> length xs < 2 ^ 31"

lemma submit_eq:
  assumes "submit_ok xs"
  shows "submit xs st = (if xs = [] then Some st else ring_write xs (of_nat (length xs)) st)"
  using assms by (cases xs)
    (simp_all add: submit_def submit_ok_def SubmitAudio_hook_def sint_of_nat32
      option.map_comp comp_def option.map_ident del: of_nat_Suc)

interpretation audio: bounded_fifo submit next_chunk ring_inv queued submit_ok 65536 2048 0
proof (unfold_locales, goal_cases)
  case (1 s xs)
  then have "unat (of_nat (length xs) :: u32) = length xs" by (simp add: unat_of_nat)
  with 1 show ?case using ring_write_accepts [of s "of_nat (length xs)" xs]
    by (auto simp: submit_eq)
next
  case (2 s xs)
  then have len: "unat (of_nat (length xs) :: u32) = length xs"
    by (simp add: submit_ok_def unat_of_nat)
  then have "ring_write xs (of_nat (length xs)) s = Some (s\<lparr>s_drops := s_drops s + 1\<rparr>)"
    using 2 by (intro ring_write_drop) simp_all
  moreover have "queued (s\<lparr>s_drops := s_drops s + 1\<rparr>) = queued s"
    by (simp add: queued_def ring_cell_def)
  ultimately show ?case using 2 by (auto simp: submit_eq ring_inv_def)
next
  case (3 s)
  then show ?case using ring_read_chunk_takes [of s "replicate 2048 0"] by (auto simp: next_chunk_def)
qed

text \<open>
  C1: the audio bridge is a lossy bounded queue.  Any sequence of game submits and output-thread
  chunk reads, from any ring state that satisfies the invariant, runs without an out-of-bounds copy
  and produces exactly the chunks of the abstract queue of capacity 65536: whole submits are
  accepted or dropped, samples come out in order, an underrun is padded with silence.
\<close>

theorem audio_run_refines_queue:
  assumes "ring_inv st" and "\<And>xs. Submit xs \<in> set es \<Longrightarrow> submit_ok xs"
  shows "\<exists>st'. fifo_run submit next_chunk es st =
             Some (fst (fifo_spec 65536 2048 0 es (queued st)), st') \<and>
           ring_inv st' \<and> queued st' = snd (fifo_spec 65536 2048 0 es (queued st))"
  using assms by (rule audio.run_refines_spec)

theorem audio_run_refines_queue_witness:
  "\<exists>st'. fifo_run submit next_chunk [Submit [7, 8], Chunk] ring_init = Some ([7 # 8 # replicate 2046 0], st')"
proof -
  have "\<exists>st'. fifo_run submit next_chunk [Submit [7, 8], Chunk] ring_init =
             Some (fst (fifo_spec 65536 2048 0 [Submit [7, 8], Chunk] (queued ring_init)), st') \<and>
           ring_inv st' \<and> queued st' = snd (fifo_spec 65536 2048 0 [Submit [7, 8], Chunk] (queued ring_init))"
    by (rule audio_run_refines_queue) (auto simp: ring_inv_init submit_ok_def)
  then show ?thesis by (auto simp: queued_init)
qed

end
