(* ===== verification/Audio_Threads.thy ===== *)
theory Audio_Threads
  imports Audio_Ring "HOL-Library.Sublist"
begin

text \<open>
  The two threads of the audio bridge, interleaved.  A step is one atomic load or store of a cursor
  (the \<open>__atomic\<close> builtins of \<open>loader/audio.c\<close>) or the copy of one short by a \<open>memcpy\<close>; \<open>memcpy\<close> may
  copy its cells in any order, so the copy steps carry the set of cells already copied.  The steps
  are sequentially consistent: the acquire loads and release stores of the source order the cell
  copies against the cursors exactly as these runs do.

  \<open>sent\<close> and \<open>played\<close> are ghost histories: every sample published by the producer, and every sample
  consumed (silence padding left out).
\<close>

section \<open>The threads as a step relation\<close>

datatype producer =
    PIdle
  | PLoadedW "i16 list" u32
  | PLoadedR "i16 list" u32 u32
  | PCopying "i16 list" u32 "nat set"

datatype consumer =
    CIdle
  | CLoadedR u32
  | CLoadedW u32 u32
  | CCopying u32 nat "nat set" "i16 list"

record bridge =
  mem :: ring
  prod :: producer
  cons :: consumer
  sent :: "i16 list"
  played :: "i16 list"
  chunks :: "i16 list list"

definition bridge_init :: bridge where
  "bridge_init = \<lparr>mem = ring_init, prod = PIdle, cons = CIdle, sent = [], played = [], chunks = []\<rparr>"

inductive bridge_step :: "bridge \<Rightarrow> bridge \<Rightarrow> bool" where
  p_call: "prod b = PIdle \<Longrightarrow> submit_ok xs \<Longrightarrow> xs \<noteq> [] \<Longrightarrow>
     bridge_step b (b\<lparr>prod := PLoadedW xs (s_w (mem b))\<rparr>)"
| p_load_r: "prod b = PLoadedW xs w \<Longrightarrow>
     bridge_step b (b\<lparr>prod := PLoadedR xs w (s_r (mem b))\<rparr>)"
| p_drop: "prod b = PLoadedR xs w r \<Longrightarrow> of_nat (length xs) > RING_SHORTS - (w - r) \<Longrightarrow>
     bridge_step b (b\<lparr>prod := PIdle, mem := (mem b)\<lparr>s_drops := s_drops (mem b) + 1\<rparr>\<rparr>)"
| p_fits: "prod b = PLoadedR xs w r \<Longrightarrow> \<not> of_nat (length xs) > RING_SHORTS - (w - r) \<Longrightarrow>
     bridge_step b (b\<lparr>prod := PCopying xs w {}\<rparr>)"
| p_copy: "prod b = PCopying xs w D \<Longrightarrow> k < length xs \<Longrightarrow> k \<notin> D \<Longrightarrow>
     bridge_step b (b\<lparr>prod := PCopying xs w (insert k D),
       mem := (mem b)\<lparr>s_ring := (s_ring (mem b))[unat ((w + of_nat k) AND RING_MASK) := xs ! k]\<rparr>\<rparr>)"
| p_publish: "prod b = PCopying xs w D \<Longrightarrow> D = {..<length xs} \<Longrightarrow>
     bridge_step b (b\<lparr>prod := PIdle, mem := (mem b)\<lparr>s_w := w + of_nat (length xs)\<rparr>,
       sent := sent b @ xs\<rparr>)"
| c_start: "cons b = CIdle \<Longrightarrow>
     bridge_step b (b\<lparr>cons := CLoadedR (s_r (mem b))\<rparr>)"
| c_load_w: "cons b = CLoadedR r \<Longrightarrow>
     bridge_step b (b\<lparr>cons := CLoadedW r (s_w (mem b))\<rparr>)"
| c_take: "cons b = CLoadedW r w \<Longrightarrow> length dst = 2048 \<Longrightarrow>
     t = unat (if w - r < CHUNK_SHORTS then w - r else CHUNK_SHORTS) \<Longrightarrow>
     bridge_step b (b\<lparr>cons := CCopying r t {} dst\<rparr>)"
| c_copy: "cons b = CCopying r t E dst \<Longrightarrow> k < t \<Longrightarrow> k \<notin> E \<Longrightarrow>
     bridge_step b (b\<lparr>cons := CCopying r t (insert k E)
       (dst[k := s_ring (mem b) ! unat ((r + of_nat k) AND RING_MASK)])\<rparr>)"
| c_publish: "cons b = CCopying r t E dst \<Longrightarrow> E = {..<t} \<Longrightarrow>
     bridge_step b (b\<lparr>cons := CIdle, mem := (mem b)\<lparr>s_r := r + of_nat t\<rparr>,
       played := played b @ take t dst,
       chunks := chunks b @ [take t dst @ replicate (2048 - t) 0]\<rparr>)"

inductive bridge_reachable :: "bridge \<Rightarrow> bool" where
  start: "bridge_reachable bridge_init"
| step: "bridge_reachable b \<Longrightarrow> bridge_step b b' \<Longrightarrow> bridge_reachable b'"

section \<open>The invariant\<close>

definition cursors_ok :: "bridge \<Rightarrow> bool" where
  "cursors_ok b \<longleftrightarrow>
     length (s_ring (mem b)) = 65536 \<and>
     s_w (mem b) = of_nat (length (sent b)) \<and> s_r (mem b) = of_nat (length (played b)) \<and>
     length (played b) \<le> length (sent b) \<and> length (sent b) \<le> length (played b) + 65536"

definition cells_ok :: "bridge \<Rightarrow> bool" where
  "cells_ok b \<longleftrightarrow>
     (\<forall>p. length (played b) \<le> p \<longrightarrow> p < length (sent b) \<longrightarrow> s_ring (mem b) ! (p mod 65536) = sent b ! p) \<and>
     played b = take (length (played b)) (sent b)"

definition prod_ok :: "bridge \<Rightarrow> bool" where
  "prod_ok b \<longleftrightarrow> (case prod b of
      PIdle \<Rightarrow> True
    | PLoadedW xs w \<Rightarrow> submit_ok xs \<and> w = of_nat (length (sent b))
    | PLoadedR xs w r \<Rightarrow> submit_ok xs \<and> w = of_nat (length (sent b)) \<and>
        (\<exists>R. r = of_nat R \<and> R \<le> length (played b) \<and> length (sent b) \<le> R + 65536)
    | PCopying xs w D \<Rightarrow> submit_ok xs \<and> w = of_nat (length (sent b)) \<and>
        length (sent b) + length xs \<le> length (played b) + 65536 \<and>
        (\<forall>k\<in>D. k < length xs \<and> s_ring (mem b) ! ((length (sent b) + k) mod 65536) = xs ! k))"

definition cons_ok :: "bridge \<Rightarrow> bool" where
  "cons_ok b \<longleftrightarrow> (case cons b of
      CIdle \<Rightarrow> True
    | CLoadedR r \<Rightarrow> r = of_nat (length (played b))
    | CLoadedW r w \<Rightarrow> r = of_nat (length (played b)) \<and>
        (\<exists>W. w = of_nat W \<and> length (played b) \<le> W \<and> W \<le> length (sent b))
    | CCopying r t E dst \<Rightarrow> r = of_nat (length (played b)) \<and> length dst = 2048 \<and> t \<le> 2048 \<and>
        length (played b) + t \<le> length (sent b) \<and>
        (\<forall>k\<in>E. k < t \<and> dst ! k = sent b ! (length (played b) + k)))"

definition bridge_inv :: "bridge \<Rightarrow> bool" where
  "bridge_inv b \<longleftrightarrow> cursors_ok b \<and> cells_ok b \<and> prod_ok b \<and> cons_ok b \<and>
     list_all (\<lambda>c. length c = 2048) (chunks b)"

lemmas bridge_defs = cursors_ok_def cells_ok_def prod_ok_def cons_ok_def

lemma unat_of_nat32_mod: "unat (of_nat n :: u32) mod 65536 = n mod 65536"
  by (simp add: unat_of_nat mod_mod_cancel)

lemma cursor_index [word_to_nat]:
  "unat ((of_nat p + of_nat k :: u32) AND RING_MASK) = (p + k) mod 65536"
  using unat_of_nat32_mod [of "p + k"] by (simp add: ring_index)

lemma free_shorts_fit:
  assumes "R \<le> W" "W \<le> R + 65536" "n < 2 ^ 32"
  shows "(of_nat n > RING_SHORTS - (of_nat W - of_nat R :: u32)) = (n > R + 65536 - W)"
proof -
  have d: "unat (of_nat W - of_nat R :: u32) = W - R" using assms by (simp add: unat_of_nat32_diff)
  then have "unat (RING_SHORTS - (of_nat W - of_nat R)) = R + 65536 - W"
    using assms by (simp add: unat_free_shorts)
  then show ?thesis using assms(3) by (simp add: word_less_nat_alt unat_of_nat)
qed

lemma chunk_take:
  assumes "R \<le> W" "W \<le> R + 65536"
  shows "unat (if of_nat W - of_nat R < CHUNK_SHORTS then of_nat W - of_nat R else CHUNK_SHORTS :: u32)
    = min 2048 (W - R)"
proof -
  have d: "unat (of_nat W - of_nat R :: u32) = W - R" using assms by (simp add: unat_of_nat32_diff)
  then show ?thesis by (auto simp: word_less_nat_alt d)
qed

lemma bridge_inv_init: "bridge_inv bridge_init"
  by (simp add: bridge_inv_def bridge_defs bridge_init_def ring_init_def)

text \<open>Frame facts: a step of one thread leaves the other thread's part of the invariant alone.\<close>

lemma bridge_frames [simp]:
  "cursors_ok (b\<lparr>prod := p\<rparr>) = cursors_ok b" "cells_ok (b\<lparr>prod := p\<rparr>) = cells_ok b"
  "cons_ok (b\<lparr>prod := p\<rparr>) = cons_ok b"
  "cursors_ok (b\<lparr>cons := c\<rparr>) = cursors_ok b" "cells_ok (b\<lparr>cons := c\<rparr>) = cells_ok b"
  "prod_ok (b\<lparr>cons := c\<rparr>) = prod_ok b"
  by (simp_all add: bridge_defs cong: consumer.case_cong producer.case_cong)

lemma cell_other:
  assumes "p \<le> q" "q < p + (65536::nat)" "p \<noteq> q"
  shows "xs[q mod 65536 := x] ! (p mod 65536) = xs ! (p mod 65536)"
    and "xs[p mod 65536 := x] ! (q mod 65536) = xs ! (q mod 65536)"
  using assms mod_index_inj [of p q 65536] by (metis nth_list_update_neq)+

section \<open>Every step keeps the invariant\<close>

text \<open>The producer's steps first: its cell writes stay clear of the published cells.\<close>

lemma p_copy_inv:
  assumes inv: "bridge_inv b" and pc: "prod b = PCopying xs w D" and k: "k < length xs" "k \<notin> D"
  shows "bridge_inv (b\<lparr>prod := PCopying xs w (insert k D),
       mem := (mem b)\<lparr>s_ring := (s_ring (mem b))[unat ((w + of_nat k) AND RING_MASK) := xs ! k]\<rparr>\<rparr>)"
    (is "bridge_inv ?b")
proof -
  let ?S = "length (sent b)" and ?P = "length (played b)" and ?B = "s_ring (mem b)"
  have facts: "length ?B = 65536" "w = of_nat ?S" "?S + length xs \<le> ?P + 65536" "?P \<le> ?S"
    "submit_ok xs" "\<forall>k\<in>D. k < length xs \<and> ?B ! ((?S + k) mod 65536) = xs ! k"
    using inv pc by (auto simp: bridge_inv_def bridge_defs)
  have idx: "unat ((w + of_nat k) AND RING_MASK) = (?S + k) mod 65536"
    using facts(2) by (simp only: cursor_index)
  have new: "s_ring (mem ?b) = ?B[(?S + k) mod 65536 := xs ! k]" by (simp add: idx)
  have pub: "s_ring (mem ?b) ! (p mod 65536) = ?B ! (p mod 65536)" if "?P \<le> p" "p < ?S" for p
    unfolding new using that facts k by (intro cell_other(1)) auto
  have "prod_ok ?b"
  proof -
    have "s_ring (mem ?b) ! ((?S + j) mod 65536) = xs ! j" if j: "j \<in> insert k D" for j
    proof (cases "j = k")
      case True
      then show ?thesis unfolding new using facts(1) by simp
    next
      case False
      then have jD: "j \<in> D" and jlt: "j < length xs" using j facts(6) by auto
      have "?B[(?S + k) mod 65536 := xs ! k] ! ((?S + j) mod 65536) = ?B ! ((?S + j) mod 65536)"
      proof (cases "j < k")
        case True
        then show ?thesis using facts k by (intro cell_other(1)) auto
      next
        case jk: False
        then show ?thesis using facts jlt False by (intro cell_other(2)) auto
      qed
      then show ?thesis unfolding new using facts(6) jD by simp
    qed
    then show ?thesis using facts k by (auto simp: prod_ok_def)
  qed
  moreover have "cells_ok ?b" using inv pub by (simp add: bridge_inv_def cells_ok_def)
  moreover have "cursors_ok ?b" "cons_ok ?b" "list_all (\<lambda>c. length c = 2048) (chunks ?b)"
    using inv by (simp_all add: bridge_inv_def cursors_ok_def cons_ok_def cong: consumer.case_cong)
  ultimately show ?thesis by (simp only: bridge_inv_def simp_thms)
qed

lemma p_publish_inv:
  assumes inv: "bridge_inv b" and pc: "prod b = PCopying xs w {..<length xs}"
  shows "bridge_inv (b\<lparr>prod := PIdle, mem := (mem b)\<lparr>s_w := w + of_nat (length xs)\<rparr>,
       sent := sent b @ xs\<rparr>)" (is "bridge_inv ?b")
proof -
  let ?S = "length (sent b)" and ?P = "length (played b)" and ?B = "s_ring (mem b)"
  have facts: "w = of_nat ?S" "?S + length xs \<le> ?P + 65536" "?P \<le> ?S"
    "\<forall>k<length xs. ?B ! ((?S + k) mod 65536) = xs ! k"
    using inv pc by (auto simp: bridge_inv_def bridge_defs)
  have "?B ! (p mod 65536) = (sent b @ xs) ! p" if "?P \<le> p" "p < ?S + length xs" for p
  proof (cases "p < ?S")
    case True
    then show ?thesis using inv that by (simp add: bridge_inv_def cells_ok_def nth_append)
  next
    case False
    then have "p - ?S < length xs" "?S + (p - ?S) = p" using that by simp_all
    then show ?thesis using facts(4) False by (metis nth_append)
  qed
  then have "cells_ok ?b" using inv facts(3) by (simp add: bridge_inv_def cells_ok_def)
  moreover have "cursors_ok ?b" using inv facts by (simp add: bridge_inv_def cursors_ok_def)
  moreover have "cons_ok ?b"
    using inv facts(3) by (auto simp: bridge_inv_def cons_ok_def nth_append split: consumer.splits)
  ultimately show ?thesis using inv by (simp add: bridge_inv_def prod_ok_def)
qed

lemma c_copy_inv:
  assumes inv: "bridge_inv b" and pc: "cons b = CCopying r t E dst" and k: "k < t" "k \<notin> E"
  shows "bridge_inv (b\<lparr>cons := CCopying r t (insert k E)
       (dst[k := s_ring (mem b) ! unat ((r + of_nat k) AND RING_MASK)])\<rparr>)" (is "bridge_inv ?b")
proof -
  let ?S = "length (sent b)" and ?P = "length (played b)"
  have facts: "r = of_nat ?P" "length dst = 2048" "t \<le> 2048" "?P + t \<le> ?S"
    "\<forall>k\<in>E. k < t \<and> dst ! k = sent b ! (?P + k)"
    using inv pc by (auto simp: bridge_inv_def bridge_defs)
  have "s_ring (mem b) ! ((?P + k) mod 65536) = sent b ! (?P + k)"
    using inv facts k by (simp add: bridge_inv_def cells_ok_def)
  then have "cons_ok ?b" using facts k by (auto simp: cons_ok_def cursor_index nth_list_update)
  then show ?thesis using inv
    by (simp add: bridge_inv_def cursors_ok_def cells_ok_def prod_ok_def cong: producer.case_cong)
qed

lemma c_publish_inv:
  assumes inv: "bridge_inv b" and pc: "cons b = CCopying r t {..<t} dst"
  shows "bridge_inv (b\<lparr>cons := CIdle, mem := (mem b)\<lparr>s_r := r + of_nat t\<rparr>,
       played := played b @ take t dst,
       chunks := chunks b @ [take t dst @ replicate (2048 - t) 0]\<rparr>)" (is "bridge_inv ?b")
proof -
  let ?S = "length (sent b)" and ?P = "length (played b)"
  have facts: "r = of_nat ?P" "length dst = 2048" "t \<le> 2048" "?P + t \<le> ?S"
    "\<forall>k<t. dst ! k = sent b ! (?P + k)"
    using inv pc by (auto simp: bridge_inv_def bridge_defs)
  have lt: "length (take t dst) = t" using facts by simp
  have new: "take t dst = take t (drop ?P (sent b))"
    using facts by (auto simp: list_eq_iff_nth_eq)
  have "played b @ take t dst = take (?P + t) (sent b)"
    using inv by (simp add: new take_add bridge_inv_def cells_ok_def)
  then have "cells_ok ?b" using inv lt facts(4)
    by (simp add: bridge_inv_def cells_ok_def min.absorb2)
  moreover have "cursors_ok ?b" using inv facts lt by (simp add: bridge_inv_def cursors_ok_def)
  moreover have "prod_ok ?b"
    using inv lt by (auto simp: bridge_inv_def prod_ok_def split: producer.splits intro: le_trans)
  ultimately show ?thesis using inv facts lt by (simp add: bridge_inv_def cons_ok_def)
qed

lemma bridge_step_inv:
  assumes "bridge_step b b'" "bridge_inv b"
  shows "bridge_inv b'"
  using assms
proof (induction rule: bridge_step.induct)
  case (p_fits b xs w r)
  then obtain R where R: "r = of_nat R" "R \<le> length (played b)" "length (sent b) \<le> R + 65536"
    and w: "w = of_nat (length (sent b))" and xs: "submit_ok xs"
    by (auto simp: bridge_inv_def prod_ok_def)
  have "R \<le> length (sent b)" using R p_fits.prems by (auto simp: bridge_inv_def cursors_ok_def)
  then have "\<not> length xs > R + 65536 - length (sent b)"
    using p_fits.hyps(2) R w xs free_shorts_fit [of R "length (sent b)" "length xs"]
    by (simp add: submit_ok_def)
  then have "length (sent b) + length xs \<le> length (played b) + 65536" using R by simp
  then show ?case using p_fits.prems w xs by (simp add: bridge_inv_def prod_ok_def)
next
  case (p_copy b xs w D k)
  show ?case by (rule p_copy_inv [OF p_copy.prems p_copy.hyps])
next
  case (p_publish b xs w D)
  then show ?case using p_publish_inv by blast
next
  case (c_take b r w dst t)
  then obtain W where W: "w = of_nat W" "length (played b) \<le> W" "W \<le> length (sent b)"
    and r: "r = of_nat (length (played b))"
    by (auto simp: bridge_inv_def cons_ok_def)
  have le: "W \<le> length (played b) + 65536" using W c_take.prems by (auto simp: bridge_inv_def cursors_ok_def)
  have "t = min 2048 (W - length (played b))"
    unfolding c_take.hyps(3) W(1) r by (rule chunk_take [OF W(2) le])
  then show ?case using c_take W r by (auto simp: bridge_inv_def cons_ok_def)
next
  case (c_copy b r t E dst k)
  show ?case by (rule c_copy_inv [OF c_copy.prems c_copy.hyps])
next
  case (c_publish b r t E dst)
  then show ?case using c_publish_inv by blast
qed (auto simp: bridge_inv_def bridge_defs split: producer.splits consumer.splits)

lemma bridge_reachable_inv: "bridge_reachable b \<Longrightarrow> bridge_inv b"
  by (induction rule: bridge_reachable.induct) (auto intro: bridge_inv_init bridge_step_inv)

section \<open>What holds in every interleaving\<close>

text \<open>
  C2: in every interleaving of the engine's audio thread and the output thread, at the granularity of
  single atomic accesses and single-cell copies, what has been played is a prefix of what was
  submitted and published, at most one ring of samples is in flight, and every chunk handed to the
  output port has exactly 2048 shorts.
\<close>

theorem audio_interleaving_fifo:
  assumes "bridge_reachable b"
  shows "prefix (played b) (sent b) \<and> length (sent b) \<le> length (played b) + 65536 \<and>
         (\<forall>c\<in>set (chunks b). length c = 2048)"
proof -
  have inv: "bridge_inv b" using assms by (rule bridge_reachable_inv)
  then have "played b = take (length (played b)) (sent b)"
    by (simp add: bridge_inv_def cells_ok_def)
  then have "prefix (played b) (sent b)" by (metis take_is_prefix)
  then show ?thesis using inv by (simp add: bridge_inv_def cursors_ok_def list_all_iff)
qed

text \<open>
  C4: the two threads never touch the same cell at the same time.  While the producer copies a
  submit and the consumer copies a chunk, the cells the one writes are not among the cells the other
  reads, whatever the cursors have wrapped to.
\<close>

theorem audio_no_data_race:
  assumes "bridge_reachable b"
    and "prod b = PCopying xs w D" and "cons b = CCopying r t E dst"
    and "k < length xs" and "j < t"
  shows "unat ((w + of_nat k) AND RING_MASK) \<noteq> unat ((r + of_nat j) AND RING_MASK)"
proof
  let ?S = "length (sent b)" and ?P = "length (played b)"
  assume eq: "unat ((w + of_nat k) AND RING_MASK) = unat ((r + of_nat j) AND RING_MASK)"
  have f: "w = of_nat ?S" "?S + length xs \<le> ?P + 65536" "r = of_nat ?P" "?P + t \<le> ?S"
    using bridge_reachable_inv [OF assms(1)] assms(2,3)
    by (auto simp: bridge_inv_def prod_ok_def cons_ok_def)
  have same: "(?P + j) mod 65536 = (?S + k) mod 65536"
    using eq unfolding f(1,3) cursor_index by (rule sym)
  have "?P + j \<le> ?S + k" and "?S + k < ?P + j + 65536" using f(2,4) assms(4,5) by linarith+
  from mod_index_inj [OF this same] show False using f(4) assms(5) by linarith
qed

text \<open>A run that publishes one sample, then has both threads copying at once.\<close>

lemma both_copying_reachable:
  "\<exists>b. bridge_reachable b \<and> played b = [] \<and> sent b = [5] \<and>
     prod b = PCopying [6] 1 {} \<and> cons b = CCopying 0 1 {} (replicate 2048 0)"
proof -
  define R :: "i16 list" where "R = replicate 65536 0"
  define z :: "i16 list" where "z = replicate 2048 0"
  have D: "{0} = {..<length [5 :: i16]}" by auto
  have lz: "length z = 2048" by (simp add: z_def)
  let ?st = "\<lambda>R w r p c s. \<lparr>mem = \<lparr>s_ring = R, s_w = w, s_r = r, s_drops = 0\<rparr>,
    prod = p, cons = c, sent = s, played = [], chunks = []\<rparr>"
  have "?st R 0 0 PIdle CIdle [] = bridge_init" by (simp add: bridge_init_def ring_init_def R_def)
  then have s0: "bridge_reachable (?st R 0 0 PIdle CIdle [])" by (simp add: bridge_reachable.start)
  have s1: "bridge_reachable (?st R 0 0 (PLoadedW [5] 0) CIdle [])"
    using bridge_reachable.step [OF s0 bridge_step.p_call [of "?st R 0 0 PIdle CIdle []" "[5]"]]
    by (simp add: submit_ok_def ring_consts lz)
  have s2: "bridge_reachable (?st R 0 0 (PLoadedR [5] 0 0) CIdle [])"
    using bridge_reachable.step [OF s1 bridge_step.p_load_r [of "?st R 0 0 (PLoadedW [5] 0) CIdle []" "[5]" 0]]
    by (simp add: submit_ok_def ring_consts lz)
  have s3: "bridge_reachable (?st R 0 0 (PCopying [5] 0 {}) CIdle [])"
    using bridge_reachable.step [OF s2 bridge_step.p_fits [of "?st R 0 0 (PLoadedR [5] 0 0) CIdle []" "[5]" 0 0]]
    by (simp add: submit_ok_def ring_consts lz)
  have s4: "bridge_reachable (?st (R[0 := 5]) 0 0 (PCopying [5] 0 {0}) CIdle [])"
    using bridge_reachable.step [OF s3 bridge_step.p_copy [of "?st R 0 0 (PCopying [5] 0 {}) CIdle []" "[5]" 0 "{}" 0]]
    by (simp add: submit_ok_def ring_consts lz)
  have s5: "bridge_reachable (?st (R[0 := 5]) 1 0 PIdle CIdle [5])"
    using bridge_reachable.step [OF s4 bridge_step.p_publish [of "?st (R[0 := 5]) 0 0 (PCopying [5] 0 {0}) CIdle []" "[5]" 0 "{0}", OF _ D]]
    by (simp add: submit_ok_def ring_consts lz)
  have s6: "bridge_reachable (?st (R[0 := 5]) 1 0 PIdle (CLoadedR 0) [5])"
    using bridge_reachable.step [OF s5 bridge_step.c_start [of "?st (R[0 := 5]) 1 0 PIdle CIdle [5]"]]
    by (simp add: submit_ok_def ring_consts lz)
  have s7: "bridge_reachable (?st (R[0 := 5]) 1 0 PIdle (CLoadedW 0 1) [5])"
    using bridge_reachable.step [OF s6 bridge_step.c_load_w [of "?st (R[0 := 5]) 1 0 PIdle (CLoadedR 0) [5]" 0]]
    by (simp add: submit_ok_def ring_consts lz)
  have s8: "bridge_reachable (?st (R[0 := 5]) 1 0 PIdle (CCopying 0 1 {} z) [5])"
    using bridge_reachable.step [OF s7 bridge_step.c_take [of "?st (R[0 := 5]) 1 0 PIdle (CLoadedW 0 1) [5]" 0 1 "z" 1]]
    by (simp add: submit_ok_def ring_consts lz)
  have s9: "bridge_reachable (?st (R[0 := 5]) 1 0 (PLoadedW [6] 1) (CCopying 0 1 {} z) [5])"
    using bridge_reachable.step [OF s8 bridge_step.p_call [of "?st (R[0 := 5]) 1 0 PIdle (CCopying 0 1 {} z) [5]" "[6]"]]
    by (simp add: submit_ok_def ring_consts lz)
  have s10: "bridge_reachable (?st (R[0 := 5]) 1 0 (PLoadedR [6] 1 0) (CCopying 0 1 {} z) [5])"
    using bridge_reachable.step [OF s9 bridge_step.p_load_r [of "?st (R[0 := 5]) 1 0 (PLoadedW [6] 1) (CCopying 0 1 {} z) [5]" "[6]" 1]]
    by (simp add: submit_ok_def ring_consts lz)
  have s11: "bridge_reachable (?st (R[0 := 5]) 1 0 (PCopying [6] 1 {}) (CCopying 0 1 {} z) [5])"
    using bridge_reachable.step [OF s10 bridge_step.p_fits [of "?st (R[0 := 5]) 1 0 (PLoadedR [6] 1 0) (CCopying 0 1 {} z) [5]" "[6]" 1 0]]
    by (simp add: submit_ok_def ring_consts lz)
  show ?thesis unfolding z_def [symmetric] by (rule exI, intro conjI, rule s11) simp_all
qed

theorem audio_interleaving_fifo_witness:
  "\<exists>b. bridge_reachable b \<and> sent b = [5] \<and> prefix (played b) (sent b)"
  using both_copying_reachable audio_interleaving_fifo by blast

theorem audio_no_data_race_witness:
  "\<exists>b. bridge_reachable b \<and> prod b = PCopying [6] 1 {} \<and> cons b = CCopying 0 1 {} (replicate 2048 0) \<and>
     unat ((1 + of_nat 0 :: u32) AND RING_MASK) \<noteq> unat ((0 + of_nat 0 :: u32) AND RING_MASK)"
proof -
  obtain b where b: "bridge_reachable b" "prod b = PCopying [6] 1 {}"
      "cons b = CCopying 0 1 {} (replicate 2048 0)"
    using both_copying_reachable by blast
  have "unat ((1 + of_nat 0 :: u32) AND RING_MASK) \<noteq> unat ((0 + of_nat 0 :: u32) AND RING_MASK)"
    by (rule audio_no_data_race [OF b]) simp_all
  with b show ?thesis by blast
qed

end
