(* ===== verification/Machine.thy ===== *)
theory Machine
  imports Prelude
begin

text \<open>
  The machine under the loader: a 32-bit byte memory with little-endian words, the one memory-writing
  service of the kernel the loader uses (\<open>kuKernelCpuUnrestrictedMemcpy\<close>, a parameter), and the few
  ARM (A32) instructions that the loader's hooks, trampolines and patches are made of.

  The instruction semantics follows the ARMv7-A manual: an instruction whose condition fails does
  nothing, a register read of \<open>pc\<close> gives the instruction's address plus 8, and a load into \<open>pc\<close>
  selects Thumb state by bit 0 of the loaded word.  A word outside this subset whose condition holds
  makes \<open>arm_step\<close> return \<open>None\<close>.
\<close>

section \<open>Byte memory\<close>

type_synonym memory = "u32 \<Rightarrow> u8"

definition load16 :: "memory \<Rightarrow> u32 \<Rightarrow> u16" where
  "load16 m a = ucast (m a) OR push_bit 8 (ucast (m (a + 1)))"

definition load32 :: "memory \<Rightarrow> u32 \<Rightarrow> u32" where
  "load32 m a = ucast (m a) OR push_bit 8 (ucast (m (a + 1))) OR
     push_bit 16 (ucast (m (a + 2))) OR push_bit 24 (ucast (m (a + 3)))"

definition le16 :: "u16 \<Rightarrow> u8 list" where
  "le16 v = [ucast v, ucast (drop_bit 8 v)]"

definition le32 :: "u32 \<Rightarrow> u8 list" where
  "le32 v = [ucast v, ucast (drop_bit 8 v), ucast (drop_bit 16 v), ucast (drop_bit 24 v)]"

fun write_bytes :: "memory \<Rightarrow> u32 \<Rightarrow> u8 list \<Rightarrow> memory" where
  "write_bytes m a [] = m"
| "write_bytes m a (b # bs) = write_bytes (m(a := b)) (a + 1) bs"

lemma length_le32 [simp]: "length (le32 v) = 4"
  by (simp add: le32_def)

lemma length_le16 [simp]: "length (le16 v) = 2"
  by (simp add: le16_def)

lemma no_bit8 [simp]: "8 \<le> n \<Longrightarrow> \<not> bit (x :: u8) n"
  using bit_imp_le_length [of x n] by auto

lemma load16_low: "load16 m a = ucast (load32 m a)"
  by (rule bit_word_eqI) (auto simp: load32_def load16_def bit_simps)

lemma load16_high: "load16 m (a + 2) = ucast (drop_bit 16 (load32 m a))"
  by (rule bit_word_eqI) (auto simp: load32_def load16_def bit_simps add.assoc)

lemma add_numerals [simp]: "(x :: u32) + numeral v + numeral w = x + numeral (v + w)"
  by (simp only: add.assoc numeral_plus_numeral)

lemma unat_minus_1 [simp]: "unat (- 1 :: u32) = 4294967295"
  by (simp only: unsigned_minus_1_eq_mask mask_eq_exp_minus_1) simp

lemma unat_minus_one_step:
  fixes x a :: u32
  assumes "x \<noteq> a"
  shows "unat (x - (a + 1)) = unat (x - a) - 1"
proof -
  have ne: "x - a \<noteq> 0" using assms by simp
  have "x - (a + 1) = (x - a) - 1" by simp
  moreover have "(1 :: u32) \<le> x - a" using ne by (simp only: word_le_nat_alt unat_1) (metis One_nat_def Suc_leI neq0_conv unat_eq_0)
  then have "unat ((x - a) - 1) = unat (x - a) - unat (1 :: u32)" by (rule unat_sub)
  ultimately show ?thesis by (simp only: unat_1)
qed

lemma write_bytes_apply:
  assumes "length bs \<le> 2 ^ 32"
  shows "write_bytes m a bs x = (if unat (x - a) < length bs then bs ! unat (x - a) else m x)"
  using assms
proof (induction bs arbitrary: m a)
  case Nil
  then show ?case by simp
next
  case (Cons b bs)
  show ?case
  proof (cases "x = a")
    case True
    have "a - (a + 1) = (- 1 :: u32)" by simp
    then have "unat (a - (a + 1)) = 2 ^ 32 - 1" by simp
    then show ?thesis using Cons True by simp
  next
    case False
    then have "unat (x - a) \<noteq> 0" by (simp add: unat_eq_0)
    then obtain k where "unat (x - a) = Suc k" by (meson not0_implies_Suc)
    then show ?thesis using Cons False by (simp add: unat_minus_one_step)
  qed
qed

definition read_bytes :: "memory \<Rightarrow> u32 \<Rightarrow> nat \<Rightarrow> u8 list" where
  "read_bytes m a n = map (\<lambda>i. m (a + of_nat i)) [0..<n]"

lemma length_read_bytes [simp]: "length (read_bytes m a n) = n"
  by (simp add: read_bytes_def)

lemma nth_read_bytes [simp]: "i < n \<Longrightarrow> read_bytes m a n ! i = m (a + of_nat i)"
  by (simp add: read_bytes_def)

lemma read_write_bytes:
  assumes "length bs \<le> 2 ^ 32"
  shows "read_bytes (write_bytes m a bs) a (length bs) = bs"
proof (rule nth_equalityI)
  fix i
  assume "i < length (read_bytes (write_bytes m a bs) a (length bs))"
  then have "i < length bs" by simp
  moreover from this assms have "unat (of_nat i :: u32) = i" by (simp add: unat_of_nat)
  ultimately show "read_bytes (write_bytes m a bs) a (length bs) ! i = bs ! i"
    using assms by (simp add: write_bytes_apply)
qed simp

lemma unat_of_nat32_diff_less:
  assumes "i < k" "k < 2 ^ 32"
  shows "unat ((of_nat i :: u32) - of_nat k) = 2 ^ 32 + i - k"
proof -
  have "(of_nat (2 ^ 32) :: u32) = 0" by simp
  then have "(of_nat i :: u32) - of_nat k = of_nat (2 ^ 32 + i) - of_nat k" by (simp only: of_nat_add add_0)
  then show ?thesis using assms by (simp only: unat_of_nat32_diff)
qed

lemma read_bytes_write:
  assumes "k + length bs \<le> n" "n < 2 ^ 32"
  shows "read_bytes (write_bytes m (a + of_nat k) bs) a n = blit (read_bytes m a n) k bs"
proof (rule nth_equalityI)
  fix i
  assume "i < length (read_bytes (write_bytes m (a + of_nat k) bs) a n)"
  then have i: "i < n" by simp
  have d: "a + of_nat i - (a + of_nat k) = (of_nat i :: u32) - of_nat k" by simp
  have "unat (a + of_nat i - (a + of_nat k)) = (if k \<le> i then i - k else 2 ^ 32 + i - k)"
    unfolding d using assms i by (cases "k \<le> i") (simp_all add: unat_of_nat32_diff unat_of_nat32_diff_less del: of_nat_diff)
  then show "read_bytes (write_bytes m (a + of_nat k) bs) a n ! i = blit (read_bytes m a n) k bs ! i"
    using assms i by (auto simp: write_bytes_apply nth_blit)
qed (use assms in simp)

lemma load32_le32:
  assumes "m a = le32 v ! 0" "m (a + 1) = le32 v ! 1" "m (a + 2) = le32 v ! 2" "m (a + 3) = le32 v ! 3"
  shows "load32 m a = v"
proof -
  have "load32 m a = ucast (ucast v :: u8) OR push_bit 8 (ucast (ucast (drop_bit 8 v) :: u8)) OR
     push_bit 16 (ucast (ucast (drop_bit 16 v) :: u8)) OR push_bit 24 (ucast (ucast (drop_bit 24 v) :: u8))"
    using assms by (simp add: load32_def le32_def)
  also have "\<dots> = v"
    by (rule bit_word_eqI) (auto simp: bit_or_iff bit_push_bit_iff bit_ucast_iff bit_drop_bit_eq not_less
        intro: ccontr)
  finally show ?thesis .
qed


lemma unat_le_add_offset:
  fixes x a :: u32
  assumes "unat (x - a) + k < 2 ^ 32"
  shows "unat (x + of_nat k - a) = unat (x - a) + k"
proof -
  have "x + of_nat k - a = (x - a) + of_nat k" by simp
  moreover have "unat ((x - a) + of_nat k) = unat (x - a) + unat (of_nat k :: u32)"
    using assms by (intro unat_add_lem [THEN iffD1]) (simp add: unat_of_nat)
  moreover have "unat (of_nat k :: u32) = k" using assms by (simp add: unat_of_nat)
  ultimately show ?thesis by (simp only:)
qed

section \<open>The kernel's memory-writing service\<close>

text \<open>
  \<open>kuKernelCpuUnrestrictedMemcpy(dst, src, n)\<close> of the kubridge plugin is a \<open>memcpy\<close> that ignores page
  permissions: it writes the \<open>n\<close> source bytes from \<open>dst\<close> on, and nothing else.  The operations of the
  loader take it as the parameter \<open>ku\<close>; \<open>ku_memcpy_law\<close> is the one thing they rely on.
\<close>

type_synonym ku_memcpy = "memory \<Rightarrow> u32 \<Rightarrow> u8 list \<Rightarrow> memory"

definition ku_memcpy_law :: "ku_memcpy \<Rightarrow> bool" where
  "ku_memcpy_law ku \<longleftrightarrow>
     (\<forall>m a bs x. length bs < 2 ^ 32 \<longrightarrow>
        ku m a bs x = (if unat (x - a) < length bs then bs ! unat (x - a) else m x))"

lemma write_bytes_law: "ku_memcpy_law write_bytes"
  by (simp add: ku_memcpy_law_def write_bytes_apply)

definition words :: "u32 list \<Rightarrow> u8 list" where
  "words ws = concat (map le32 ws)"

lemma words_simps [simp]:
  "words [] = []"
  "words (w # ws) = le32 w @ words ws"
  by (simp_all add: words_def)

lemma length_words [simp]: "length (words ws) = 4 * length ws"
  by (induction ws) simp_all

lemma nth_words:
  "i < length ws \<Longrightarrow> j < 4 \<Longrightarrow> words ws ! (4 * i + j) = le32 (ws ! i) ! j"
proof (induction ws arbitrary: i)
  case Nil
  then show ?case by simp
next
  case (Cons w ws)
  then show ?case by (cases i) (auto simp: nth_append)
qed

text \<open>\<open>words_at m a ws\<close>: the words \<open>ws\<close> lie in memory from \<open>a\<close> on.\<close>

definition words_at :: "memory \<Rightarrow> u32 \<Rightarrow> u32 list \<Rightarrow> bool" where
  "words_at m a ws \<longleftrightarrow> map (\<lambda>i. load32 m (a + of_nat (4 * i))) [0..<length ws] = ws"

lemma words_at_Nil [simp]: "words_at m a []"
  by (simp add: words_at_def)

lemma words_at_Cons [simp]:
  "words_at m a (w # ws) \<longleftrightarrow> load32 m a = w \<and> words_at m (a + 4) ws"
proof -
  have "map (\<lambda>i. load32 m (a + of_nat (4 * i))) [0..<length (w # ws)] =
    load32 m a # map (\<lambda>i. load32 m (a + of_nat (4 * Suc i))) [0..<length ws]"
    by (simp add: upt_conv_Cons map_Suc_upt [symmetric] o_def del: upt_Suc)
  then show ?thesis by (simp add: words_at_def algebra_simps)
qed

text \<open>Two memories that agree on the \<open>n\<close> bytes from \<open>a\<close> on.\<close>

definition same_bytes :: "memory \<Rightarrow> memory \<Rightarrow> u32 \<Rightarrow> nat \<Rightarrow> bool" where
  "same_bytes m m' a n \<longleftrightarrow> list_all (\<lambda>i. m (a + of_nat i) = m' (a + of_nat i)) [0..<n]"

lemma same_bytes_refl [simp]: "same_bytes m m a n"
  by (simp add: same_bytes_def list_all_iff)

lemma same_bytes_trans: "same_bytes m m' a n \<Longrightarrow> same_bytes m' m'' a n \<Longrightarrow> same_bytes m m'' a n"
  by (simp add: same_bytes_def list_all_iff)

lemma same_bytesD: "same_bytes m m' a n \<Longrightarrow> i < n \<Longrightarrow> m (a + of_nat i) = m' (a + of_nat i)"
  by (simp add: same_bytes_def list_all_iff)

lemma same_bytes_load32:
  assumes "same_bytes m m' a n" "k + 4 \<le> n"
  shows "load32 m (a + of_nat k) = load32 m' (a + of_nat k)"
proof -
  have "m (a + of_nat (k + j)) = m' (a + of_nat (k + j))" if "j < 4" for j
    using assms that unfolding same_bytes_def list_all_iff by (simp only: set_upt) (auto simp del: of_nat_add)
  note b = this
  have "m (a + of_nat k) = m' (a + of_nat k)" using b [of 0] by simp
  moreover have "m (a + of_nat k + 1) = m' (a + of_nat k + 1)"
    using b [of 1] by (simp only: of_nat_add of_nat_1 add.assoc, simp?)
  moreover have "m (a + of_nat k + 2) = m' (a + of_nat k + 2)"
    using b [of 2] by (simp only: of_nat_add of_nat_numeral add.assoc, simp?)
  moreover have "m (a + of_nat k + 3) = m' (a + of_nat k + 3)"
    using b [of 3] by (simp only: of_nat_add of_nat_numeral add.assoc, simp?)
  ultimately show ?thesis by (simp only: load32_def)
qed

lemma same_bytes_words:
  assumes "same_bytes m m' a (4 * length ws)" "words_at m' a ws"
  shows "words_at m a ws"
proof -
  have "load32 m (a + of_nat (4 * i)) = load32 m' (a + of_nat (4 * i))" if "i < length ws" for i
    using assms(1) by (rule same_bytes_load32) (use that in simp)
  then have "map (\<lambda>i. load32 m (a + of_nat (4 * i))) [0..<length ws] =
    map (\<lambda>i. load32 m' (a + of_nat (4 * i))) [0..<length ws]"
    by (intro map_cong) (simp_all del: of_nat_mult)
  then show ?thesis using assms(2) by (simp only: words_at_def)
qed

locale kubridge =
  fixes ku :: ku_memcpy
  assumes law: "ku_memcpy_law ku"
begin

lemma apply_ku:
  "length bs < 2 ^ 32 \<Longrightarrow>
   ku m a bs x = (if unat (x - a) < length bs then bs ! unat (x - a) else m x)"
  using law by (simp add: ku_memcpy_law_def)

lemma load32_written:
  assumes i: "i < length ws" and b: "4 * length ws < 2 ^ 32"
  shows "load32 (ku m a (words ws)) (a + of_nat (4 * i)) = ws ! i"
proof (rule load32_le32)
  have b': "ku m a (words ws) (a + of_nat (4 * i + j)) = le32 (ws ! i) ! j" if "j < 4" for j
  proof -
    have "unat (a + of_nat (4 * i + j) - a) = 4 * i + j"
      using b i that by (simp add: unat_of_nat del: of_nat_add of_nat_mult)
    moreover have "4 * i + j < length (words ws)" using i that by simp
    moreover have "words ws ! (4 * i + j) = le32 (ws ! i) ! j" using i that by (rule nth_words)
    ultimately show ?thesis using b by (simp only: apply_ku length_words if_True)
  qed
  show "ku m a (words ws) (a + of_nat (4 * i)) = le32 (ws ! i) ! 0" using b' [of 0] by simp
  show "ku m a (words ws) (a + of_nat (4 * i) + 1) = le32 (ws ! i) ! 1" using b' [of 1] by (simp only: of_nat_add of_nat_numeral of_nat_1 add.assoc)
  show "ku m a (words ws) (a + of_nat (4 * i) + 2) = le32 (ws ! i) ! 2" using b' [of 2] by (simp only: of_nat_add of_nat_numeral of_nat_1 add.assoc)
  show "ku m a (words ws) (a + of_nat (4 * i) + 3) = le32 (ws ! i) ! 3" using b' [of 3] by (simp only: of_nat_add of_nat_numeral of_nat_1 add.assoc)
qed

lemma words_written:
  assumes "4 * length ws < 2 ^ 32"
  shows "words_at (ku m a (words ws)) a ws"
  unfolding words_at_def
  by (rule nth_equalityI) (use assms in \<open>simp_all add: load32_written del: of_nat_mult\<close>)

lemma byte_frame:
  assumes "length bs < 2 ^ 32" "length bs \<le> unat (x - a)"
  shows "ku m a bs x = m x"
  using assms by (simp add: apply_ku)

lemma load32_frame:
  assumes "length bs < 2 ^ 32" "length bs \<le> unat (x - a)" "unat (x - a) + 4 \<le> 2 ^ 32"
  shows "load32 (ku m a bs) x = load32 m x"
proof -
  have "ku m a bs (x + of_nat k) = m (x + of_nat k)" if "k < 4" for k
    using assms that by (intro byte_frame) (auto simp: unat_le_add_offset)
  from this [of 0] this [of 1] this [of 2] this [of 3] show ?thesis
    by (simp add: load32_def)
qed

lemma same_bytes_frame:
  assumes "length bs < 2 ^ 32" "length bs \<le> unat (x - a)" "unat (x - a) + n \<le> 2 ^ 32"
  shows "same_bytes (ku m a bs) m x n"
  using assms by (auto simp: same_bytes_def list_all_iff unat_le_add_offset intro!: byte_frame)

end

interpretation flat: kubridge write_bytes
  by unfold_locales (rule write_bytes_law)

end
