(* ===== verification/Arm.thy ===== *)
theory Arm
  imports Machine
begin

text \<open>
  The few ARM and Thumb instructions that the loader writes into the game's code, with the semantics
  of the ARMv7-A manual: the loader's hooks, trampolines and patches are verified by running them.

  An instruction whose condition fails does nothing; reading \<open>pc\<close> gives the instruction's address
  plus 8 (plus 4 in Thumb state); a word loaded into \<open>pc\<close> selects Thumb state by its bit 0.  A word
  outside the subset whose condition holds, and an unpredictable case, make \<open>arm_step\<close> return \<open>None\<close>.
\<close>

section \<open>State\<close>

record cpu =
  regs :: "nat \<Rightarrow> u32"
  pc :: u32
  thumb :: bool
  fN :: bool
  fZ :: bool
  fC :: bool
  fV :: bool
  mem :: memory

definition cond_holds :: "cpu \<Rightarrow> u32 \<Rightarrow> bool" where
  "cond_holds c k =
     (if k = 0 then fZ c else if k = 1 then \<not> fZ c
      else if k = 2 then fC c else if k = 3 then \<not> fC c
      else if k = 4 then fN c else if k = 5 then \<not> fN c
      else if k = 6 then fV c else if k = 7 then \<not> fV c
      else if k = 8 then fC c \<and> \<not> fZ c else if k = 9 then \<not> (fC c \<and> \<not> fZ c)
      else if k = 10 then fN c = fV c else if k = 11 then fN c \<noteq> fV c
      else if k = 12 then \<not> fZ c \<and> fN c = fV c else if k = 13 then \<not> (\<not> fZ c \<and> fN c = fV c)
      else k = 14)"

definition reg_read :: "cpu \<Rightarrow> nat \<Rightarrow> u32" where
  "reg_read c r = (if r = 15 then pc c + 8 else regs c r)"

text \<open>A branch to a word that may select Thumb state (\<open>BXWritePC\<close>).\<close>

definition bx_write_pc :: "u32 \<Rightarrow> cpu \<Rightarrow> cpu option" where
  "bx_write_pc v c =
     (if bit v 0 then Some (c\<lparr>pc := v AND NOT 1, thumb := True\<rparr>)
      else if bit v 1 then None
      else Some (c\<lparr>pc := v, thumb := False\<rparr>))"

section \<open>Instructions\<close>

definition field :: "u32 \<Rightarrow> nat \<Rightarrow> nat \<Rightarrow> u32" where
  "field w lo n = take_bit n (drop_bit lo w)"

definition reg_field :: "u32 \<Rightarrow> nat \<Rightarrow> nat" where
  "reg_field w lo = unat (field w lo 4)"

definition exec_ldr :: "u32 \<Rightarrow> cpu \<Rightarrow> cpu option" where
  "exec_ldr w c =
     (let base = reg_read c (reg_field w 16);
          imm = field w 0 12;
          a = (if bit w 23 then base + imm else base - imm);
          rt = reg_field w 12
      in if rt = 15 then (if a AND 3 \<noteq> 0 then None else bx_write_pc (load32 (mem c) a) c)
         else Some (c\<lparr>regs := (regs c)(rt := load32 (mem c) a), pc := pc c + 4\<rparr>))"

definition exec_cmp :: "u32 \<Rightarrow> cpu \<Rightarrow> cpu option" where
  "exec_cmp w c =
     (let x = reg_read c (reg_field w 16); y = field w 0 8; d = x - y
      in Some (c\<lparr>fN := bit d 31, fZ := (x = y), fC := (y \<le> x),
                fV := (bit x 31 \<noteq> bit y 31 \<and> bit d 31 \<noteq> bit x 31), pc := pc c + 4\<rparr>))"

definition exec_mov :: "u32 \<Rightarrow> cpu \<Rightarrow> cpu option" where
  "exec_mov w c =
     (let rd = reg_field w 12
      in if rd = 15 then None
         else Some (c\<lparr>regs := (regs c)(rd := field w 0 8), pc := pc c + 4\<rparr>))"

definition reg_list :: "u32 \<Rightarrow> nat list" where
  "reg_list w = filter (bit w) [0..<16]"

definition exec_push :: "u32 \<Rightarrow> cpu \<Rightarrow> cpu option" where
  "exec_push w c =
     (let rs = reg_list w; sp = regs c 13 - of_nat (4 * length rs)
      in if 13 \<in> set rs \<or> 15 \<in> set rs \<or> rs = [] then None
         else Some (c\<lparr>mem := write_bytes (mem c) sp (words (map (regs c) rs)),
                     regs := (regs c)(13 := sp), pc := pc c + 4\<rparr>))"

fun load_regs :: "memory \<Rightarrow> u32 \<Rightarrow> nat list \<Rightarrow> (nat \<Rightarrow> u32) \<Rightarrow> nat \<Rightarrow> u32" where
  "load_regs m a [] f = f"
| "load_regs m a (r # rs) f = load_regs m (a + 4) rs (f(r := load32 m a))"

definition exec_pop :: "u32 \<Rightarrow> cpu \<Rightarrow> cpu option" where
  "exec_pop w c =
     (let rs = reg_list w; sp = regs c 13
      in if 13 \<in> set rs \<or> 15 \<in> set rs \<or> rs = [] then None
         else Some (c\<lparr>regs := (load_regs (mem c) sp rs (regs c))(13 := sp + of_nat (4 * length rs)),
                     pc := pc c + 4\<rparr>))"

text \<open>\<open>B\<close>: the 24-bit offset counts words, signed, from the instruction's address plus 8.\<close>

definition branch_target :: "u32 \<Rightarrow> u32 \<Rightarrow> u32" where
  "branch_target w a = a + 8 + push_bit 2 (signed_take_bit 23 w)"

definition exec_blx :: "u32 \<Rightarrow> cpu \<Rightarrow> cpu option" where
  "exec_blx w c =
     (let r = reg_field w 0
      in if r = 15 then None
         else bx_write_pc (regs c r) (c\<lparr>regs := (regs c)(14 := pc c + 4)\<rparr>))"

definition arm_exec :: "u32 \<Rightarrow> cpu \<Rightarrow> cpu option" where
  "arm_exec w c =
     (if w AND 0x0F700000 = 0x05100000 then exec_ldr w c
      else if w AND 0x0FF0FF00 = 0x03500000 then exec_cmp w c
      else if w AND 0x0FFF0F00 = 0x03A00000 then exec_mov w c
      else if w AND 0x0FFF0000 = 0x092D0000 then exec_push w c
      else if w AND 0x0FFF0000 = 0x08BD0000 then exec_pop w c
      else if w AND 0x0F000000 = 0x0A000000 then Some (c\<lparr>pc := branch_target w (pc c)\<rparr>)
      else if w AND 0x0FFFFFF0 = 0x012FFF30 then exec_blx w c
      else None)"

text \<open>Thumb: the 16-bit \<open>nop\<close> and the 32-bit \<open>ldr.w pc, [pc, #+imm12]\<close>, all the loader writes.\<close>

definition thumb_exec :: "cpu \<Rightarrow> cpu option" where
  "thumb_exec c =
     (let h1 = load16 (mem c) (pc c); h2 = load16 (mem c) (pc c + 2)
      in if h1 = 0xbf00 then Some (c\<lparr>pc := pc c + 2\<rparr>)
         else if h1 = 0xf8df \<and> h2 AND 0xF000 = 0xF000 then
           let a = ((pc c + 4) AND NOT 3) + ucast (h2 AND 0xFFF)
           in if a AND 3 \<noteq> 0 then None else bx_write_pc (load32 (mem c) a) c
         else None)"

definition arm_step :: "cpu \<Rightarrow> cpu option" where
  "arm_step c =
     (if thumb c then thumb_exec c
      else let w = load32 (mem c) (pc c); k = field w 28 4
           in if k = 15 then None
              else if cond_holds c k then arm_exec w c
              else Some (c\<lparr>pc := pc c + 4\<rparr>))"

fun arm_run :: "nat \<Rightarrow> cpu \<Rightarrow> cpu option" where
  "arm_run 0 c = Some c"
| "arm_run (Suc n) c = do { c' \<leftarrow> arm_step c; arm_run n c' }"

lemma arm_run_numeral [simp]:
  "arm_run (numeral k) c = do { c' \<leftarrow> arm_step c; arm_run (pred_numeral k) c' }"
  by (simp add: numeral_eq_Suc)

lemma arm_run_add: "arm_run (m + n) c = Option.bind (arm_run m c) (arm_run n)"
  by (induction m arbitrary: c) (simp_all split: bind_split)

lemma arm_step_arm:
  assumes "\<not> thumb c" "load32 (mem c) (pc c) = w"
  shows "arm_step c =
    (if field w 28 4 = 15 then None
     else if cond_holds c (field w 28 4) then arm_exec w c else Some (c\<lparr>pc := pc c + 4\<rparr>))"
  using assms by (simp add: arm_step_def Let_def)

text \<open>
  Branch offsets: an offset whose bits above 25 copy bit 25 (a distance below 32 MB) is encoded
  and decoded without loss.
\<close>

definition branch_word :: "u32 \<Rightarrow> u32 \<Rightarrow> u32" where
  "branch_word from to = 0xEA000000 OR (signed_drop_bit 2 (to - (from + 8)) AND 0x00FFFFFF)"

lemma branch_word_exec:
  assumes "signed_take_bit 25 (to - (from + 8)) = to - (from + 8)" "(to - (from + 8)) AND 3 = 0"
  shows "branch_target (branch_word from to) from = to"
proof -
  define d where "d = to - (from + 8)"
  have low: "\<not> bit d 0" "\<not> bit d (Suc 0)"
  proof -
    have *: "bit (d AND 3) j = bit (0 :: u32) j" for j using assms(2) by (simp add: d_def)
    show "\<not> bit d 0" using * [of 0] by (simp add: bit_simps)
    show "\<not> bit d (Suc 0)" using * [of 1] by (simp add: bit_simps)
  qed
  define x :: u32 where "x = 0xEA"
  have w: "branch_word from to = push_bit 24 x OR (signed_drop_bit 2 d AND mask 24)"
    by (simp add: branch_word_def d_def x_def mask_eq_exp_minus_1)
  have "push_bit 2 (signed_take_bit 23 (branch_word from to)) = signed_take_bit 25 d"
  proof (rule bit_word_eqI)
    fix n assume "n < LENGTH(32)"
    then show "bit (push_bit 2 (signed_take_bit 23 (branch_word from to))) n = bit (signed_take_bit 25 d) n"
    proof (cases n)
      case (Suc n')
      then show ?thesis using low \<open>n < LENGTH(32)\<close>
        by (cases n') (auto simp: w bit_simps min_def not_le)
    qed (use low in \<open>simp add: bit_simps\<close>)
  qed
  then show ?thesis using assms(1) by (simp add: branch_target_def d_def)
qed

named_theorems decode \<open>what each instruction word of the loader's patches does\<close>

lemmas decode_defs = arm_exec_def exec_ldr_def exec_cmp_def exec_mov_def exec_push_def exec_pop_def
  exec_blx_def field_def reg_field_def reg_read_def Let_def

lemma decode_ldr_pc_lit [decode]: "arm_exec 0xE51FF004 c =
    (if (pc c + 4) AND 3 \<noteq> 0 then None else bx_write_pc (load32 (mem c) (pc c + 4)) c)"
  by (simp add: decode_defs add.commute [of 4 "pc c"])

lemma decode_ldreq_pc_lit [decode]: "arm_exec 0x051FF004 c =
    (if (pc c + 4) AND 3 \<noteq> 0 then None else bx_write_pc (load32 (mem c) (pc c + 4)) c)"
  by (simp add: decode_defs add.commute [of 4 "pc c"])

lemma decode_ldr_r3_r1 [decode]: "arm_exec 0xE5913024 c =
    Some (c\<lparr>regs := (regs c)(3 := load32 (mem c) (regs c 1 + 0x24)), pc := pc c + 4\<rparr>)"
  by (simp add: decode_defs)

lemma decode_ldr_r3_r0 [decode]: "arm_exec 0xE5903000 c =
    Some (c\<lparr>regs := (regs c)(3 := load32 (mem c) (regs c 0)), pc := pc c + 4\<rparr>)"
  by (simp add: decode_defs)

lemma decode_ldr_ip_lit [decode]: "arm_exec 0xE59FC010 c =
    Some (c\<lparr>regs := (regs c)(12 := load32 (mem c) (pc c + 0x18)), pc := pc c + 4\<rparr>)"
  by (simp add: decode_defs)

lemma decode_mov_r0 [decode]: "arm_exec 0xE3A000C8 c =
    Some (c\<lparr>regs := (regs c)(0 := 200), pc := pc c + 4\<rparr>)"
  by (simp add: decode_defs)

lemma decode_cmp_r3_2 [decode]: "arm_exec 0xE3530002 c =
    Some (c\<lparr>fN := bit (regs c 3 - 2) 31, fZ := (regs c 3 = 2), fC := (2 \<le> regs c 3),
            fV := (bit (regs c 3) 31 \<and> \<not> bit (regs c 3 - 2) 31), pc := pc c + 4\<rparr>)"
  by (simp add: decode_defs cong: conj_cong)

lemma decode_cmp_r0_0 [decode]: "arm_exec 0xE3500000 c =
    Some (c\<lparr>fN := bit (regs c 0) 31, fZ := (regs c 0 = 0), fC := True, fV := False, pc := pc c + 4\<rparr>)"
  by (simp add: decode_defs)

lemma decode_beq [decode]: "arm_exec 0x0A000005 c = Some (c\<lparr>pc := pc c + 0x1C\<rparr>)"
  by (simp add: decode_defs branch_target_def)

lemma decode_b_loop [decode]: "arm_exec 0xEAFFFFF6 c = Some (c\<lparr>pc := pc c - 0x20\<rparr>)"
  by (simp add: decode_defs branch_target_def)

lemma decode_blx_ip [decode]: "arm_exec 0xE12FFF3C c =
    bx_write_pc (regs c 12) (c\<lparr>regs := (regs c)(14 := pc c + 4)\<rparr>)"
  by (simp add: decode_defs)

lemma reg_list_saved: "reg_list 0xE92D500F = [0, 1, 2, 3, 12, 14]" "reg_list 0xE8BD500F = [0, 1, 2, 3, 12, 14]"
  by (simp_all add: reg_list_def upt_rec)

lemma decode_push [decode]: "arm_exec 0xE92D500F c =
    Some (c\<lparr>mem := write_bytes (mem c) (regs c 13 - 24) (words (map (regs c) [0, 1, 2, 3, 12, 14])),
            regs := (regs c)(13 := regs c 13 - 24), pc := pc c + 4\<rparr>)"
  by (simp add: decode_defs reg_list_saved)

lemma decode_pop [decode]: "arm_exec 0xE8BD500F c =
    Some (c\<lparr>regs := (load_regs (mem c) (regs c 13) [0, 1, 2, 3, 12, 14] (regs c))(13 := regs c 13 + 24),
            pc := pc c + 4\<rparr>)"
  by (simp add: decode_defs reg_list_saved)

end
