(* ===== verification/Hooks.thy ===== *)
theory Hooks
  imports Arm
begin

text \<open>
  The function hooks of \<open>so_util.c\<close> (\<open>hook_thumb\<close>, \<open>hook_arm\<close>, \<open>hook_addr\<close>): the first words of a
  function are overwritten with a load of \<open>pc\<close> from the word behind it.  The theorem runs the written
  code on the machine of \<open>Arm\<close>.
\<close>

definition hook_thumb :: "ku_memcpy \<Rightarrow> u32 \<Rightarrow> u32 \<Rightarrow> memory \<Rightarrow> memory" where
  "hook_thumb ku addr dst m =
     (if addr = 0 then m
      else let a = addr AND NOT 1;
               (m, a) = (if a AND 2 \<noteq> 0 then (ku m a (le16 0xbf00), a + 2) else (m, a))
           in ku m a (words [0xf000f8df, dst]))"

definition hook_arm :: "ku_memcpy \<Rightarrow> u32 \<Rightarrow> u32 \<Rightarrow> memory \<Rightarrow> memory" where
  "hook_arm ku addr dst m =
     (if addr = 0 then m else ku m addr (words [0xe51ff004, dst]))"

definition hook_addr :: "ku_memcpy \<Rightarrow> u32 \<Rightarrow> u32 \<Rightarrow> memory \<Rightarrow> memory" where
  "hook_addr ku addr dst m =
     (if addr = 0 then m
      else if addr AND 1 \<noteq> 0 then hook_thumb ku addr dst m
      else hook_arm ku addr dst m)"

text \<open>A caller that branches to \<open>addr\<close> is at \<open>addr\<close> without its Thumb bit.\<close>

definition entered :: "u32 \<Rightarrow> cpu \<Rightarrow> bool" where
  "entered addr c \<longleftrightarrow> pc c = addr AND NOT 1 \<and> thumb c = bit addr 0"

definition hook_steps :: "u32 \<Rightarrow> nat" where
  "hook_steps addr = (if bit addr 0 \<and> bit addr 1 then 2 else 1)"

lemma and_1_bit: "x AND 1 \<noteq> 0 \<longleftrightarrow> bit (x :: u32) 0"
  by (simp add: and_one_eq odd_iff_mod_2_eq_one [symmetric] bit_0)

lemma and_2_bit: "x AND 2 \<noteq> 0 \<longleftrightarrow> bit (x :: u32) 1"
proof -
  have "x AND 2 = push_bit 1 1 AND x" by (simp add: ac_simps)
  then have b: "bit (x AND 2) n \<longleftrightarrow> n = 1 \<and> bit x 1" for n by (auto simp: bit_simps bit_1_iff)
  show ?thesis
  proof
    assume n: "x AND 2 \<noteq> 0"
    show "bit x 1"
    proof (rule ccontr)
      assume "\<not> bit x 1"
      then have "x AND 2 = 0" by (intro bit_word_eqI) (simp add: b)
      then show False using n by contradiction
    qed
  next
    assume "bit x 1"
    then have "bit (x AND 2) 1" by (simp only: b)
    then show "x AND 2 \<noteq> 0" by auto
  qed
qed

lemma and_3_mod: "x AND 3 = 0 \<longleftrightarrow> unat (x :: u32) mod 4 = 0"
proof -
  have "x AND 3 = x AND mask 2" by (simp add: mask_eq_exp_minus_1)
  then have "x AND 3 = 0 \<longleftrightarrow> unat (x AND mask 2) = 0" by (simp only: unat_eq_0)
  then show ?thesis by (simp only: unat_and_mask_eq_mod) simp
qed

lemma bits_mod4: "\<not> bit (x :: u32) 0 \<Longrightarrow> \<not> bit x 1 \<Longrightarrow> unat x mod 4 = 0"
proof -
  assume "\<not> bit x 0" "\<not> bit x 1"
  then have "x AND mask 2 = 0" by (intro bit_word_eqI) (auto simp: bit_simps less_2_cases_iff intro!: gr0I)
  then have "unat (x AND mask 2) = 0" by simp
  then show ?thesis by (simp only: unat_and_mask_eq_mod) simp
qed

lemma aligned_bits:
  assumes "(x :: u32) AND 3 = 0"
  shows "\<not> bit x 0" "\<not> bit x 1"
proof -
  have "x AND mask 2 = 0" using assms by (simp add: mask_eq_exp_minus_1)
  then have *: "\<not> bit (x AND mask 2) n" for n by simp
  show "\<not> bit x 0" using * [of 0] by (simp only: bit_and_iff bit_mask_iff) simp
  show "\<not> bit x 1" using * [of 1] by (simp only: bit_and_iff bit_mask_iff) simp
qed

lemma aligned_add:
  fixes x y :: u32
  assumes "unat x mod 4 = 0" "unat y mod 4 = 0"
  shows "unat (x + y) mod 4 = 0"
  using assms by (auto simp: unat_word_ariths mod_mod_cancel mod_eq_0_iff_dvd intro: dvd_mod)

text \<open>
  Where the hooked address is word aligned (ARM) or half-word aligned (Thumb), executing from it
  reaches \<open>dst\<close> in one or two steps, in the instruction set that \<open>dst\<close> asks for, with every register
  and flag as it was.
\<close>

lemma hook_arm_runs:
  assumes "ku_memcpy_law ku" "addr \<noteq> 0" "addr AND 3 = 0"
    and "pc c = addr" "\<not> thumb c" "mem c = hook_arm ku addr dst m" "bit dst 0 \<or> \<not> bit dst 1"
  shows "arm_step c = Some (c\<lparr>pc := (if bit dst 0 then dst AND NOT 1 else dst), thumb := bit dst 0\<rparr>)"
proof -
  have "kubridge ku" using assms(1) by unfold_locales
  then have "words_at (ku m addr (words [0xe51ff004, dst])) addr [0xe51ff004, dst]"
    by (rule kubridge.words_written) simp
  then have w: "load32 (mem c) (pc c) = 0xe51ff004" "load32 (mem c) (pc c + 4) = dst"
    using assms by (simp_all add: hook_arm_def)
  have "(pc c + 4) AND 3 = 0"
    using assms(3,4) by (simp add: and_3_mod aligned_add)
  then show ?thesis
    using assms w by (auto simp: arm_step_arm [OF assms(5) w(1)] decode field_def cond_holds_def bx_write_pc_def)
qed

lemma and_not_3: "(x :: u32) AND 3 = 0 \<Longrightarrow> x AND NOT 3 = x"
proof -
  assume "x AND 3 = 0"
  moreover have "x = (x AND 3) OR (x AND NOT 3)" by (rule bit_word_eqI) (auto simp: bit_simps)
  ultimately show ?thesis by simp
qed

lemma thumb_ldr_pc:
  assumes "thumb c" "load32 (mem c) (pc c) = 0xf000f8df" "load32 (mem c) (pc c + 4) = dst"
    and "(pc c) AND 3 = 0" "bit dst 0 \<or> \<not> bit dst 1"
  shows "arm_step c = Some (c\<lparr>pc := (if bit dst 0 then dst AND NOT 1 else dst), thumb := bit dst 0\<rparr>)"
proof -
  have h: "load16 (mem c) (pc c) = 0xf8df" "load16 (mem c) (pc c + 2) = 0xf000"
    by (simp only: load16_low assms(2), simp) (simp only: load16_high assms(2), simp)
  have a: "(pc c + 4) AND 3 = 0" using assms(4) by (simp add: and_3_mod aligned_add)
  then have "(pc c + 4) AND NOT 3 = pc c + 4" by (rule and_not_3)
  then show ?thesis using assms a
    by (auto simp: arm_step_def thumb_exec_def h Let_def bx_write_pc_def)
qed

lemma hook_thumb_runs:
  assumes ku: "ku_memcpy_law ku" and nz: "addr \<noteq> 0"
    and e: "pc c = addr AND NOT 1" "thumb c" "mem c = hook_thumb ku addr dst m" and d: "bit dst 0 \<or> \<not> bit dst 1"
  shows "arm_run (if bit addr 1 then 2 else 1) c =
    Some (c\<lparr>pc := (if bit dst 0 then dst AND NOT 1 else dst), thumb := bit dst 0\<rparr>)"
proof -
  define a where "a = addr AND NOT 1"
  have bits: "\<not> bit a 0" "bit a 1 = bit addr 1"
    by (simp_all only: a_def bit_and_iff bit_not_iff bit_1_iff) simp_all
  have an: "addr AND - 2 = a" by (simp add: a_def)
  have k: "kubridge ku" using ku by unfold_locales
  show ?thesis
  proof (cases "bit addr 1")
    case False
    then have al: "a AND 3 = 0" using bits by (simp add: and_3_mod bits_mod4)
    have m: "mem c = ku m a (words [0xf000f8df, dst])"
      using e nz False bits by (simp add: hook_thumb_def an and_2_bit Let_def)
    have "words_at (mem c) a [0xf000f8df, dst]"
      unfolding m by (rule kubridge.words_written [OF k]) simp
    then have "arm_step c = Some (c\<lparr>pc := (if bit dst 0 then dst AND NOT 1 else dst), thumb := bit dst 0\<rparr>)"
      using e d al by (intro thumb_ldr_pc) (simp_all add: an)
    then show ?thesis using False by simp
  next
    case True
    define m1 where "m1 = ku m a (le16 0xbf00)"
    have m: "mem c = ku m1 (a + 2) (words [0xf000f8df, dst])"
      using e nz True bits by (simp add: hook_thumb_def an and_2_bit Let_def m1_def)
    have "a AND mask 2 = push_bit 1 1"
      using bits True by (intro bit_word_eqI) (auto simp: bit_simps less_2_cases_iff intro: ccontr gr0I)
    then have "unat (a AND mask 2) = 2" by simp
    then have "unat a mod 4 = 2" by (simp only: unat_and_mask_eq_mod) simp
    then have al: "(a + 2) AND 3 = 0" by (auto simp: and_3_mod unat_word_ariths mod_mod_cancel) presburger
    have w: "words_at (mem c) (a + 2) [0xf000f8df, dst]"
      unfolding m by (rule kubridge.words_written [OF k]) simp
    have "mem c a = 0x00" "mem c (a + 1) = 0xbf"
      unfolding m m1_def using kubridge.apply_ku [OF k] by (simp_all add: le16_def)
    then have "load16 (mem c) a = 0xbf00" by (simp add: load16_def)
    then have s1: "arm_step c = Some (c\<lparr>pc := a + 2\<rparr>)"
      using e by (simp add: arm_step_def thumb_exec_def an)
    have "arm_step (c\<lparr>pc := a + 2\<rparr>) =
      Some (c\<lparr>pc := a + 2\<rparr>\<lparr>pc := (if bit dst 0 then dst AND NOT 1 else dst), thumb := bit dst 0\<rparr>)"
      using e d al w by (intro thumb_ldr_pc) simp_all
    then show ?thesis using True s1 by (simp add: numeral_2_eq_2)
  qed
qed

text \<open>
  C7: after \<open>hook_addr(addr, dst)\<close>, a call of \<open>addr\<close> (ARM, or Thumb at either half-word alignment) reaches
  \<open>dst\<close> within one instruction (two for a Thumb function at \<open>4k + 2\<close>), in the instruction set bit 0 of
  \<open>dst\<close> selects, with every register, flag and byte of memory as the caller left it.
\<close>

theorem hook_addr_redirects:
  assumes "ku_memcpy_law ku" "addr \<noteq> 0" "bit addr 0 \<or> \<not> bit addr 1" "bit dst 0 \<or> \<not> bit dst 1"
    and "entered addr c" "mem c = hook_addr ku addr dst m"
  shows "arm_run (hook_steps addr) c =
    Some (c\<lparr>pc := (if bit dst 0 then dst AND NOT 1 else dst), thumb := bit dst 0\<rparr>)"
proof (cases "bit addr 0")
  case True
  then show ?thesis using assms hook_thumb_runs [of ku addr c dst m]
    by (simp add: hook_addr_def entered_def hook_steps_def and_1_bit)
next
  case False
  then have "addr AND 3 = 0" using assms(3) by (simp add: and_3_mod bits_mod4)
  moreover have "addr AND NOT 1 = addr"
    using False by (intro bit_word_eqI) (auto simp: bit_simps bit_1_iff intro!: gr0I)
  ultimately show ?thesis using False assms hook_arm_runs [of ku addr c dst m]
    by (simp add: hook_addr_def entered_def hook_steps_def and_1_bit)
qed

definition demo_cpu :: "memory \<Rightarrow> u32 \<Rightarrow> bool \<Rightarrow> cpu" where
  "demo_cpu m a t = \<lparr>regs = (\<lambda>_. 0), pc = a, thumb = t, fN = False, fZ = False, fC = False, fV = False, mem = m\<rparr>"

theorem hook_addr_redirects_witness:
  "arm_run 2 (demo_cpu (hook_addr write_bytes 0x8103 0x9000 (\<lambda>_. 0)) 0x8102 True) =
     Some (demo_cpu (hook_addr write_bytes 0x8103 0x9000 (\<lambda>_. 0)) 0x9000 False)"
  using hook_addr_redirects [of write_bytes "0x8103" "0x9000"
      "demo_cpu (hook_addr write_bytes 0x8103 0x9000 (\<lambda>_. 0)) 0x8102 True"]
  by (simp add: write_bytes_law demo_cpu_def entered_def hook_steps_def)

end
