(* ===== verification/Trampolines.thy ===== *)
theory Trampolines
  imports Hooks
begin

text \<open>
  The loader's patches of the game's code (\<open>main.c\<close>): \<open>make_trampoline\<close> and the \<open>HOOK\<close> macro, the
  spin-loop patch \<open>patch_spin\<close>, the guard \<open>patch_null_guard\<close>, and \<open>install_hooks\<close>, which applies all of
  them.  The code each of them writes is run on the machine of \<open>Arm\<close>.  Cache flushes and log output
  have no state here.
\<close>

section \<open>The pool\<close>

text \<open>
  \<open>tramp_pool\<close> is \<open>NULL\<close> (0) until the first use; \<open>tramp_used\<close> is a C \<open>int\<close> that only grows, and the
  guards keep it below \<open>0x9C0 + 24\<close>, so it is a natural number here.
\<close>

record patcher =
  text_base :: u32
  tramp_pool :: u32
  tramp_used :: nat
  code :: memory

definition POOL_OFF :: u32 where "POOL_OFF = 0x166C640"
definition POOL_SIZE :: nat where "POOL_SIZE = 0x9C0"

definition ensure_pool :: "patcher \<Rightarrow> patcher" where
  "ensure_pool s = (if tramp_pool s = 0 then s\<lparr>tramp_pool := text_base s + POOL_OFF\<rparr> else s)"

definition pool_at :: "patcher \<Rightarrow> u32" where
  "pool_at s = tramp_pool s + of_nat (tramp_used s)"

section \<open>make_trampoline\<close>

definition is_lit_ldr :: "u32 \<Rightarrow> bool" where
  "is_lit_ldr w \<longleftrightarrow> w AND 0x0F7F0000 = 0x051F0000"

text \<open>The address a literal load at \<open>a\<close> reads: \<open>a + 8\<close> plus or minus the immediate.\<close>

definition lit_addr :: "u32 \<Rightarrow> u32 \<Rightarrow> u32" where
  "lit_addr w a = (let imm = w AND 0xFFF; up = drop_bit 23 w AND 1
     in a + 8 + (if up \<noteq> 0 then imm else - imm))"

definition reloc_ins :: "u32 \<Rightarrow> u32" where
  "reloc_ins w = (if is_lit_ldr w then (w AND 0xFFFFF000) OR 0x008 OR push_bit 23 1 else w)"

definition reloc_lit :: "memory \<Rightarrow> u32 \<Rightarrow> u32 \<Rightarrow> u32" where
  "reloc_lit m w a = (if is_lit_ldr w then load32 m (lit_addr w a) else 0)"

definition make_trampoline :: "ku_memcpy \<Rightarrow> u32 \<Rightarrow> patcher \<Rightarrow> u32 \<times> patcher" where
  "make_trampoline ku target s =
     (let s = ensure_pool s
      in if tramp_used s + 16 > POOL_SIZE then (0, s)
         else let w0 = load32 (code s) target; w1 = load32 (code s) (target + 4);
                  l0 = reloc_lit (code s) w0 target; l1 = reloc_lit (code s) w1 (target + 4);
                  at = pool_at s;
                  t = [reloc_ins w0, reloc_ins w1, 0xe51ff004, target + 8, l0, l1];
                  n = (if is_lit_ldr w0 \<or> is_lit_ldr w1 then 24 else 16)
              in (at, s\<lparr>code := ku (code s) at (take n (words t)), tramp_used := tramp_used s + n\<rparr>))"

section \<open>patch_spin\<close>

definition spin_thunk :: "u32 \<Rightarrow> u32 \<Rightarrow> u32 list" where
  "spin_thunk exit delay =
     [0xE5913024, 0xE3530002, 0x0A000005, 0xE92D500F, 0xE3A000C8, 0xE59FC010, 0xE12FFF3C,
      0xE8BD500F, 0xEAFFFFF6, 0xE51FF004, exit, delay]"

definition patch_spin :: "ku_memcpy \<Rightarrow> u32 \<Rightarrow> u32 \<Rightarrow> patcher \<Rightarrow> patcher" where
  "patch_spin ku delay off s =
     (let site = text_base s + off; exit = site + 12
      in if load32 (code s) site \<noteq> 0xE5913024 \<or> load32 (code s) (site + 4) \<noteq> 0xE3530002 \<or>
            load32 (code s) (site + 8) \<noteq> 0x1AFFFFFC then s
         else let s = ensure_pool s
              in if tramp_used s + 48 > POOL_SIZE then s
                 else let at = pool_at s;
                          m = ku (code s) at (words (spin_thunk exit delay));
                          b = branch_word site at
                      in s\<lparr>code := ku m site (words [b]), tramp_used := tramp_used s + 48\<rparr>)"

section \<open>patch_null_guard\<close>

definition null_guard_thunk :: "u32 \<Rightarrow> u32 \<Rightarrow> u32 list" where
  "null_guard_thunk site ret =
     [0xE3500000, 0x051FF004, ret, 0xE5903000, 0xE51FF004, site + 4]"

definition patch_null_guard :: "ku_memcpy \<Rightarrow> u32 \<Rightarrow> u32 \<Rightarrow> patcher \<Rightarrow> patcher" where
  "patch_null_guard ku off ret_off s =
     (let site = text_base s + off; ret = text_base s + ret_off
      in if load32 (code s) site \<noteq> 0xE5903000 then s
         else let s = ensure_pool s
              in if tramp_used s + 32 > POOL_SIZE then s
                 else let at = pool_at s;
                          m = ku (code s) at (words (null_guard_thunk site ret));
                          b = branch_word site at
                      in s\<lparr>code := ku m site (words [b]), tramp_used := tramp_used s + 24\<rparr>)"

section \<open>HOOK and install_hooks\<close>

text \<open>
  \<open>HOOK(off, fn, orig_var)\<close> makes the trampoline, keeps it in \<open>orig_var\<close>, and redirects the function
  when there is one.  The patches are applied in the order \<open>install_hooks\<close> has them; \<open>fn\<close> gives the
  addresses of the loader's own functions.
\<close>

datatype patch =
    SetPtr string u32
  | MemcatLock
  | Hook u32 string
  | Spin u32
  | NullGuard u32 u32

record hooked =
  pat :: patcher
  orig :: "string \<Rightarrow> u32"
  game_fn :: "string \<Rightarrow> u32"
  memcat_lock_init :: bool

definition HOOK :: "ku_memcpy \<Rightarrow> u32 \<Rightarrow> u32 \<Rightarrow> string \<Rightarrow> hooked \<Rightarrow> hooked" where
  "HOOK ku off fn name h =
     (let a = text_base (pat h) + off; (t, p) = make_trampoline ku a (pat h)
      in h\<lparr>orig := (orig h)(name := t),
           pat := (if t \<noteq> 0 then p\<lparr>code := hook_addr ku a fn (code p)\<rparr> else p)\<rparr>)"

fun apply_patch :: "ku_memcpy \<Rightarrow> (string \<Rightarrow> u32) \<Rightarrow> patch \<Rightarrow> hooked \<Rightarrow> hooked" where
  "apply_patch ku fn (SetPtr v off) h = h\<lparr>game_fn := (game_fn h)(v := text_base (pat h) + off)\<rparr>"
| "apply_patch ku fn MemcatLock h = h\<lparr>memcat_lock_init := True\<rparr>"
| "apply_patch ku fn (Hook off name) h = HOOK ku off (fn name) name h"
| "apply_patch ku fn (Spin off) h = h\<lparr>pat := patch_spin ku (fn ''sceKernelDelayThread'') off (pat h)\<rparr>"
| "apply_patch ku fn (NullGuard off ret) h = h\<lparr>pat := patch_null_guard ku off ret (pat h)\<rparr>"

definition install_list :: "patch list" where
  "install_list =
     [SetPtr ''tex_data_size'' 0xd925b0,
      Hook 0xd929e8 ''TexFlush'', Hook 0xd86614 ''TexAcquire'', Hook 0xd99908 ''TexDestroy'',
      MemcatLock, SetPtr ''cat_get_stats'' 0x14f2e0,
      Hook 0x14ef4c ''CatAlloc5'', Hook 0x14ee2c ''CatAlloc2'',
      SetPtr ''cat_usable'' 0x14f240, Hook 0x14f214 ''CatFree'',
      Spin 0x651cec, Spin 0x65950c, NullGuard 0x5ff834 0x5ff878,
      Hook 0x1b7968 ''FETutorialCheck'', Hook 0xa3b18c ''SfUnmap'', Hook 0x14b888 ''OutOfMemory'',
      Hook 0x6438c0 ''LoadingUpdate'', Hook 0x642b78 ''UnpackUpdate'', Hook 0x483318 ''SemPost'',
      Hook 0x482fe0 ''SemWait'', Hook 0x638408 ''AssetDtor1'', Hook 0x639180 ''AssetDtor2'',
      Hook 0x63ddf8 ''TranslateStream'', Hook 0x642980 ''ChunkifyFail'', Hook 0x63ae4c ''AssetRelease'']"

definition install_hooks :: "ku_memcpy \<Rightarrow> (string \<Rightarrow> u32) \<Rightarrow> hooked \<Rightarrow> hooked" where
  "install_hooks ku fn h = fold (apply_patch ku fn) install_list h"

section \<open>Relocated instructions\<close>

text \<open>
  The instructions \<open>make_trampoline\<close> may move: literal loads, which it rewrites, and those of the subset
  that neither read nor write \<open>pc\<close>.
\<close>

definition movable :: "u32 \<Rightarrow> bool" where
  "movable w \<longleftrightarrow> reg_field w 12 \<noteq> 15 \<and>
     (is_lit_ldr w \<or>
      reg_field w 16 \<noteq> 15 \<and> (w AND 0x0F700000 = 0x05100000 \<or> w AND 0x0FF0FF00 = 0x03500000 \<or>
        w AND 0x0FFF0F00 = 0x03A00000 \<or> w AND 0x0FFF0000 = 0x092D0000 \<or> w AND 0x0FFF0000 = 0x08BD0000))"

lemma and_fold: "(w AND m :: u32) = v \<Longrightarrow> w AND (m AND k) = v AND k"
  by (simp add: and.assoc [symmetric])

lemma field_via_and: "field w lo n = drop_bit lo (w AND push_bit lo (mask n))"
  unfolding field_def by (rule bit_word_eqI) (auto simp: bit_simps dest: bit_imp_le_length)

lemma field_fixed:
  "field w 28 4 = drop_bit 28 (w AND 0xF0000000)"
  "field w 16 4 = drop_bit 16 (w AND 0xF0000)"
  "field w 12 4 = drop_bit 12 (w AND 0xF000)"
  "field w 0 12 = w AND 0xFFF"
  by (simp_all add: field_via_and mask_eq_exp_minus_1)

lemma reloc_and:
  "is_lit_ldr w \<Longrightarrow> reloc_ins w AND k = (w AND (0xFFFFF000 AND k)) OR (0x800008 AND k)"
  by (simp add: reloc_ins_def and.assoc bit.conj_disj_distrib2)

lemma reloc_fields:
  assumes "is_lit_ldr w"
  shows "field (reloc_ins w) 28 4 = field w 28 4"
    and "reg_field (reloc_ins w) 16 = 15"
    and "reg_field (reloc_ins w) 12 = reg_field w 12"
    and "field (reloc_ins w) 0 12 = 8"
    and "reloc_ins w AND 0x0F700000 = 0x05100000"
    and "bit (reloc_ins w) 23"
proof -
  have l: "w AND 0x0F7F0000 = 0x051F0000" using assms by (simp add: is_lit_ldr_def)
  have "w AND 0xF0000 = 0xF0000" using and_fold [OF l, of "0xF0000"] by simp
  then show "reg_field (reloc_ins w) 16 = 15"
    by (simp add: reg_field_def field_fixed reloc_and [OF assms])
  have "w AND 0x0F700000 = 0x05100000" using and_fold [OF l, of "0x0F700000"] by simp
  then show "reloc_ins w AND 0x0F700000 = 0x05100000"
    by (simp add: reloc_and [OF assms])
  show "field (reloc_ins w) 28 4 = field w 28 4" "reg_field (reloc_ins w) 12 = reg_field w 12"
    "field (reloc_ins w) 0 12 = 8"
    by (simp_all add: reg_field_def field_fixed reloc_and [OF assms])
  show "bit (reloc_ins w) 23" using assms by (simp add: reloc_ins_def bit_or_iff)
qed

lemma lit_fields:
  assumes "is_lit_ldr w"
  shows "w AND 0x0F700000 = 0x05100000" "reg_field w 16 = 15"
proof -
  have l: "w AND 0x0F7F0000 = 0x051F0000" using assms by (simp add: is_lit_ldr_def)
  show "w AND 0x0F700000 = 0x05100000" using and_fold [OF l, of "0x0F700000"] by simp
  have "w AND 0xF0000 = 0xF0000" using and_fold [OF l, of "0xF0000"] by simp
  then show "reg_field w 16 = 15" by (simp add: reg_field_def field_fixed)
qed

lemma lit_addr_eq: "lit_addr w a = (if bit w 23 then a + 8 + field w 0 12 else a + 8 - field w 0 12)"
  by (simp add: lit_addr_def field_fixed bit_iff_odd_drop_bit odd_iff_mod_2_eq_one and_one_eq)

text \<open>A literal load where it was, and moved: the same register gets the same word.\<close>

lemma arm_exec_lit:
  assumes "is_lit_ldr w" "reg_field w 12 \<noteq> 15"
  shows "arm_exec w c = Some (c\<lparr>regs := (regs c)(reg_field w 12 := load32 (mem c) (lit_addr w (pc c))), pc := pc c + 4\<rparr>)"
    and "arm_exec (reloc_ins w) c =
      Some (c\<lparr>regs := (regs c)(reg_field w 12 := load32 (mem c) (pc c + 16)), pc := pc c + 4\<rparr>)"
  using assms by (simp_all add: arm_exec_def exec_ldr_def lit_fields reloc_fields reg_read_def lit_addr_eq)

lemma arm_exec_move:
  assumes "movable w" "\<not> is_lit_ldr w"
  shows "arm_exec w (c\<lparr>pc := a\<rparr>) = map_option (\<lambda>d. d\<lparr>pc := a + 4\<rparr>) (arm_exec w c)"
  using assms by (auto simp: movable_def arm_exec_def exec_ldr_def exec_cmp_def exec_mov_def exec_push_def
      exec_pop_def reg_read_def Let_def)

lemma cond_holds_pc [simp]: "cond_holds (c\<lparr>pc := a\<rparr>) k = cond_holds c k"
  by (simp add: cond_holds_def)

section \<open>A trampoline does what the two instructions did\<close>

lemma take_words: "take (4 * n) (words ws) = words (take n ws)"
proof (induction ws arbitrary: n)
  case Nil
  then show ?case by simp
next
  case (Cons w ws)
  then show ?case by (cases n) simp_all
qed

lemma make_trampoline_cases:
  assumes "make_trampoline ku target s = (t, s')"
  obtains (full) "tramp_used s + 16 > POOL_SIZE" "t = 0" "s' = ensure_pool s"
  | (made) n ws where "tramp_used s + 16 \<le> POOL_SIZE" "t = pool_at (ensure_pool s)"
      "s' = (ensure_pool s)\<lparr>code := ku (code s) t (words ws), tramp_used := tramp_used s + 4 * n\<rparr>"
      "length ws = n" "n = 4 \<or> n = 6"
      "is_lit_ldr (load32 (code s) target) \<or> is_lit_ldr (load32 (code s) (target + 4)) \<Longrightarrow> n = 6"
      "ws = take n [reloc_ins (load32 (code s) target), reloc_ins (load32 (code s) (target + 4)), 0xe51ff004,
         target + 8, reloc_lit (code s) (load32 (code s) target) target,
         reloc_lit (code s) (load32 (code s) (target + 4)) (target + 4)]"
proof (cases "tramp_used s + 16 > POOL_SIZE")
  case True
  then show ?thesis using assms full by (simp add: make_trampoline_def ensure_pool_def Let_def split: if_splits)
next
  case False
  define lit where "lit \<longleftrightarrow> is_lit_ldr (load32 (code s) target) \<or> is_lit_ldr (load32 (code s) (target + 4))"
  define n where "n = (if lit then 6 else 4 :: nat)"
  define ws where "ws = [reloc_ins (load32 (code s) target), reloc_ins (load32 (code s) (target + 4)), 0xe51ff004,
         target + 8, reloc_lit (code s) (load32 (code s) target) target,
         reloc_lit (code s) (load32 (code s) (target + 4)) (target + 4)]"
  have e: "code (ensure_pool s) = code s" "tramp_used (ensure_pool s) = tramp_used s"
    by (simp_all add: ensure_pool_def)
  have n4: "(if lit then 24 else 16) = 4 * n" by (simp add: n_def)
  have eq: "(t, s') = (pool_at (ensure_pool s), (ensure_pool s)\<lparr>code := ku (code s) (pool_at (ensure_pool s)) (words (take n ws)),
      tramp_used := tramp_used s + 4 * n\<rparr>)"
    unfolding assms [symmetric] make_trampoline_def Let_def e lit_def [symmetric] ws_def [symmetric] n4 take_words
    using False by simp
  have "length (take n ws) = n" by (simp add: ws_def n_def)
  then show ?thesis using eq False
    by (intro made [of n "take n ws"]) (auto simp: n_def lit_def ws_def)
qed

definition tramp_intact :: "u32 \<Rightarrow> u32 \<Rightarrow> memory \<Rightarrow> memory \<Rightarrow> memory \<Rightarrow> bool" where
  "tramp_intact t target m0 m1 m \<longleftrightarrow>
     list_all (\<lambda>i. load32 m (t + i) = load32 m1 (t + i)) [0, 4, 8, 12, 16, 20] \<and>
     list_all (\<lambda>a. load32 m a = load32 m0 a \<and>
        (let l = lit_addr (load32 m0 a) a in is_lit_ldr (load32 m0 a) \<longrightarrow> load32 m l = load32 m0 l)) [target, target + 4]"

lemma moved_step:
  assumes arm: "\<not> thumb c" and w: "load32 (mem c) a = w" "load32 (mem c) (pc c) = reloc_ins w" and m: "movable w"
    and lit: "is_lit_ldr w \<Longrightarrow> load32 (mem c) (pc c + 16) = load32 (mem c) (lit_addr w a)"
  shows "arm_step c = map_option (\<lambda>d. d\<lparr>pc := pc c + 4\<rparr>) (arm_step (c\<lparr>pc := a\<rparr>))"
proof -
  have o: "arm_step (c\<lparr>pc := a\<rparr>) =
    (if field w 28 4 = 15 then None
     else if cond_holds c (field w 28 4) then arm_exec w (c\<lparr>pc := a\<rparr>) else Some (c\<lparr>pc := a + 4\<rparr>))"
    using arm w by (subst arm_step_arm [of _ w]) simp_all
  show ?thesis
  proof (cases "is_lit_ldr w")
    case True
    have rt: "reg_field w 12 \<noteq> 15" using m by (simp add: movable_def)
    show ?thesis
      unfolding o using arm w True rt lit
      by (simp add: arm_step_arm [of c "reloc_ins w"] reloc_fields arm_exec_lit)
  next
    case False
    then have "reloc_ins w = w" by (simp add: reloc_ins_def)
    moreover have "arm_exec w (c\<lparr>pc := pc c\<rparr>) = map_option (\<lambda>d. d\<lparr>pc := pc c + 4\<rparr>) (arm_exec w c)"
      using m False by (rule arm_exec_move)
    ultimately show ?thesis
      unfolding o using arm w False m
      by (simp add: arm_step_arm [of c w] arm_exec_move option.map_comp o_def)
  qed
qed


section \<open>The spin thunk\<close>

lemma arm_step_al:
  assumes "\<not> thumb c" "load32 (mem c) (pc c) = w" "field w 28 4 = 14"
  shows "arm_step c = arm_exec w c"
  using assms by (simp add: arm_step_arm [of c w] cond_holds_def)

lemma cond_eq [simp]: "cond_holds c 0 = fZ c"
  by (simp add: cond_holds_def)

lemma spin_exit_run:
  assumes "words_at (mem c) t (spin_thunk exit delay)" "pc c = t" "\<not> thumb c"
    and "t AND 3 = 0" "exit AND 3 = 0" "load32 (mem c) (regs c 1 + 0x24) = 2"
  shows "arm_run 4 c = Some (c\<lparr>regs := (regs c)(3 := 2), fN := False, fZ := True, fC := True, fV := False, pc := exit\<rparr>)"
proof -
  have "(t + 0x28) AND 3 = 0" using assms(4) by (simp add: and_3_mod aligned_add)
  then show ?thesis
    using assms aligned_bits [OF assms(5)]
    by (simp add: spin_thunk_def arm_step_def Let_def field_def decode bx_write_pc_def
        cond_holds_def [of _ "0xE"])
qed

definition spin_frame :: "cpu \<Rightarrow> u32 list" where
  "spin_frame c = [regs c 0, regs c 1, regs c 2, load32 (mem c) (regs c 1 + 0x24), regs c 12, regs c 14]"

lemma spin_call_run:
  assumes "words_at (mem c) t (spin_thunk exit delay)" "pc c = t" "\<not> thumb c"
    and "delay AND 3 = 0" "load32 (mem c) (regs c 1 + 0x24) = v" "v \<noteq> 2"
    and st: "24 \<le> unat (t - (regs c 13 - 24))" "unat (t - (regs c 13 - 24)) + 48 \<le> 2 ^ 32"
  shows "\<exists>c'. arm_run 7 c = Some c' \<and> pc c' = delay \<and> \<not> thumb c' \<and> regs c' 0 = 200 \<and> regs c' 14 = t + 0x1C \<and>
    regs c' 13 = regs c 13 - 24 \<and> mem c' = write_bytes (mem c) (regs c 13 - 24) (words (spin_frame c)) \<and>
    list_all (\<lambda>r. regs c' r = regs c r) [1, 2, 4, 5, 6, 7, 8, 9, 10, 11]"
proof -
  have fr: "load32 (write_bytes (mem c) (regs c 13 - 24) bs) (t + of_nat k) = load32 (mem c) (t + of_nat k)"
    if "length bs = 24" "k < 45" for bs k
    using st that by (intro flat.load32_frame) (auto simp: unat_le_add_offset)
  have fr': "load32 (write_bytes (mem c) (regs c 13 - 24) bs) (t + numeral k) = load32 (mem c) (t + numeral k)"
    if "length bs = 24" "numeral k < (45 :: nat)" for bs k
    using fr [OF that] by simp
  show ?thesis
    using assms(1-6) aligned_bits [OF assms(4)]
    by (simp add: spin_thunk_def spin_frame_def arm_step_def Let_def field_def decode bx_write_pc_def
        cond_holds_def [of _ "0xE"] fr')
qed

lemma spin_return_run:
  assumes "words_at (mem d) t (spin_thunk exit delay)" "pc d = t + 0x1C" "\<not> thumb d"
    and "words_at (mem d) (regs d 13) [a0, a1, a2, a3, a12, a14]"
  shows "arm_run 2 d = Some (d\<lparr>pc := t,
     regs := (regs d)(0 := a0, 1 := a1, 2 := a2, 3 := a3, 12 := a12, 14 := a14, 13 := regs d 13 + 24)\<rparr>)"
  using assms
  by (simp add: spin_thunk_def arm_step_def Let_def field_def decode cond_holds_def [of _ "0xE"])

section \<open>Invariant of the pool, and branches into it\<close>

definition pool_ok :: "patcher \<Rightarrow> bool" where
  "pool_ok s \<longleftrightarrow> (tramp_pool s = 0 \<and> tramp_used s = 0 \<or> tramp_pool s = text_base s + POOL_OFF) \<and>
     tramp_used s mod 4 = 0 \<and> tramp_used s \<le> POOL_SIZE + 8"

lemma pool_at_ok: "pool_ok s \<Longrightarrow> pool_at (ensure_pool s) = text_base s + POOL_OFF + of_nat (tramp_used s)"
  by (auto simp: pool_ok_def ensure_pool_def pool_at_def)

lemma signed_take_small:
  assumes "unat (x :: u32) < 2 ^ 25"
  shows "signed_take_bit 25 x = x"
proof -
  have "unat (take_bit 25 x) = take_bit 25 (unat x)" by (rule unsigned_take_bit_eq)
  also have "\<dots> = unat x" using assms by (simp add: take_bit_eq_mod)
  finally have "unat (take_bit 25 x) = unat x" .
  then have t: "take_bit 25 x = x" by (simp only: word_unat_eq_iff)
  moreover have "\<not> bit x 25" using bit_take_bit_iff [of 25 x 25] t by simp
  ultimately show ?thesis by (simp add: signed_take_bit_eq_if_positive)
qed

text \<open>A site inside the text of the module, below the pool.\<close>

definition site_ok :: "u32 \<Rightarrow> bool" where
  "site_ok off \<longleftrightarrow> off AND 3 = 0 \<and> unat off + 16 \<le> unat POOL_OFF"

lemma branch_to_pool:
  assumes "pool_ok s" "site_ok off" "text_base s AND 3 = 0"
  defines "t \<equiv> pool_at (ensure_pool s)" and "site \<equiv> text_base s + off"
  shows "t AND 3 = 0" "branch_target (branch_word site t) site = t"
    "unat (t - site) = unat POOL_OFF + tramp_used s - unat off"
proof -
  have u: "unat (of_nat (tramp_used s) :: u32) = tramp_used s"
    using assms(1) by (simp add: pool_ok_def POOL_SIZE_def unat_of_nat)
  have o: "unat off mod 4 = 0" using assms(2) by (simp add: site_ok_def and_3_mod)
  show al: "t AND 3 = 0"
    using assms(1,3) u by (simp add: t_def pool_at_ok and_3_mod aligned_add POOL_OFF_def pool_ok_def)
  have d: "unat (t - (site + of_nat k)) = unat POOL_OFF + tramp_used s - (unat off + k)" if "k \<le> 8" for k
  proof -
    have "t - (site + of_nat k) = of_nat (unat POOL_OFF + tramp_used s) - of_nat (unat off + k)"
      using assms(1) by (simp add: t_def site_def pool_at_ok)
    also have "unat \<dots> = unat POOL_OFF + tramp_used s - (unat off + k)"
      using assms(1,2) that
      by (intro unat_of_nat32_diff) (auto simp: site_ok_def pool_ok_def POOL_OFF_def POOL_SIZE_def)
    finally show ?thesis .
  qed
  have d8: "unat (t - (site + 8)) = unat POOL_OFF + tramp_used s - (unat off + 8)" using d [of 8] by simp
  show "unat (t - site) = unat POOL_OFF + tramp_used s - unat off" using d [of 0] by simp
  have "unat (t - (site + 8)) mod 4 = 0"
  proof -
    have "4 dvd unat POOL_OFF + tramp_used s" "4 dvd unat off + 8"
      using assms(1) o by (auto simp: pool_ok_def POOL_OFF_def dvd_eq_mod_eq_0 mod_add_eq [symmetric])
    then show ?thesis unfolding d8 by (simp add: dvd_diff_nat)
  qed
  moreover have "unat (t - (site + 8)) < 2 ^ 25"
    using assms(1) unfolding d8 by (auto simp: pool_ok_def POOL_OFF_def POOL_SIZE_def)
  ultimately show "branch_target (branch_word site t) site = t"
    by (intro branch_word_exec signed_take_small) (simp_all add: and_3_mod)
qed

lemma branch_step:
  assumes "pool_ok s" "site_ok off" "text_base s AND 3 = 0"
    and "\<not> thumb c" "pc c = text_base s + off" "load32 (mem c) (pc c) = branch_word (pc c) (pool_at (ensure_pool s))"
  shows "arm_step c = Some (c\<lparr>pc := pool_at (ensure_pool s)\<rparr>)"
proof -
  let ?w = "branch_word (pc c) (pool_at (ensure_pool s))"
  have f: "?w AND 0xFF000000 = 0xEA000000"
    by (simp add: branch_word_def bit.conj_disj_distrib2 and.assoc)
  have "field ?w 28 4 = 14" using and_fold [OF f, of "0xF0000000"] by (simp add: field_fixed)
  then have "arm_step c = arm_exec ?w c" using assms(4,6) by (intro arm_step_al) simp_all
  also have "\<dots> = Some (c\<lparr>pc := branch_target ?w (pc c)\<rparr>)"
  proof -
    have no: "?w AND k \<noteq> v" if "k AND 0x0F000000 = 0x0F000000" "v AND 0x0F000000 \<noteq> 0x0A000000" for k v
      using and_fold [OF f, of "0x0F000000"] and_fold [of ?w k v "0x0F000000"] that by auto
    have "?w AND 0x0F000000 = 0x0A000000" using and_fold [OF f, of "0x0F000000"] by simp
    moreover have "?w AND 0x0F700000 \<noteq> 0x05100000" by (rule no) simp_all
    moreover have "?w AND 0x0FF0FF00 \<noteq> 0x03500000" by (rule no) simp_all
    moreover have "?w AND 0x0FFF0F00 \<noteq> 0x03A00000" by (rule no) simp_all
    moreover have "?w AND 0x0FFF0000 \<noteq> 0x092D0000" by (rule no) simp_all
    moreover have "?w AND 0x0FFF0000 \<noteq> 0x08BD0000" by (rule no) simp_all
    ultimately show ?thesis by (simp add: arm_exec_def)
  qed
  finally show ?thesis using branch_to_pool(2) [OF assms(1-3)] assms(5) by simp
qed

section \<open>patch_spin\<close>

lemma patch_spin_writes:
  assumes ku: "ku_memcpy_law ku" and ok: "pool_ok s" "site_ok off"
    and site: "site = text_base s + off"
    and sig: "load32 (code s) site = 0xE5913024" "load32 (code s) (site + 4) = 0xE3530002"
      "load32 (code s) (site + 8) = 0x1AFFFFFC"
    and room: "tramp_used s + 48 \<le> POOL_SIZE" and al: "text_base s AND 3 = 0"
  defines "t \<equiv> pool_at (ensure_pool s)"
  shows "words_at (code (patch_spin ku delay off s)) t (spin_thunk (site + 12) delay)"
    and "load32 (code (patch_spin ku delay off s)) site = branch_word site t"
proof -
  have k: "kubridge ku" using ku by unfold_locales
  define m where "m = ku (code s) t (words (spin_thunk (site + 12) delay))"
  have e: "code (ensure_pool s) = code s" "tramp_used (ensure_pool s) = tramp_used s"
    by (simp_all add: ensure_pool_def)
  have c: "code (patch_spin ku delay off s) = ku m site (words [branch_word site t])"
    using sig room by (simp add: patch_spin_def Let_def site [symmetric] e t_def m_def)
  have ln: "length (spin_thunk (site + 12) delay) = 12" by (simp add: spin_thunk_def)
  show "load32 (code (patch_spin ku delay off s)) site = branch_word site t"
    using kubridge.words_written [OF k, of "[branch_word site t]" m site] by (simp add: c)
  have w: "words_at m t (spin_thunk (site + 12) delay)"
    unfolding m_def by (rule kubridge.words_written [OF k]) (simp add: ln)
  have d: "unat (t - site) = unat POOL_OFF + tramp_used s - unat off"
    unfolding t_def site by (rule branch_to_pool(3) [OF ok al])
  have "same_bytes (ku m site (words [branch_word site t])) m t (4 * length (spin_thunk (site + 12) delay))"
    using ok room
    by (intro kubridge.same_bytes_frame [OF k]) (auto simp: d ln site_ok_def pool_ok_def POOL_OFF_def POOL_SIZE_def)
  then show "words_at (code (patch_spin ku delay off s)) t (spin_thunk (site + 12) delay)"
    unfolding c by (rule same_bytes_words [OF _ w])
qed

text \<open>
  The contract of a called C function (AAPCS): it returns to \<open>lr\<close> with \<open>sp\<close> and \<open>r4\<close> to \<open>r11\<close> as they
  were, and the caller's stack frame and code are untouched.
\<close>

definition aapcs_return :: "nat \<Rightarrow> u32 \<Rightarrow> nat \<Rightarrow> cpu \<Rightarrow> cpu \<Rightarrow> bool" where
  "aapcs_return frame t n c d \<longleftrightarrow> pc d = regs c 14 \<and> \<not> thumb d \<and> regs d 13 = regs c 13 \<and>
     list_all (\<lambda>r. regs d r = regs c r) [4..<12] \<and>
     same_bytes (mem d) (mem c) (regs c 13) frame \<and> same_bytes (mem d) (mem c) t n"

lemma saved_regs: "[4..<12] = [4, 5, 6, 7, 8, 9, 10, 11 :: nat]"
  by (simp add: upt_rec)

lemma all_regs: "[0..<15] = [0, 1, 2, 3, 4, 5, 6, 7, 8, 9, 10, 11, 12, 13, 14 :: nat]"
  by (simp add: upt_rec)

lemma spin_resume:
  assumes w: "words_at (mem c) t (spin_thunk exit delay)"
    and c': "regs c' 14 = t + 0x1C" "regs c' 13 = regs c 13 - 24"
      "mem c' = write_bytes (mem c) (regs c 13 - 24) (words (spin_frame c))"
      "list_all (\<lambda>r. regs c' r = regs c r) [1, 2, 4, 5, 6, 7, 8, 9, 10, 11]"
    and d: "aapcs_return 24 t 48 c' d"
    and v: "v = load32 (mem c) (regs c 1 + 0x24)"
    and st: "24 \<le> unat (t - (regs c 13 - 24))" "unat (t - (regs c 13 - 24)) + 48 \<le> 2 ^ 32"
  shows "\<exists>d'. arm_run 2 d = Some d' \<and> pc d' = t \<and> \<not> thumb d' \<and>
    list_all (\<lambda>r. regs d' r = (if r = 3 then v else regs c r)) [0..<15]"
proof -
  have lt: "length (spin_thunk exit delay) = 12" and lf: "length (spin_frame c) = 6"
    by (simp_all add: spin_thunk_def spin_frame_def)
  have "same_bytes (mem c') (mem c) t (4 * length (spin_thunk exit delay))"
    unfolding c'(3) using st by (intro flat.same_bytes_frame) (simp_all add: lt lf)
  then have "words_at (mem c') t (spin_thunk exit delay)" using w by (rule same_bytes_words)
  moreover have "same_bytes (mem d) (mem c') t (4 * length (spin_thunk exit delay))"
    using d by (simp add: aapcs_return_def lt)
  ultimately have wd: "words_at (mem d) t (spin_thunk exit delay)" by (rule same_bytes_words [rotated])
  have "words_at (mem c') (regs c' 13) (spin_frame c)"
    unfolding c'(2,3) by (rule flat.words_written) (simp add: lf)
  moreover have "same_bytes (mem d) (mem c') (regs c' 13) (4 * length (spin_frame c))"
    using d by (simp add: aapcs_return_def lf)
  ultimately have "words_at (mem d) (regs c' 13) (spin_frame c)" by (rule same_bytes_words [rotated])
  then have "words_at (mem d) (regs d 13) (spin_frame c)" using d by (simp only: aapcs_return_def)
  then have "arm_run 2 d = Some (d\<lparr>pc := t, regs := (regs d)(0 := regs c 0, 1 := regs c 1, 2 := regs c 2, 3 := v,
      12 := regs c 12, 14 := regs c 14, 13 := regs d 13 + 24)\<rparr>)"
    using d c'(1) v by (intro spin_return_run [OF wd]) (simp_all add: aapcs_return_def spin_frame_def)
  moreover have "list_all (\<lambda>r. regs d r = regs c' r) [4, 5, 6, 7, 8, 9, 10, 11]"
    using d by (simp only: aapcs_return_def saved_regs)
  moreover have "regs d 13 = regs c' 13" "\<not> thumb d" using d by (simp_all add: aapcs_return_def)
  ultimately show ?thesis using c'(2,4) v by (simp add: all_regs)
qed

text \<open>
  C27: the patched spin loop.  With the cache state \<open>[r1 + 0x24]\<close> equal to 2, the code at the patched site
  leaves the loop at \<open>site + 12\<close> with exactly the registers and flags the original three instructions
  leave.  Otherwise it calls the delay function once with 200 in \<open>r0\<close>, and when that returns (clobbering
  whatever AAPCS lets it clobber) the thunk is back at its head with every register but \<open>r3\<close> as at the
  site, and \<open>r3\<close> holding the state it read.
\<close>

theorem patch_spin_correct:
  assumes ku: "ku_memcpy_law ku" and ok: "pool_ok s" "site_ok off" "text_base s AND 3 = 0" "delay AND 3 = 0"
    and site: "site = text_base s + off"
    and sig: "load32 (code s) site = 0xE5913024" "load32 (code s) (site + 4) = 0xE3530002"
      "load32 (code s) (site + 8) = 0x1AFFFFFC"
    and room: "tramp_used s + 48 \<le> POOL_SIZE"
    and t: "t = pool_at (ensure_pool s)"
    and c: "\<not> thumb c" "pc c = site" "mem c = code (patch_spin ku delay off s)"
    and v: "v = load32 (mem c) (regs c 1 + 0x24)"
    and st: "24 \<le> unat (t - (regs c 13 - 24))" "unat (t - (regs c 13 - 24)) + 48 \<le> 2 ^ 32"
  shows "if v = 2 then
      arm_run 5 c = Some (c\<lparr>regs := (regs c)(3 := 2), fN := False, fZ := True, fC := True, fV := False, pc := site + 12\<rparr>)
    else (\<exists>c'. arm_run 8 c = Some c' \<and> pc c' = delay \<and> regs c' 0 = 200 \<and> regs c' 14 = t + 0x1C \<and>
      (\<forall>d. aapcs_return 24 t 48 c' d \<longrightarrow>
         (\<exists>d'. arm_run 2 d = Some d' \<and> pc d' = t \<and> \<not> thumb d' \<and>
               list_all (\<lambda>r. regs d' r = (if r = 3 then v else regs c r)) [0..<15])))"
proof -
  note w = patch_spin_writes [OF ku ok(1,2) site sig room ok(3), of delay, folded t c(3)]
  have b: "arm_step c = Some (c\<lparr>pc := t\<rparr>)"
    using branch_step [OF ok(1-3) c(1)] c(2) w(2) site t by simp
  have ex: "site + 12 AND 3 = 0"
    using ok unfolding site site_ok_def by (simp add: and_3_mod aligned_add)
  have ta: "t AND 3 = 0" unfolding t by (rule branch_to_pool(1) [OF ok(1-3)])
  let ?c = "c\<lparr>pc := t\<rparr>"
  show ?thesis
  proof (cases "v = 2")
    case True
    have "arm_run 4 ?c = Some (?c\<lparr>regs := (regs ?c)(3 := 2), fN := False, fZ := True, fC := True, fV := False, pc := site + 12\<rparr>)"
      by (rule spin_exit_run [OF _ _ _ ta ex]) (use w c v True in simp_all)
    then show ?thesis using True b arm_run_add [of 1 4 c] by simp
  next
    case False
    have "\<exists>c'. arm_run 7 ?c = Some c' \<and> pc c' = delay \<and> \<not> thumb c' \<and> regs c' 0 = 200 \<and> regs c' 14 = t + 0x1C \<and>
      regs c' 13 = regs ?c 13 - 24 \<and> mem c' = write_bytes (mem ?c) (regs ?c 13 - 24) (words (spin_frame ?c)) \<and>
      list_all (\<lambda>r. regs c' r = regs ?c r) [1, 2, 4, 5, 6, 7, 8, 9, 10, 11]"
      by (rule spin_call_run [OF _ _ _ ok(4) _ False]) (use w c st v in simp_all)
    then obtain c' where c': "arm_run 7 ?c = Some c'" "pc c' = delay" "regs c' 0 = 200" "regs c' 14 = t + 0x1C"
      "regs c' 13 = regs c 13 - 24" "mem c' = write_bytes (mem c) (regs c 13 - 24) (words (spin_frame c))"
      "list_all (\<lambda>r. regs c' r = regs c r) [1, 2, 4, 5, 6, 7, 8, 9, 10, 11]"
      by (auto simp: spin_frame_def)
    have r8: "arm_run 8 c = Some c'" using b c'(1) arm_run_add [of 1 7 c] by simp
    have "\<exists>d'. arm_run 2 d = Some d' \<and> pc d' = t \<and> \<not> thumb d' \<and>
        list_all (\<lambda>r. regs d' r = (if r = 3 then v else regs c r)) [0..<15]" if d: "aapcs_return 24 t 48 c' d" for d
      by (rule spin_resume [OF w(1) c'(4-7) d v st])
    then show ?thesis using False r8 c' by auto
  qed
qed

section \<open>patch_null_guard\<close>

lemma patch_null_guard_writes:
  assumes ku: "ku_memcpy_law ku" and ok: "pool_ok s" "site_ok off" "text_base s AND 3 = 0"
    and site: "site = text_base s + off"
    and sig: "load32 (code s) site = 0xE5903000"
    and room: "tramp_used s + 32 \<le> POOL_SIZE"
  defines "t \<equiv> pool_at (ensure_pool s)"
  shows "words_at (code (patch_null_guard ku off ret_off s)) t (null_guard_thunk site (text_base s + ret_off))"
    and "load32 (code (patch_null_guard ku off ret_off s)) site = branch_word site t"
proof -
  let ?ws = "null_guard_thunk site (text_base s + ret_off)"
  have k: "kubridge ku" using ku by unfold_locales
  define m where "m = ku (code s) t (words ?ws)"
  have e: "code (ensure_pool s) = code s" "tramp_used (ensure_pool s) = tramp_used s"
    by (simp_all add: ensure_pool_def)
  have c: "code (patch_null_guard ku off ret_off s) = ku m site (words [branch_word site t])"
    using sig room by (simp add: patch_null_guard_def Let_def site [symmetric] e t_def m_def)
  have ln: "length ?ws = 6" by (simp add: null_guard_thunk_def)
  show "load32 (code (patch_null_guard ku off ret_off s)) site = branch_word site t"
    using kubridge.words_written [OF k, of "[branch_word site t]" m site] by (simp add: c)
  have w: "words_at m t ?ws"
    unfolding m_def by (rule kubridge.words_written [OF k]) (simp add: ln)
  have d: "unat (t - site) = unat POOL_OFF + tramp_used s - unat off"
    unfolding t_def site by (rule branch_to_pool(3) [OF ok])
  have "same_bytes (ku m site (words [branch_word site t])) m t (4 * length ?ws)"
    using ok room
    by (intro kubridge.same_bytes_frame [OF k]) (auto simp: d ln site_ok_def pool_ok_def POOL_OFF_def POOL_SIZE_def)
  then show "words_at (code (patch_null_guard ku off ret_off s)) t ?ws"
    unfolding c by (rule same_bytes_words [OF _ w])
qed

lemma null_guard_run:
  assumes "words_at (mem c) t (null_guard_thunk site ret)" "pc c = t" "\<not> thumb c"
    and "t AND 3 = 0" "ret AND 3 = 0" "site + 4 AND 3 = 0" "drop_bit 28 ret = 9"
  shows "regs c 0 = 0 \<Longrightarrow>
      arm_run 2 c = Some (c\<lparr>fN := False, fZ := True, fC := True, fV := False, pc := ret\<rparr>)"
    and "regs c 0 \<noteq> 0 \<Longrightarrow>
      arm_run 5 c = Some (c\<lparr>regs := (regs c)(3 := load32 (mem c) (regs c 0)),
        fN := bit (regs c 0) 31, fZ := False, fC := True, fV := False, pc := site + 4\<rparr>)"
proof -
  have "t + 8 AND 3 = 0" "t + 20 AND 3 = 0" using assms(4) by (simp_all add: and_3_mod aligned_add)
  note facts = assms this aligned_bits [OF assms(5)] aligned_bits [OF assms(6)]
  show "arm_run 2 c = Some (c\<lparr>fN := False, fZ := True, fC := True, fV := False, pc := ret\<rparr>)" if "regs c 0 = 0"
    using facts that
    by (simp add: null_guard_thunk_def arm_step_def Let_def field_def decode bx_write_pc_def
        cond_holds_def [of _ "0xE"])
  show "arm_run 5 c = Some (c\<lparr>regs := (regs c)(3 := load32 (mem c) (regs c 0)),
        fN := bit (regs c 0) 31, fZ := False, fC := True, fV := False, pc := site + 4\<rparr>)" if "regs c 0 \<noteq> 0"
    using facts that
    by (simp add: null_guard_thunk_def arm_step_def Let_def field_def decode bx_write_pc_def
        cond_holds_def [of _ "0xE"] cond_holds_def [of _ 9])
qed

text \<open>
  The NULL guard.  At the patched site a NULL \<open>r0\<close> leaves for the function's return sequence with no
  register changed; a pointer is dereferenced into \<open>r3\<close> as the replaced instruction did, and execution
  resumes behind it.  The thunk keeps the return address between its instructions, so on the second path
  that word is executed: it does nothing only because an address of the form \<open>0x9.......\<close> is, read as an
  instruction, one with condition LS, which a compare of a non-zero register with 0 makes false.
\<close>

theorem patch_null_guard_correct:
  assumes ku: "ku_memcpy_law ku" and ok: "pool_ok s" "site_ok off" "text_base s AND 3 = 0"
    and site: "site = text_base s + off" and ret: "ret = text_base s + ret_off" "ret AND 3 = 0"
    and ls: "drop_bit 28 ret = 9"
    and sig: "load32 (code s) site = 0xE5903000" and room: "tramp_used s + 32 \<le> POOL_SIZE"
    and c: "\<not> thumb c" "pc c = site" "mem c = code (patch_null_guard ku off ret_off s)"
  shows "if regs c 0 = 0
    then arm_run 3 c = Some (c\<lparr>fN := False, fZ := True, fC := True, fV := False, pc := ret\<rparr>)
    else arm_run 6 c = Some (c\<lparr>regs := (regs c)(3 := load32 (mem c) (regs c 0)),
        fN := bit (regs c 0) 31, fZ := False, fC := True, fV := False, pc := site + 4\<rparr>)"
proof -
  define t where "t = pool_at (ensure_pool s)"
  note w = patch_null_guard_writes [OF ku ok site sig room, of ret_off, folded t_def c(3) ret(1)]
  have b: "arm_step c = Some (c\<lparr>pc := t\<rparr>)"
    using branch_step [OF ok c(1)] c(2) w(2) site t_def by simp
  have ta: "t AND 3 = 0" unfolding t_def by (rule branch_to_pool(1) [OF ok])
  have ex: "site + 4 AND 3 = 0"
    using ok unfolding site site_ok_def by (simp add: and_3_mod aligned_add)
  have "words_at (mem (c\<lparr>pc := t\<rparr>)) t (null_guard_thunk site ret)" "\<not> thumb (c\<lparr>pc := t\<rparr>)" "pc (c\<lparr>pc := t\<rparr>) = t"
    using w(1) c by simp_all
  note run = null_guard_run [OF this(1,3,2) ta ret(2) ex ls]
  show ?thesis
    using run b arm_run_add [of 1 2 c] arm_run_add [of 1 5 c] by simp
qed

section \<open>All the patches\<close>

definition apart :: "u32 \<Rightarrow> u32 \<Rightarrow> bool" where
  "apart a b \<longleftrightarrow> unat a + 8 \<le> unat b \<or> unat b + 8 \<le> unat a"

definition base_ok :: "u32 \<Rightarrow> bool" where
  "base_ok tb \<longleftrightarrow> tb \<noteq> 0 \<and> tb AND 3 = 0 \<and> unat tb + 0x166D008 < 2 ^ 32"

fun patch_site :: "patch \<Rightarrow> u32 option" where
  "patch_site (Hook off name) = Some off"
| "patch_site (Spin off) = Some off"
| "patch_site (NullGuard off ret) = Some off"
| "patch_site (SetPtr v off) = None"
| "patch_site MemcatLock = None"

lemma unat_diff_cases:
  "unat ((x :: u32) - y) = (if y \<le> x then unat x - unat y else 2 ^ 32 + unat x - unat y)"
proof (cases "y \<le> x")
  case True
  then show ?thesis by (simp add: unat_sub)
next
  case False
  then have "unat x < unat y" by (simp add: word_le_nat_alt)
  moreover have "unat y < 2 ^ 32" using unsigned_less [of y] by simp
  moreover have "x - y = of_nat (2 ^ 32 + unat x) - (of_nat (unat y) :: u32)" by simp
  ultimately show ?thesis using False
    by (simp only: if_False) (intro unat_of_nat32_diff; simp)
qed

context kubridge
begin

lemma pool_write_frame:
  assumes "site_ok o'" "used + length bs \<le> POOL_SIZE + 8"
  shows "same_bytes (ku m (tb + POOL_OFF + of_nat used) bs) m (tb + o') 8"
proof -
  have u: "unat (POOL_OFF + of_nat used :: u32) = unat POOL_OFF + used"
    using assms(2) by (simp add: POOL_OFF_def POOL_SIZE_def unat_word_ariths unat_of_nat)
  have lt: "\<not> POOL_OFF + of_nat used \<le> o'"
    using assms(1) by (simp only: word_le_nat_alt u) (simp add: site_ok_def)
  have "unat (o' - (POOL_OFF + of_nat used)) = 2 ^ 32 + unat o' - (unat POOL_OFF + used)"
    unfolding unat_diff_cases u using lt by simp
  then have "unat (tb + o' - (tb + POOL_OFF + of_nat used)) = 2 ^ 32 + unat o' - (unat POOL_OFF + used)"
    by (simp add: add.assoc)
  then show ?thesis
    using assms by (intro same_bytes_frame) (auto simp: site_ok_def POOL_OFF_def POOL_SIZE_def)
qed

lemma site_write_frame:
  assumes "apart o' off" "length bs \<le> 8" "unat off + 8 \<le> 2 ^ 32" "unat o' + 8 \<le> 2 ^ 32"
  shows "same_bytes (ku m (tb + off) bs) m (tb + o') 8"
  using assms unfolding apart_def
  by (intro same_bytes_frame) (auto simp: unat_diff_cases word_le_nat_alt)

end

definition patched_at :: "u32 \<Rightarrow> patcher \<Rightarrow> patcher \<Rightarrow> bool" where
  "patched_at off s s' \<longleftrightarrow> text_base s' = text_base s \<and> pool_ok s' \<and>
     tramp_used s \<le> tramp_used s' \<and> tramp_used s' \<le> tramp_used s + 48 \<and>
     (\<forall>o'. site_ok o' \<and> apart o' off \<longrightarrow> same_bytes (code s') (code s) (text_base s + o') 8)"

lemma ensure_pool_simps [simp]:
  "code (ensure_pool s) = code s" "tramp_used (ensure_pool s) = tramp_used s"
  "text_base (ensure_pool s) = text_base s"
  by (simp_all add: ensure_pool_def)

lemma pool_ok_ensure: "pool_ok s \<Longrightarrow> tramp_pool (ensure_pool s) = text_base s + POOL_OFF"
  by (auto simp: pool_ok_def ensure_pool_def)

lemma site_bound: "site_ok off \<Longrightarrow> unat off + 8 \<le> 2 ^ 32"
  by (auto simp: site_ok_def POOL_OFF_def)

lemma pool_at_nonzero:
  assumes "base_ok (text_base s)" "pool_ok s"
  shows "pool_at (ensure_pool s) \<noteq> 0"
proof -
  have "unat (text_base s + POOL_OFF + of_nat (tramp_used s)) = unat (text_base s) + unat POOL_OFF + tramp_used s"
    using assms by (auto simp: base_ok_def pool_ok_def POOL_OFF_def POOL_SIZE_def unat_word_ariths unat_of_nat)
  then show ?thesis using assms by (auto simp: pool_at_ok POOL_OFF_def)
qed

lemma make_trampoline_patched:
  assumes ku: "ku_memcpy_law ku" and s: "pool_ok s" "base_ok (text_base s)" "tramp_used s + 24 \<le> POOL_SIZE"
    and mk: "make_trampoline ku target s = (t, s')"
  shows "t = pool_at (ensure_pool s)" "patched_at off s s'"
    "site_ok o' \<Longrightarrow> same_bytes (code s') (code s) (text_base s + o') 8"
proof -
  have k: "kubridge ku" using ku by unfold_locales
  from mk show "t = pool_at (ensure_pool s)"
    by (cases rule: make_trampoline_cases) (use s in auto)
  have b: "same_bytes (code s') (code s) (text_base s + x) 8" if "site_ok x" for x
    using mk
  proof (cases rule: make_trampoline_cases)
    case full
    then show ?thesis by simp
  next
    case (made n ws)
    have "length (words ws) \<le> 24" using made(5) by (auto simp: made(4))
    then show ?thesis
      unfolding made(3) using that s
      by (simp add: made(2) pool_at_ok) (rule kubridge.pool_write_frame [OF k]; simp)
  qed
  show "site_ok o' \<Longrightarrow> same_bytes (code s') (code s) (text_base s + o') 8" by (rule b)
  from mk show "patched_at off s s'"
  proof (cases rule: make_trampoline_cases)
    case full
    then show ?thesis using s by simp
  next
    case (made n ws)
    have "pool_ok s'" using made(5) s unfolding made(3) by (auto simp: pool_ok_def ensure_pool_def)
    moreover have "text_base s' = text_base s" "tramp_used s' = tramp_used s + 4 * n" unfolding made(3) by simp_all
    ultimately show ?thesis using b made(5) by (auto simp: patched_at_def)
  qed
qed

lemma HOOK_patched:
  assumes ku: "ku_memcpy_law ku" and s: "pool_ok (pat h)" "base_ok (text_base (pat h))" "tramp_used (pat h) + 48 \<le> POOL_SIZE"
    and off: "site_ok off"
  shows "patched_at off (pat h) (pat (HOOK ku off fn name h))"
    "words_at (code (pat (HOOK ku off fn name h))) (text_base (pat h) + off) [0xe51ff004, fn]"
    "orig (HOOK ku off fn name h) = (orig h)(name := pool_at (ensure_pool (pat h)))"
proof -
  have k: "kubridge ku" using ku by unfold_locales
  let ?a = "text_base (pat h) + off"
  obtain t s' where mk: "make_trampoline ku ?a (pat h) = (t, s')" by (cases "make_trampoline ku ?a (pat h)")
  note m = make_trampoline_patched [OF ku s(1,2) _ mk]
  have tz: "t \<noteq> 0" using m(1) s pool_at_nonzero [OF s(2,1)] by simp
  have "unat ?a = unat (text_base (pat h)) + unat off"
    using s(2) off by (auto simp: base_ok_def site_ok_def POOL_OFF_def unat_word_ariths)
  then have az: "?a \<noteq> 0" using s(2) by (auto simp: base_ok_def simp flip: unat_eq_0)
  have even: "?a AND 1 = 0"
    using aligned_bits(1) [of ?a] s(2) off and_1_bit [of ?a] by (auto simp: base_ok_def site_ok_def and_3_mod aligned_add)
  have eq: "HOOK ku off fn name h = h\<lparr>orig := (orig h)(name := t), pat := s'\<lparr>code := ku (code s') ?a (words [0xe51ff004, fn])\<rparr>\<rparr>"
    using mk tz az even by (simp add: HOOK_def Let_def hook_addr_def hook_arm_def)
  show "orig (HOOK ku off fn name h) = (orig h)(name := pool_at (ensure_pool (pat h)))"
    using m(1) s by (simp add: eq)
  show "words_at (code (pat (HOOK ku off fn name h))) ?a [0xe51ff004, fn]"
    using kubridge.words_written [OF k, of "[0xe51ff004, fn]" "code s'" ?a] by (simp add: eq)
  have p: "patched_at off (pat h) s'" using m(2) s by simp
  have "same_bytes (ku (code s') ?a (words [0xe51ff004, fn])) (code (pat h)) (text_base (pat h) + x) 8"
    if "site_ok x" "apart x off" for x
    using kubridge.site_write_frame [OF k that(2) _ site_bound [OF off] site_bound [OF that(1)],
        of "words [0xe51ff004, fn]" "code s'" "text_base (pat h)"] p that
    by (auto simp: patched_at_def intro: same_bytes_trans)
  then show "patched_at off (pat h) (pat (HOOK ku off fn name h))"
    using p by (auto simp: patched_at_def eq pool_ok_def)
qed

lemma thunk_patched:
  assumes ku: "ku_memcpy_law ku" and s: "pool_ok s" "tramp_used s + 4 * length ws \<le> POOL_SIZE"
    and off: "site_ok off" and ws: "length ws \<le> 12"
  shows "patched_at off s ((ensure_pool s)\<lparr>code := ku (ku (code s) (pool_at (ensure_pool s)) (words ws)) (text_base s + off) (words [b]),
     tramp_used := tramp_used s + 4 * length ws\<rparr>)"
proof -
  have k: "kubridge ku" using ku by unfold_locales
  let ?m = "ku (code s) (pool_at (ensure_pool s)) (words ws)"
  have "same_bytes (ku ?m (text_base s + off) (words [b])) (code s) (text_base s + x) 8"
    if "site_ok x" "apart x off" for x
  proof -
    have "same_bytes (ku ?m (text_base s + off) (words [b])) ?m (text_base s + x) 8"
      by (rule kubridge.site_write_frame [OF k that(2) _ site_bound [OF off] site_bound [OF that(1)]]) simp
    moreover have "same_bytes ?m (code s) (text_base s + x) 8"
      unfolding pool_at_ok [OF s(1)] using that s by (intro kubridge.pool_write_frame [OF k]) simp_all
    ultimately show ?thesis by (rule same_bytes_trans)
  qed
  moreover have "pool_ok ((ensure_pool s)\<lparr>code := m, tramp_used := tramp_used s + 4 * length ws\<rparr>)" for m
    using s by (auto simp: pool_ok_def ensure_pool_def)
  ultimately show ?thesis using ws by (simp add: patched_at_def)
qed

lemma patched_at_refl: "pool_ok s \<Longrightarrow> patched_at off s s"
  by (simp add: patched_at_def)

lemma patched_at_ensure: "pool_ok s \<Longrightarrow> patched_at off s (ensure_pool s)"
  by (auto simp: patched_at_def pool_ok_def ensure_pool_def)

lemma patch_spin_patched:
  assumes "ku_memcpy_law ku" "pool_ok s" "tramp_used s + 48 \<le> POOL_SIZE" "site_ok off"
  shows "patched_at off s (patch_spin ku delay off s)"
  using assms patched_at_refl thunk_patched [of ku s "spin_thunk (text_base s + off + 12) delay" off]
  by (simp add: patch_spin_def Let_def spin_thunk_def)

lemma patch_null_guard_patched:
  assumes "ku_memcpy_law ku" "pool_ok s" "tramp_used s + 48 \<le> POOL_SIZE" "site_ok off"
  shows "patched_at off s (patch_null_guard ku off ret_off s)"
  using assms patched_at_refl
    thunk_patched [of ku s "null_guard_thunk (text_base s + off) (text_base s + ret_off)" off]
  by (simp add: patch_null_guard_def Let_def null_guard_thunk_def)

fun hook_name :: "patch \<Rightarrow> string option" where
  "hook_name (Hook off name) = Some name"
| "hook_name _ = None"

definition patches_ok :: "patch list \<Rightarrow> bool" where
  "patches_ok ps \<longleftrightarrow> list_all site_ok (List.map_filter patch_site ps) \<and>
     sorted_wrt apart (List.map_filter patch_site ps) \<and> distinct (List.map_filter hook_name ps)"

text \<open>\<open>hook_in tb fn h off name\<close>: the function at \<open>off\<close> is redirected and its trampoline is in the pool.\<close>

definition hook_in :: "u32 \<Rightarrow> (string \<Rightarrow> u32) \<Rightarrow> hooked \<Rightarrow> u32 \<Rightarrow> string \<Rightarrow> bool" where
  "hook_in tb fn h off name \<longleftrightarrow>
     words_at (code (pat h)) (tb + off) [0xe51ff004, fn name] \<and> orig h name \<noteq> 0"

lemma map_filter_append [simp]:
  "List.map_filter f (xs @ ys) = List.map_filter f xs @ List.map_filter f ys"
  by (simp add: List.map_filter_def)

lemma map_filter_mem: "x \<in> set xs \<Longrightarrow> f x = Some y \<Longrightarrow> y \<in> set (List.map_filter f xs)"
  by (force simp: List.map_filter_def)

lemma apply_patch_patched:
  assumes ku: "ku_memcpy_law ku" and s: "pool_ok (pat h)" "base_ok (text_base (pat h))" "tramp_used (pat h) + 48 \<le> POOL_SIZE"
    and site: "\<And>off. patch_site p = Some off \<Longrightarrow> site_ok off"
  shows "patched_at (case patch_site p of Some off \<Rightarrow> off | None \<Rightarrow> 0) (pat h) (pat (apply_patch ku fn p h))"
  using assms HOOK_patched [OF ku s] patch_spin_patched [OF ku s(1,3)] patch_null_guard_patched [OF ku s(1,3)] patched_at_refl
  by (cases p) auto

lemma apply_patch_keeps:
  assumes ku: "ku_memcpy_law ku" and s: "pool_ok (pat h)" "base_ok (text_base (pat h))" "tramp_used (pat h) + 48 \<le> POOL_SIZE"
    and site: "\<And>off. patch_site p = Some off \<Longrightarrow> site_ok off \<and> apart o' off" and o': "site_ok o'"
    and name: "hook_name p \<noteq> Some name"
    and k: "hook_in (text_base (pat h)) fn h o' name"
  shows "hook_in (text_base (pat h)) fn (apply_patch ku fn p h) o' name"
proof -
  have "same_bytes (code (pat (apply_patch ku fn p h))) (code (pat h)) (text_base (pat h) + o') 8"
  proof (cases "patch_site p")
    case None
    then show ?thesis by (cases p) auto
  next
    case (Some off)
    then show ?thesis using apply_patch_patched [OF ku s, of p fn] site o' by (auto simp: patched_at_def)
  qed
  then have "words_at (code (pat (apply_patch ku fn p h))) (text_base (pat h) + o') [0xe51ff004, fn name]"
    using k same_bytes_words [of _ _ _ "[0xe51ff004, fn name]"] unfolding hook_in_def by fastforce
  moreover have "orig (apply_patch ku fn p h) name = orig h name"
    using name by (cases p) (auto simp: HOOK_def Let_def split: prod.splits)
  ultimately show ?thesis using k by (simp add: hook_in_def)
qed

lemma fold_patches:
  fixes fn :: "string \<Rightarrow> u32"
  assumes ku: "ku_memcpy_law ku"
    and s: "pool_ok (pat h)" "base_ok (text_base (pat h))" "tramp_used (pat h) + 48 * length ps \<le> POOL_SIZE"
    and ps: "patches_ok ps"
  defines "h' \<equiv> fold (apply_patch ku fn) ps h"
  shows "text_base (pat h') = text_base (pat h) \<and> pool_ok (pat h') \<and> tramp_used (pat h') \<le> tramp_used (pat h) + 48 * length ps \<and>
    (\<forall>off name. Hook off name \<in> set ps \<longrightarrow> hook_in (text_base (pat h)) fn h' off name)"
  unfolding h'_def using s(3) ps
proof (induction ps rule: rev_induct)
  case Nil
  then show ?case using s by simp
next
  case (snoc p ps)
  let ?tb = "text_base (pat h)"
  define g where "g = fold (apply_patch ku fn) ps h"
  have pre: "patches_ok ps"
    using snoc.prems(2) by (auto simp: patches_ok_def sorted_wrt_append)
  have IH: "text_base (pat g) = ?tb" "pool_ok (pat g)" "tramp_used (pat g) \<le> tramp_used (pat h) + 48 * length ps"
    "\<And>off name. Hook off name \<in> set ps \<Longrightarrow> hook_in ?tb fn g off name"
    using snoc.IH pre snoc.prems(1) by (auto simp: g_def)
  have room: "tramp_used (pat g) + 48 \<le> POOL_SIZE" using IH(3) snoc.prems(1) by simp
  have sok: "site_ok off" if "patch_site p = Some off" for off
    using snoc.prems(2) that by (auto simp: patches_ok_def List.map_filter_simps)
  have b: "base_ok (text_base (pat g))" using s(2) IH(1) by simp
  note P = apply_patch_patched [OF ku IH(2) b room sok, of p fn, unfolded patched_at_def IH(1)]
  have "hook_in ?tb fn (apply_patch ku fn p g) off name" if "Hook off name \<in> set (ps @ [p])" for off name
  proof (cases "p = Hook off name")
    case True
    then show ?thesis
      using HOOK_patched [OF ku IH(2) b room, of off "fn name" name] sok pool_at_nonzero [OF b IH(2)] IH(1)
      by (simp add: hook_in_def)
  next
    case False
    then have in_ps: "Hook off name \<in> set ps" using that by simp
    have mem: "off \<in> set (List.map_filter patch_site ps)" "name \<in> set (List.map_filter hook_name ps)"
      using map_filter_mem [OF in_ps, of patch_site] map_filter_mem [OF in_ps, of hook_name] by simp_all
    have "hook_name p \<noteq> Some name"
    proof
      assume n: "hook_name p = Some name"
      have "distinct (List.map_filter hook_name (ps @ [p]))" using snoc.prems(2) by (simp add: patches_ok_def)
      then show False using mem(2) by (simp add: List.map_filter_simps n)
    qed
    then show ?thesis
      using apply_patch_keeps [OF ku IH(2) b room, of p off name fn] IH(1) IH(4) [OF in_ps] mem snoc.prems(2)
      by (auto simp: patches_ok_def sorted_wrt_append List.map_filter_simps list_all_iff)
  qed
  then show ?case using P IH(3) by (simp add: g_def)
qed

lemma install_list_sites: "List.map_filter patch_site install_list =
   [0xd929e8, 0xd86614, 0xd99908, 0x14ef4c, 0x14ee2c, 0x14f214, 0x651cec, 0x65950c, 0x5ff834, 0x1b7968, 0xa3b18c,
    0x14b888, 0x6438c0, 0x642b78, 0x483318, 0x482fe0, 0x638408, 0x639180, 0x63ddf8, 0x642980, 0x63ae4c]"
  by (simp add: install_list_def List.map_filter_simps)

lemma install_list_ok: "patches_ok install_list"
proof -
  have "list_all site_ok (List.map_filter patch_site install_list)"
    unfolding install_list_sites by (simp add: site_ok_def POOL_OFF_def)
  moreover have "sorted_wrt apart (List.map_filter patch_site install_list)"
    unfolding install_list_sites by (simp add: apart_def)
  moreover have "distinct (List.map_filter hook_name install_list)"
    by (simp add: install_list_def List.map_filter_simps)
  ultimately show ?thesis by (simp add: patches_ok_def)
qed


section \<open>Witnesses\<close>

text \<open>The module at its load address \<open>0x94000000\<close>, with the given words at an offset.\<close>

definition demo_patcher :: "u32 \<Rightarrow> u32 list \<Rightarrow> patcher" where
  "demo_patcher off ws = \<lparr>text_base = 0x94000000, tramp_pool = 0, tramp_used = 0,
     code = write_bytes (\<lambda>_. 0) (0x94000000 + off) (words ws)\<rparr>"

lemma demo_patcher_simps [simp]:
  "text_base (demo_patcher off ws) = 0x94000000" "tramp_used (demo_patcher off ws) = 0"
  "tramp_pool (demo_patcher off ws) = 0"
  "pool_ok (demo_patcher off ws)" "pool_at (ensure_pool (demo_patcher off ws)) = 0x9566C640"
  by (simp_all add: demo_patcher_def pool_ok_def pool_at_def ensure_pool_def POOL_OFF_def)

lemma demo_patcher_words:
  "length ws < 1000 \<Longrightarrow> words_at (code (demo_patcher off ws)) (0x94000000 + off) ws"
  unfolding demo_patcher_def by (simp add: flat.words_written)

definition demo_call :: "u32 \<Rightarrow> memory \<Rightarrow> cpu" where
  "demo_call a m = \<lparr>regs = (\<lambda>r. if r = 13 then 0x81000000 else 0), pc = a, thumb = False,
     fN = False, fZ = False, fC = False, fV = False, mem = m\<rparr>"

lemma demo_call_simps [simp]:
  "pc (demo_call a m) = a" "mem (demo_call a m) = m" "\<not> thumb (demo_call a m)"
  "regs (demo_call a m) 13 = 0x81000000" "regs (demo_call a m) 0 = 0"
  by (simp_all add: demo_call_def)

definition demo_spin :: patcher where
  "demo_spin = demo_patcher 0x651cec [0xE5913024, 0xE3530002, 0x1AFFFFFC]"

theorem patch_spin_correct_witness:
  "let c = demo_call 0x94651cec (code (patch_spin write_bytes 0x98000000 0x651cec demo_spin)); v = load32 (mem c) (regs c 1 + 0x24)
   in if v = 2 then
      arm_run 5 c = Some (c\<lparr>regs := (regs c)(3 := 2), fN := False, fZ := True, fC := True, fV := False, pc := 0x94651cec + 12\<rparr>)
    else (\<exists>c'. arm_run 8 c = Some c' \<and> pc c' = 0x98000000 \<and> regs c' 0 = 200 \<and> regs c' 14 = 0x9566C640 + 0x1C \<and>
      (\<forall>d. aapcs_return 24 0x9566C640 48 c' d \<longrightarrow>
         (\<exists>d'. arm_run 2 d = Some d' \<and> pc d' = 0x9566C640 \<and> \<not> thumb d' \<and>
               list_all (\<lambda>r. regs d' r = (if r = 3 then v else regs c r)) [0..<15])))"
  unfolding Let_def
  by (rule patch_spin_correct [OF write_bytes_law, of demo_spin])
    (use demo_patcher_words [of "[0xE5913024, 0xE3530002, 0x1AFFFFFC]" "0x651cec"] in
      \<open>simp_all add: demo_spin_def site_ok_def POOL_OFF_def POOL_SIZE_def\<close>)

definition demo_guard :: patcher where
  "demo_guard = demo_patcher 0x5ff834 [0xE5903000]"

theorem patch_null_guard_correct_witness:
  "arm_run 3 (demo_call 0x945ff834 (code (patch_null_guard write_bytes 0x5ff834 0x5ff878 demo_guard))) =
     Some ((demo_call 0x945ff834 (code (patch_null_guard write_bytes 0x5ff834 0x5ff878 demo_guard)))
       \<lparr>fN := False, fZ := True, fC := True, fV := False, pc := 0x945ff878\<rparr>)"
  using patch_null_guard_correct [of write_bytes demo_guard "0x5ff834" "0x945ff834" "0x945ff878" "0x5ff878"
      "demo_call 0x945ff834 (code (patch_null_guard write_bytes 0x5ff834 0x5ff878 demo_guard))", OF write_bytes_law]
    demo_patcher_words [of "[0xE5903000]" "0x5ff834"]
  by (simp add: demo_guard_def site_ok_def POOL_OFF_def POOL_SIZE_def)

text \<open>A function that starts with two literal loads, \<open>ldr r0, [pc, #16]\<close> and \<open>ldr r1, [pc, #16]\<close>.\<close>

definition demo_lits :: patcher where
  "demo_lits = demo_patcher 0x1000 [0xE59F0010, 0xE59F1010, 0, 0, 0, 0, 0x11223344, 0x55667788]"

definition demo_made :: "u32 \<times> patcher" where
  "demo_made = make_trampoline write_bytes 0x94001000 demo_lits"



end
