(* ===== verification/Emerg_Set.thy ===== *)
theory Emerg_Set
  imports Prelude
begin

text \<open>
  The emergency allocator's pointer set (\<open>emerg_set\<close> of \<open>default_dynlib.c\<close>): open addressing with linear
  probing in 16384 cells, \<open>NULL\<close> for an empty one, deletion by re-inserting the probe chain behind the
  hole.  A probe that runs over all cells without finding an empty one never ends in C; here it is
  \<open>None\<close>, and the invariant excludes it.
\<close>

section \<open>Operations\<close>

definition EMERG_SET :: nat where "EMERG_SET = 16384"

definition emerg_h :: "u32 \<Rightarrow> nat" where
  "emerg_h p = unat (drop_bit 4 p * 2654435761) mod EMERG_SET"

definition nxt :: "nat \<Rightarrow> nat" where
  "nxt i = (i + 1) mod EMERG_SET"

fun emerg_probe :: "u32 list \<Rightarrow> u32 \<Rightarrow> nat \<Rightarrow> nat \<Rightarrow> nat option" where
  "emerg_probe s p 0 i = None"
| "emerg_probe s p (Suc k) i =
     (if s ! i = p then Some i else if s ! i = 0 then None else emerg_probe s p k (nxt i))"

definition emerg_find :: "u32 list \<Rightarrow> u32 \<Rightarrow> nat option" where
  "emerg_find s p = emerg_probe s p EMERG_SET (emerg_h p)"

text \<open>\<open>while (emerg_set[i]) i = (i + 1) % EMERG_SET\<close>; the first argument counts the cells left to see.\<close>

fun first_free :: "nat \<Rightarrow> u32 list \<Rightarrow> nat \<Rightarrow> nat option" where
  "first_free 0 s i = None"
| "first_free (Suc k) s i = (if s ! i = 0 then Some i else first_free k s (nxt i))"

definition emerg_insert :: "u32 list \<Rightarrow> u32 \<Rightarrow> u32 list option" where
  "emerg_insert s p = do { i \<leftarrow> first_free EMERG_SET s (emerg_h p); Some (s[i := p]) }"

text \<open>The loop that re-inserts the cells behind a hole, from \<open>j\<close> to the next empty cell.\<close>

fun emerg_rehash :: "nat \<Rightarrow> u32 list \<Rightarrow> nat \<Rightarrow> u32 list option" where
  "emerg_rehash 0 s j = None"
| "emerg_rehash (Suc k) s j =
     (if s ! j = 0 then Some s
      else do { s' \<leftarrow> emerg_insert (s[j := 0]) (s ! j); emerg_rehash k s' (nxt j) })"

definition emerg_delete :: "u32 list \<Rightarrow> nat \<Rightarrow> u32 list option" where
  "emerg_delete s i = emerg_rehash EMERG_SET (s[i := 0]) (nxt i)"

section \<open>Invariant\<close>

text \<open>\<open>reach s a x\<close>: a probe that starts at \<open>a\<close> arrives at \<open>x\<close> over occupied cells.\<close>

definition reach :: "u32 list \<Rightarrow> nat \<Rightarrow> nat \<Rightarrow> bool" where
  "reach s a x \<longleftrightarrow> (\<exists>d < EMERG_SET. x = (a + d) mod EMERG_SET \<and>
     (\<forall>d' < d. s ! ((a + d') mod EMERG_SET) \<noteq> 0))"

definition members :: "u32 list \<Rightarrow> u32 set" where
  "members s = set s - {0}"

definition cell_inj :: "u32 list \<Rightarrow> bool" where
  "cell_inj s \<longleftrightarrow> (\<forall>x < EMERG_SET. \<forall>y < EMERG_SET. s ! x = s ! y \<and> s ! x \<noteq> 0 \<longrightarrow> x = y)"

definition set_inv :: "u32 list \<Rightarrow> bool" where
  "set_inv s \<longleftrightarrow> length s = EMERG_SET \<and> cell_inj s \<and>
     (\<forall>x < EMERG_SET. s ! x \<noteq> 0 \<longrightarrow> reach s (emerg_h (s ! x)) x)"

definition has_room :: "u32 list \<Rightarrow> bool" where
  "has_room s \<longleftrightarrow> (\<exists>x < EMERG_SET. s ! x = 0)"

lemma EMERG_SET_pos [simp]: "0 < EMERG_SET"
  by (simp add: EMERG_SET_def)

lemma emerg_h_less [simp]: "emerg_h p < EMERG_SET"
  by (simp add: emerg_h_def)

lemma nxt_less [simp]: "nxt i < EMERG_SET"
  by (simp add: nxt_def)

lemma nxt_add [simp]: "(nxt i + d) mod EMERG_SET = (i + Suc d) mod EMERG_SET"
  by (simp add: nxt_def mod_simps)

lemma mod_self_less: "i < EMERG_SET \<Longrightarrow> i mod EMERG_SET = i"
  by simp

section \<open>Probing\<close>

lemma emerg_probe_Some:
  assumes "i < EMERG_SET"
  shows "emerg_probe s p k i = Some x \<longleftrightarrow>
    (\<exists>d < k. x = (i + d) mod EMERG_SET \<and> s ! x = p \<and>
      (\<forall>d' < d. s ! ((i + d') mod EMERG_SET) \<noteq> p \<and> s ! ((i + d') mod EMERG_SET) \<noteq> 0))"
  using assms
proof (induction k arbitrary: i)
  case 0
  then show ?case by simp
next
  case (Suc k)
  note IH = Suc.IH [OF nxt_less [of i]]
  show ?case
    using Suc.prems unfolding Ex_less_Suc2 All_less_Suc2
    by (cases "s ! i = p"; cases "s ! i = 0") (auto simp: IH)
qed

lemma first_free_Some:
  assumes "i < EMERG_SET"
  shows "first_free k s i = Some x \<longleftrightarrow>
    (\<exists>d < k. x = (i + d) mod EMERG_SET \<and> s ! x = 0 \<and> (\<forall>d' < d. s ! ((i + d') mod EMERG_SET) \<noteq> 0))"
  using assms
proof (induction k arbitrary: i)
  case 0
  then show ?case by simp
next
  case (Suc k)
  note IH = Suc.IH [OF nxt_less [of i]]
  show ?case
    using Suc.prems unfolding Ex_less_Suc2 All_less_Suc2
    by (cases "s ! i = p"; cases "s ! i = 0") (auto simp: IH)
qed

lemma first_free_reach:
  assumes "i < EMERG_SET" "first_free EMERG_SET s i = Some x"
  shows "x < EMERG_SET" "s ! x = 0" "reach s i x"
  using assms by (auto simp: first_free_Some reach_def)

lemma cyc_offset:
  assumes "a < EMERG_SET" "x < EMERG_SET"
  shows "\<exists>d < EMERG_SET. x = (a + d) mod EMERG_SET"
proof -
  have "x = (a + (x + EMERG_SET - a) mod EMERG_SET) mod EMERG_SET"
    using assms by (simp add: mod_simps)
  then show ?thesis using mod_less_divisor [OF EMERG_SET_pos] by blast
qed

lemma first_free_exists:
  assumes "has_room s" "i < EMERG_SET"
  shows "\<exists>x. first_free EMERG_SET s i = Some x"
proof -
  obtain x where "x < EMERG_SET" "s ! x = 0" using assms(1) by (auto simp: has_room_def)
  then obtain d where d: "d < EMERG_SET" "s ! ((i + d) mod EMERG_SET) = 0"
    using cyc_offset [OF assms(2)] by metis
  define e where "e = (LEAST d. s ! ((i + d) mod EMERG_SET) = 0)"
  have "s ! ((i + e) mod EMERG_SET) = 0" "e \<le> d" "\<forall>d' < e. s ! ((i + d') mod EMERG_SET) \<noteq> 0"
    using d(2) unfolding e_def by (auto intro: LeastI Least_le dest: not_less_Least)
  then have "first_free EMERG_SET s i = Some ((i + e) mod EMERG_SET)"
    using d(1) assms(2) by (subst first_free_Some) (auto intro!: exI [of _ e])
  then show ?thesis by blast
qed

text \<open>\<open>emerg_find\<close> decides membership, and finds the one cell of a member.\<close>

lemma emerg_find_iff:
  assumes inv: "set_inv s" and p: "p \<noteq> 0"
  shows "emerg_find s p = Some x \<longleftrightarrow> x < EMERG_SET \<and> s ! x = p"
proof
  assume "emerg_find s p = Some x"
  then show "x < EMERG_SET \<and> s ! x = p" by (auto simp: emerg_find_def emerg_probe_Some)
next
  assume x: "x < EMERG_SET \<and> s ! x = p"
  then obtain d where d: "d < EMERG_SET" "x = (emerg_h p + d) mod EMERG_SET"
      "\<forall>d' < d. s ! ((emerg_h p + d') mod EMERG_SET) \<noteq> 0"
    using inv p unfolding set_inv_def reach_def by fastforce
  have "s ! ((emerg_h p + d') mod EMERG_SET) \<noteq> p" if "d' < d" for d'
  proof
    assume "s ! ((emerg_h p + d') mod EMERG_SET) = p"
    then have "(emerg_h p + d') mod EMERG_SET = (emerg_h p + d) mod EMERG_SET"
      using inv x p d(2) unfolding set_inv_def cell_inj_def by (metis mod_less_divisor EMERG_SET_pos)
    then show False using mod_index_inj [of "emerg_h p + d'" "emerg_h p + d" EMERG_SET] that d(1) by simp
  qed
  then show "emerg_find s p = Some x"
    using d x unfolding emerg_find_def by (subst emerg_probe_Some) auto
qed

lemma in_members: "length s = EMERG_SET \<Longrightarrow> p \<in> members s \<longleftrightarrow> p \<noteq> 0 \<and> (\<exists>x < EMERG_SET. s ! x = p)"
  by (auto simp: members_def in_set_conv_nth)

lemma emerg_find_member:
  assumes "set_inv s" "p \<noteq> 0"
  shows "(emerg_find s p \<noteq> None) = (p \<in> members s)"
  using assms emerg_find_iff [OF assms] by (auto simp: in_members set_inv_def)

section \<open>Insertion\<close>

lemma update_nonzero: "s ! i \<noteq> 0 \<Longrightarrow> q \<noteq> 0 \<Longrightarrow> s[k := q] ! i \<noteq> (0 :: u32)"
  by (cases "k < length s") (auto simp: nth_list_update list_update_beyond)

lemma reach_update:
  assumes "reach s a x" "q \<noteq> 0"
  shows "reach (s[k := q]) a x"
proof -
  obtain d where "d < EMERG_SET" "x = (a + d) mod EMERG_SET" "\<forall>d' < d. s ! ((a + d') mod EMERG_SET) \<noteq> 0"
    using assms(1) unfolding reach_def by blast
  moreover have "\<forall>d' < d. s[k := q] ! ((a + d') mod EMERG_SET) \<noteq> 0"
    using calculation(3) assms(2) update_nonzero by blast
  ultimately show ?thesis unfolding reach_def by blast
qed

lemma cell_inj_insert:
  assumes "length s = EMERG_SET" "cell_inj s" "q \<notin> members s"
  shows "cell_inj (s[k := q])"
proof -
  have "s ! x \<noteq> q \<or> q = 0" if "x < EMERG_SET" for x using assms(1,3) that by (auto simp: in_members)
  then show ?thesis using assms(1,2)
    by (cases "k < EMERG_SET") (auto simp: cell_inj_def nth_list_update split: if_splits)
qed

lemma members_insert:
  assumes "length s = EMERG_SET" "k < EMERG_SET" "s ! k = 0" "q \<noteq> 0"
  shows "members (s[k := q]) = insert q (members s)"
proof -
  have "x \<in> members (s[k := q]) \<longleftrightarrow> x = q \<or> x \<in> members s" for x
    using assms by (auto simp: in_members nth_list_update split: if_splits)
  then show ?thesis by blast
qed

lemma emerg_insert_correct:
  assumes inv: "set_inv s" and room: "has_room s" and p: "p \<noteq> 0" "p \<notin> members s"
  shows "\<exists>s'. emerg_insert s p = Some s' \<and> set_inv s' \<and> members s' = insert p (members s)"
proof -
  obtain k where ff: "first_free EMERG_SET s (emerg_h p) = Some k"
    using first_free_exists [OF room emerg_h_less] by blast
  note k = first_free_reach [OF emerg_h_less ff]
  have len: "length s = EMERG_SET" using inv by (simp add: set_inv_def)
  have "reach (s[k := p]) (emerg_h (s[k := p] ! x)) x" if "x < EMERG_SET" "s[k := p] ! x \<noteq> 0" for x
    using that inv k p len reach_update [OF _ p(1)] by (cases "x = k") (auto simp: set_inv_def)
  then have "set_inv (s[k := p])"
    using inv p cell_inj_insert [OF len] by (simp add: set_inv_def)
  then show ?thesis using ff members_insert [OF len k(1,2) p(1)] by (simp add: emerg_insert_def)
qed

section \<open>Deletion\<close>

text \<open>
  Seen from an empty cell \<open>e\<close>, the ring is a line: \<open>at e t\<close> is the cell \<open>t\<close> steps behind \<open>e + 1\<close>, and
  \<open>pos e\<close> its inverse.  No probe path of a stored pointer crosses \<open>e\<close>, so each is an interval of the line.
\<close>

definition at :: "nat \<Rightarrow> nat \<Rightarrow> nat" where
  "at e t = (e + 1 + t) mod EMERG_SET"

definition pos :: "nat \<Rightarrow> nat \<Rightarrow> nat" where
  "pos e v = (v + EMERG_SET - (e + 1)) mod EMERG_SET"

lemma at_less [simp]: "at e t < EMERG_SET"
  by (simp add: at_def)

lemma pos_less [simp]: "pos e v < EMERG_SET"
  by (simp add: pos_def)

lemma at_pos: "e < EMERG_SET \<Longrightarrow> v < EMERG_SET \<Longrightarrow> at e (pos e v) = v"
proof -
  assume a: "e < EMERG_SET" "v < EMERG_SET"
  have "(e + 1 + (v + EMERG_SET - (e + 1)) mod EMERG_SET) mod EMERG_SET = (e + 1 + (v + EMERG_SET - (e + 1))) mod EMERG_SET"
    by (rule mod_add_right_eq)
  also have "e + 1 + (v + EMERG_SET - (e + 1)) = v + EMERG_SET" using a by simp
  finally show ?thesis using a by (simp add: at_def pos_def)
qed

lemma pos_at: "e < EMERG_SET \<Longrightarrow> t < EMERG_SET \<Longrightarrow> pos e (at e t) = t"
proof -
  assume a: "e < EMERG_SET" "t < EMERG_SET"
  have "(at e t + EMERG_SET - (e + 1)) mod EMERG_SET = (at e t + (EMERG_SET - (e + 1))) mod EMERG_SET"
    using a by simp
  also have "\<dots> = (e + 1 + t + (EMERG_SET - (e + 1))) mod EMERG_SET" by (simp add: at_def mod_simps)
  also have "\<dots> = t" using a by simp
  finally show ?thesis by (simp add: pos_def)
qed

lemma at_inj: "e < EMERG_SET \<Longrightarrow> t < EMERG_SET \<Longrightarrow> u < EMERG_SET \<Longrightarrow> at e t = at e u \<longleftrightarrow> t = u"
  by (metis pos_at)

lemma at_last: "e < EMERG_SET \<Longrightarrow> at e (EMERG_SET - 1) = e"
  by (simp add: at_def)

lemma at_last' [simp]: "e < EMERG_SET \<Longrightarrow> at e (EMERG_SET - Suc 0) = e"
  using at_last [of e] by simp

lemma nxt_at: "nxt (at e t) = at e (Suc t)"
  by (simp add: nxt_def at_def mod_simps)

lemma at_shift:
  assumes "e < EMERG_SET" "a < EMERG_SET"
  shows "(a + d) mod EMERG_SET = at e (pos e a + d)"
proof -
  have "(a + d) mod EMERG_SET = (at e (pos e a) + d) mod EMERG_SET" using assms by (simp add: at_pos)
  also have "\<dots> = at e (pos e a + d)" by (simp add: at_def mod_simps add.assoc)
  finally show ?thesis .
qed

lemma reach_line:
  assumes e: "e < EMERG_SET" "s ! e = 0" and a: "a < EMERG_SET" and u: "u < EMERG_SET"
  shows "reach s a (at e u) \<longleftrightarrow> pos e a \<le> u \<and> (\<forall>v. pos e a \<le> v \<and> v < u \<longrightarrow> s ! at e v \<noteq> 0)"
proof
  assume "reach s a (at e u)"
  then obtain d where d: "d < EMERG_SET" "at e u = at e (pos e a + d)"
      "\<forall>d' < d. s ! at e (pos e a + d') \<noteq> 0"
    unfolding reach_def at_shift [OF e(1) a] by blast
  have "pos e a + d < EMERG_SET"
  proof (rule ccontr)
    assume over: "\<not> pos e a + d < EMERG_SET"
    have "pos e a + (EMERG_SET - 1 - pos e a) = EMERG_SET - 1" using pos_less [of e a] by linarith
    moreover have "EMERG_SET - 1 - pos e a < d" using over pos_less [of e a] by linarith
    ultimately have "s ! at e (EMERG_SET - 1) \<noteq> 0" using d(3) by metis
    then show False using e by (simp add: at_last)
  qed
  then have "u = pos e a + d" using d(2) at_inj [OF e(1) u] by simp
  then show "pos e a \<le> u \<and> (\<forall>v. pos e a \<le> v \<and> v < u \<longrightarrow> s ! at e v \<noteq> 0)"
    using d(3) by (auto simp: le_iff_add)
next
  assume l: "pos e a \<le> u \<and> (\<forall>v. pos e a \<le> v \<and> v < u \<longrightarrow> s ! at e v \<noteq> 0)"
  then show "reach s a (at e u)"
    unfolding reach_def at_shift [OF e(1) a] using u
    by (intro exI [of _ "u - pos e a"]) auto
qed

text \<open>
  The state of the re-insertion loop at line position \<open>t\<close>: what lies before \<open>t\<close> is again reachable, what
  lies from \<open>t\<close> to the empty cell \<open>e\<close> is still where it was, without a gap.
\<close>

definition rehash_inv :: "nat \<Rightarrow> u32 set \<Rightarrow> u32 list \<Rightarrow> nat \<Rightarrow> bool" where
  "rehash_inv e M s t \<longleftrightarrow> length s = EMERG_SET \<and> s ! e = 0 \<and> cell_inj s \<and> members s = M \<and>
     (\<forall>u < t. s ! at e u \<noteq> 0 \<longrightarrow> reach s (emerg_h (s ! at e u)) (at e u)) \<and>
     (\<forall>u. t \<le> u \<and> u < EMERG_SET - 1 \<longrightarrow> s ! at e u \<noteq> 0 \<and> pos e (emerg_h (s ! at e u)) \<le> u)"

lemma rehash_step:
  assumes e: "e < EMERG_SET" and I: "rehash_inv e M s t" and t: "t < EMERG_SET - 1"
  shows "\<exists>s'. emerg_insert (s[at e t := 0]) (s ! at e t) = Some s' \<and> rehash_inv e M s' (Suc t)"
proof -
  define j q s1 where "j = at e t" and "q = s ! j" and "s1 = s[j := 0]"
  have len: "length s = EMERG_SET" "length s1 = EMERG_SET" and s: "s ! e = 0" "cell_inj s" "members s = M"
    using I by (auto simp: rehash_inv_def s1_def)
  have q: "q \<noteq> 0" "pos e (emerg_h q) \<le> t" using I t by (auto simp: rehash_inv_def q_def j_def)
  have jN: "j < EMERG_SET" by (simp add: j_def)
  have je: "j \<noteq> e" using s q by (auto simp: q_def)
  have s1: "s1 ! j = 0" "s1 ! e = 0" "\<And>x. x \<noteq> j \<Longrightarrow> s1 ! x = s ! x"
    using s je jN len by (auto simp: s1_def nth_list_update)
  have "has_room s1" using s1(1) jN by (auto simp: has_room_def)
  then obtain k where ff: "first_free EMERG_SET s1 (emerg_h q) = Some k"
    using first_free_exists emerg_h_less by blast
  note k = first_free_reach [OF emerg_h_less ff]
  have pk: "pos e k \<le> t"
  proof (rule ccontr)
    assume "\<not> pos e k \<le> t"
    moreover have "reach s1 (emerg_h q) (at e (pos e k))" using k e by (simp add: at_pos)
    ultimately have "s1 ! at e t \<noteq> 0"
      using q(2) by (subst (asm) reach_line [OF e s1(2) emerg_h_less pos_less]) simp
    then show False using s1(1) by (simp add: j_def)
  qed
  define s2 where "s2 = s1[k := q]"
  have ke: "k \<noteq> e"
  proof
    assume "k = e"
    then have "pos e k = EMERG_SET - 1" using e at_last [OF e] pos_at [of e "EMERG_SET - 1"] by simp
    then show False using pk t by simp
  qed
  have s2: "s2 ! k = q" "\<And>x. x \<noteq> k \<Longrightarrow> s2 ! x = s1 ! x" using k(1) len by (auto simp: s2_def nth_list_update)
  have inj1: "cell_inj s1" using s(2) len jN by (auto simp: cell_inj_def s1_def nth_list_update)
  have mem1: "q \<notin> members s1" "insert q (members s1) = M"
  proof -
    have only: "s ! x = q \<longleftrightarrow> x = j" if "x < EMERG_SET" for x
      using s(2) that jN q(1) unfolding cell_inj_def q_def by metis
    have "s1 ! x \<noteq> q" if "x < EMERG_SET" for x
      using only [OF that] q(1) s1(1) s1(3) [of x] by (cases "x = j") auto
    then show "q \<notin> members s1" by (auto simp: in_members [OF len(2)])
    have "x \<in> insert q (members s1) \<longleftrightarrow> x \<in> members s" for x
      using only q(1) s1(1,3) jN by (auto simp: in_members [OF len(1)] in_members [OF len(2)] q_def) metis+
    then show "insert q (members s1) = M" using s(3) by blast
  qed
  have s2z: "s2 ! x \<noteq> 0" if "s ! x \<noteq> 0" "x \<noteq> j" for x using that s1(3) s2 q(1) by metis
  have before: "reach s2 (emerg_h (s2 ! at e u)) (at e u)" if u: "u < Suc t" "s2 ! at e u \<noteq> 0" for u
  proof (cases "at e u = k")
    case True
    then show ?thesis using k(3) s2(1) reach_update [OF _ q(1)] by (simp add: s2_def)
  next
    case False
    then have uj: "at e u \<noteq> j" using u(2) s2(2) s1(1) by auto
    then have ut: "u < t" using u(1) by (auto simp: j_def less_Suc_eq)
    have same: "s2 ! at e u = s ! at e u" using False uj s1(3) s2(2) by simp
    then have r: "reach s (emerg_h (s ! at e u)) (at e u)" using I u(2) ut by (simp add: rehash_inv_def)
    have uN: "u < EMERG_SET" using ut t by simp
    have "s2 ! at e v \<noteq> 0" if "pos e (emerg_h (s ! at e u)) \<le> v" "v < u" for v
    proof -
      have "at e v \<noteq> j" using that ut t unfolding j_def by (subst at_inj [OF e]) simp_all
      moreover have "s ! at e v \<noteq> 0" using r that reach_line [OF e s(1) emerg_h_less uN] by blast
      ultimately show ?thesis by (rule s2z [rotated])
    qed
    moreover have "s2 ! e = 0" using s1(2) s2(2) ke by simp
    ultimately show ?thesis
      using r same reach_line [OF e s(1) emerg_h_less uN] reach_line [OF e _ emerg_h_less uN] by metis
  qed
  have behind: "s2 ! at e u \<noteq> 0 \<and> pos e (emerg_h (s2 ! at e u)) \<le> u" if u: "Suc t \<le> u" "u < EMERG_SET - 1" for u
  proof -
    have "at e u \<noteq> j" using u t unfolding j_def by (subst at_inj [OF e]) simp_all
    moreover have "at e u \<noteq> k"
    proof
      assume "at e u = k"
      then have "pos e k = u" using pos_at [OF e, of u] u(2) by simp
      then show False using pk u(1) by simp
    qed
    ultimately have "s2 ! at e u = s ! at e u" using s1(3) s2(2) by simp
    then show ?thesis using I u by (simp add: rehash_inv_def)
  qed
  have "rehash_inv e M s2 (Suc t)"
    unfolding rehash_inv_def
  proof (intro conjI)
    show "length s2 = EMERG_SET" using len by (simp add: s2_def)
    show "s2 ! e = 0" using s1(2) s2(2) ke by simp
    show "cell_inj s2" unfolding s2_def using len inj1 mem1(1) by (intro cell_inj_insert)
    show "members s2 = M" unfolding s2_def using members_insert [OF len(2) k(1,2) q(1)] mem1(2) by simp
  qed (use before behind in blast)+
  then show ?thesis using ff by (simp add: emerg_insert_def s2_def s1_def j_def q_def)
qed

lemma rehash_loop:
  assumes e: "e < EMERG_SET"
  shows "rehash_inv e M s t \<Longrightarrow> t \<le> EMERG_SET - 1 \<Longrightarrow> EMERG_SET - 1 - t < n \<Longrightarrow>
    \<exists>s'. emerg_rehash n s (at e t) = Some s' \<and> rehash_inv e M s' (EMERG_SET - 1)"
proof (induction n arbitrary: s t)
  case 0
  then show ?case by simp
next
  case (Suc n)
  show ?case
  proof (cases "t = EMERG_SET - 1")
    case True
    then have "s ! at e t = 0" using Suc.prems(1) e by (simp add: rehash_inv_def at_last)
    then show ?thesis using Suc.prems(1) True by simp
  next
    case False
    then have t: "t < EMERG_SET - 1" using Suc.prems(2) by simp
    then have nz: "s ! at e t \<noteq> 0" using Suc.prems(1) by (simp add: rehash_inv_def)
    obtain s' where s': "emerg_insert (s[at e t := 0]) (s ! at e t) = Some s'" "rehash_inv e M s' (Suc t)"
      using rehash_step [OF e Suc.prems(1) t] by blast
    moreover have "EMERG_SET - 1 - Suc t < n" using Suc.prems(3) t by linarith
    ultimately show ?thesis using Suc.IH [OF s'(2)] t nz by (simp add: nxt_at)
  qed
qed

lemma emerg_delete_correct:
  assumes inv: "set_inv s" and room: "has_room s" and i: "i < EMERG_SET" "s ! i = p" "p \<noteq> 0"
  shows "\<exists>s'. emerg_delete s i = Some s' \<and> set_inv s' \<and> members s' = members s - {p}"
proof -
  have len: "length s = EMERG_SET" using inv by (simp add: set_inv_def)
  define s0 where "s0 = s[i := 0]"
  have s0: "s0 ! i = 0" "\<And>x. x \<noteq> i \<Longrightarrow> s0 ! x = s ! x" using i(1) len by (simp_all add: s0_def)
  have "has_room s" by (rule room)
  then obtain e where ff: "first_free EMERG_SET s (nxt i) = Some e"
    using first_free_exists nxt_less by blast
  note e = first_free_reach [OF nxt_less ff]
  have ei: "e \<noteq> i" using e(2) i by auto
  have se: "s0 ! e = 0" using e(2) s0(2) ei by simp
  define t where "t = Suc (pos e i)"
  have nx: "nxt i = at e t" using at_pos [OF e(1) i(1)] nxt_at [of e "pos e i"] by (simp add: t_def)
  have tN: "t \<le> EMERG_SET - 1"
  proof -
    have "pos e i \<noteq> EMERG_SET - 1" using at_pos [OF e(1) i(1)] at_last [OF e(1)] ei by metis
    then show ?thesis using pos_less [of e i] unfolding t_def by linarith
  qed
  have gap: "s ! at e u \<noteq> 0" if "t \<le> u" "u < EMERG_SET - 1" for u
  proof -
    have "reach s (at e t) (at e (EMERG_SET - 1))" using e(3) nx at_last [OF e(1)] by simp
    moreover have "EMERG_SET - 1 < EMERG_SET" by simp
    ultimately have "\<forall>v. pos e (at e t) \<le> v \<and> v < EMERG_SET - 1 \<longrightarrow> s ! at e v \<noteq> 0"
      using reach_line [OF e(1,2) at_less [of e t]] by blast
    moreover have "pos e (at e t) = t" using pos_at [OF e(1), of t] tN EMERG_SET_pos by linarith
    ultimately show ?thesis using that by simp
  qed
  have reach_s: "reach s (emerg_h (s ! x)) x" if "x < EMERG_SET" "s ! x \<noteq> 0" for x
    using inv that by (simp add: set_inv_def)
  have "rehash_inv e (members s - {p}) s0 t"
    unfolding rehash_inv_def
  proof (intro conjI allI impI)
    show len0: "length s0 = EMERG_SET" and "s0 ! e = 0" using len se by (simp_all add: s0_def)
    show "cell_inj s0" using inv i(1) by (auto simp: set_inv_def cell_inj_def s0_def nth_list_update)
    have only: "s ! x = p \<longleftrightarrow> x = i" if "x < EMERG_SET" for x
      using inv that i unfolding set_inv_def cell_inj_def by metis
    have "x \<in> members s0 \<longleftrightarrow> x \<in> members s - {p}" for x
      unfolding Diff_iff in_members [OF len] in_members [OF len0] using only s0 i by (metis singleton_iff)
    then show "members s0 = members s - {p}" by blast
  next
    fix u assume u: "u < t" "s0 ! at e u \<noteq> 0"
    then have ne: "at e u \<noteq> i" using s0(1) by auto
    then have ui: "u < pos e i" using u(1) at_pos [OF e(1) i(1)] by (auto simp: t_def less_Suc_eq)
    have uN: "u < EMERG_SET" using ui pos_less [of e i] by linarith
    have sz: "s ! at e u \<noteq> 0" using u(2) ne s0(2) by simp
    have r: "pos e (emerg_h (s ! at e u)) \<le> u \<and> (\<forall>v. pos e (emerg_h (s ! at e u)) \<le> v \<and> v < u \<longrightarrow> s ! at e v \<noteq> 0)"
      using reach_s [OF at_less sz] reach_line [OF e(1,2) emerg_h_less uN] by blast
    have "s0 ! at e v = s ! at e v" if "v < u" for v
      using that ui at_inj [OF e(1), of v "pos e i"] at_pos [OF e(1) i(1)] pos_less [of e i] s0(2) by auto
    then show "reach s0 (emerg_h (s0 ! at e u)) (at e u)"
      using r ne s0(2) by (subst reach_line [OF e(1) se emerg_h_less uN]) auto
  next
    fix u assume u: "t \<le> u \<and> u < EMERG_SET - 1"
    have uN: "u < EMERG_SET" using u by linarith
    have "at e u \<noteq> i"
    proof
      assume "at e u = i"
      then have "pos e i = u" using pos_at [OF e(1) uN] by simp
      then show False using u by (simp add: t_def)
    qed
    then have eq: "s0 ! at e u = s ! at e u" by (rule s0(2))
    show "s0 ! at e u \<noteq> 0" using gap u eq by simp
    show "pos e (emerg_h (s0 ! at e u)) \<le> u"
      using reach_s [OF at_less gap] u reach_line [OF e(1,2) emerg_h_less uN] eq by auto
  qed
  then obtain s' where s': "emerg_rehash EMERG_SET s0 (nxt i) = Some s'" "rehash_inv e (members s - {p}) s' (EMERG_SET - 1)"
    using rehash_loop [OF e(1) _ tN, of "members s - {p}" s0 EMERG_SET] nx by auto
  have "reach s' (emerg_h (s' ! x)) x" if x: "x < EMERG_SET" "s' ! x \<noteq> 0" for x
  proof -
    have "x \<noteq> e" using x(2) s'(2) by (auto simp: rehash_inv_def)
    then have "pos e x \<noteq> EMERG_SET - 1" using at_pos [OF e(1) x(1)] at_last [OF e(1)] by metis
    then have "pos e x < EMERG_SET - 1" using pos_less [of e x] by linarith
    then show ?thesis using s'(2) x at_pos [OF e(1) x(1)] unfolding rehash_inv_def by metis
  qed
  then have "set_inv s'" using s'(2) by (simp add: set_inv_def rehash_inv_def)
  then show ?thesis using s' by (auto simp: emerg_delete_def s0_def rehash_inv_def)
qed

text \<open>
  C5: deleting a pointer from the open-addressing set removes it and nothing else: the re-insertion loop
  terminates, and afterwards a lookup finds exactly the other members, whatever collisions the hash
  function produced.
\<close>

theorem emerg_delete_exact:
  assumes "set_inv s" "has_room s" "p \<noteq> 0" "emerg_find s p = Some i"
  shows "\<exists>s'. emerg_delete s i = Some s' \<and> set_inv s' \<and>
    (\<forall>q. q \<noteq> 0 \<longrightarrow> (emerg_find s' q \<noteq> None) = (emerg_find s q \<noteq> None \<and> q \<noteq> p))"
proof -
  have i: "i < EMERG_SET" "s ! i = p" using assms emerg_find_iff by blast+
  obtain s' where s': "emerg_delete s i = Some s'" "set_inv s'" "members s' = members s - {p}"
    using emerg_delete_correct [OF assms(1,2) i assms(3)] by blast
  then show ?thesis using emerg_find_member [OF s'(2)] emerg_find_member [OF assms(1)] by auto
qed

definition demo_set :: "u32 list" where
  "demo_set = the (emerg_insert (replicate EMERG_SET 0) 0x81000010)"

lemma demo_set_inv: "set_inv demo_set" "has_room demo_set" "emerg_find demo_set 0x81000010 = Some (emerg_h 0x81000010)"
proof -
  have h: "emerg_h 0x81000010 < EMERG_SET" by simp
  have "first_free EMERG_SET (replicate EMERG_SET 0) (emerg_h 0x81000010) = Some (emerg_h 0x81000010)"
    by (subst first_free_Some) (auto intro!: exI [of _ 0])
  then have d: "demo_set = (replicate EMERG_SET 0)[emerg_h 0x81000010 := 0x81000010]"
    by (simp add: demo_set_def emerg_insert_def)
  have "set_inv (replicate EMERG_SET 0)" by (simp add: set_inv_def cell_inj_def)
  moreover have "has_room (replicate EMERG_SET 0)" unfolding has_room_def using h by (metis nth_replicate)
  moreover have "0x81000010 \<notin> members (replicate EMERG_SET 0)" by (auto simp: members_def)
  ultimately obtain s' where "emerg_insert (replicate EMERG_SET 0) 0x81000010 = Some s'" "set_inv s'"
    using emerg_insert_correct [of "replicate EMERG_SET 0" "0x81000010"] by auto
  then show s: "set_inv demo_set" by (simp add: demo_set_def)
  have "nxt (emerg_h 0x81000010) \<noteq> emerg_h 0x81000010"
    using h by (auto simp: nxt_def EMERG_SET_def mod_Suc)
  then have "demo_set ! nxt (emerg_h 0x81000010) = 0" by (simp add: d)
  then show "has_room demo_set" unfolding has_room_def using nxt_less by blast
  show "emerg_find demo_set 0x81000010 = Some (emerg_h 0x81000010)"
    using emerg_find_iff [OF s, of "0x81000010"] by (simp add: d)
qed

theorem emerg_delete_exact_witness:
  "\<exists>s'. emerg_delete demo_set (emerg_h 0x81000010) = Some s' \<and> set_inv s' \<and>
     (\<forall>q. q \<noteq> 0 \<longrightarrow> (emerg_find s' q \<noteq> None) = (emerg_find demo_set q \<noteq> None \<and> q \<noteq> 0x81000010))"
  by (rule emerg_delete_exact [OF demo_set_inv(1,2) _ demo_set_inv(3)]) simp

end
