(* ===== verification/Heap.thy ===== *)
theory Heap
  imports Emerg_Set Machine
begin

text \<open>
  The loader's allocator (\<open>default_dynlib.c\<close>): requests of the game go to vitaGL's idle pools (big
  blocks), to newlib, and, when newlib is exhausted, to vitaGL again with a 16-byte header and an entry
  in the pointer set of \<open>Emerg_Set\<close>, so that \<open>free\<close> and \<open>realloc\<close> can tell the owners apart.

  vitaGL's and newlib's allocators are parameters, with their state \<open>'e\<close>; what the loader relies on is
  \<open>alloc_law\<close>: a returned block is new, and lies apart from every live one.
\<close>

section \<open>The pointer set as an interface\<close>

locale pointer_set =
  fixes inv :: "'s \<Rightarrow> bool" and elems :: "'s \<Rightarrow> u32 set" and roomy :: "'s \<Rightarrow> bool"
    and find :: "'s \<Rightarrow> u32 \<Rightarrow> nat option" and ins :: "'s \<Rightarrow> u32 \<Rightarrow> 's option" and del :: "'s \<Rightarrow> nat \<Rightarrow> 's option"
  assumes find_law: "inv s \<Longrightarrow> p \<noteq> 0 \<Longrightarrow> (find s p \<noteq> None) = (p \<in> elems s)"
    and ins_law: "inv s \<Longrightarrow> roomy s \<Longrightarrow> p \<noteq> 0 \<Longrightarrow> p \<notin> elems s \<Longrightarrow>
      \<exists>s'. ins s p = Some s' \<and> inv s' \<and> elems s' = insert p (elems s)"
    and del_law: "inv s \<Longrightarrow> roomy s \<Longrightarrow> p \<noteq> 0 \<Longrightarrow> find s p = Some i \<Longrightarrow>
      \<exists>s'. del s i = Some s' \<and> inv s' \<and> elems s' = elems s - {p}"
begin

lemma find_None: "inv s \<Longrightarrow> p \<noteq> 0 \<Longrightarrow> p \<notin> elems s \<Longrightarrow> find s p = None"
  using find_law by (metis option.exhaust)

lemma find_Some: "inv s \<Longrightarrow> p \<noteq> 0 \<Longrightarrow> p \<in> elems s \<Longrightarrow> \<exists>i. find s p = Some i"
  using find_law by (metis option.exhaust)

lemma remove_member:
  assumes "inv s" "roomy s" "p \<noteq> 0" "p \<in> elems s"
  obtains i s' where "find s p = Some i" "del s i = Some s'" "inv s'" "elems s' = elems s - {p}"
  using find_Some [OF assms(1,3,4)] del_law [OF assms(1-3)] by blast

end

interpretation emerg: pointer_set set_inv members has_room emerg_find emerg_insert emerg_delete
proof unfold_locales
  show "(emerg_find s p \<noteq> None) = (p \<in> members s)" if "set_inv s" "p \<noteq> 0" for s p
    using that by (rule emerg_find_member)
  show "\<exists>s'. emerg_insert s p = Some s' \<and> set_inv s' \<and> members s' = insert p (members s)"
    if "set_inv s" "has_room s" "p \<noteq> 0" "p \<notin> members s" for s p
    using that by (rule emerg_insert_correct)
  show "\<exists>s'. emerg_delete s i = Some s' \<and> set_inv s' \<and> members s' = members s - {p}"
    if "set_inv s" "has_room s" "p \<noteq> 0" "emerg_find s p = Some i" for s p i
    using that emerg_find_iff emerg_delete_correct by blast
qed

section \<open>State and parameters\<close>

datatype vgl_pool = VGL_MEM_RAM | VGL_MEM_VRAM | VGL_MEM_PHYCONT | VGL_MEM_BUDGET

record 'e allocs =
  vglAlloc :: "u32 \<Rightarrow> vgl_pool \<Rightarrow> 'e \<Rightarrow> u32 \<times> 'e"
  vglFree :: "u32 \<Rightarrow> 'e \<Rightarrow> 'e"
  vglMemFree :: "vgl_pool \<Rightarrow> 'e \<Rightarrow> u32"
  c_malloc :: "u32 \<Rightarrow> 'e \<Rightarrow> u32 \<times> 'e"
  c_free :: "u32 \<Rightarrow> 'e \<Rightarrow> 'e"
  c_calloc :: "u32 \<Rightarrow> u32 \<Rightarrow> memory \<Rightarrow> 'e \<Rightarrow> u32 \<times> memory \<times> 'e"
  c_memalign :: "u32 \<Rightarrow> u32 \<Rightarrow> 'e \<Rightarrow> u32 \<times> 'e"
  c_realloc :: "u32 \<Rightarrow> u32 \<Rightarrow> memory \<Rightarrow> 'e \<Rightarrow> u32 \<times> memory \<times> 'e"
  c_usable_size :: "u32 \<Rightarrow> 'e \<Rightarrow> u32"

record 'e heap =
  big_tab :: "(u32 \<times> u32) list"
  emerg_set :: "u32 list"
  emerg_live :: nat
  emerg_total :: u32
  emerg_bytes :: u32
  hmem :: memory
  ext :: 'e

definition EMERG_HDR :: u32 where "EMERG_HDR = 16"

section \<open>Big blocks\<close>

definition big_pool :: "'e allocs \<Rightarrow> u32 \<Rightarrow> 'e \<Rightarrow> u32 \<times> 'e" where
  "big_pool al n e =
     (if n \<ge> 25 * 1024 * 1024 then
        (let (p, e) = vglAlloc al n VGL_MEM_PHYCONT e
         in if p = 0 then vglAlloc al n VGL_MEM_BUDGET e else (p, e))
      else if n \<le> vglMemFree al VGL_MEM_BUDGET e then vglAlloc al n VGL_MEM_BUDGET e
      else (0, e))"

definition big_alloc :: "'e allocs \<Rightarrow> u32 \<Rightarrow> 'e heap \<Rightarrow> u32 \<times> 'e heap" where
  "big_alloc al n h =
     (if n < 6 * 1024 * 1024 \<or> length (big_tab h) \<ge> 8 then (0, h)
      else let (p, e) = big_pool al n (ext h)
           in if p = 0 then (0, h\<lparr>ext := e\<rparr>)
              else (p, h\<lparr>ext := e, big_tab := big_tab h @ [(p, n)]\<rparr>))"

text \<open>\<open>big_tab[i] = big_tab[--big_n]\<close>: the last entry takes the place of the freed one.\<close>

fun big_index :: "(u32 \<times> u32) list \<Rightarrow> u32 \<Rightarrow> nat option" where
  "big_index [] p = None"
| "big_index (b # bs) p = (if fst b = p then Some 0 else map_option Suc (big_index bs p))"

definition swap_remove :: "'a list \<Rightarrow> nat \<Rightarrow> 'a list" where
  "swap_remove xs i = take (length xs - 1) (xs[i := last xs])"

definition big_free :: "'e allocs \<Rightarrow> u32 \<Rightarrow> 'e heap \<Rightarrow> (bool \<times> 'e heap)" where
  "big_free al p h =
     (case big_index (big_tab h) p of
        None \<Rightarrow> (False, h)
      | Some i \<Rightarrow> (True, h\<lparr>ext := vglFree al p (ext h), big_tab := swap_remove (big_tab h) i\<rparr>))"

section \<open>The emergency allocator\<close>

definition emerg_raw :: "'e allocs \<Rightarrow> u32 \<Rightarrow> 'e \<Rightarrow> u32 \<times> 'e" where
  "emerg_raw al n e =
     (let (raw, e) = vglAlloc al (n + EMERG_HDR) VGL_MEM_RAM e
      in if raw = 0 then vglAlloc al (n + EMERG_HDR) VGL_MEM_VRAM e else (raw, e))"

definition emerg_alloc :: "'e allocs \<Rightarrow> u32 \<Rightarrow> u32 \<Rightarrow> 'e heap \<Rightarrow> (u32 \<times> 'e heap) option" where
  "emerg_alloc al n align h =
     (if align > 16 \<or> emerg_live h \<ge> EMERG_SET div 2 then Some (0, h)
      else let (raw, e) = emerg_raw al n (ext h)
           in if raw = 0 then Some (0, h\<lparr>ext := e\<rparr>)
              else let p = raw + EMERG_HDR
                   in do { s \<leftarrow> emerg_insert (emerg_set h) p;
                           Some (p, h\<lparr>ext := e, hmem := write_bytes (hmem h) raw (le32 n), emerg_set := s,
                                      emerg_live := emerg_live h + 1, emerg_total := emerg_total h + 1,
                                      emerg_bytes := emerg_bytes h + n\<rparr>) })"

definition emerg_free :: "'e allocs \<Rightarrow> u32 \<Rightarrow> 'e heap \<Rightarrow> (bool \<times> 'e heap) option" where
  "emerg_free al p h =
     (case emerg_find (emerg_set h) p of
        None \<Rightarrow> Some (False, h)
      | Some i \<Rightarrow> do { s \<leftarrow> emerg_delete (emerg_set h) i;
                      Some (True, h\<lparr>ext := vglFree al (p - EMERG_HDR) (ext h),
                                    emerg_live := emerg_live h - 1, emerg_set := s\<rparr>) })"

definition emerg_stats :: "'e heap \<Rightarrow> u32 \<times> nat" where
  "emerg_stats h = (emerg_bytes h div 1024, emerg_live h)"

section \<open>The functions the game calls\<close>

definition free_big :: "'e allocs \<Rightarrow> u32 \<Rightarrow> 'e heap \<Rightarrow> 'e heap option" where
  "free_big al p h =
     (if p = 0 then Some h
      else case big_free al p h of
             (True, h') \<Rightarrow> Some h'
           | (False, h') \<Rightarrow> do {
               (done, h'') \<leftarrow> (if emerg_live h' \<noteq> 0 then emerg_free al p h' else Some (False, h'));
               Some (if done then h'' else h''\<lparr>ext := c_free al p (ext h'')\<rparr>) })"

definition malloc_log :: "'e allocs \<Rightarrow> u32 \<Rightarrow> 'e heap \<Rightarrow> (u32 \<times> 'e heap) option" where
  "malloc_log al n h =
     (let (p, h) = big_alloc al n h
      in if p \<noteq> 0 then Some (p, h)
         else let (p, e) = c_malloc al n (ext h); h = h\<lparr>ext := e\<rparr>
              in if p \<noteq> 0 then Some (p, h) else emerg_alloc al n 16 h)"

definition mem_fill :: "memory \<Rightarrow> u32 \<Rightarrow> u8 \<Rightarrow> nat \<Rightarrow> memory" where
  "mem_fill m a b n = write_bytes m a (replicate n b)"

definition mem_copy :: "memory \<Rightarrow> u32 \<Rightarrow> u32 \<Rightarrow> nat \<Rightarrow> memory" where
  "mem_copy m dst src n = write_bytes m dst (map (\<lambda>i. m (src + of_nat i)) [0..<n])"

definition calloc_log :: "'e allocs \<Rightarrow> u32 \<Rightarrow> u32 \<Rightarrow> 'e heap \<Rightarrow> (u32 \<times> 'e heap) option" where
  "calloc_log al a b h =
     (let (p, m, e) = c_calloc al a b (hmem h) (ext h); h = h\<lparr>ext := e, hmem := m\<rparr>
      in if p \<noteq> 0 then Some (p, h)
         else do { (p, h) \<leftarrow> emerg_alloc al (a * b) 16 h;
                   Some (p, if p \<noteq> 0 then h\<lparr>hmem := mem_fill (hmem h) p 0 (unat (a * b))\<rparr> else h) })"

definition memalign_log :: "'e allocs \<Rightarrow> u32 \<Rightarrow> u32 \<Rightarrow> 'e heap \<Rightarrow> (u32 \<times> 'e heap) option" where
  "memalign_log al align n h =
     (let (p, h) = (if align \<le> 4096 then big_alloc al n h else (0, h))
      in if p \<noteq> 0 then Some (p, h)
         else let (p, e) = c_memalign al align n (ext h); h = h\<lparr>ext := e\<rparr>
              in if p \<noteq> 0 then Some (p, h) else emerg_alloc al n align h)"

definition realloc_log :: "'e allocs \<Rightarrow> u32 \<Rightarrow> u32 \<Rightarrow> 'e heap \<Rightarrow> (u32 \<times> 'e heap) option" where
  "realloc_log al old n h =
     (if old = 0 then malloc_log al n h
      else if emerg_live h \<noteq> 0 \<and> emerg_find (emerg_set h) old \<noteq> None then
        let on = load32 (hmem h) (old - EMERG_HDR)
        in do { (p, h) \<leftarrow> malloc_log al n h;
                if p \<noteq> 0
                then do { (_, h) \<leftarrow> emerg_free al old (h\<lparr>hmem := mem_copy (hmem h) p old (unat (min on n))\<rparr>); Some (p, h) }
                else Some (p, h) }
      else let (p, m, e) = c_realloc al old n (hmem h) (ext h); h = h\<lparr>ext := e, hmem := m\<rparr>
           in if p = 0 \<and> n \<noteq> 0
              then do { (p, h) \<leftarrow> emerg_alloc al n 16 h;
                        Some (p, if p \<noteq> 0
                          then h\<lparr>hmem := mem_copy (hmem h) p old (unat (min (c_usable_size al old (ext h)) n)),
                                 ext := c_free al old (ext h)\<rparr>
                          else h) }
              else Some (p, h))"

section \<open>Who owns a pointer\<close>

definition new_vgl :: "('e \<Rightarrow> u32 set) \<Rightarrow> ('e \<Rightarrow> u32 set) \<Rightarrow> 'e \<Rightarrow> u32 \<Rightarrow> 'e \<Rightarrow> bool" where
  "new_vgl vl nl e p e' \<longleftrightarrow> nl e' = nl e \<and>
     (if p = 0 then vl e' = vl e
      else p + 16 \<noteq> 0 \<and> p \<notin> vl e \<union> nl e \<and> p + 16 \<notin> vl e \<union> nl e \<and> p - 16 \<notin> vl e \<and> vl e' = insert p (vl e))"

definition new_newlib :: "('e \<Rightarrow> u32 set) \<Rightarrow> ('e \<Rightarrow> u32 set) \<Rightarrow> 'e \<Rightarrow> u32 \<Rightarrow> 'e \<Rightarrow> bool" where
  "new_newlib vl nl e p e' \<longleftrightarrow> vl e' = vl e \<and>
     (if p = 0 then nl e' = nl e
      else p \<notin> vl e \<union> nl e \<and> p - 16 \<notin> vl e \<and> nl e' = insert p (nl e))"

text \<open>
  What the loader relies on: \<open>vl\<close> and \<open>nl\<close> are the start addresses of the live blocks of vitaGL and of
  newlib.  An allocation returns \<open>NULL\<close> or a block apart from every live one (vitaGL's blocks carry
  headers, so no block starts within 16 bytes of another), and freeing a live block removes it.
\<close>

definition alloc_law :: "'e allocs \<Rightarrow> ('e \<Rightarrow> u32 set) \<Rightarrow> ('e \<Rightarrow> u32 set) \<Rightarrow> bool" where
  "alloc_law al vl nl \<longleftrightarrow>
     (\<forall>n q e. 16 \<le> n \<longrightarrow> new_vgl vl nl e (fst (vglAlloc al n q e)) (snd (vglAlloc al n q e))) \<and>
     (\<forall>p e. p \<in> vl e \<longrightarrow> vl (vglFree al p e) = vl e - {p} \<and> nl (vglFree al p e) = nl e) \<and>
     (\<forall>n e. new_newlib vl nl e (fst (c_malloc al n e)) (snd (c_malloc al n e))) \<and>
     (\<forall>a b m e. new_newlib vl nl e (fst (c_calloc al a b m e)) (snd (snd (c_calloc al a b m e)))) \<and>
     (\<forall>a n e. new_newlib vl nl e (fst (c_memalign al a n e)) (snd (c_memalign al a n e))) \<and>
     (\<forall>p e. p \<in> nl e \<longrightarrow> nl (c_free al p e) = nl e - {p} \<and> vl (c_free al p e) = vl e) \<and>
     (\<forall>old n m e. old \<in> nl e \<longrightarrow>
        (let (p, m', e') = c_realloc al old n m e
         in vl e' = vl e \<and>
            (if p \<noteq> 0 then p \<notin> vl e \<and> p - 16 \<notin> vl e \<and> p \<notin> nl e - {old} \<and> nl e' = insert p (nl e - {old})
             else nl e' = (if n = 0 then nl e - {old} else nl e))))"

definition bigs :: "'e heap \<Rightarrow> u32 set" where
  "bigs h = fst ` set (big_tab h)"

definition emergs :: "'e heap \<Rightarrow> u32 set" where
  "emergs h = members (emerg_set h)"

definition live_ptrs :: "('e \<Rightarrow> u32 set) \<Rightarrow> 'e heap \<Rightarrow> u32 set" where
  "live_ptrs nl h = bigs h \<union> emergs h \<union> nl (ext h)"

definition heap_inv :: "('e \<Rightarrow> u32 set) \<Rightarrow> ('e \<Rightarrow> u32 set) \<Rightarrow> 'e heap \<Rightarrow> bool" where
  "heap_inv vl nl h \<longleftrightarrow> set_inv (emerg_set h) \<and> emerg_live h = card (emergs h) \<and> emerg_live h \<le> EMERG_SET div 2 \<and>
     length (big_tab h) \<le> 8 \<and> distinct (map fst (big_tab h)) \<and>
     (\<forall>p \<in> bigs h. p \<noteq> 0 \<and> p \<in> vl (ext h)) \<and> (\<forall>p \<in> nl (ext h). p \<noteq> 0 \<and> p \<notin> vl (ext h)) \<and>
     (\<forall>p \<in> emergs h. p - 16 \<in> vl (ext h) \<and> p - 16 \<notin> bigs h \<and> p \<notin> nl (ext h) \<and> p \<notin> bigs h)"

lemma bigs_emergs_simps [simp]:
  "bigs (h\<lparr>ext := e\<rparr>) = bigs h" "emergs (h\<lparr>ext := e\<rparr>) = emergs h"
  "bigs (h\<lparr>hmem := m\<rparr>) = bigs h" "emergs (h\<lparr>hmem := m\<rparr>) = emergs h"
  "bigs (h\<lparr>emerg_set := s\<rparr>) = bigs h" "emergs (h\<lparr>emerg_set := s\<rparr>) = members s"
  "bigs (h\<lparr>emerg_live := k\<rparr>) = bigs h" "emergs (h\<lparr>emerg_live := k\<rparr>) = emergs h"
  "bigs (h\<lparr>emerg_total := w\<rparr>) = bigs h" "emergs (h\<lparr>emerg_total := w\<rparr>) = emergs h"
  "bigs (h\<lparr>emerg_bytes := w\<rparr>) = bigs h" "emergs (h\<lparr>emerg_bytes := w\<rparr>) = emergs h"
  "bigs (h\<lparr>big_tab := t\<rparr>) = fst ` set t" "emergs (h\<lparr>big_tab := t\<rparr>) = emergs h"
  by (simp_all add: bigs_def emergs_def)

lemma emergs_not_zero [simp]: "0 \<notin> emergs h"
  by (simp add: emergs_def members_def)

lemma heap_invD:
  assumes "heap_inv vl nl h"
  shows "set_inv (emerg_set h)" "emerg_live h = card (emergs h)" "emerg_live h \<le> EMERG_SET div 2"
    "length (big_tab h) \<le> 8" "distinct (map fst (big_tab h))"
    "p \<in> bigs h \<Longrightarrow> p \<noteq> 0 \<and> p \<in> vl (ext h)"
    "p \<in> nl (ext h) \<Longrightarrow> p \<noteq> 0 \<and> p \<notin> vl (ext h)"
    "p \<in> emergs h \<Longrightarrow> p - 16 \<in> vl (ext h) \<and> p - 16 \<notin> bigs h \<and> p \<notin> nl (ext h) \<and> p \<notin> bigs h"
  using assms by (simp_all add: heap_inv_def)

lemma heap_invI:
  assumes "set_inv (emerg_set h)" "emerg_live h = card (emergs h)" "emerg_live h \<le> EMERG_SET div 2"
    "length (big_tab h) \<le> 8" "distinct (map fst (big_tab h))"
    "\<And>p. p \<in> bigs h \<Longrightarrow> p \<noteq> 0 \<and> p \<in> vl (ext h)"
    "\<And>p. p \<in> nl (ext h) \<Longrightarrow> p \<noteq> 0 \<and> p \<notin> vl (ext h)"
    "\<And>p. p \<in> emergs h \<Longrightarrow> p - 16 \<in> vl (ext h) \<and> p - 16 \<notin> bigs h \<and> p \<notin> nl (ext h) \<and> p \<notin> bigs h"
  shows "heap_inv vl nl h"
  using assms by (simp add: heap_inv_def)

lemma full_card:
  assumes "length s = EMERG_SET" "cell_inj s" "\<forall>x < EMERG_SET. s ! x \<noteq> 0"
  shows "card (members s) = EMERG_SET"
proof -
  have "distinct s" using assms by (auto simp: distinct_conv_nth cell_inj_def)
  moreover have "0 \<notin> set s" using assms by (auto simp: in_set_conv_nth)
  ultimately show ?thesis using assms(1) by (simp add: members_def distinct_card)
qed

lemma inv_has_room:
  assumes "set_inv s" "card (members s) \<le> EMERG_SET div 2"
  shows "has_room s"
proof (rule ccontr)
  assume "\<not> has_room s"
  then have "card (members s) = EMERG_SET" using assms(1) by (intro full_card) (auto simp: has_room_def set_inv_def)
  then show False using assms(2) by (simp add: EMERG_SET_def)
qed

lemma finite_members [simp]: "finite (members s)"
  by (simp add: members_def)

lemma zero_not_member [simp]: "0 \<notin> members s"
  by (simp add: members_def)

lemma swap_remove_append: "swap_remove (ys @ [l]) i = (if i < length ys then ys[i := l] else ys)"
  by (auto simp: swap_remove_def list_update_append split: nat.splits)

lemma swap_remove_fst:
  assumes "distinct (map fst xs)" "i < length xs"
  shows "distinct (map fst (swap_remove xs i))" "length (swap_remove xs i) = length xs - 1"
    "fst ` set (swap_remove xs i) = fst ` set xs - {fst (xs ! i)}"
proof -
  obtain ys l where xs: "xs = ys @ [l]" using assms(2) by (cases xs rule: rev_cases) auto
  show "distinct (map fst (swap_remove xs i))" "length (swap_remove xs i) = length xs - 1"
    using assms by (auto simp: xs swap_remove_append map_update distinct_list_update)
  have d: "distinct (map fst ys)" "fst l \<notin> set (map fst ys)" using assms(1) by (simp_all add: xs)
  have "set (map fst (swap_remove xs i)) = set (map fst xs) - {map fst xs ! i}"
  proof (cases "i < length ys")
    case True
    have "map fst ys ! i \<in> set (map fst ys)" using True by (intro nth_mem) simp
    moreover have "set ((map fst ys)[i := fst l]) = insert (fst l) (set (map fst ys) - {map fst ys ! i})"
      using True by (intro set_update_distinct [OF d(1)]) simp
    ultimately show ?thesis using True d(2)
      by (simp only: xs swap_remove_append map_update map_append nth_append length_map if_True set_append) auto
  next
    case False
    then have "map fst xs ! i = fst l" "swap_remove xs i = ys" using assms(2) by (auto simp: xs swap_remove_append less_Suc_eq nth_append)
    then show ?thesis using d(2) by (simp only: xs map_append set_append) auto
  qed
  then show "fst ` set (swap_remove xs i) = fst ` set xs - {fst (xs ! i)}" using assms(2) by simp
qed

lemma big_index_None: "big_index bs p = None \<longleftrightarrow> p \<notin> fst ` set bs"
  by (induction bs) auto

lemma big_index_Some: "big_index bs p = Some i \<Longrightarrow> i < length bs \<and> fst (bs ! i) = p"
  by (induction bs arbitrary: i) (auto split: if_splits)

section \<open>Allocation\<close>

lemma alloc_lawD:
  assumes "alloc_law al vl nl"
  shows "16 \<le> n \<Longrightarrow> vglAlloc al n q e = (p, e') \<Longrightarrow> new_vgl vl nl e p e'"
    and "p \<in> vl e \<Longrightarrow> vl (vglFree al p e) = vl e - {p} \<and> nl (vglFree al p e) = nl e"
    and "c_malloc al n e = (p, e') \<Longrightarrow> new_newlib vl nl e p e'"
    and "c_calloc al a b m e = (p, m', e') \<Longrightarrow> new_newlib vl nl e p e'"
    and "c_memalign al a n e = (p, e') \<Longrightarrow> new_newlib vl nl e p e'"
    and "p \<in> nl e \<Longrightarrow> nl (c_free al p e) = nl e - {p} \<and> vl (c_free al p e) = vl e"
proof -
  have "\<forall>n q e. 16 \<le> n \<longrightarrow> new_vgl vl nl e (fst (vglAlloc al n q e)) (snd (vglAlloc al n q e))"
    using assms unfolding alloc_law_def by (elim conjE) assumption
  then show "16 \<le> n \<Longrightarrow> vglAlloc al n q e = (p, e') \<Longrightarrow> new_vgl vl nl e p e'" by (metis fst_conv snd_conv)
  have "\<forall>n e. new_newlib vl nl e (fst (c_malloc al n e)) (snd (c_malloc al n e))"
    using assms unfolding alloc_law_def by (elim conjE) assumption
  then show "c_malloc al n e = (p, e') \<Longrightarrow> new_newlib vl nl e p e'" by (metis fst_conv snd_conv)
  have "\<forall>a b m e. new_newlib vl nl e (fst (c_calloc al a b m e)) (snd (snd (c_calloc al a b m e)))"
    using assms unfolding alloc_law_def by (elim conjE) assumption
  then show "c_calloc al a b m e = (p, m', e') \<Longrightarrow> new_newlib vl nl e p e'" by (metis fst_conv snd_conv)
  have "\<forall>a n e. new_newlib vl nl e (fst (c_memalign al a n e)) (snd (c_memalign al a n e))"
    using assms unfolding alloc_law_def by (elim conjE) assumption
  then show "c_memalign al a n e = (p, e') \<Longrightarrow> new_newlib vl nl e p e'" by (metis fst_conv snd_conv)
  have "\<forall>p e. p \<in> vl e \<longrightarrow> vl (vglFree al p e) = vl e - {p} \<and> nl (vglFree al p e) = nl e"
    using assms unfolding alloc_law_def by (elim conjE) assumption
  then show "p \<in> vl e \<Longrightarrow> vl (vglFree al p e) = vl e - {p} \<and> nl (vglFree al p e) = nl e" by blast
  have "\<forall>p e. p \<in> nl e \<longrightarrow> nl (c_free al p e) = nl e - {p} \<and> vl (c_free al p e) = vl e"
    using assms unfolding alloc_law_def by (elim conjE) assumption
  then show "p \<in> nl e \<Longrightarrow> nl (c_free al p e) = nl e - {p} \<and> vl (c_free al p e) = vl e" by blast
qed

text \<open>The contract of an allocating function: \<open>NULL\<close> and the same live pointers, or one new pointer.\<close>

definition alloc_post :: "('e \<Rightarrow> u32 set) \<Rightarrow> ('e \<Rightarrow> u32 set) \<Rightarrow> 'e heap \<Rightarrow> u32 \<Rightarrow> 'e heap \<Rightarrow> bool" where
  "alloc_post vl nl h p h' \<longleftrightarrow> heap_inv vl nl h' \<and>
     bigs h \<subseteq> bigs h' \<and> emergs h \<subseteq> emergs h' \<and> nl (ext h) \<subseteq> nl (ext h') \<and>
     (if p = 0 then live_ptrs nl h' = live_ptrs nl h
      else p \<notin> live_ptrs nl h \<and> live_ptrs nl h' = insert p (live_ptrs nl h))"

lemma heap_inv_ext:
  assumes "heap_inv vl nl h" "vl e = vl (ext h)" "nl e = nl (ext h)"
  shows "alloc_post vl nl h 0 (h\<lparr>ext := e\<rparr>)"
  using assms by (simp add: heap_inv_def alloc_post_def live_ptrs_def)

lemma newlib_post:
  assumes "heap_inv vl nl h" "new_newlib vl nl (ext h) p e"
  shows "alloc_post vl nl h p (h\<lparr>ext := e\<rparr>)"
proof (cases "p = 0")
  case True
  then show ?thesis using assms heap_inv_ext [of vl nl h e] by (simp add: new_newlib_def)
next
  case False
  then have "p \<notin> live_ptrs nl h" using assms by (auto simp: new_newlib_def live_ptrs_def heap_inv_def)
  moreover have "heap_inv vl nl (h\<lparr>ext := e\<rparr>)"
    using assms False by (simp add: heap_inv_def new_newlib_def) blast
  ultimately show ?thesis using assms(2) False by (auto simp: alloc_post_def live_ptrs_def new_newlib_def)
qed

lemma c_free_post:
  assumes "alloc_law al vl nl" "heap_inv vl nl h" "p \<in> nl (ext h)"
  shows "heap_inv vl nl (h\<lparr>ext := c_free al p (ext h)\<rparr>)"
    "live_ptrs nl (h\<lparr>ext := c_free al p (ext h)\<rparr>) = live_ptrs nl h - {p}"
proof -
  note e = alloc_lawD(6) [OF assms(1,3)]
  show "heap_inv vl nl (h\<lparr>ext := c_free al p (ext h)\<rparr>)" using assms(2) e by (simp add: heap_inv_def)
  have "p \<notin> bigs h" "p \<notin> emergs h"
    using heap_invD(7) [OF assms(2,3)] heap_invD(6) [OF assms(2), of p] heap_invD(8) [OF assms(2), of p] assms(3) by blast+
  then show "live_ptrs nl (h\<lparr>ext := c_free al p (ext h)\<rparr>) = live_ptrs nl h - {p}"
    using e by (auto simp: live_ptrs_def)
qed

lemma big_pool_new:
  assumes "alloc_law al vl nl" "16 \<le> n" "big_pool al n e = (p, e')"
  shows "new_vgl vl nl e p e'"
proof -
  have "new_vgl vl nl e p2 e2" if "new_vgl vl nl e 0 e1" "new_vgl vl nl e1 p2 e2" for e1 p2 e2
    using that by (auto simp: new_vgl_def)
  note chain = this
  obtain p1 e1 where v1: "vglAlloc al n VGL_MEM_PHYCONT e = (p1, e1)" by (cases "vglAlloc al n VGL_MEM_PHYCONT e")
  note n1 = alloc_lawD(1) [OF assms(1,2) v1]
  show ?thesis
  proof (cases "n \<ge> 25 * 1024 * 1024")
    case True
    show ?thesis
    proof (cases "p1 = 0")
      case p0: True
      then have "vglAlloc al n VGL_MEM_BUDGET e1 = (p, e')" using assms(3) True v1 by (simp add: big_pool_def)
      then show ?thesis using chain n1 p0 alloc_lawD(1) [OF assms(1,2)] by blast
    next
      case False
      then show ?thesis using assms(3) True v1 n1 by (simp add: big_pool_def)
    qed
  next
    case big: False
    show ?thesis
    proof (cases "n \<le> vglMemFree al VGL_MEM_BUDGET e")
      case True
      then show ?thesis using assms(3) big alloc_lawD(1) [OF assms(1,2)] by (simp add: big_pool_def)
    next
      case False
      then show ?thesis using assms(3) big by (simp add: big_pool_def new_vgl_def)
    qed
  qed
qed

lemma big_alloc_post:
  assumes "alloc_law al vl nl" "heap_inv vl nl h" "big_alloc al n h = (p, h')"
  shows "alloc_post vl nl h p h'"
proof (cases "n < 6 * 1024 * 1024 \<or> length (big_tab h) \<ge> 8")
  case True
  then show ?thesis using assms(2,3) heap_inv_ext [OF assms(2) refl refl] by (simp add: big_alloc_def)
next
  case False
  obtain q e where bp: "big_pool al n (ext h) = (q, e)" by (cases "big_pool al n (ext h)")
  have "16 \<le> n" using False by (auto simp: word_le_nat_alt word_less_nat_alt)
  then have nw: "new_vgl vl nl (ext h) q e" using big_pool_new [OF assms(1) _ bp] by simp
  show ?thesis
  proof (cases "q = 0")
    case True
    then show ?thesis using False assms(2,3) bp nw heap_inv_ext [OF assms(2), of e]
      by (auto simp: big_alloc_def new_vgl_def)
  next
    case q: False
    have "h' = h\<lparr>ext := e, big_tab := big_tab h @ [(q, n)]\<rparr>" "p = q"
      using False q assms(3) bp by (auto simp: big_alloc_def)
    note h' = this
    have nw': "nl e = nl (ext h)" "q \<notin> vl (ext h)" "q \<notin> nl (ext h)" "q - 16 \<notin> vl (ext h)" "vl e = insert q (vl (ext h))"
      using nw q by (auto simp: new_vgl_def)
    have nb: "q \<notin> bigs h" "q \<notin> emergs h" using assms(2) nw' by (auto simp: heap_inv_def)
    have h'_simps: "bigs h' = insert q (bigs h)" "emergs h' = emergs h" "ext h' = e" "emerg_set h' = emerg_set h"
      "emerg_live h' = emerg_live h" "length (big_tab h') = Suc (length (big_tab h))"
      "distinct (map fst (big_tab h'))"
      using nb assms(2) by (auto simp: h' bigs_def heap_inv_def)
    have "heap_inv vl nl h'"
    proof (rule heap_invI)
      show "set_inv (emerg_set h')" "emerg_live h' = card (emergs h')" "emerg_live h' \<le> EMERG_SET div 2"
        using heap_invD [OF assms(2)] by (simp_all add: h'_simps)
      show "length (big_tab h') \<le> 8" "distinct (map fst (big_tab h'))" using False h'_simps by simp_all
      show "x \<noteq> 0 \<and> x \<in> vl (ext h')" if "x \<in> bigs h'" for x
        using that q heap_invD(6) [OF assms(2)] nw'(5) unfolding h'_simps by blast
      show "x \<noteq> 0 \<and> x \<notin> vl (ext h')" if "x \<in> nl (ext h')" for x
      proof -
        have xn: "x \<in> nl (ext h)" using that by (simp only: h'_simps nw'(1))
        then have "x \<noteq> q" using nw'(3) by blast
        then show ?thesis using heap_invD(7) [OF assms(2) xn] unfolding h'_simps nw'(5) by blast
      qed
      show "x - 16 \<in> vl (ext h') \<and> x - 16 \<notin> bigs h' \<and> x \<notin> nl (ext h') \<and> x \<notin> bigs h'"
        if "x \<in> emergs h'" for x
      proof -
        have xe: "x \<in> emergs h" using that by (simp only: h'_simps)
        note f = heap_invD(8) [OF assms(2) xe]
        have "x \<noteq> q" using xe nb(2) by blast
        moreover have "x - 16 \<noteq> q" using f nw'(2) by blast
        ultimately show ?thesis using f unfolding h'_simps nw'(1,5) by blast
      qed
    qed
    then show ?thesis using nw' nb q by (auto simp: alloc_post_def live_ptrs_def h' bigs_def)
  qed
qed

lemma emerg_raw_new:
  assumes "alloc_law al vl nl" "16 \<le> n + 16" "emerg_raw al n e = (p, e')"
  shows "new_vgl vl nl e p e'"
proof -
  have chain: "new_vgl vl nl e p2 e2" if "new_vgl vl nl e 0 e1" "new_vgl vl nl e1 p2 e2" for e1 p2 e2
    using that by (auto simp: new_vgl_def)
  obtain p1 e1 where v1: "vglAlloc al (n + 16) VGL_MEM_RAM e = (p1, e1)" by (cases "vglAlloc al (n + 16) VGL_MEM_RAM e")
  note n1 = alloc_lawD(1) [OF assms(1,2) v1]
  show ?thesis
  proof (cases "p1 = 0")
    case True
    then have "vglAlloc al (n + 16) VGL_MEM_VRAM e1 = (p, e')" using assms(3) v1 by (simp add: emerg_raw_def EMERG_HDR_def)
    then show ?thesis using chain n1 True alloc_lawD(1) [OF assms(1,2)] by blast
  next
    case False
    then show ?thesis using assms(3) v1 n1 by (simp add: emerg_raw_def EMERG_HDR_def)
  qed
qed

lemma emerg_alloc_post:
  assumes law: "alloc_law al vl nl" and inv: "heap_inv vl nl h" and n: "16 \<le> n + 16"
  shows "\<exists>p h'. emerg_alloc al n align h = Some (p, h') \<and> alloc_post vl nl h p h'"
proof (cases "align > 16 \<or> emerg_live h \<ge> EMERG_SET div 2")
  case True
  then show ?thesis using inv by (auto simp: emerg_alloc_def alloc_post_def)
next
  case ok: False
  obtain raw e where r: "emerg_raw al n (ext h) = (raw, e)" by (cases "emerg_raw al n (ext h)")
  note nw = emerg_raw_new [OF law n r]
  show ?thesis
  proof (cases "raw = 0")
    case True
    then show ?thesis using ok r nw heap_inv_ext [OF inv, of e] by (auto simp: emerg_alloc_def new_vgl_def)
  next
    case False
    define p where "p = raw + 16"
    have f: "p \<noteq> 0" "raw \<notin> vl (ext h)" "p \<notin> vl (ext h)" "p \<notin> nl (ext h)" "raw \<notin> nl (ext h)"
      "nl e = nl (ext h)" "vl e = insert raw (vl (ext h))"
      using nw False by (auto simp: new_vgl_def p_def)
    have pr: "p - 16 = raw" by (simp add: p_def)
    have nb: "p \<notin> bigs h" "raw \<notin> bigs h" using heap_invD(6) [OF inv] f by blast+
    have ne: "p \<notin> emergs h" using heap_invD(8) [OF inv, of p] f(2) pr by auto
    have room: "has_room (emerg_set h)"
      using heap_invD(1-3) [OF inv] by (intro inv_has_room) (simp_all add: emergs_def)
    have nm: "p \<notin> members (emerg_set h)" using ne by (simp add: emergs_def)
    obtain s where s: "emerg_insert (emerg_set h) p = Some s" "set_inv s" "members s = insert p (emergs h)"
      using emerg.ins_law [OF heap_invD(1) [OF inv] room f(1) nm] by (auto simp: emergs_def)
    define h' where "h' = h\<lparr>ext := e, hmem := write_bytes (hmem h) raw (le32 n), emerg_set := s,
       emerg_live := emerg_live h + 1, emerg_total := emerg_total h + 1, emerg_bytes := emerg_bytes h + n\<rparr>"
    have h'_simps: "bigs h' = bigs h" "emergs h' = insert p (emergs h)" "ext h' = e" "emerg_set h' = s"
      "emerg_live h' = emerg_live h + 1" "big_tab h' = big_tab h"
      using s by (simp_all add: h'_def)
    have "heap_inv vl nl h'"
    proof (rule heap_invI)
      have "finite (emergs h)" by (simp add: emergs_def)
      then show "emerg_live h' = card (emergs h')" using ne heap_invD(2) [OF inv] by (simp add: h'_simps)
      show "set_inv (emerg_set h')" "emerg_live h' \<le> EMERG_SET div 2" "length (big_tab h') \<le> 8" "distinct (map fst (big_tab h'))"
        using s ok heap_invD(4,5) [OF inv] by (simp_all add: h'_simps)
      show "x \<noteq> 0 \<and> x \<in> vl (ext h')" if "x \<in> bigs h'" for x
        using heap_invD(6) [OF inv, of x] that unfolding h'_simps f(7) by blast
      show "x \<noteq> 0 \<and> x \<notin> vl (ext h')" if "x \<in> nl (ext h')" for x
      proof -
        have xn: "x \<in> nl (ext h)" using that by (simp only: h'_simps f(6))
        then have "x \<noteq> raw" using f(5) by blast
        then show ?thesis using heap_invD(7) [OF inv xn] unfolding h'_simps f(7) by blast
      qed
      show "x - 16 \<in> vl (ext h') \<and> x - 16 \<notin> bigs h' \<and> x \<notin> nl (ext h') \<and> x \<notin> bigs h'" if "x \<in> emergs h'" for x
      proof (cases "x = p")
        case True
        then show ?thesis using f(4) nb unfolding h'_simps f(6,7) True pr by blast
      next
        case False
        then have "x \<in> emergs h" using that by (simp add: h'_simps)
        then show ?thesis using heap_invD(8) [OF inv, of x] unfolding h'_simps f(6,7) by blast
      qed
    qed
    moreover have "p \<notin> live_ptrs nl h" "live_ptrs nl h' = insert p (live_ptrs nl h)"
      using ne nb f(4) by (auto simp: live_ptrs_def h'_simps f(6))
    moreover have "bigs h \<subseteq> bigs h'" "emergs h \<subseteq> emergs h'" "nl (ext h) \<subseteq> nl (ext h')"
      unfolding h'_simps f(6) by blast+
    moreover have "emerg_alloc al n align h = Some (p, h')"
      using ok r False s(1) by (simp add: emerg_alloc_def EMERG_HDR_def p_def h'_def)
    ultimately show ?thesis using f(1) by (auto simp: alloc_post_def)
  qed
qed

section \<open>Release\<close>

definition free_post :: "('e \<Rightarrow> u32 set) \<Rightarrow> ('e \<Rightarrow> u32 set) \<Rightarrow> 'e heap \<Rightarrow> u32 \<Rightarrow> 'e heap \<Rightarrow> bool" where
  "free_post vl nl h p h' \<longleftrightarrow> heap_inv vl nl h' \<and> live_ptrs nl h' = live_ptrs nl h - {p}"

lemma big_free_post:
  assumes law: "alloc_law al vl nl" and inv: "heap_inv vl nl h" and p: "p \<in> bigs h"
  shows "\<exists>h'. big_free al p h = (True, h') \<and> free_post vl nl h p h'"
proof -
  obtain i where i: "big_index (big_tab h) p = Some i" "i < length (big_tab h)" "fst (big_tab h ! i) = p"
    using big_index_None [of "big_tab h" p] big_index_Some p by (auto simp: bigs_def)
  define h' where "h' = h\<lparr>ext := vglFree al p (ext h), big_tab := swap_remove (big_tab h) i\<rparr>"
  note sr = swap_remove_fst [OF heap_invD(5) [OF inv] i(2)]
  have e: "vl (ext h') = vl (ext h) - {p}" "nl (ext h') = nl (ext h)"
    using alloc_lawD(2) [OF law] heap_invD(6) [OF inv p] by (simp_all add: h'_def)
  have h'_simps: "bigs h' = bigs h - {p}" "emergs h' = emergs h" "emerg_set h' = emerg_set h"
    "emerg_live h' = emerg_live h" using sr(3) i(3) by (simp_all add: h'_def bigs_def [of h])
  have pv: "p \<noteq> 0" "p \<in> vl (ext h)" using heap_invD(6) [OF inv p] by simp_all
  have "heap_inv vl nl h'"
  proof (rule heap_invI)
    show "set_inv (emerg_set h')" "emerg_live h' = card (emergs h')" "emerg_live h' \<le> EMERG_SET div 2"
      using heap_invD [OF inv] by (simp_all add: h'_simps)
    show "length (big_tab h') \<le> 8" "distinct (map fst (big_tab h'))"
      using sr heap_invD(4) [OF inv] by (simp_all add: h'_def)
    show "x \<noteq> 0 \<and> x \<in> vl (ext h')" if "x \<in> bigs h'" for x
      using that heap_invD(6) [OF inv, of x] unfolding h'_simps e by blast
    show "x \<noteq> 0 \<and> x \<notin> vl (ext h')" if "x \<in> nl (ext h')" for x
      using that heap_invD(7) [OF inv, of x] unfolding e by blast
    show "x - 16 \<in> vl (ext h') \<and> x - 16 \<notin> bigs h' \<and> x \<notin> nl (ext h') \<and> x \<notin> bigs h'" if "x \<in> emergs h'" for x
    proof -
      note q = heap_invD(8) [OF inv, of x, OF that [unfolded h'_simps]]
      then have "x - 16 \<noteq> p" using p by blast
      then show ?thesis using q unfolding h'_simps e by blast
    qed
  qed
  moreover have "live_ptrs nl h' = live_ptrs nl h - {p}"
  proof -
    have "p \<notin> emergs h" using heap_invD(8) [OF inv, of p] p by blast
    moreover have "p \<notin> nl (ext h)" using heap_invD(7) [OF inv, of p] pv by blast
    ultimately show ?thesis unfolding live_ptrs_def h'_simps e by blast
  qed
  ultimately show ?thesis using i(1) by (simp add: big_free_def free_post_def h'_def)
qed

lemma emerg_free_post:
  assumes law: "alloc_law al vl nl" and inv: "heap_inv vl nl h" and p: "p \<in> emergs h"
  shows "\<exists>h'. emerg_free al p h = Some (True, h') \<and> free_post vl nl h p h'"
proof -
  have room: "has_room (emerg_set h)"
    using heap_invD(1-3) [OF inv] by (intro inv_has_room) (simp_all add: emergs_def)
  have p0: "p \<noteq> 0" using p by auto
  obtain i s where s: "emerg_find (emerg_set h) p = Some i" "emerg_delete (emerg_set h) i = Some s"
      "set_inv s" "members s = emergs h - {p}"
    using emerg.remove_member [OF heap_invD(1) [OF inv] room p0] p by (auto simp: emergs_def)
  define h' where "h' = h\<lparr>ext := vglFree al (p - EMERG_HDR) (ext h), emerg_live := emerg_live h - 1, emerg_set := s\<rparr>"
  note pi = heap_invD(8) [OF inv p]
  have e: "vl (ext h') = vl (ext h) - {p - 16}" "nl (ext h') = nl (ext h)"
    using alloc_lawD(2) [OF law, of "p - 16"] pi by (simp_all add: h'_def EMERG_HDR_def)
  have h'_simps: "bigs h' = bigs h" "emergs h' = emergs h - {p}" "emerg_set h' = s"
    "emerg_live h' = emerg_live h - 1" "big_tab h' = big_tab h" using s by (simp_all add: h'_def)
  have "heap_inv vl nl h'"
  proof (rule heap_invI)
    show "set_inv (emerg_set h')" "emerg_live h' = card (emergs h')" "emerg_live h' \<le> EMERG_SET div 2"
      using heap_invD(2,3) [OF inv] s(3) p by (simp_all add: h'_simps)
    show "length (big_tab h') \<le> 8" "distinct (map fst (big_tab h'))"
      using heap_invD(4,5) [OF inv] by (simp_all add: h'_simps)
    show "x \<noteq> 0 \<and> x \<in> vl (ext h')" if "x \<in> bigs h'" for x
    proof -
      have "x \<noteq> p - 16" using that pi unfolding h'_simps by blast
      then show ?thesis using that heap_invD(6) [OF inv, of x] unfolding h'_simps e by blast
    qed
    show "x \<noteq> 0 \<and> x \<notin> vl (ext h')" if "x \<in> nl (ext h')" for x
      using that heap_invD(7) [OF inv, of x] unfolding e by blast
    show "x - 16 \<in> vl (ext h') \<and> x - 16 \<notin> bigs h' \<and> x \<notin> nl (ext h') \<and> x \<notin> bigs h'" if "x \<in> emergs h'" for x
    proof -
      have x: "x \<in> emergs h" "x \<noteq> p" using that by (simp_all add: h'_simps)
      then have "x - 16 \<noteq> p - 16" by simp
      then show ?thesis using heap_invD(8) [OF inv x(1)] unfolding h'_simps e by blast
    qed
  qed
  moreover have "live_ptrs nl h' = live_ptrs nl h - {p}"
    using pi unfolding live_ptrs_def h'_simps e by blast
  ultimately show ?thesis using s by (simp add: emerg_free_def free_post_def h'_def)
qed

lemma big_free_other:
  "p \<notin> bigs h \<Longrightarrow> big_free al p h = (False, h)"
  by (simp add: big_free_def big_index_None [THEN iffD2] bigs_def)

lemma emerg_live_zero: "heap_inv vl nl h \<Longrightarrow> emerg_live h = 0 \<longleftrightarrow> emergs h = {}"
  by (simp add: heap_invD(2) emergs_def)

text \<open>Freeing a live pointer removes it, and it alone, through the allocator that made it.\<close>

lemma free_big_post:
  assumes law: "alloc_law al vl nl" and inv: "heap_inv vl nl h" and p: "p \<in> live_ptrs nl h"
  shows "\<exists>h'. free_big al p h = Some h' \<and> free_post vl nl h p h'"
proof -
  have p0: "p \<noteq> 0" using p heap_invD(6,7) [OF inv] by (auto simp: live_ptrs_def)
  consider (big) "p \<in> bigs h" | (em) "p \<notin> bigs h" "p \<in> emergs h" | (nl) "p \<notin> bigs h" "p \<notin> emergs h" "p \<in> nl (ext h)"
    using p by (auto simp: live_ptrs_def)
  then show ?thesis
  proof cases
    case big
    obtain h' where "big_free al p h = (True, h')" "free_post vl nl h p h'"
      using big_free_post [OF law inv big] by blast
    then show ?thesis using p0 by (simp add: free_big_def)
  next
    case em
    then have "emerg_live h \<noteq> 0" using emerg_live_zero [OF inv] by auto
    then show ?thesis using emerg_free_post [OF law inv em(2)] em p0 by (auto simp: free_big_def big_free_other)
  next
    case nl
    have "emerg_find (emerg_set h) p = None"
      using emerg.find_None [OF heap_invD(1) [OF inv] p0] nl(2) by (simp add: emergs_def)
    then have eq: "free_big al p h = Some (h\<lparr>ext := c_free al p (ext h)\<rparr>)"
      using p0 nl by (simp add: free_big_def big_free_other emerg_free_def)
    then show ?thesis using c_free_post [OF law inv nl(3)] by (simp add: free_post_def)
  qed
qed

section \<open>The game's allocation functions\<close>

lemma alloc_post_trans:
  assumes "alloc_post vl nl h 0 h1" "alloc_post vl nl h1 p h2"
  shows "alloc_post vl nl h p h2"
  using assms by (cases "p = 0") (auto simp: alloc_post_def)

lemma alloc_post_inv: "alloc_post vl nl h p h' \<Longrightarrow> heap_inv vl nl h'"
  by (simp add: alloc_post_def)

lemma hmem_same [simp]:
  "heap_inv vl nl (h\<lparr>hmem := m\<rparr>) = heap_inv vl nl h" "live_ptrs nl (h\<lparr>hmem := m\<rparr>) = live_ptrs nl h"
  by (simp_all add: heap_inv_def live_ptrs_def)

lemma hmem_post [simp]: "alloc_post vl nl h p (h'\<lparr>hmem := m\<rparr>) = alloc_post vl nl h p h'"
  by (simp add: alloc_post_def)

lemma hmem_post_pre [simp]: "alloc_post vl nl (h\<lparr>hmem := m\<rparr>) p h' = alloc_post vl nl h p h'"
  by (simp add: alloc_post_def)

lemma malloc_log_post:
  assumes law: "alloc_law al vl nl" and inv: "heap_inv vl nl h" and n: "16 \<le> n + 16"
  shows "\<exists>p h'. malloc_log al n h = Some (p, h') \<and> alloc_post vl nl h p h'"
proof -
  obtain p1 h1 where b: "big_alloc al n h = (p1, h1)" by (cases "big_alloc al n h")
  note p1 = big_alloc_post [OF law inv b]
  obtain p2 e where c: "c_malloc al n (ext h1) = (p2, e)" by (cases "c_malloc al n (ext h1)")
  note p2 = newlib_post [OF alloc_post_inv [OF p1] alloc_lawD(3) [OF law c]]
  show ?thesis
  proof (cases "p1 = 0 \<and> p2 = 0")
    case True
    obtain p3 h3 where "emerg_alloc al n 16 (h1\<lparr>ext := e\<rparr>) = Some (p3, h3)" "alloc_post vl nl (h1\<lparr>ext := e\<rparr>) p3 h3"
      using emerg_alloc_post [OF law alloc_post_inv [OF p2] n] by blast
    moreover have "alloc_post vl nl h p3 h3"
      using p1 p2 True calculation(2) by (metis alloc_post_trans)
    ultimately show ?thesis using b c True by (simp add: malloc_log_def)
  next
    case False
    then show ?thesis using b c p1 p2 by (cases "p1 = 0") (auto simp: malloc_log_def intro: alloc_post_trans)
  qed
qed

lemma calloc_log_post:
  assumes law: "alloc_law al vl nl" and inv: "heap_inv vl nl h" and n: "16 \<le> a * b + 16"
  shows "\<exists>p h'. calloc_log al a b h = Some (p, h') \<and> alloc_post vl nl h p h'"
proof -
  obtain p1 m e where c: "c_calloc al a b (hmem h) (ext h) = (p1, m, e)" by (cases "c_calloc al a b (hmem h) (ext h)")
  define h1 where "h1 = h\<lparr>ext := e, hmem := m\<rparr>"
  have p1: "alloc_post vl nl h p1 h1"
    using newlib_post [OF inv alloc_lawD(4) [OF law c]] unfolding h1_def by (simp only: hmem_post)
  show ?thesis
  proof (cases "p1 = 0")
    case True
    obtain p2 h2 where "emerg_alloc al (a * b) 16 h1 = Some (p2, h2)" "alloc_post vl nl h1 p2 h2"
      using emerg_alloc_post [OF law alloc_post_inv [OF p1] n] by blast
    moreover have "alloc_post vl nl h p2 h2" using p1 True calculation(2) by (metis alloc_post_trans)
    ultimately show ?thesis using True c by (cases "p2 = 0") (simp_all add: calloc_log_def h1_def [symmetric])
  next
    case False
    then show ?thesis using c p1 by (simp add: calloc_log_def h1_def)
  qed
qed

lemma memalign_log_post:
  assumes law: "alloc_law al vl nl" and inv: "heap_inv vl nl h" and n: "16 \<le> n + 16"
  shows "\<exists>p h'. memalign_log al align n h = Some (p, h') \<and> alloc_post vl nl h p h'"
proof -
  obtain p1 h1 where b: "(if align \<le> 4096 then big_alloc al n h else (0, h)) = (p1, h1)"
    by (cases "if align \<le> 4096 then big_alloc al n h else (0, h)")
  have p1: "alloc_post vl nl h p1 h1"
    using b big_alloc_post [OF law inv] inv by (cases "align \<le> 4096") (auto simp: alloc_post_def)
  obtain p2 e where c: "c_memalign al align n (ext h1) = (p2, e)" by (cases "c_memalign al align n (ext h1)")
  note p2 = newlib_post [OF alloc_post_inv [OF p1] alloc_lawD(5) [OF law c]]
  show ?thesis
  proof (cases "p1 = 0 \<and> p2 = 0")
    case True
    obtain p3 h3 where "emerg_alloc al n align (h1\<lparr>ext := e\<rparr>) = Some (p3, h3)" "alloc_post vl nl (h1\<lparr>ext := e\<rparr>) p3 h3"
      using emerg_alloc_post [OF law alloc_post_inv [OF p2] n] by blast
    moreover have "alloc_post vl nl h p3 h3"
      using p1 p2 True calculation(2) by (metis alloc_post_trans)
    ultimately show ?thesis using b c True by (simp add: memalign_log_def)
  next
    case False
    then show ?thesis using b c p1 p2 by (cases "p1 = 0") (auto simp: memalign_log_def intro: alloc_post_trans)
  qed
qed

definition realloc_spec :: "u32 \<Rightarrow> u32 \<Rightarrow> u32 set \<Rightarrow> u32 \<Rightarrow> u32 set \<Rightarrow> bool" where
  "realloc_spec old n L p L' \<longleftrightarrow>
     (if p \<noteq> 0 then p \<notin> L - {old} \<and> L' = insert p (L - {old})
      else L' = L \<or> n = 0 \<and> L' = L - {old})"

lemma realloc_newlib_post:
  assumes law: "alloc_law al vl nl" and inv: "heap_inv vl nl h"
    and old: "old \<in> nl (ext h)" and c: "c_realloc al old n m (ext h) = (p, m', e)"
  shows "heap_inv vl nl (h\<lparr>ext := e\<rparr>) \<and> realloc_spec old n (live_ptrs nl h) p (live_ptrs nl (h\<lparr>ext := e\<rparr>)) \<and>
    (p = 0 \<and> n \<noteq> 0 \<longrightarrow> nl e = nl (ext h))"
proof -
  have "\<forall>old n m e. old \<in> nl e \<longrightarrow>
        (let (p, m', e') = c_realloc al old n m e
         in vl e' = vl e \<and>
            (if p \<noteq> 0 then p \<notin> vl e \<and> p - 16 \<notin> vl e \<and> p \<notin> nl e - {old} \<and> nl e' = insert p (nl e - {old})
             else nl e' = (if n = 0 then nl e - {old} else nl e)))"
    using law unfolding alloc_law_def by (elim conjE) assumption
  from this [rule_format, OF old, of n m] have l: "vl e = vl (ext h)"
     "if p \<noteq> 0 then p \<notin> vl (ext h) \<and> p - 16 \<notin> vl (ext h) \<and> p \<notin> nl (ext h) - {old} \<and> nl e = insert p (nl (ext h) - {old})
      else nl e = (if n = 0 then nl (ext h) - {old} else nl (ext h))"
    unfolding c Let_def case_prod_conv by blast+
  have ob: "old \<notin> bigs h" "old \<notin> emergs h"
    using heap_invD(7) [OF inv old] heap_invD(6) [OF inv, of old] heap_invD(8) [OF inv, of old] old by blast+
  show ?thesis
  proof (cases "p = 0")
    case True
    then show ?thesis using l ob inv by (auto simp: heap_inv_def realloc_spec_def live_ptrs_def)
  next
    case False
    then have l2: "p \<notin> vl (ext h)" "p - 16 \<notin> vl (ext h)" "p \<notin> nl (ext h) - {old}" "nl e = insert p (nl (ext h) - {old})"
      using l by simp_all
    have pb: "p \<notin> bigs h" "p \<notin> emergs h" using l2 heap_invD(6) [OF inv, of p] heap_invD(8) [OF inv, of p] by blast+
    have "heap_inv vl nl (h\<lparr>ext := e\<rparr>)"
      using inv l(1) l2 False pb unfolding heap_inv_def by simp blast
    moreover have "realloc_spec old n (live_ptrs nl h) p (live_ptrs nl (h\<lparr>ext := e\<rparr>))"
      using False l2 pb ob unfolding realloc_spec_def live_ptrs_def by auto
    ultimately show ?thesis using False by simp
  qed
qed

lemma realloc_log_post:
  assumes law: "alloc_law al vl nl" and inv: "heap_inv vl nl h" and n: "16 \<le> n + 16"
    and old: "old = 0 \<or> old \<in> emergs h \<or> old \<in> nl (ext h)"
  shows "\<exists>p h'. realloc_log al old n h = Some (p, h') \<and> heap_inv vl nl h' \<and>
    realloc_spec old n (live_ptrs nl h) p (live_ptrs nl h')"
proof -
  have z: "0 \<notin> live_ptrs nl h" using heap_invD(6,7) [OF inv] by (auto simp: live_ptrs_def)
  obtain pm hm where m: "malloc_log al n h = Some (pm, hm)" "alloc_post vl nl h pm hm"
    using malloc_log_post [OF law inv n] by blast
  consider (null) "old = 0" | (em) "old \<noteq> 0" "old \<in> emergs h" | (nl) "old \<noteq> 0" "old \<notin> emergs h" "old \<in> nl (ext h)"
    using old by blast
  then show ?thesis
  proof cases
    case null
    then show ?thesis using m z by (auto simp: realloc_log_def realloc_spec_def alloc_post_def split: if_splits)
  next
    case em
    have fe: "emerg_live h \<noteq> 0" "emerg_find (emerg_set h) old \<noteq> None"
      using emerg_live_zero [OF inv] em emerg.find_law [OF heap_invD(1) [OF inv] em(1)] by (auto simp: emergs_def)
    show ?thesis
    proof (cases "pm = 0")
      case True
      then show ?thesis using m fe em by (auto simp: realloc_log_def realloc_spec_def alloc_post_def)
    next
      case False
      define h2 where "h2 = hm\<lparr>hmem := mem_copy (hmem hm) pm old (unat (min (load32 (hmem h) (old - EMERG_HDR)) n))\<rparr>"
      have i2: "heap_inv vl nl h2" using m by (simp add: h2_def alloc_post_def)
      have lm: "pm \<notin> live_ptrs nl h" "live_ptrs nl h2 = insert pm (live_ptrs nl h)"
        using m False by (simp_all add: h2_def alloc_post_def)
      have "old \<in> emergs h2" using m(2) em by (auto simp: h2_def alloc_post_def)
      then obtain h3 where h3: "emerg_free al old h2 = Some (True, h3)" "free_post vl nl h2 old h3"
        using emerg_free_post [OF law i2] by blast
      have "realloc_log al old n h = Some (pm, h3)"
        using em fe m False h3(1) by (simp add: realloc_log_def h2_def Let_def)
      moreover have "realloc_spec old n (live_ptrs nl h) pm (live_ptrs nl h3)"
        using h3(2) lm em False by (auto simp: realloc_spec_def free_post_def live_ptrs_def)
      ultimately show ?thesis using h3(2) by (auto simp: free_post_def)
    qed
  next
    case nl
    obtain p m e where c: "c_realloc al old n (hmem h) (ext h) = (p, m, e)" by (cases "c_realloc al old n (hmem h) (ext h)")
    note r = realloc_newlib_post [OF law inv nl(3) c]
    have nf: "emerg_find (emerg_set h) old = None"
      using emerg.find_None [OF heap_invD(1) [OF inv] nl(1)] nl(2) by (simp add: emergs_def)
    define h1 where "h1 = h\<lparr>ext := e, hmem := m\<rparr>"
    have i1: "heap_inv vl nl h1" "realloc_spec old n (live_ptrs nl h) p (live_ptrs nl h1)"
      using r unfolding h1_def by (simp_all only: hmem_same)
    show ?thesis
    proof (cases "p = 0 \<and> n \<noteq> 0")
      case False
      then show ?thesis using nl nf c i1 by (auto simp: realloc_log_def h1_def)
    next
      case True
      have nle: "nl e = nl (ext h)" using r True by blast
      have L1: "live_ptrs nl h1 = live_ptrs nl h" using nle by (simp add: live_ptrs_def h1_def)
      obtain p2 h2 where e2: "emerg_alloc al n 16 h1 = Some (p2, h2)" "alloc_post vl nl h1 p2 h2"
        using emerg_alloc_post [OF law i1(1) n] by blast
      show ?thesis
      proof (cases "p2 = 0")
        case p0: True
        then show ?thesis using True nl nf c e2 L1
          by (auto simp: realloc_log_def h1_def [symmetric] alloc_post_def realloc_spec_def)
      next
        case p2: False
        define h3 where "h3 = h2\<lparr>hmem := mem_copy (hmem h2) p2 old (unat (min (c_usable_size al old (ext h2)) n))\<rparr>"
        have i3: "heap_inv vl nl h3" "live_ptrs nl h3 = insert p2 (live_ptrs nl h)" "p2 \<notin> live_ptrs nl h"
          using e2(2) p2 L1 by (simp_all add: h3_def alloc_post_def)
        have on: "old \<in> nl (ext h3)" using e2(2) nl nle by (auto simp: h3_def alloc_post_def h1_def)
        note fr = c_free_post [OF law i3(1) on]
        have "realloc_log al old n h = Some (p2, h3\<lparr>ext := c_free al old (ext h3)\<rparr>)"
          using True nl nf c e2 p2 by (simp add: realloc_log_def h1_def [symmetric] h3_def)
        moreover have "realloc_spec old n (live_ptrs nl h) p2 (live_ptrs nl h3 - {old})"
          using i3 p2 nl by (auto simp: realloc_spec_def live_ptrs_def)
        ultimately show ?thesis using fr by auto
      qed
    qed
  qed
qed

section \<open>One request\<close>

datatype heap_req =
    Malloc u32
  | Calloc u32 u32
  | Memalign u32 u32
  | Realloc u32 u32
  | Free u32

fun heap_do :: "'e allocs \<Rightarrow> heap_req \<Rightarrow> 'e heap \<Rightarrow> (u32 \<times> 'e heap) option" where
  "heap_do al (Malloc n) h = malloc_log al n h"
| "heap_do al (Calloc a b) h = calloc_log al a b h"
| "heap_do al (Memalign align n) h = memalign_log al align n h"
| "heap_do al (Realloc old n) h = realloc_log al old n h"
| "heap_do al (Free p) h = map_option (\<lambda>h'. (0, h')) (free_big al p h)"

text \<open>
  The requests the loader can serve: a size to which the header can be added in 32 bits, a pointer that is
  live, and no \<open>realloc\<close> of a big block (which \<open>realloc_log\<close> would hand to newlib).
\<close>

fun valid_req :: "('e \<Rightarrow> u32 set) \<Rightarrow> 'e heap \<Rightarrow> heap_req \<Rightarrow> bool" where
  "valid_req nl h (Malloc n) = (16 \<le> n + 16)"
| "valid_req nl h (Calloc a b) = (16 \<le> a * b + 16)"
| "valid_req nl h (Memalign align n) = (16 \<le> n + 16)"
| "valid_req nl h (Realloc old n) = ((old = 0 \<or> old \<in> live_ptrs nl h \<and> old \<notin> bigs h) \<and> 16 \<le> n + 16)"
| "valid_req nl h (Free p) = (p = 0 \<or> p \<in> live_ptrs nl h)"

text \<open>What the game is promised, on the set of live pointers alone.\<close>

fun req_spec :: "heap_req \<Rightarrow> u32 set \<Rightarrow> u32 \<Rightarrow> u32 set \<Rightarrow> bool" where
  "req_spec (Free p) L r L' = (L' = L - {p})"
| "req_spec (Realloc old n) L r L' = realloc_spec old n L r L'"
| "req_spec _ L r L' = (if r = 0 then L' = L else r \<notin> L \<and> L' = insert r L)"

lemma zero_not_live: "heap_inv vl nl h \<Longrightarrow> 0 \<notin> live_ptrs nl h"
  using heap_invD(6,7) [of vl nl h] by (auto simp: live_ptrs_def)

lemma request_of_alloc:
  assumes "\<exists>p h'. f = Some (p, h') \<and> alloc_post vl nl h p h'"
  shows "\<exists>p h'. f = Some (p, h') \<and> heap_inv vl nl h' \<and>
    (if p = 0 then live_ptrs nl h' = live_ptrs nl h
     else p \<notin> live_ptrs nl h \<and> live_ptrs nl h' = insert p (live_ptrs nl h))"
  using assms unfolding alloc_post_def by blast

text \<open>
  C3: every valid request terminates (the probe loops of the pointer set included), keeps the heap's
  invariant, and changes the set of live pointers as an allocator must: an allocation returns \<open>NULL\<close> or a
  pointer that was not live, a free removes exactly its pointer (releasing the block behind it to the
  allocator that made it), a \<open>realloc\<close> moves its pointer or leaves everything.
\<close>

theorem heap_request_spec:
  assumes "alloc_law al vl nl" "heap_inv vl nl h" "valid_req nl h r"
  shows "\<exists>p h'. heap_do al r h = Some (p, h') \<and> heap_inv vl nl h' \<and> req_spec r (live_ptrs nl h) p (live_ptrs nl h')"
proof (cases r)
  case (Malloc n)
  then show ?thesis using request_of_alloc [OF malloc_log_post [OF assms(1,2), of n]] assms(3) by simp
next
  case (Calloc a b)
  then show ?thesis using request_of_alloc [OF calloc_log_post [OF assms(1,2), of a b]] assms(3) by simp
next
  case (Memalign align n)
  then show ?thesis using request_of_alloc [OF memalign_log_post [OF assms(1,2), of n align]] assms(3) by simp
next
  case (Realloc old n)
  then have "old = 0 \<or> old \<in> emergs h \<or> old \<in> nl (ext h)" "16 \<le> n + 16"
    using assms(3) by (auto simp: live_ptrs_def)
  then show ?thesis using realloc_log_post [OF assms(1,2), of n old] Realloc by auto
next
  case (Free p)
  show ?thesis
  proof (cases "p = 0")
    case True
    then show ?thesis using Free assms(2) zero_not_live [OF assms(2)] by (simp add: free_big_def)
  next
    case False
    then obtain h' where "free_big al p h = Some h'" "free_post vl nl h p h'"
      using free_big_post [OF assms(1,2), of p] Free assms(3) by auto
    then show ?thesis using Free by (simp add: free_post_def)
  qed
qed

text \<open>The heap at program start.\<close>

definition heap_init :: "memory \<Rightarrow> 'e \<Rightarrow> 'e heap" where
  "heap_init m e = \<lparr>big_tab = [], emerg_set = replicate EMERG_SET 0, emerg_live = 0, emerg_total = 0,
     emerg_bytes = 0, hmem = m, ext = e\<rparr>"

lemma heap_init_inv:
  assumes "\<forall>p \<in> nl e. p \<noteq> 0 \<and> p \<notin> vl e"
  shows "heap_inv vl nl (heap_init m e)"
proof -
  note assms
  moreover have "members (replicate EMERG_SET 0) = {}" by (auto simp: members_def)
  moreover have "set_inv (replicate EMERG_SET 0)" by (simp add: set_inv_def cell_inj_def)
  ultimately show ?thesis by (simp add: heap_inv_def heap_init_def emergs_def bigs_def)
qed

text \<open>An instance of the allocators: one block of newlib, and one of vitaGL, each free or taken.\<close>

definition one_block :: "(bool \<times> bool) allocs" where
  "one_block = \<lparr>
     vglAlloc = (\<lambda>n q (v, c). (if v then 0 else 0x81000000, (True, c))),
     vglFree = (\<lambda>p (v, c). (False, c)),
     vglMemFree = (\<lambda>q e. 0),
     c_malloc = (\<lambda>n (v, c). (if c then 0 else 0x80000000, (v, True))),
     c_free = (\<lambda>p (v, c). (v, False)),
     c_calloc = (\<lambda>a b m e. (0, m, e)),
     c_memalign = (\<lambda>a n e. (0, e)),
     c_realloc = (\<lambda>old n m e. (old, m, e)),
     c_usable_size = (\<lambda>p e. 0)\<rparr>"

definition one_vl :: "bool \<times> bool \<Rightarrow> u32 set" where
  "one_vl e = (if fst e then {0x81000000} else {})"

definition one_nl :: "bool \<times> bool \<Rightarrow> u32 set" where
  "one_nl e = (if snd e then {0x80000000} else {})"

lemma one_block_law: "alloc_law one_block one_vl one_nl"
  by (simp add: alloc_law_def one_block_def one_vl_def one_nl_def new_vgl_def new_newlib_def split: prod.splits)

theorem heap_request_spec_witness:
  "\<exists>p h'. heap_do one_block (Malloc 100) (heap_init (\<lambda>_. 0) (False, True)) = Some (p, h') \<and>
     heap_inv one_vl one_nl h' \<and>
     req_spec (Malloc 100) (live_ptrs one_nl (heap_init (\<lambda>_. 0) (False, True))) p (live_ptrs one_nl h')"
proof -
  have "heap_inv one_vl one_nl (heap_init (\<lambda>_. 0) (False, True))"
    by (rule heap_init_inv) (simp add: one_nl_def one_vl_def)
  then show ?thesis by (rule heap_request_spec [OF one_block_law]) simp
qed

section \<open>What the loader does not check\<close>

text \<open>
  \<open>realloc_log\<close> does not look into \<open>big_tab\<close>: a big block is handed to newlib's \<open>realloc\<close>, which does not
  own it.
\<close>

lemma realloc_big_unowned:
  assumes "heap_inv vl nl h" "p \<in> bigs h" "c_realloc al p n (hmem h) (ext h) = (q, m, e)" "q \<noteq> 0"
  shows "p \<notin> nl (ext h) \<and> realloc_log al p n h = Some (q, h\<lparr>ext := e, hmem := m\<rparr>)"
proof -
  have p: "p \<noteq> 0" "p \<in> vl (ext h)" using heap_invD(6) [OF assms(1,2)] by blast+
  have "p \<notin> emergs h" using heap_invD(8) [OF assms(1), of p] assms(2) by blast
  then have "emerg_find (emerg_set h) p = None"
    using emerg.find_None [OF heap_invD(1) [OF assms(1)] p(1)] by (simp add: emergs_def)
  moreover have "p \<notin> nl (ext h)" using heap_invD(7) [OF assms(1), of p] p by blast
  ultimately show ?thesis using p(1) assms(3,4) by (simp add: realloc_log_def)
qed

text \<open>A size within 16 bytes of \<open>2 ^ 32\<close> wraps when the header is added: the block asked for is tiny.\<close>

lemma emerg_size_wraps: "unat (0xFFFFFFF8 + EMERG_HDR) = 8"
  by (simp add: EMERG_HDR_def)

section \<open>The scratch buffer\<close>

text \<open>
  The buffer vitaGL's readback uses: it grows to the largest request.  \<open>vgl_scratch_get\<close> returns \<open>NULL\<close> and
  keeps the old buffer when nothing can be allocated; the old block is given back only when the new one
  did not come from newlib.
\<close>

record 'e scratch =
  scratch_buf :: u32
  scratch_cap :: u32
  sext :: 'e

definition scratch_pool :: "'e allocs \<Rightarrow> u32 \<Rightarrow> 'e \<Rightarrow> u32 \<times> nat \<times> 'e" where
  "scratch_pool al n e =
     (let (p, e) = vglAlloc al n VGL_MEM_RAM e
      in if p \<noteq> 0 then (p, 1, e)
         else let (p, e) = vglAlloc al n VGL_MEM_VRAM e
              in if p \<noteq> 0 then (p, 0, e)
                 else let (p, e) = c_malloc al n e in (p, 4, e))"

definition vgl_scratch_get :: "'e allocs \<Rightarrow> u32 \<Rightarrow> 'e scratch \<Rightarrow> u32 \<times> 'e scratch" where
  "vgl_scratch_get al n s =
     (if n \<le> scratch_cap s then (scratch_buf s, s)
      else let (p, pool, e) = scratch_pool al n (sext s)
           in if p = 0 then (0, s\<lparr>sext := e\<rparr>)
              else let e = (if scratch_buf s \<noteq> 0 \<and> scratch_cap s \<noteq> 0 \<and> pool \<noteq> 4 then vglFree al (scratch_buf s) e else e)
                   in (p, s\<lparr>scratch_buf := p, scratch_cap := n, sext := e\<rparr>))"

definition vgl_scratch_put :: "(u32 \<Rightarrow> 'e \<Rightarrow> 'e) \<Rightarrow> u32 \<Rightarrow> 'e scratch \<Rightarrow> 'e scratch" where
  "vgl_scratch_put vgl_free p s = (if p \<noteq> 0 \<and> p \<noteq> scratch_buf s then s\<lparr>sext := vgl_free p (sext s)\<rparr> else s)"

text \<open>A successful request is served from the kept buffer, whose capacity never shrinks and covers it.\<close>

lemma vgl_scratch_get_cap:
  assumes "vgl_scratch_get al n s = (p, s')"
  shows "scratch_cap s \<le> scratch_cap s'" "p \<noteq> 0 \<Longrightarrow> p = scratch_buf s' \<and> n \<le> scratch_cap s'"
    "p = 0 \<Longrightarrow> scratch_buf s' = scratch_buf s \<and> scratch_cap s' = scratch_cap s"
  using assms by (auto simp: vgl_scratch_get_def Let_def split: if_splits prod.splits)

end
