(* ===== verification/Imports.thy ===== *)
theory Imports
  imports Prelude
begin

text \<open>
  The import table of the game (\<open>default_dynlib\<close> of \<open>default_dynlib.c\<close>): which function of the loader, of
  newlib or of vitaGL stands behind each symbol the module leaves undefined.  An address is the name of
  the C symbol it is the address of.
\<close>

definition default_dynlib_a :: "(string \<times> string) list" where
  "default_dynlib_a =
    [(''_Unwind_Backtrace'', ''_Unwind_Backtrace''), (''_Unwind_VRS_Get'', ''_Unwind_VRS_Get''),
     (''_ZN2EA6Nimble8Tracking8Tracking10setEnabledEb'', ''_ZN2EA6Nimble8Tracking8Tracking10setEnabledEb''),
     (''_ZN2EA6Nimble8Tracking8Tracking12getComponentEv'', ''_ZN2EA6Nimble8Tracking8Tracking12getComponentEv''),
     (''_ZN2EA6Nimble8Tracking8Tracking8logEventESsRKSt3mapISsSsSt4lessISsESaISt4pairIKSsSsEEE'', ''_ZN2EA6Nimble8Tracking8Tracking8logEventESsRKSt3mapISsSsSt4lessISsESaISt4pairIKSsSsEEE''),
     (''_ZN2EA6Nimble8Tracking8Tracking9isEnabledEv'', ''_ZN2EA6Nimble8Tracking8Tracking9isEnabledEv''),
     (''__aeabi_atexit'', ''__aeabi_atexit''), (''__aeabi_d2lz'', ''__aeabi_d2lz''),
     (''__aeabi_d2uiz'', ''__aeabi_d2uiz''), (''__aeabi_d2ulz'', ''__aeabi_d2ulz''),
     (''__aeabi_dmul'', ''__aeabi_dmul''), (''__aeabi_dsub'', ''__aeabi_dsub''),
     (''__aeabi_f2d'', ''__aeabi_f2d''), (''__aeabi_fcmplt'', ''__aeabi_fcmplt''),
     (''__aeabi_idiv'', ''__aeabi_idiv''), (''__aeabi_idivmod'', ''__aeabi_idivmod''),
     (''__aeabi_l2d'', ''__aeabi_l2d''), (''__aeabi_l2f'', ''__aeabi_l2f''),
     (''__aeabi_ldivmod'', ''__aeabi_ldivmod''), (''__aeabi_ui2d'', ''__aeabi_ui2d''),
     (''__aeabi_uidiv'', ''__aeabi_uidiv''), (''__aeabi_uidivmod'', ''__aeabi_uidivmod''),
     (''__aeabi_ul2d'', ''__aeabi_ul2d''), (''__aeabi_ul2f'', ''__aeabi_ul2f''),
     (''__aeabi_uldivmod'', ''__aeabi_uldivmod''), (''__aeabi_unwind_cpp_pr0'', ''__aeabi_unwind_cpp_pr0''),
     (''__aeabi_unwind_cpp_pr1'', ''__aeabi_unwind_cpp_pr1''), (''__android_log_print'', ''__android_log_print''),
     (''__android_log_vprint'', ''__android_log_vprint''), (''__android_log_write'', ''__android_log_write''),
     (''__assert2'', ''__assert2''), (''__cxa_atexit'', ''__cxa_atexit''),
     (''__cxa_finalize'', ''__cxa_finalize''), (''__cxa_guard_acquire'', ''__cxa_guard_acquire''),
     (''__cxa_guard_release'', ''__cxa_guard_release''), (''__cxa_pure_virtual'', ''__cxa_pure_virtual''),
     (''__errno'', ''__errno''), (''__isinf'', ''__isinf''), (''__page_size'', ''__page_size''),
     (''__sF'', ''__sF_fake''), (''__srget'', ''__srget''), (''__stack_chk_fail'', ''__stack_chk_fail''),
     (''__stack_chk_guard'', ''__stack_chk_guard''), (''abort'', ''abort''), (''accept'', ''accept''),
     (''acos'', ''acos''), (''acosf'', ''acosf''), (''asctime'', ''asctime''), (''asin'', ''asin''),
     (''asinf'', ''asinf''), (''atan'', ''atan''), (''atan2'', ''atan2''), (''atan2f'', ''atan2f''),
     (''atanf'', ''atanf''), (''atoi'', ''atoi''), (''bcopy'', ''bcopy''), (''bind'', ''bind''),
     (''bsearch'', ''bsearch''), (''calloc'', ''calloc_log''), (''ceil'', ''ceil''), (''ceilf'', ''ceilf''),
     (''chdir'', ''chdir''), (''chmod'', ''chmod''), (''clock'', ''clock''),
     (''clock_gettime'', ''clock_gettime_rt''), (''close'', ''close_fix''), (''closedir'', ''closedir''),
     (''connect'', ''connect''), (''cos'', ''cos''), (''cosf'', ''cosf''), (''cosh'', ''cosh''),
     (''difftime'', ''difftime''), (''eglGetProcAddress'', ''egl_get_proc_address_shim''), (''execv'', ''execv''),
     (''exit'', ''exit''), (''exp'', ''exp''), (''expf'', ''expf''), (''fabsf'', ''fabsf''),
     (''fclose'', ''fclose''), (''fcntl'', ''fcntl''), (''fflush'', ''fflush''), (''fgetc'', ''fgetc''),
     (''fgets'', ''fgets''), (''floor'', ''floor''), (''floorf'', ''floorf''), (''fmod'', ''fmod''),
     (''fmodf'', ''fmodf''), (''fopen'', ''fopen_log''), (''fork'', ''fork''), (''fprintf'', ''fprintf''),
     (''fputc'', ''fputc''), (''fputs'', ''fputs''), (''fread'', ''fread''), (''free'', ''free_big''),
     (''freeaddrinfo'', ''freeaddrinfo''), (''freopen'', ''freopen''), (''frexp'', ''frexp''),
     (''fseek'', ''fseek''), (''fstat'', ''fstat_fix''), (''fsync'', ''fsync''), (''ftell'', ''ftell''),
     (''ftruncate'', ''ftruncate_fix''), (''fwide'', ''fwide''), (''fwrite'', ''fwrite''),
     (''getaddrinfo'', ''getaddrinfo''), (''getcwd'', ''getcwd''), (''getenv'', ''getenv''),
     (''gethostbyname'', ''gethostbyname''), (''gethostname'', ''gethostname''),
     (''getpeername'', ''getpeername''), (''getsockname'', ''getsockname''), (''getsockopt'', ''getsockopt''),
     (''gettimeofday'', ''gettimeofday'')]"

definition default_dynlib_b :: "(string \<times> string) list" where
  "default_dynlib_b =
    [(''glActiveTexture'', ''glActiveTexture_locked''), (''glAttachShader'', ''glAttachShader_locked''),
     (''glBindAttribLocation'', ''glBindAttribLocation_locked''), (''glBindBuffer'', ''glBindBuffer_locked''),
     (''glBindFramebuffer'', ''glBindFramebuffer_locked''),
     (''glBindRenderbuffer'', ''glBindRenderbuffer_locked''), (''glBindTexture'', ''glBindTexture_locked''),
     (''glBlendColor'', ''glBlendColor''), (''glBlendEquation'', ''glBlendEquation_locked''),
     (''glBlendEquationSeparate'', ''glBlendEquationSeparate_locked''), (''glBlendFunc'', ''glBlendFunc_locked''),
     (''glBlendFuncSeparate'', ''glBlendFuncSeparate_locked''), (''glBufferData'', ''glBufferData_locked''),
     (''glBufferSubData'', ''glBufferSubData_locked''),
     (''glCheckFramebufferStatus'', ''glCheckFramebufferStatus_locked''), (''glClear'', ''glClear_locked''),
     (''glClearColor'', ''glClearColor_locked''), (''glClearDepthf'', ''glClearDepthf_locked''),
     (''glClearStencil'', ''glClearStencil_locked''), (''glColorMask'', ''glColorMask_locked''),
     (''glCompileShader'', ''glCompileShader_locked''),
     (''glCompressedTexImage2D'', ''glCompressedTexImage2D_locked''),
     (''glCompressedTexSubImage2D'', ''glCompressedTexSubImage2D''),
     (''glCopyTexImage2D'', ''glCopyTexImage2D_locked''),
     (''glCopyTexSubImage2D'', ''glCopyTexSubImage2D_locked''), (''glCreateProgram'', ''glCreateProgram_locked''),
     (''glCreateShader'', ''glCreateShader_locked''), (''glCullFace'', ''glCullFace_locked''),
     (''glDeleteBuffers'', ''glDeleteBuffers_locked''),
     (''glDeleteFramebuffers'', ''glDeleteFramebuffers_locked''),
     (''glDeleteProgram'', ''glDeleteProgram_locked''),
     (''glDeleteRenderbuffers'', ''glDeleteRenderbuffers_locked''),
     (''glDeleteShader'', ''glDeleteShader_locked''), (''glDeleteTextures'', ''glDeleteTextures_locked''),
     (''glDepthFunc'', ''glDepthFunc_locked''), (''glDepthMask'', ''glDepthMask_locked''),
     (''glDepthRangef'', ''glDepthRangef_locked''), (''glDetachShader'', ''glDetachShader''),
     (''glDisable'', ''glDisable_locked''),
     (''glDisableVertexAttribArray'', ''glDisableVertexAttribArray_locked''),
     (''glDrawArrays'', ''glDrawArrays_locked''), (''glDrawElements'', ''glDrawElements_locked''),
     (''glEnable'', ''glEnable_locked''), (''glEnableVertexAttribArray'', ''glEnableVertexAttribArray_locked''),
     (''glFinish'', ''glFinish_locked''), (''glFlush'', ''glFlush_locked''),
     (''glFramebufferRenderbuffer'', ''glFramebufferRenderbuffer_locked''),
     (''glFramebufferTexture2D'', ''glFramebufferTexture2D_locked''), (''glFrontFace'', ''glFrontFace_locked''),
     (''glGenBuffers'', ''glGenBuffers_locked''), (''glGenFramebuffers'', ''glGenFramebuffers_locked''),
     (''glGenRenderbuffers'', ''glGenRenderbuffers_locked''), (''glGenTextures'', ''glGenTextures_locked''),
     (''glGenerateMipmap'', ''glGenerateMipmap_locked''), (''glGetActiveAttrib'', ''glGetActiveAttrib_locked''),
     (''glGetActiveUniform'', ''glGetActiveUniform_locked''),
     (''glGetAttachedShaders'', ''glGetAttachedShaders_locked''),
     (''glGetAttribLocation'', ''glGetAttribLocation_locked''), (''glGetBooleanv'', ''glGetBooleanv_locked''),
     (''glGetBufferParameteriv'', ''glGetBufferParameteriv_locked''), (''glGetError'', ''glGetError_locked''),
     (''glGetFloatv'', ''glGetFloatv_locked''),
     (''glGetFramebufferAttachmentParameteriv'', ''glGetFramebufferAttachmentParameteriv_locked''),
     (''glGetIntegerv'', ''glGetIntegerv_locked''), (''glGetProgramInfoLog'', ''glGetProgramInfoLog_locked''),
     (''glGetProgramiv'', ''glGetProgramiv_locked''),
     (''glGetRenderbufferParameteriv'', ''glGetRenderbufferParameteriv''),
     (''glGetShaderInfoLog'', ''glGetShaderInfoLog_locked''),
     (''glGetShaderPrecisionFormat'', ''glGetShaderPrecisionFormat''),
     (''glGetShaderSource'', ''glGetShaderSource_locked''), (''glGetShaderiv'', ''glGetShaderiv_locked''),
     (''glGetString'', ''glGetString_locked''), (''glGetTexParameterfv'', ''glGetTexParameterfv''),
     (''glGetTexParameteriv'', ''glGetTexParameteriv''),
     (''glGetUniformLocation'', ''glGetUniformLocation_locked''), (''glGetUniformfv'', ''glGetUniformfv''),
     (''glGetUniformiv'', ''glGetUniformiv''),
     (''glGetVertexAttribPointerv'', ''glGetVertexAttribPointerv_locked''),
     (''glGetVertexAttribfv'', ''glGetVertexAttribfv_locked''),
     (''glGetVertexAttribiv'', ''glGetVertexAttribiv_locked''), (''glHint'', ''glHint_locked''),
     (''glIsBuffer'', ''glIsBuffer''), (''glIsEnabled'', ''glIsEnabled_locked''),
     (''glIsFramebuffer'', ''glIsFramebuffer_locked''), (''glIsProgram'', ''glIsProgram_locked''),
     (''glIsRenderbuffer'', ''glIsRenderbuffer_locked''), (''glIsShader'', ''glIsShader''),
     (''glIsTexture'', ''glIsTexture_locked''), (''glLineWidth'', ''glLineWidth_locked''),
     (''glLinkProgram'', ''glLinkProgram_locked''), (''glPixelStorei'', ''glPixelStorei_locked''),
     (''glPolygonOffset'', ''glPolygonOffset_locked''), (''glReadPixels'', ''glReadPixels_locked''),
     (''glReleaseShaderCompiler'', ''glReleaseShaderCompiler_locked''),
     (''glRenderbufferStorage'', ''glRenderbufferStorage_locked''), (''glSampleCoverage'', ''glSampleCoverage''),
     (''glScissor'', ''glScissor_locked''), (''glShaderBinary'', ''glShaderBinary_locked''),
     (''glShaderSource'', ''glShaderSource_locked''), (''glStencilFunc'', ''glStencilFunc_locked''),
     (''glStencilFuncSeparate'', ''glStencilFuncSeparate_locked''), (''glStencilMask'', ''glStencilMask_locked''),
     (''glStencilMaskSeparate'', ''glStencilMaskSeparate_locked''), (''glStencilOp'', ''glStencilOp_locked''),
     (''glStencilOpSeparate'', ''glStencilOpSeparate_locked''), (''glTexImage2D'', ''glTexImage2D_locked''),
     (''glTexParameterf'', ''glTexParameterf_locked''), (''glTexParameterfv'', ''glTexParameterfv''),
     (''glTexParameteri'', ''glTexParameteri_locked''), (''glTexParameteriv'', ''glTexParameteriv_locked''),
     (''glTexSubImage2D'', ''glTexSubImage2D_locked''), (''glUniform1f'', ''glUniform1f_locked''),
     (''glUniform1fv'', ''glUniform1fv_locked'')]"

definition default_dynlib_c :: "(string \<times> string) list" where
  "default_dynlib_c =
    [(''glUniform1i'', ''glUniform1i_locked''), (''glUniform1iv'', ''glUniform1iv_locked''),
     (''glUniform2f'', ''glUniform2f_locked''), (''glUniform2fv'', ''glUniform2fv_locked''),
     (''glUniform2i'', ''glUniform2i_locked''), (''glUniform2iv'', ''glUniform2iv_locked''),
     (''glUniform3f'', ''glUniform3f_locked''), (''glUniform3fv'', ''glUniform3fv_locked''),
     (''glUniform3i'', ''glUniform3i_locked''), (''glUniform3iv'', ''glUniform3iv_locked''),
     (''glUniform4f'', ''glUniform4f_locked''), (''glUniform4fv'', ''glUniform4fv_locked''),
     (''glUniform4i'', ''glUniform4i_locked''), (''glUniform4iv'', ''glUniform4iv_locked''),
     (''glUniformMatrix2fv'', ''glUniformMatrix2fv_locked''),
     (''glUniformMatrix3fv'', ''glUniformMatrix3fv_locked''),
     (''glUniformMatrix4fv'', ''glUniformMatrix4fv_locked''), (''glUseProgram'', ''glUseProgram_locked''),
     (''glValidateProgram'', ''glValidateProgram''), (''glVertexAttrib1f'', ''glVertexAttrib1f_locked''),
     (''glVertexAttrib1fv'', ''glVertexAttrib1fv_locked''), (''glVertexAttrib2f'', ''glVertexAttrib2f_locked''),
     (''glVertexAttrib2fv'', ''glVertexAttrib2fv_locked''), (''glVertexAttrib3f'', ''glVertexAttrib3f_locked''),
     (''glVertexAttrib3fv'', ''glVertexAttrib3fv_locked''), (''glVertexAttrib4f'', ''glVertexAttrib4f_locked''),
     (''glVertexAttrib4fv'', ''glVertexAttrib4fv_locked''),
     (''glVertexAttribPointer'', ''glVertexAttribPointer_locked''), (''glViewport'', ''glViewport_locked''),
     (''gmtime'', ''gmtime''), (''inet_addr'', ''inet_addr''), (''inet_ntoa'', ''inet_ntoa''),
     (''ioctl'', ''ioctl''), (''isalnum'', ''isalnum''), (''isalpha'', ''isalpha''), (''iscntrl'', ''iscntrl''),
     (''islower'', ''islower''), (''isnan'', ''isnan''), (''isprint'', ''isprint''), (''ispunct'', ''ispunct''),
     (''isspace'', ''isspace''), (''isupper'', ''isupper''), (''isxdigit'', ''isxdigit''), (''ldexp'', ''ldexp''),
     (''listen'', ''listen''), (''localtime'', ''localtime''), (''log'', ''log''), (''log10'', ''log10''),
     (''log10f'', ''log10f''), (''logf'', ''logf''), (''longjmp'', ''longjmp''), (''lrand48'', ''lrand48''),
     (''lseek'', ''lseek_fix''), (''malloc'', ''malloc_log''), (''memalign'', ''memalign_log''),
     (''memchr'', ''memchr''), (''memcmp'', ''memcmp''), (''memcpy'', ''memcpy''), (''memmove'', ''memmove''),
     (''memset'', ''memset''), (''mkdir'', ''mkdir_fix''), (''mktime'', ''mktime''), (''mmap'', ''mmap''),
     (''modf'', ''modf''), (''munmap'', ''munmap''), (''nanosleep'', ''nanosleep_yield''),
     (''open'', ''open_log''), (''opendir'', ''opendir_fix''), (''poll'', ''poll''), (''pow'', ''pow''),
     (''powf'', ''powf''), (''prctl'', ''prctl''), (''pthread_attr_destroy'', ''pthread_attr_destroy_bridge''),
     (''pthread_attr_getstack'', ''pthread_attr_getstack_bridge''),
     (''pthread_attr_init'', ''pthread_attr_init_bridge''),
     (''pthread_attr_setdetachstate'', ''pthread_attr_setdetachstate_bridge''),
     (''pthread_attr_setschedparam'', ''pthread_attr_setschedparam_bridge''),
     (''pthread_attr_setschedpolicy'', ''pthread_attr_setschedpolicy_bridge''),
     (''pthread_attr_setstack'', ''pthread_attr_setstack_bridge''),
     (''pthread_attr_setstacksize'', ''pthread_attr_setstacksize_bridge''),
     (''pthread_cond_broadcast'', ''pthread_cond_broadcast_bridge''),
     (''pthread_cond_destroy'', ''pthread_cond_destroy_bridge''),
     (''pthread_cond_init'', ''pthread_cond_init_bridge''),
     (''pthread_cond_signal'', ''pthread_cond_signal_bridge''),
     (''pthread_cond_timedwait'', ''cond_timedwait_timed''),
     (''pthread_cond_wait'', ''pthread_cond_wait_bridge''), (''pthread_create'', ''pthread_create_bridge''),
     (''pthread_detach'', ''pthread_detach_bridge''), (''pthread_exit'', ''pthread_exit_bridge''),
     (''pthread_getattr_np'', ''pthread_getattr_np_bridge''),
     (''pthread_getschedparam'', ''pthread_getschedparam_bridge''),
     (''pthread_getspecific'', ''pthread_getspecific_bridge''), (''pthread_join'', ''pthread_join_bridge''),
     (''pthread_key_create'', ''pthread_key_create_bridge''),
     (''pthread_key_delete'', ''pthread_key_delete_bridge''),
     (''pthread_mutex_destroy'', ''pthread_mutex_destroy_bridge''),
     (''pthread_mutex_init'', ''pthread_mutex_init_bridge''),
     (''pthread_mutex_lock'', ''pthread_mutex_lock_bridge''),
     (''pthread_mutex_trylock'', ''pthread_mutex_trylock_bridge''),
     (''pthread_mutex_unlock'', ''pthread_mutex_unlock_bridge''),
     (''pthread_mutexattr_destroy'', ''pthread_mutexattr_destroy_bridge''),
     (''pthread_mutexattr_init'', ''pthread_mutexattr_init_bridge''),
     (''pthread_mutexattr_setpshared'', ''pthread_mutexattr_setpshared_bridge''),
     (''pthread_mutexattr_settype'', ''pthread_mutexattr_settype_bridge''),
     (''pthread_once'', ''pthread_once_bridge''), (''pthread_self'', ''pthread_self_bridge''),
     (''pthread_setschedparam'', ''pthread_setschedparam_bridge''),
     (''pthread_setspecific'', ''pthread_setspecific_bridge''), (''putchar'', ''putchar''),
     (''qsort'', ''qsort''), (''read'', ''read''), (''readdir'', ''readdir''), (''readdir_r'', ''readdir_r'')]"

definition default_dynlib_d :: "(string \<times> string) list" where
  "default_dynlib_d =
    [(''readlink'', ''readlink''), (''realloc'', ''realloc_log''), (''recv'', ''recv''),
     (''recvfrom'', ''recvfrom''), (''remove'', ''remove_fix''), (''rename'', ''rename_fix''),
     (''rewind'', ''rewind''), (''rmdir'', ''rmdir_fix''), (''sched_yield'', ''sched_yield_bridge''),
     (''sem_destroy'', ''sem_destroy_bridge''), (''sem_getvalue'', ''sem_getvalue_bridge''),
     (''sem_init'', ''sem_init_bridge''), (''sem_post'', ''sem_post_bridge''),
     (''sem_timedwait'', ''sem_timedwait_bridge''), (''sem_trywait'', ''sem_trywait_bridge''),
     (''sem_wait'', ''sem_wait_bridge''), (''send'', ''send''), (''sendto'', ''sendto''),
     (''setenv'', ''setenv''), (''setjmp'', ''setjmp''), (''setlocale'', ''setlocale''),
     (''setsockopt'', ''setsockopt''), (''setvbuf'', ''setvbuf''), (''shutdown'', ''shutdown''),
     (''sin'', ''sin''), (''sinf'', ''sinf''), (''sinh'', ''sinh''), (''sleep'', ''sleep''),
     (''snprintf'', ''snprintf''), (''socket'', ''socket''), (''sprintf'', ''sprintf''), (''sqrt'', ''sqrt''),
     (''sqrtf'', ''sqrtf''), (''srand48'', ''srand48''), (''sscanf'', ''sscanf''), (''stat'', ''stat_fix''),
     (''statfs'', ''statfs''), (''strcasecmp'', ''strcasecmp''), (''strcat'', ''strcat''),
     (''strchr'', ''strchr''), (''strcmp'', ''strcmp''), (''strcoll'', ''strcoll''), (''strcpy'', ''strcpy''),
     (''strcspn'', ''strcspn''), (''strerror'', ''strerror''), (''strftime'', ''strftime''),
     (''strlen'', ''strlen''), (''strncasecmp'', ''strncasecmp''), (''strncat'', ''strncat''),
     (''strncmp'', ''strncmp''), (''strncpy'', ''strncpy''), (''strpbrk'', ''strpbrk''),
     (''strrchr'', ''strrchr''), (''strspn'', ''strspn''), (''strstr'', ''strstr''), (''strtod'', ''strtod''),
     (''strtok'', ''strtok''), (''strtol'', ''strtol''), (''strtoul'', ''strtoul''), (''strtoull'', ''strtoull''),
     (''syscall'', ''syscall''), (''sysconf'', ''sysconf''), (''system'', ''system''), (''tan'', ''tan''),
     (''tanf'', ''tanf''), (''tanh'', ''tanh''), (''time'', ''time''), (''timezone'', ''timezone''),
     (''tmpnam'', ''tmpnam''), (''tolower'', ''tolower''), (''toupper'', ''toupper''), (''tzname'', ''tzname''),
     (''tzset'', ''tzset''), (''ungetc'', ''ungetc''), (''unlink'', ''unlink_fix''), (''unsetenv'', ''unsetenv''),
     (''usleep'', ''usleep_yield''), (''utime'', ''utime''), (''vprintf'', ''vprintf''),
     (''vsnprintf'', ''vsnprintf''), (''vsprintf'', ''vsprintf''), (''waitpid'', ''waitpid''),
     (''wcscmp'', ''wcscmp''), (''wcscoll'', ''wcscoll''), (''wcscpy'', ''wcscpy''), (''write'', ''write_fix''),
     (''_ctype_'', ''_ctype_''), (''__gnu_Unwind_Find_exidx'', ''__gnu_Unwind_Find_exidx''),
     (''wmemchr'', ''wmemchr''), (''wmemcpy'', ''wmemcpy''), (''wcrtomb'', ''wcrtomb''),
     (''mbrtowc'', ''mbrtowc''), (''strxfrm'', ''strxfrm''), (''wcsxfrm'', ''wcsxfrm''), (''wctype'', ''wctype''),
     (''towupper'', ''towupper''), (''towlower'', ''towlower''), (''iswctype'', ''iswctype''),
     (''wctob'', ''wctob''), (''btowc'', ''btowc''), (''wcsftime'', ''wcsftime''), (''fdopen'', ''fdopen''),
     (''writev'', ''writev''), (''putwc'', ''putwc''), (''ungetwc'', ''ungetwc''), (''getwc'', ''getwc''),
     (''getc'', ''getc''), (''putc'', ''putc''), (''wcslen'', ''wcslen''), (''wmemset'', ''wmemset''),
     (''wmemmove'', ''wmemmove''), (''wmemcmp'', ''wmemcmp''), (''raise'', ''raise'')]"

definition default_dynlib :: "(string \<times> string) list" where
  "default_dynlib = default_dynlib_a @ default_dynlib_b @ default_dynlib_c @ default_dynlib_d"

text \<open>The wrappers of \<open>gl_lock.c\<close> the table declares (\<open>glActiveTexture_locked\<close> to \<open>glViewport_locked\<close>).\<close>

definition gl_wrappers_1 :: "string list" where
  "gl_wrappers_1 =
    [''glActiveTexture_locked'', ''glAttachShader_locked'', ''glBindAttribLocation_locked'',
     ''glBindBuffer_locked'', ''glBindFramebuffer_locked'', ''glBindRenderbuffer_locked'',
     ''glBindTexture_locked'', ''glBlendEquation_locked'', ''glBlendEquationSeparate_locked'',
     ''glBlendFunc_locked'', ''glBlendFuncSeparate_locked'', ''glBufferData_locked'', ''glBufferSubData_locked'',
     ''glCheckFramebufferStatus_locked'', ''glClear_locked'', ''glClearColor_locked'', ''glClearDepthf_locked'',
     ''glClearStencil_locked'', ''glColorMask_locked'', ''glCompileShader_locked'',
     ''glCompressedTexImage2D_locked'', ''glCopyTexImage2D_locked'', ''glCopyTexSubImage2D_locked'',
     ''glCreateProgram_locked'', ''glCreateShader_locked'', ''glCullFace_locked'', ''glDeleteBuffers_locked'',
     ''glDeleteFramebuffers_locked'', ''glDeleteProgram_locked'', ''glDeleteRenderbuffers_locked'',
     ''glDeleteShader_locked'', ''glDeleteTextures_locked'', ''glDepthFunc_locked'', ''glDepthMask_locked'',
     ''glDepthRangef_locked'', ''glDisable_locked'', ''glDisableVertexAttribArray_locked'',
     ''glDrawArrays_locked'', ''glDrawElements_locked'', ''glEnable_locked'',
     ''glEnableVertexAttribArray_locked'', ''glFinish_locked'', ''glFlush_locked'',
     ''glFramebufferRenderbuffer_locked'', ''glFramebufferTexture2D_locked'', ''glFrontFace_locked'',
     ''glGenBuffers_locked'', ''glGenFramebuffers_locked'', ''glGenRenderbuffers_locked'',
     ''glGenTextures_locked'', ''glGenerateMipmap_locked'', ''glGetActiveAttrib_locked'',
     ''glGetActiveUniform_locked'', ''glGetAttachedShaders_locked'', ''glGetAttribLocation_locked'',
     ''glGetBooleanv_locked'', ''glGetBufferParameteriv_locked'', ''glGetError_locked'', ''glGetFloatv_locked'',
     ''glGetFramebufferAttachmentParameteriv_locked'', ''glGetIntegerv_locked'', ''glGetProgramInfoLog_locked'',
     ''glGetProgramiv_locked'', ''glGetShaderInfoLog_locked'', ''glGetShaderSource_locked'',
     ''glGetShaderiv_locked'', ''glGetString_locked'', ''glGetUniformLocation_locked'',
     ''glGetVertexAttribPointerv_locked'', ''glGetVertexAttribfv_locked'', ''glGetVertexAttribiv_locked'',
     ''glHint_locked'', ''glIsEnabled_locked'', ''glIsFramebuffer_locked'', ''glIsProgram_locked'',
     ''glIsRenderbuffer_locked'', ''glIsTexture_locked'', ''glLineWidth_locked'', ''glLinkProgram_locked'',
     ''glPixelStorei_locked'', ''glPolygonOffset_locked'', ''glReadPixels_locked'',
     ''glReleaseShaderCompiler_locked'', ''glRenderbufferStorage_locked'', ''glScissor_locked'',
     ''glShaderBinary_locked'', ''glShaderSource_locked'', ''glStencilFunc_locked'',
     ''glStencilFuncSeparate_locked'', ''glStencilMask_locked'', ''glStencilMaskSeparate_locked'',
     ''glStencilOp_locked'', ''glStencilOpSeparate_locked'', ''glTexImage2D_locked'', ''glTexParameterf_locked'',
     ''glTexParameteri_locked'', ''glTexParameteriv_locked'', ''glTexSubImage2D_locked'', ''glUniform1f_locked'',
     ''glUniform1fv_locked'']"

definition gl_wrappers_2 :: "string list" where
  "gl_wrappers_2 =
    [''glUniform1i_locked'', ''glUniform1iv_locked'', ''glUniform2f_locked'', ''glUniform2fv_locked'',
     ''glUniform2i_locked'', ''glUniform2iv_locked'', ''glUniform3f_locked'', ''glUniform3fv_locked'',
     ''glUniform3i_locked'', ''glUniform3iv_locked'', ''glUniform4f_locked'', ''glUniform4fv_locked'',
     ''glUniform4i_locked'', ''glUniform4iv_locked'', ''glUniformMatrix2fv_locked'',
     ''glUniformMatrix3fv_locked'', ''glUniformMatrix4fv_locked'', ''glUseProgram_locked'',
     ''glVertexAttrib1f_locked'', ''glVertexAttrib1fv_locked'', ''glVertexAttrib2f_locked'',
     ''glVertexAttrib2fv_locked'', ''glVertexAttrib3f_locked'', ''glVertexAttrib3fv_locked'',
     ''glVertexAttrib4f_locked'', ''glVertexAttrib4fv_locked'', ''glVertexAttribPointer_locked'',
     ''glViewport_locked'']"

section \<open>Well-formedness of the table\<close>

text \<open>\<open>so_resolve\<close> takes the first row whose symbol compares equal.\<close>

fun dynlib_lookup :: "(string \<times> 'f) list \<Rightarrow> string \<Rightarrow> 'f option" where
  "dynlib_lookup [] s = None"
| "dynlib_lookup ((k, f) # t) s = (if s = k then Some f else dynlib_lookup t s)"

lemma dynlib_lookup_map_of: "dynlib_lookup t s = map_of t s"
  by (induction t) auto

fun str_less :: "string \<Rightarrow> string \<Rightarrow> bool" where
  "str_less _ [] = False"
| "str_less [] (y # ys) = True"
| "str_less (x # xs) (y # ys) = (of_char x < (of_char y :: nat) \<or> x = y \<and> str_less xs ys)"

fun ascending :: "string list \<Rightarrow> bool" where
  "ascending (x # y # zs) = (str_less x y \<and> ascending (y # zs))"
| "ascending _ = True"

lemma str_less_irrefl: "\<not> str_less x x"
  by (induction x) auto

lemma str_less_trans: "str_less x y \<Longrightarrow> str_less y z \<Longrightarrow> str_less x z"
proof (induction x y arbitrary: z rule: str_less.induct)
  case (1 x)
  then show ?case by simp
next
  case (2 y ys)
  then show ?case by (cases z) auto
next
  case (3 x xs y ys)
  then show ?case by (cases z) auto
qed

lemma ascending_less: "ascending (x # ys) \<Longrightarrow> y \<in> set ys \<Longrightarrow> str_less x y"
proof (induction ys arbitrary: x)
  case Nil
  then show ?case by simp
next
  case (Cons z zs)
  then show ?case using str_less_trans by (cases "y = z") auto
qed

lemma ascending_distinct: "ascending xs \<Longrightarrow> distinct xs"
proof (induction xs)
  case Nil
  then show ?case by simp
next
  case (Cons x xs)
  then have "x \<notin> set xs" using ascending_less str_less_irrefl by blast
  moreover have "ascending xs" using Cons.prems by (cases xs) auto
  ultimately show ?case using Cons.IH by simp
qed

lemma ascending_join:
  "ascending xs \<Longrightarrow> ascending ys \<Longrightarrow> xs \<noteq> [] \<Longrightarrow> ys \<noteq> [] \<Longrightarrow> str_less (last xs) (hd ys) \<Longrightarrow> ascending (xs @ ys)"
proof (induction xs rule: ascending.induct, goal_cases)
  case (1 x y zs)
  then show ?case by simp
next
  case (3 v)
  then show ?case by (cases ys) auto
qed auto

definition starts_with :: "string \<Rightarrow> string \<Rightarrow> bool" where
  "starts_with p s \<longleftrightarrow> take (length p) s = p"

definition ends_with :: "string \<Rightarrow> string \<Rightarrow> bool" where
  "ends_with e s \<longleftrightarrow> drop (length s - length e) s = e"

text \<open>
  The rows the loader must redirect: the allocator as a whole (a block must be freed by the function that
  knows its owner), every POSIX thread and semaphore function (bionic's objects are smaller than
  newlib's), and no wrapper under another function's name.
\<close>

definition row_ok :: "string \<times> string \<Rightarrow> bool" where
  "row_ok r \<longleftrightarrow>
     ((starts_with ''pthread_'' (fst r) \<or> starts_with ''sem_'' (fst r)) \<longrightarrow>
        snd r = fst r @ ''_bridge'' \<or> fst r = ''pthread_cond_timedwait'' \<and> snd r = ''cond_timedwait_timed'') \<and>
     (ends_with ''_locked'' (snd r) \<longrightarrow> snd r = fst r @ ''_locked'' \<and> starts_with ''gl'' (fst r)) \<and>
     (fst r \<in> set [''malloc'', ''calloc'', ''memalign'', ''realloc''] \<longrightarrow> snd r = fst r @ ''_log'') \<and>
     (fst r = ''free'' \<longrightarrow> snd r = ''free_big'')"

lemmas row_simps = row_ok_def starts_with_def ends_with_def

lemma rows_a: "list_all row_ok default_dynlib_a"
  unfolding default_dynlib_a_def by (simp add: row_simps)

lemma rows_b: "list_all row_ok default_dynlib_b"
  unfolding default_dynlib_b_def by (simp add: row_simps)

lemma rows_c: "list_all row_ok default_dynlib_c"
  unfolding default_dynlib_c_def by (simp add: row_simps)

lemma rows_d: "list_all row_ok default_dynlib_d"
  unfolding default_dynlib_d_def by (simp add: row_simps)

text \<open>The generated rows are in ascending order; the 27 rows added by hand follow them.\<close>

definition keys_d :: "string list" where
  "keys_d = map fst (take 86 default_dynlib_d)"

definition keys_e :: "string list" where
  "keys_e = map fst (drop 86 default_dynlib_d)"

lemma keys_a_ascending: "ascending (map fst default_dynlib_a)"
  unfolding default_dynlib_a_def by simp

lemma keys_b_ascending: "ascending (map fst default_dynlib_b)"
  unfolding default_dynlib_b_def by simp

lemma keys_c_ascending: "ascending (map fst default_dynlib_c)"
  unfolding default_dynlib_c_def by simp

lemma keys_d_ascending: "ascending keys_d"
  unfolding keys_d_def default_dynlib_d_def by simp

lemma keys_e_list: "keys_e =
    [''_ctype_'', ''__gnu_Unwind_Find_exidx'', ''wmemchr'', ''wmemcpy'', ''wcrtomb'', ''mbrtowc'', ''strxfrm'', ''wcsxfrm'',
     ''wctype'', ''towupper'', ''towlower'', ''iswctype'', ''wctob'', ''btowc'', ''wcsftime'', ''fdopen'', ''writev'', ''putwc'',
     ''ungetwc'', ''getwc'', ''getc'', ''putc'', ''wcslen'', ''wmemset'', ''wmemmove'', ''wmemcmp'', ''raise'']"
  unfolding keys_e_def default_dynlib_d_def by simp

lemma keys_e_distinct: "distinct keys_e"
  unfolding keys_e_list by simp

lemma keys_e_not_a: "list_all (\<lambda>k. k \<notin> set (map fst default_dynlib_a)) keys_e"
  unfolding keys_e_list default_dynlib_a_def by simp

lemma keys_e_not_b: "list_all (\<lambda>k. k \<notin> set (map fst default_dynlib_b)) keys_e"
  unfolding keys_e_list default_dynlib_b_def by simp

lemma keys_e_not_c: "list_all (\<lambda>k. k \<notin> set (map fst default_dynlib_c)) keys_e"
  unfolding keys_e_list default_dynlib_c_def by simp

lemma keys_e_not_d: "list_all (\<lambda>k. k \<notin> set keys_d) keys_e"
  unfolding keys_e_list keys_d_def default_dynlib_d_def by simp

lemma joins:
  "str_less (last (map fst default_dynlib_a)) (hd (map fst default_dynlib_b))"
  "str_less (last (map fst default_dynlib_b)) (hd (map fst default_dynlib_c))"
  "str_less (last (map fst default_dynlib_c)) (hd keys_d)"
  unfolding default_dynlib_a_def default_dynlib_b_def default_dynlib_c_def keys_d_def default_dynlib_d_def by simp_all

lemma rows_nonempty: "default_dynlib_a \<noteq> []" "default_dynlib_b \<noteq> []" "default_dynlib_c \<noteq> []" "keys_d \<noteq> []"
  unfolding default_dynlib_a_def default_dynlib_b_def default_dynlib_c_def keys_d_def default_dynlib_d_def by simp_all

lemma keys_split: "map fst default_dynlib =
    (map fst default_dynlib_a @ map fst default_dynlib_b @ map fst default_dynlib_c @ keys_d) @ keys_e"
  unfolding default_dynlib_def keys_d_def keys_e_def by (simp flip: map_append)

lemma keys_distinct: "distinct (map fst default_dynlib)"
proof -
  have cd: "ascending (map fst default_dynlib_c @ keys_d)"
    using keys_c_ascending keys_d_ascending joins(3) rows_nonempty by (simp add: ascending_join)
  have bcd: "ascending (map fst default_dynlib_b @ map fst default_dynlib_c @ keys_d)"
    using keys_b_ascending cd joins(2) rows_nonempty by (simp add: ascending_join)
  have "ascending (map fst default_dynlib_a @ map fst default_dynlib_b @ map fst default_dynlib_c @ keys_d)"
    using keys_a_ascending bcd joins(1) rows_nonempty by (simp add: ascending_join)
  then have "distinct (map fst default_dynlib_a @ map fst default_dynlib_b @ map fst default_dynlib_c @ keys_d)"
    by (rule ascending_distinct)
  then show ?thesis
    unfolding keys_split distinct_append
    using keys_e_distinct keys_e_not_a keys_e_not_b keys_e_not_c keys_e_not_d
    by (simp only: list_all_iff set_append) blast
qed

definition locked_targets :: "(string \<times> string) list \<Rightarrow> string list" where
  "locked_targets t = filter (ends_with ''_locked'') (map snd t)"

lemma locked_a: "locked_targets default_dynlib_a = []"
  unfolding locked_targets_def default_dynlib_a_def by (simp add: ends_with_def)

lemma locked_b: "locked_targets default_dynlib_b = gl_wrappers_1"
  unfolding locked_targets_def default_dynlib_b_def gl_wrappers_1_def by (simp add: ends_with_def)

lemma locked_c: "locked_targets default_dynlib_c = gl_wrappers_2"
  unfolding locked_targets_def default_dynlib_c_def gl_wrappers_2_def by (simp add: ends_with_def)

lemma locked_d: "locked_targets default_dynlib_d = []"
  unfolding locked_targets_def default_dynlib_d_def by (simp add: ends_with_def)

lemma locked_targets_declared: "locked_targets default_dynlib = gl_wrappers_1 @ gl_wrappers_2"
  using locked_a locked_b locked_c locked_d by (simp add: default_dynlib_def locked_targets_def)

text \<open>
  No symbol occurs twice in the import table, so the first row \<open>so_resolve\<close> finds is the only one and
  every row takes effect; and every row satisfies the redirection rules of \<open>row_ok\<close>: the allocation
  functions are replaced together, all POSIX threads and semaphores go to the bridge, and a locked
  wrapper stands only behind its own GL function.  The wrappers used are exactly those declared.
\<close>

theorem default_dynlib_wellformed:
  "list_all (\<lambda>r. dynlib_lookup default_dynlib (fst r) = Some (snd r) \<and> row_ok r) default_dynlib \<and>
   locked_targets default_dynlib = gl_wrappers_1 @ gl_wrappers_2"
proof -
  have "dynlib_lookup default_dynlib k = Some f" if "(k, f) \<in> set default_dynlib" for k f
    unfolding dynlib_lookup_map_of using keys_distinct that by (rule map_of_is_SomeI)
  moreover have "list_all row_ok default_dynlib"
    using rows_a rows_b rows_c rows_d by (simp add: default_dynlib_def)
  ultimately show ?thesis using locked_targets_declared by (auto simp: list_all_iff)
qed

end
