(* ===== verification/So_Symbols.thy ===== *)
theory So_Symbols
  imports Machine
begin

text \<open>
  A loaded module (\<open>so_module\<close> of \<open>so_util.h\<close>) and the symbol lookup of \<open>so_util.c\<close>: \<open>so_hash\<close> and \<open>so_symbol\<close>,
  over the module's tables as they lie in memory.  A name is the bytes of a C string without its
  terminator; a hash chain that never ends makes \<open>so_symbol\<close> diverge, which is \<open>None\<close>.
\<close>

section \<open>ELF structures in memory\<close>

record so_module =
  m_text_base :: u32
  m_data_base :: u32
  m_text_size :: u32
  m_data_size :: u32
  m_text_blockid :: i32
  m_data_blockid :: i32
  m_dynamic :: u32
  m_dynsym :: u32
  m_reldyn :: u32
  m_relplt :: u32
  m_init_array :: u32
  m_hash :: u32
  m_num_dynamic :: nat
  m_num_dynsym :: nat
  m_num_reldyn :: nat
  m_num_relplt :: nat
  m_num_init_array :: nat
  m_soname :: u32
  m_dynstr :: u32

definition sym_at :: "so_module \<Rightarrow> u32 \<Rightarrow> u32" where
  "sym_at md i = m_dynsym md + 16 * i"

definition st_name :: "memory \<Rightarrow> u32 \<Rightarrow> u32" where "st_name m s = load32 m s"
definition st_value :: "memory \<Rightarrow> u32 \<Rightarrow> u32" where "st_value m s = load32 m (s + 4)"
definition st_info :: "memory \<Rightarrow> u32 \<Rightarrow> u8" where "st_info m s = m (s + 12)"
definition st_shndx :: "memory \<Rightarrow> u32 \<Rightarrow> u16" where "st_shndx m s = load16 m (s + 14)"

definition rel_at :: "so_module \<Rightarrow> nat \<Rightarrow> u32" where
  "rel_at md i = (if i < m_num_reldyn md then m_reldyn md + of_nat (8 * i)
                  else m_relplt md + of_nat (8 * (i - m_num_reldyn md)))"

definition r_offset :: "memory \<Rightarrow> u32 \<Rightarrow> u32" where "r_offset m r = load32 m r"
definition r_info :: "memory \<Rightarrow> u32 \<Rightarrow> u32" where "r_info m r = load32 m (r + 4)"
definition r_sym :: "u32 \<Rightarrow> u32" where "r_sym v = drop_bit 8 v"
definition r_type :: "u32 \<Rightarrow> u32" where "r_type v = v AND 0xff"

definition dyn_tag :: "memory \<Rightarrow> so_module \<Rightarrow> nat \<Rightarrow> u32" where
  "dyn_tag m md i = load32 m (m_dynamic md + of_nat (8 * i))"

definition dyn_ptr :: "memory \<Rightarrow> so_module \<Rightarrow> nat \<Rightarrow> u32" where
  "dyn_ptr m md i = load32 m (m_dynamic md + of_nat (8 * i) + 4)"

text \<open>\<open>strcmp(p, name) == 0\<close> for a string in memory and the bytes of a C string.\<close>

fun streq :: "memory \<Rightarrow> u32 \<Rightarrow> u8 list \<Rightarrow> bool" where
  "streq m a [] = (m a = 0)"
| "streq m a (c # cs) = (m a = c \<and> streq m (a + 1) cs)"

text \<open>The C string at an address; \<open>None\<close> if memory holds no terminator behind it.\<close>

partial_function (option) cstr :: "memory \<Rightarrow> u32 \<Rightarrow> u8 list option" where
  "cstr m a = (if m a = 0 then Some [] else do { s \<leftarrow> cstr m (a + 1); Some (m a # s) })"

lemma streq_cstr: "0 \<notin> set s \<Longrightarrow> streq m a s \<Longrightarrow> cstr m a = Some s"
proof (induction s arbitrary: a)
  case Nil
  then show ?case by (simp add: cstr.simps)
next
  case (Cons c s)
  then show ?case by (subst cstr.simps) simp
qed

lemma cstr_streq: "cstr m a = Some s \<Longrightarrow> 0 \<notin> set s \<and> streq m a s"
proof (induction s arbitrary: a)
  case Nil
  then show ?case by (subst (asm) cstr.simps) (simp split: if_splits bind_splits)
next
  case (Cons c s)
  from Cons.prems have "m a \<noteq> 0" "m a = c" "cstr m (a + 1) = Some s"
    by (subst (asm) cstr.simps, auto split: if_splits bind_splits)+
  then show ?case using Cons.IH by simp
qed

lemma streq_iff_cstr: "0 \<notin> set s \<Longrightarrow> streq m a s \<longleftrightarrow> cstr m a = Some s"
  using streq_cstr cstr_streq by blast

section \<open>The hash function\<close>

definition so_hash_step :: "u64 \<Rightarrow> u8 \<Rightarrow> u64" where
  "so_hash_step h c =
     (let h = push_bit 4 h + ucast c; g = h AND 0xf0000000;
          h = (if g \<noteq> 0 then h XOR drop_bit 24 g else h)
      in h AND 0x0fffffff)"

definition so_hash :: "u8 list \<Rightarrow> u32" where
  "so_hash name = ucast (foldl so_hash_step 0 name)"

text \<open>The hash function of the ELF specification, on 32-bit words.\<close>

definition elf_hash_step :: "u32 \<Rightarrow> u8 \<Rightarrow> u32" where
  "elf_hash_step h c =
     (let h = push_bit 4 h + ucast c; g = h AND 0xf0000000;
          h = (if g \<noteq> 0 then h XOR drop_bit 24 g else h)
      in h AND NOT g)"

definition elf_hash :: "u8 list \<Rightarrow> u32" where
  "elf_hash name = foldl elf_hash_step 0 name"

section \<open>Lookup\<close>

text \<open>The test both loops of \<open>so_symbol\<close> apply to symbol \<open>i\<close>.\<close>

definition sym_matches :: "memory \<Rightarrow> so_module \<Rightarrow> u8 list \<Rightarrow> u32 \<Rightarrow> bool" where
  "sym_matches m md name i \<longleftrightarrow>
     (let s = sym_at md i
      in st_shndx m s \<noteq> 0 \<and> st_info m s \<noteq> 0 \<and> streq m (m_dynstr md + st_name m s) name)"

definition sym_addr :: "memory \<Rightarrow> so_module \<Rightarrow> u32 \<Rightarrow> u32" where
  "sym_addr m md i = m_text_base md + st_value m (sym_at md i)"

partial_function (option) chain_walk ::
    "memory \<Rightarrow> so_module \<Rightarrow> u32 \<Rightarrow> u8 list \<Rightarrow> u32 \<Rightarrow> u32 option option" where
  "chain_walk m md chain name i =
     (if i = 0 then Some None
      else if sym_matches m md name i then Some (Some (sym_addr m md i))
      else chain_walk m md chain name (load32 m (chain + 4 * i)))"

definition hash_lookup :: "memory \<Rightarrow> so_module \<Rightarrow> u8 list \<Rightarrow> u32 option option" where
  "hash_lookup m md name =
     (let nbucket = load32 m (m_hash md); bucket = m_hash md + 8; chain = bucket + 4 * nbucket
      in if nbucket = 0 then None
         else chain_walk m md chain name (load32 m (bucket + 4 * (so_hash name mod nbucket))))"

fun linear_lookup :: "memory \<Rightarrow> so_module \<Rightarrow> u8 list \<Rightarrow> nat list \<Rightarrow> u32" where
  "linear_lookup m md name [] = 0"
| "linear_lookup m md name (i # is) =
     (if sym_matches m md name (of_nat i) then sym_addr m md (of_nat i) else linear_lookup m md name is)"

definition so_symbol :: "memory \<Rightarrow> so_module \<Rightarrow> u8 list \<Rightarrow> u32 option" where
  "so_symbol m md name = do {
     hashed \<leftarrow> (if m_hash md \<noteq> 0 then hash_lookup m md name else Some None);
     Some (case hashed of Some a \<Rightarrow> a
           | None \<Rightarrow> linear_lookup m md name [0..<m_num_dynsym md]) }"

section \<open>\<open>so_hash\<close> is the ELF hash\<close>

lemma hash_masks:
  "(0xf0000000 :: u64) = push_bit 28 (mask 4)" "(0x0fffffff :: u64) = mask 28" "(0xf0000000 :: u32) = push_bit 28 (mask 4)"
  by (simp_all add: mask_eq_exp_minus_1)

lemma high_nibble: "bit ((x :: 'a::len word) AND push_bit 28 (mask 4)) n \<longleftrightarrow> bit x n \<and> 28 \<le> n \<and> n < 32"
  by (auto simp: bit_simps dest: bit_imp_le_length)

lemma fold_nibble:
  fixes x :: u32
  defines "g \<equiv> x AND push_bit 28 (mask 4)"
  shows "(x XOR drop_bit 24 g) AND mask 28 = (x XOR drop_bit 24 g) AND NOT g"
proof (rule bit_word_eqI)
  fix n assume n: "n < LENGTH(32)"
  have g: "bit g k \<longleftrightarrow> bit x k \<and> 28 \<le> k \<and> k < 32" for k unfolding g_def by (rule high_nibble)
  show "bit ((x XOR drop_bit 24 g) AND mask 28) n = bit ((x XOR drop_bit 24 g) AND NOT g) n"
    using n by (auto simp: bit_and_iff bit_xor_iff bit_not_iff bit_drop_bit_eq bit_mask_iff g)
qed

lemma ucast_add64: "(ucast (a + b :: u64) :: u32) = ucast a + ucast b"
proof -
  have "take_bit 32 (take_bit 64 (i + j)) = take_bit 32 (i + j)" for i j :: int by simp
  then have "uint (ucast (a + b) :: u32) = uint (ucast a + ucast b :: u32)"
    by (simp add: uint_word_ariths(1) unsigned_ucast_eq take_bit_eq_mod mod_simps mod_mod_cancel)
  then show ?thesis by (simp only: word_uint_eq_iff)
qed

lemma hash_step_ucast: "ucast (so_hash_step h c) = elf_hash_step (ucast h) c"
proof -
  define x where "x = push_bit 4 h + (ucast c :: u64)"
  define g where "g = x AND push_bit 28 (mask 4)"
  define y g' where "y = (ucast x :: u32)" and "g' = y AND push_bit 28 (mask 4)"
  have y: "push_bit 4 (ucast h) + ucast c = y"
  proof -
    have "(ucast (push_bit 4 h) :: u32) = push_bit 4 (ucast h)" by (rule bit_word_eqI) (auto simp: bit_simps)
    moreover have "(ucast (ucast c :: u64) :: u32) = ucast c"
      by (rule bit_word_eqI) (auto simp: bit_simps)
    ultimately show ?thesis by (simp add: y_def x_def ucast_add64)
  qed
  have gg: "ucast g = g'"
    by (rule bit_word_eqI) (auto simp: g_def g'_def y_def bit_simps)
  have bg: "bit g n \<longleftrightarrow> bit x n \<and> 28 \<le> n \<and> n < 32" for n unfolding g_def by (rule high_nibble)
  have bg': "bit g' n \<longleftrightarrow> bit x n \<and> 28 \<le> n \<and> n < 32" for n
    unfolding g'_def high_nibble by (auto simp: y_def bit_simps)
  have z: "g = 0 \<longleftrightarrow> g' = 0"
  proof -
    have "g = 0 \<longleftrightarrow> (\<forall>n. \<not> bit g n)" by (metis bit_0_eq bit_eqI zero_neq_one bot_apply bot_bool_def)
    moreover have "g' = 0 \<longleftrightarrow> (\<forall>n. \<not> bit g' n)" by (metis bit_0_eq bit_eqI bot_apply bot_bool_def)
    ultimately show ?thesis by (simp add: bg bg')
  qed
  have "ucast ((x XOR drop_bit 24 g) AND mask 28) = (y XOR drop_bit 24 g') AND mask 28"
    by (rule bit_word_eqI) (auto simp: bit_simps bg bg' y_def)
  moreover have "ucast (x AND mask 28) = y AND NOT g'" if "g' = 0"
  proof (rule bit_word_eqI)
    fix n assume "n < LENGTH(32)"
    moreover have "\<not> (bit x n \<and> 28 \<le> n \<and> n < 32)" using bg' [of n] that by simp
    ultimately show "bit (ucast (x AND mask 28) :: u32) n = bit (y AND NOT g') n"
      using that by (auto simp: bit_simps y_def)
  qed
  moreover have "so_hash_step h c = (if g \<noteq> 0 then x XOR drop_bit 24 g else x) AND mask 28"
    unfolding so_hash_step_def Let_def hash_masks x_def g_def by (rule refl)
  moreover have "elf_hash_step (ucast h) c = (if g' \<noteq> 0 then y XOR drop_bit 24 g' else y) AND NOT g'"
    unfolding elf_hash_step_def Let_def hash_masks g'_def y by (rule refl)
  ultimately show ?thesis
    using fold_nibble [of y, folded g'_def] z by (cases "g' = 0") simp_all
qed

text \<open>
  C35: the module hash computed with a 64-bit accumulator is the 32-bit hash of the ELF specification for
  every name, so bucket chains laid out by the linker are the ones searched.
\<close>

theorem so_hash_is_elf_hash: "so_hash name = elf_hash name"
proof -
  have "ucast (foldl so_hash_step h name) = foldl elf_hash_step (ucast h) name" for h
    by (induction name arbitrary: h) (simp_all add: hash_step_ucast)
  from this [of 0] show ?thesis by (simp add: so_hash_def elf_hash_def)
qed

section \<open>\<open>so_symbol\<close> finds a symbol exactly when there is one\<close>

inductive chain_path :: "memory \<Rightarrow> u32 \<Rightarrow> u32 \<Rightarrow> u32 list \<Rightarrow> bool" for m chain where
  chain_end: "chain_path m chain 0 []"
| chain_step: "i \<noteq> 0 \<Longrightarrow> chain_path m chain (load32 m (chain + 4 * i)) is \<Longrightarrow> chain_path m chain i (i # is)"

lemma chain_walk_path:
  "chain_path m chain i is \<Longrightarrow>
   chain_walk m md chain name i = Some (map_option (sym_addr m md) (List.find (sym_matches m md name) is))"
proof (induction rule: chain_path.induct)
  case chain_end
  then show ?case by (simp add: chain_walk.simps)
next
  case (chain_step i "is")
  then show ?case by (subst chain_walk.simps) simp
qed

text \<open>A hash section whose chain for this name ends and stays inside the symbol table.\<close>

definition hash_ok :: "memory \<Rightarrow> so_module \<Rightarrow> u8 list \<Rightarrow> bool" where
  "hash_ok m md name \<longleftrightarrow>
     (let nbucket = load32 m (m_hash md); bucket = m_hash md + 8
      in nbucket \<noteq> 0 \<and>
         (\<exists>is. chain_path m (bucket + 4 * nbucket) (load32 m (bucket + 4 * (so_hash name mod nbucket))) is \<and>
               (\<forall>i \<in> set is. unat i < m_num_dynsym md)))"

lemma linear_lookup_find:
  "linear_lookup m md name is =
     (case List.find (\<lambda>i. sym_matches m md name (of_nat i)) is of None \<Rightarrow> 0 | Some i \<Rightarrow> sym_addr m md (of_nat i))"
  by (induction "is") auto

text \<open>
  C28: on a module with no hash section, or one whose chain for the name ends, \<open>so_symbol\<close> returns, and
  returns the address of a defined symbol of that name, or 0 exactly when the table defines none.
\<close>

theorem so_symbol_correct:
  assumes "m_hash md = 0 \<or> hash_ok m md name"
  shows "\<exists>r. so_symbol m md name = Some r \<and>
    ((\<exists>i < m_num_dynsym md. sym_matches m md name (of_nat i) \<and> r = sym_addr m md (of_nat i)) \<or>
     (r = 0 \<and> (\<forall>i < m_num_dynsym md. \<not> sym_matches m md name (of_nat i))))"
proof -
  let ?lin = "linear_lookup m md name [0..<m_num_dynsym md]"
  let ?good = "\<lambda>r. (\<exists>i < m_num_dynsym md. sym_matches m md name (of_nat i) \<and> r = sym_addr m md (of_nat i))"
  have lin: "?good ?lin \<or> ?lin = 0 \<and> (\<forall>i < m_num_dynsym md. \<not> sym_matches m md name (of_nat i))"
    by (auto simp: linear_lookup_find find_None_iff find_Some_iff split: option.splits)
  show ?thesis
  proof (cases "m_hash md = 0")
    case True
    then show ?thesis using lin by (simp add: so_symbol_def)
  next
    case False
    define nbucket bucket where "nbucket = load32 m (m_hash md)" and "bucket = m_hash md + 8"
    obtain "is" where "is": "nbucket \<noteq> 0"
      "chain_path m (bucket + 4 * nbucket) (load32 m (bucket + 4 * (so_hash name mod nbucket))) is"
      "\<forall>i \<in> set is. unat i < m_num_dynsym md"
      using assms False by (auto simp: hash_ok_def Let_def nbucket_def bucket_def)
    have h: "hash_lookup m md name = Some (map_option (sym_addr m md) (List.find (sym_matches m md name) is))"
      using "is"(1) chain_walk_path [OF "is"(2)]
      by (simp add: hash_lookup_def Let_def nbucket_def bucket_def add.assoc)
    show ?thesis
    proof (cases "List.find (sym_matches m md name) is")
      case None
      then show ?thesis using lin h False by (simp add: so_symbol_def)
    next
      case (Some i)
      then have "sym_matches m md name i" "i \<in> set is" by (auto simp: find_Some_iff in_set_conv_nth)
      then have "?good (sym_addr m md i)" using "is"(3) by (intro exI [of _ "unat i"]) simp
      then show ?thesis using Some h False by (simp add: so_symbol_def)
    qed
  qed
qed

text \<open>A module with one symbol, \<open>a\<close>, at offset \<open>0x40\<close>, and no hash section.\<close>

definition demo_module :: so_module where
  "demo_module = \<lparr>m_text_base = 0x94000000, m_data_base = 0, m_text_size = 0, m_data_size = 0,
     m_text_blockid = 0, m_data_blockid = 0, m_dynamic = 0, m_dynsym = 0x94000100, m_reldyn = 0x94000200, m_relplt = 0x94000200,
     m_init_array = 0, m_hash = 0, m_num_dynamic = 0, m_num_dynsym = 2, m_num_reldyn = 1, m_num_relplt = 0,
     m_num_init_array = 0, m_soname = 0, m_dynstr = 0x94000300\<rparr>"

definition demo_image :: memory where
  "demo_image = (\<lambda>_. 0)
     (0x94000110 := 1, 0x94000114 := 0x40, 0x9400011C := 0x12, 0x9400011E := 1,
      0x94000204 := 23, 0x94000201 := 0x10, 0x94001000 := 0x20, 0x94000301 := 97)"

theorem so_symbol_correct_witness:
  "\<exists>r. so_symbol demo_image demo_module [97] = Some r \<and>
    ((\<exists>i < 2. sym_matches demo_image demo_module [97] (of_nat i) \<and> r = sym_addr demo_image demo_module (of_nat i)) \<or>
     (r = 0 \<and> (\<forall>i < 2. \<not> sym_matches demo_image demo_module [97] (of_nat i))))"
  using so_symbol_correct [of demo_module demo_image "[97]"] by (simp add: demo_module_def)

end
