(* ===== verification/So_Link.thy ===== *)
theory So_Link
  imports So_Symbols
begin

text \<open>
  Relocation, import resolution and static constructors (\<open>so_relocate\<close>, \<open>so_resolve_link\<close>, \<open>so_resolve\<close>,
  \<open>so_initialize\<close> of \<open>so_util.c\<close>).  Both passes walk the relocation entries and write at most one word for
  each; what is shared is proved once in the locale \<open>reloc_pass\<close>.
\<close>

definition R_ARM_ABS32 :: u32 where "R_ARM_ABS32 = 2"
definition R_ARM_GLOB_DAT :: u32 where "R_ARM_GLOB_DAT = 21"
definition R_ARM_JUMP_SLOT :: u32 where "R_ARM_JUMP_SLOT = 22"
definition R_ARM_RELATIVE :: u32 where "R_ARM_RELATIVE = 23"
definition DT_NEEDED :: u32 where "DT_NEEDED = 1"

lemmas r_types = R_ARM_ABS32_def R_ARM_GLOB_DAT_def R_ARM_JUMP_SLOT_def R_ARM_RELATIVE_def

definition num_rels :: "so_module \<Rightarrow> nat" where
  "num_rels md = m_num_reldyn md + m_num_relplt md"

definition rel_ptr :: "memory \<Rightarrow> so_module \<Rightarrow> nat \<Rightarrow> u32" where
  "rel_ptr m md i = m_text_base md + r_offset m (rel_at md i)"

definition rel_sym :: "memory \<Rightarrow> so_module \<Rightarrow> nat \<Rightarrow> u32" where
  "rel_sym m md i = sym_at md (r_sym (r_info m (rel_at md i)))"

definition rel_type :: "memory \<Rightarrow> so_module \<Rightarrow> nat \<Rightarrow> u32" where
  "rel_type m md i = r_type (r_info m (rel_at md i))"

section \<open>A pass over the relocation entries\<close>

fun run_pass :: "(nat \<Rightarrow> memory \<Rightarrow> memory option) \<Rightarrow> nat list \<Rightarrow> memory \<Rightarrow> memory option" where
  "run_pass step [] m = Some m"
| "run_pass step (i # is) m = do { m' \<leftarrow> step i m; run_pass step is m' }"

section \<open>Relocation\<close>

text \<open>One entry; \<open>None\<close> is the \<open>fatal_error\<close> on an unknown relocation type.\<close>

definition relocate_one :: "ku_memcpy \<Rightarrow> so_module \<Rightarrow> nat \<Rightarrow> memory \<Rightarrow> memory option" where
  "relocate_one ku md i m =
     (let sym = rel_sym m md i; p = rel_ptr m md i; ty = rel_type m md i
      in if ty = R_ARM_ABS32 then
           Some (if st_shndx m sym \<noteq> 0 then ku m p (le32 (load32 m p + m_text_base md + st_value m sym)) else m)
         else if ty = R_ARM_RELATIVE then Some (ku m p (le32 (load32 m p + m_text_base md)))
         else if ty = R_ARM_GLOB_DAT \<or> ty = R_ARM_JUMP_SLOT then
           Some (if st_shndx m sym \<noteq> 0 then ku m p (le32 (m_text_base md + st_value m sym)) else m)
         else None)"

definition so_relocate :: "ku_memcpy \<Rightarrow> so_module \<Rightarrow> memory \<Rightarrow> memory option" where
  "so_relocate ku md m = run_pass (relocate_one ku md) [0..<num_rels md] m"

section \<open>Resolution\<close>

text \<open>
  The first needed module, in the order of the dynamic section and then of the module list, that defines
  the symbol.  Modules are compared by their position in the list (\<open>curr != mod\<close>).
\<close>

fun link_in_modules :: "memory \<Rightarrow> so_module list \<Rightarrow> so_module \<Rightarrow> u8 list \<Rightarrow> u8 list \<Rightarrow> u32 option" where
  "link_in_modules m [] md need name = Some 0"
| "link_in_modules m (c # cs) md need name =
     (if c \<noteq> md \<and> streq m (m_soname c) need then do {
        a \<leftarrow> so_symbol m c name;
        if a \<noteq> 0 then Some a else link_in_modules m cs md need name }
      else link_in_modules m cs md need name)"

fun link_in_needed :: "memory \<Rightarrow> so_module list \<Rightarrow> so_module \<Rightarrow> u8 list \<Rightarrow> nat list \<Rightarrow> u32 option" where
  "link_in_needed m mods md name [] = Some 0"
| "link_in_needed m mods md name (i # is) =
     (if dyn_tag m md i = DT_NEEDED then do {
        need \<leftarrow> cstr m (m_dynstr md + dyn_ptr m md i);
        a \<leftarrow> link_in_modules m mods md need name;
        if a \<noteq> 0 then Some a else link_in_needed m mods md name is }
      else link_in_needed m mods md name is)"

definition so_resolve_link :: "memory \<Rightarrow> so_module list \<Rightarrow> so_module \<Rightarrow> u8 list \<Rightarrow> u32 option" where
  "so_resolve_link m mods md name = link_in_needed m mods md name [0..<m_num_dynamic md]"

text \<open>The table's first row whose symbol compares equal to the string at an address.\<close>

fun dynlib_search :: "memory \<Rightarrow> (u8 list \<times> u32) list \<Rightarrow> u32 \<Rightarrow> u32 option" where
  "dynlib_search m [] a = None"
| "dynlib_search m ((k, f) # t) a = (if streq m a k then Some f else dynlib_search m t a)"

text \<open>
  One entry.  A symbol found in a dependency is written first; a row of the table is written over it.  The
  addend of an \<open>R_ARM_ABS32\<close> entry is added for dependencies only.
\<close>

definition write_link :: "ku_memcpy \<Rightarrow> u32 \<Rightarrow> u32 \<Rightarrow> u32 \<Rightarrow> memory \<Rightarrow> memory" where
  "write_link ku ty p link m =
     (if link = 0 then m
      else if ty = R_ARM_ABS32 then ku m p (le32 (load32 m p + link)) else ku m p (le32 link))"

definition write_dynlib :: "ku_memcpy \<Rightarrow> (u8 list \<times> u32) list \<Rightarrow> u32 \<Rightarrow> u32 \<Rightarrow> memory \<Rightarrow> memory" where
  "write_dynlib ku dynlib p name m =
     (case dynlib_search m dynlib name of Some f \<Rightarrow> ku m p (le32 f) | None \<Rightarrow> m)"

definition resolve_one :: "ku_memcpy \<Rightarrow> so_module list \<Rightarrow> (u8 list \<times> u32) list \<Rightarrow> bool \<Rightarrow> so_module \<Rightarrow>
    nat \<Rightarrow> memory \<Rightarrow> memory option" where
  "resolve_one ku mods dynlib only md i m =
     (let sym = rel_sym m md i; p = rel_ptr m md i; ty = rel_type m md i
      in if (ty = R_ARM_ABS32 \<or> ty = R_ARM_GLOB_DAT \<or> ty = R_ARM_JUMP_SLOT) \<and> st_shndx m sym = 0 then do {
           link \<leftarrow> (if only then Some 0
                    else do { s \<leftarrow> cstr m (m_dynstr md + st_name m sym); so_resolve_link m mods md s });
           let m' = write_link ku ty p link m;
           Some (write_dynlib ku dynlib p (m_dynstr md + st_name m' sym) m') }
         else Some m)"

definition so_resolve :: "ku_memcpy \<Rightarrow> so_module list \<Rightarrow> (u8 list \<times> u32) list \<Rightarrow> bool \<Rightarrow> so_module \<Rightarrow> memory \<Rightarrow> memory option" where
  "so_resolve ku mods dynlib only md m = run_pass (resolve_one ku mods dynlib only md) [0..<num_rels md] m"

section \<open>Static constructors\<close>

text \<open>\<open>call a m\<close> is memory after the constructor at \<open>a\<close> has run.\<close>

fun run_inits :: "(u32 \<Rightarrow> memory \<Rightarrow> memory) \<Rightarrow> so_module \<Rightarrow> nat list \<Rightarrow> memory \<Rightarrow> memory \<times> u32 list" where
  "run_inits call md [] m = (m, [])"
| "run_inits call md (i # is) m =
     (let f = load32 m (m_init_array md + of_nat (4 * i))
      in if f \<noteq> 0
         then let m = call (load32 m (m_init_array md + of_nat (4 * i))) m; (m, fs) = run_inits call md is m in (m, f # fs)
         else run_inits call md is m)"

definition so_initialize :: "(u32 \<Rightarrow> memory \<Rightarrow> memory) \<Rightarrow> so_module \<Rightarrow> memory \<Rightarrow> memory \<times> u32 list" where
  "so_initialize call md m = run_inits call md [0..<m_num_init_array md] m"

section \<open>What a pass leaves in memory\<close>

definition region_apart :: "u32 \<Rightarrow> u32 \<Rightarrow> nat \<Rightarrow> bool" where
  "region_apart p a n \<longleftrightarrow> 4 \<le> unat (a - p) \<and> unat (a - p) + n \<le> 2 ^ 32"

definition same_off :: "u32 set \<Rightarrow> memory \<Rightarrow> memory \<Rightarrow> bool" where
  "same_off T m m' \<longleftrightarrow> (\<forall>x. (\<forall>p \<in> T. 4 \<le> unat (x - p)) \<longrightarrow> m x = m' x)"

lemma region_apart_byte: "region_apart p a n \<Longrightarrow> k < n \<Longrightarrow> 4 \<le> unat (a + of_nat k - p)"
  by (simp add: region_apart_def unat_le_add_offset)

lemma same_off_bytes:
  assumes "same_off T m m'" "\<And>p. p \<in> T \<Longrightarrow> region_apart p a n"
  shows "same_bytes m m' a n"
  unfolding same_bytes_def list_all_iff
proof
  fix i assume "i \<in> set [0..<n]"
  then have "\<forall>p \<in> T. 4 \<le> unat (a + of_nat i - p)" by (auto intro: region_apart_byte [OF assms(2)])
  then show "m (a + of_nat i) = m' (a + of_nat i)" using assms(1) by (simp add: same_off_def)
qed

lemma same_bytes_load32_0: "same_bytes m m' a n \<Longrightarrow> 4 \<le> n \<Longrightarrow> load32 m a = load32 m' a"
  using same_bytes_load32 [of m m' a n 0] by simp

locale reloc_pass =
  fixes good :: "memory \<Rightarrow> bool" and step :: "nat \<Rightarrow> memory \<Rightarrow> memory option" and count :: nat
    and tgt :: "memory \<Rightarrow> nat \<Rightarrow> u32" and val :: "memory \<Rightarrow> nat \<Rightarrow> u32"
  assumes apart: "good m0 \<Longrightarrow> i < count \<Longrightarrow> j < count \<Longrightarrow> i \<noteq> j \<Longrightarrow> region_apart (tgt m0 i) (tgt m0 j) 4"
    and step_law: "good m0 \<Longrightarrow> i < count \<Longrightarrow> same_off (tgt m0 ` {..<count}) m m0 \<Longrightarrow>
      load32 m (tgt m0 i) = load32 m0 (tgt m0 i) \<Longrightarrow>
      \<exists>m'. step i m = Some m' \<and> load32 m' (tgt m0 i) = val m0 i \<and> (\<forall>x. 4 \<le> unat (x - tgt m0 i) \<longrightarrow> m' x = m x)"
begin

lemma pass_from:
  assumes "good m0"
  shows "k \<le> count \<Longrightarrow> same_off (tgt m0 ` {..<count}) m m0 \<Longrightarrow>
    (\<forall>i < k. load32 m (tgt m0 i) = val m0 i) \<Longrightarrow>
    (\<forall>i. k \<le> i \<and> i < count \<longrightarrow> load32 m (tgt m0 i) = load32 m0 (tgt m0 i)) \<Longrightarrow>
    \<exists>m'. run_pass step [k..<count] m = Some m' \<and> same_off (tgt m0 ` {..<count}) m' m0 \<and>
      (\<forall>i < count. load32 m' (tgt m0 i) = val m0 i)"
proof (induction "count - k" arbitrary: k m)
  case 0
  then show ?case by auto
next
  case (Suc d)
  then have k: "k < count" by simp
  have diff: "d = count - Suc k" using Suc.hyps(2) by simp
  obtain m' where m': "step k m = Some m'" "load32 m' (tgt m0 k) = val m0 k"
      "\<And>x. 4 \<le> unat (x - tgt m0 k) \<Longrightarrow> m' x = m x"
    using step_law [OF assms k Suc.prems(2)] Suc.prems(4) k by blast
  have keep: "load32 m' (tgt m0 i) = load32 m (tgt m0 i)" if "i < count" "i \<noteq> k" for i
  proof -
    have "same_bytes m' m (tgt m0 i) 4"
      using region_apart_byte [OF apart [OF assms k that(1)]] that(2) m'(3)
      unfolding same_bytes_def list_all_iff by auto
    then show ?thesis by (rule same_bytes_load32_0) simp
  qed
  have "same_off (tgt m0 ` {..<count}) m' m0"
    using Suc.prems(2) m'(3) k unfolding same_off_def by auto
  moreover have "\<forall>i < Suc k. load32 m' (tgt m0 i) = val m0 i"
    using keep Suc.prems(3) m'(2) k by (auto simp: less_Suc_eq)
  moreover have "\<forall>i. Suc k \<le> i \<and> i < count \<longrightarrow> load32 m' (tgt m0 i) = load32 m0 (tgt m0 i)"
    using keep Suc.prems(4) by auto
  ultimately obtain m'' where "run_pass step [Suc k..<count] m' = Some m''" "same_off (tgt m0 ` {..<count}) m'' m0"
      "\<forall>i < count. load32 m'' (tgt m0 i) = val m0 i"
    using Suc.hyps(1) [of "Suc k" m'] diff k by auto
  then show ?case using m'(1) k by (simp add: upt_conv_Cons)
qed

lemma pass:
  assumes "good m"
  shows "\<exists>m'. run_pass step [0..<count] m = Some m' \<and> same_off (tgt m ` {..<count}) m' m \<and>
      (\<forall>i < count. load32 m' (tgt m i) = val m i)"
  using pass_from [OF assms, of 0 m] by (simp add: same_off_def)

end

section \<open>Relocation against its specification\<close>

text \<open>
  An image that can be relocated in place: the entries have known types, their words do not overlap, and
  none lies inside the relocation and symbol tables.
\<close>

definition tables_apart :: "so_module \<Rightarrow> memory \<Rightarrow> bool" where
  "tables_apart md m \<longleftrightarrow>
     (\<forall>i < num_rels md. \<forall>j < num_rels md.
        (i \<noteq> j \<longrightarrow> region_apart (rel_ptr m md i) (rel_ptr m md j) 4) \<and>
        region_apart (rel_ptr m md i) (rel_at md j) 8 \<and> region_apart (rel_ptr m md i) (rel_sym m md j) 16)"

definition relocatable :: "so_module \<Rightarrow> memory \<Rightarrow> bool" where
  "relocatable md m \<longleftrightarrow> tables_apart md m \<and>
     (\<forall>i < num_rels md. rel_type m md i \<in> {R_ARM_ABS32, R_ARM_RELATIVE, R_ARM_GLOB_DAT, R_ARM_JUMP_SLOT})"

text \<open>The word each entry must hold afterwards, from the image as it was loaded.\<close>

definition relocated_word :: "so_module \<Rightarrow> memory \<Rightarrow> nat \<Rightarrow> u32" where
  "relocated_word md m i =
     (let sym = rel_sym m md i; w = load32 m (rel_ptr m md i); ty = rel_type m md i;
          defined = st_shndx m sym \<noteq> 0; S = m_text_base md + st_value m sym
      in if ty = R_ARM_RELATIVE then w + m_text_base md
         else if \<not> defined then w
         else if ty = R_ARM_ABS32 then w + S else S)"

lemma table_reads:
  assumes "tables_apart md m0" "same_off (rel_ptr m0 md ` {..<num_rels md}) m m0" "i < num_rels md"
  shows "rel_ptr m md i = rel_ptr m0 md i" "rel_sym m md i = rel_sym m0 md i" "rel_type m md i = rel_type m0 md i"
    "st_shndx m (rel_sym m0 md i) = st_shndx m0 (rel_sym m0 md i)"
    "st_value m (rel_sym m0 md i) = st_value m0 (rel_sym m0 md i)"
    "st_name m (rel_sym m0 md i) = st_name m0 (rel_sym m0 md i)"
proof -
  have r: "same_bytes m m0 (rel_at md i) 8"
    using assms by (intro same_off_bytes [OF assms(2)]) (auto simp: tables_apart_def)
  have s: "same_bytes m m0 (rel_sym m0 md i) 16"
    using assms by (intro same_off_bytes [OF assms(2)]) (auto simp: tables_apart_def)
  have "load32 m (rel_at md i) = load32 m0 (rel_at md i)" "load32 m (rel_at md i + 4) = load32 m0 (rel_at md i + 4)"
    using same_bytes_load32 [OF r, of 0] same_bytes_load32 [OF r, of 4] by simp_all
  then show "rel_ptr m md i = rel_ptr m0 md i" "rel_sym m md i = rel_sym m0 md i" "rel_type m md i = rel_type m0 md i"
    by (simp_all add: rel_ptr_def rel_sym_def rel_type_def r_offset_def r_info_def)
  show "st_value m (rel_sym m0 md i) = st_value m0 (rel_sym m0 md i)" "st_name m (rel_sym m0 md i) = st_name m0 (rel_sym m0 md i)"
    using same_bytes_load32 [OF s, of 0] same_bytes_load32 [OF s, of 4] by (simp_all add: st_value_def st_name_def)
  have "load32 m (rel_sym m0 md i + 12) = load32 m0 (rel_sym m0 md i + 12)"
    using same_bytes_load32 [OF s, of 12] by simp
  then have "load16 m (rel_sym m0 md i + 12 + 2) = load16 m0 (rel_sym m0 md i + 12 + 2)"
    by (simp only: load16_high)
  then show "st_shndx m (rel_sym m0 md i) = st_shndx m0 (rel_sym m0 md i)" by (simp add: st_shndx_def)
qed

lemma ku_write_word:
  assumes "ku_memcpy_law ku"
  shows "load32 (ku m p (le32 v)) p = v" "4 \<le> unat (x - p) \<Longrightarrow> ku m p (le32 v) x = m x"
proof -
  have k: "kubridge ku" using assms by unfold_locales
  show "load32 (ku m p (le32 v)) p = v" using kubridge.words_written [OF k, of "[v]" m p] by simp
  show "4 \<le> unat (x - p) \<Longrightarrow> ku m p (le32 v) x = m x" by (rule kubridge.byte_frame [OF k]) simp_all
qed

interpretation relocation: reloc_pass
  "\<lambda>m. ku_memcpy_law ku \<and> relocatable md m" "relocate_one ku md" "num_rels md"
  "\<lambda>m i. rel_ptr m md i" "relocated_word md"
proof unfold_locales
  fix m0 i j
  assume "ku_memcpy_law ku \<and> relocatable md m0" "i < num_rels md" "j < num_rels md" "i \<noteq> j"
  then show "region_apart (rel_ptr m0 md i) (rel_ptr m0 md j) 4" by (simp add: relocatable_def tables_apart_def)
next
  fix m0 i m
  assume g: "ku_memcpy_law ku \<and> relocatable md m0" and i: "i < num_rels md"
    and off: "same_off (rel_ptr m0 md ` {..<num_rels md}) m m0" and w: "load32 m (rel_ptr m0 md i) = load32 m0 (rel_ptr m0 md i)"
  have ta: "tables_apart md m0" using g by (simp add: relocatable_def)
  have ty: "rel_type m0 md i \<in> {R_ARM_ABS32, R_ARM_RELATIVE, R_ARM_GLOB_DAT, R_ARM_JUMP_SLOT}"
    using g i by (simp add: relocatable_def)
  note wr = ku_write_word [OF g [THEN conjunct1]]
  show "\<exists>m'. relocate_one ku md i m = Some m' \<and> load32 m' (rel_ptr m0 md i) = relocated_word md m0 i \<and>
      (\<forall>x. 4 \<le> unat (x - rel_ptr m0 md i) \<longrightarrow> m' x = m x)"
    using ty w wr unfolding relocate_one_def relocated_word_def Let_def table_reads [OF ta off i]
    by (auto simp: r_types add.assoc)
qed

text \<open>
  C8: \<open>so_relocate\<close> on a well-formed image succeeds, leaves in every entry's word the value its type
  prescribes (computed from the image as loaded, whatever the order of the entries), and changes no other
  byte.
\<close>

theorem so_relocate_correct:
  assumes "ku_memcpy_law ku" "relocatable md m"
  shows "\<exists>m'. so_relocate ku md m = Some m' \<and>
    (\<forall>i < num_rels md. load32 m' (rel_ptr m md i) = relocated_word md m i) \<and>
    (\<forall>x. (\<forall>i < num_rels md. 4 \<le> unat (x - rel_ptr m md i)) \<longrightarrow> m' x = m x)"
  using relocation.pass [of ku md m] assms by (auto simp: so_relocate_def same_off_def)

lemma demo_relocatable: "relocatable demo_module demo_image"
proof -
  have d: "num_rels demo_module = 1" "rel_at demo_module 0 = 0x94000200"
    by (simp_all add: num_rels_def demo_module_def rel_at_def)
  have w: "load32 demo_image 0x94000200 = 0x1000" "load32 demo_image 0x94000204 = 23"
    by (simp_all add: load32_def demo_image_def)
  have "rel_ptr demo_image demo_module 0 = 0x94001000" "rel_sym demo_image demo_module 0 = 0x94000100"
    "rel_type demo_image demo_module 0 = 23"
    using w by (simp_all add: rel_ptr_def rel_sym_def rel_type_def d r_offset_def r_info_def r_sym_def r_type_def sym_at_def)
      (simp_all add: demo_module_def)
  then show ?thesis by (simp add: relocatable_def tables_apart_def d region_apart_def r_types)
qed

theorem so_relocate_correct_witness:
  "\<exists>m'. so_relocate write_bytes demo_module demo_image = Some m' \<and>
    (\<forall>i < num_rels demo_module. load32 m' (rel_ptr demo_image demo_module i) = relocated_word demo_module demo_image i) \<and>
    (\<forall>x. (\<forall>i < num_rels demo_module. 4 \<le> unat (x - rel_ptr demo_image demo_module i)) \<longrightarrow> m' x = demo_image x)"
  by (rule so_relocate_correct [OF write_bytes_law demo_relocatable])

section \<open>Resolution against its specification\<close>

definition needs_import :: "so_module \<Rightarrow> memory \<Rightarrow> nat \<Rightarrow> bool" where
  "needs_import md m i \<longleftrightarrow>
     rel_type m md i \<in> {R_ARM_ABS32, R_ARM_GLOB_DAT, R_ARM_JUMP_SLOT} \<and> st_shndx m (rel_sym m md i) = 0"

definition import_name :: "so_module \<Rightarrow> memory \<Rightarrow> nat \<Rightarrow> u32" where
  "import_name md m i = m_dynstr md + st_name m (rel_sym m md i)"

text \<open>
  An image whose imports can be resolved: the entries' words overlap neither each other nor the tables
  nor a name, the table's symbols are C strings, and what the dependencies answer does not depend on the
  words being written.
\<close>

definition resolvable :: "so_module list \<Rightarrow> (u8 list \<times> u32) list \<Rightarrow> bool \<Rightarrow> so_module \<Rightarrow> memory \<Rightarrow> bool" where
  "resolvable mods dynlib only md m \<longleftrightarrow> tables_apart md m \<and> (\<forall>(k, f) \<in> set dynlib. 0 \<notin> set k) \<and>
     (\<forall>i < num_rels md. needs_import md m i \<longrightarrow>
        (\<exists>s v. cstr m (import_name md m i) = Some s \<and>
           (\<forall>j < num_rels md. region_apart (rel_ptr m md j) (import_name md m i) (length s + 1)) \<and>
           (only \<or> (\<forall>m'. same_off (rel_ptr m md ` {..<num_rels md}) m' m \<longrightarrow> so_resolve_link m' mods md s = Some v))))"

definition import_link :: "so_module list \<Rightarrow> bool \<Rightarrow> so_module \<Rightarrow> memory \<Rightarrow> nat \<Rightarrow> u32" where
  "import_link mods only md m i =
     (if only then 0 else the (so_resolve_link m mods md (the (cstr m (import_name md m i)))))"

definition resolved_word :: "so_module list \<Rightarrow> (u8 list \<times> u32) list \<Rightarrow> bool \<Rightarrow> so_module \<Rightarrow> memory \<Rightarrow> nat \<Rightarrow> u32" where
  "resolved_word mods dynlib only md m i =
     (let w = load32 m (rel_ptr m md i); l = import_link mods only md m i
      in if \<not> needs_import md m i then w
         else case dynlib_search m dynlib (import_name md m i) of
                Some f \<Rightarrow> f
              | None \<Rightarrow> if l = 0 then w else if rel_type m md i = R_ARM_ABS32 then w + l else l)"

lemma streq_same: "same_bytes m m' a (length s + 1) \<Longrightarrow> streq m' a s \<Longrightarrow> streq m a s"
proof (induction s arbitrary: a)
  case Nil
  then show ?case by (simp add: same_bytes_def)
next
  case (Cons c s)
  have b: "m (a + of_nat i) = m' (a + of_nat i)" if "i < length s + 2" for i
    using that by (intro same_bytesD [OF Cons.prems(1)]) simp
  have "same_bytes m m' (a + 1) (length s + 1)"
    unfolding same_bytes_def list_all_iff
  proof
    fix i assume "i \<in> set [0..<length s + 1]"
    then have "Suc i < length s + 2" unfolding set_upt by simp
    then show "m (a + 1 + of_nat i) = m' (a + 1 + of_nat i)" using b [of "Suc i"] by (simp add: add.assoc)
  qed
  then show ?case using Cons b [of 0] by simp
qed

lemma cstr_same: "cstr m' a = Some s \<Longrightarrow> same_bytes m m' a (length s + 1) \<Longrightarrow> cstr m a = Some s"
  using streq_same cstr_streq streq_iff_cstr by blast

lemma dynlib_search_same:
  assumes "cstr m a = Some s" "cstr m' a = Some s" "\<forall>(k, f) \<in> set dynlib. 0 \<notin> set k"
  shows "dynlib_search m dynlib a = dynlib_search m' dynlib a"
  using assms(3)
proof (induction dynlib)
  case Nil
  then show ?case by simp
next
  case (Cons kf t)
  then show ?case using assms(1,2) streq_iff_cstr by (cases kf) auto
qed

lemma write_same_off:
  assumes "same_off T m m0" "p \<in> T" "\<And>x. 4 \<le> unat (x - p) \<Longrightarrow> m' x = m x"
  shows "same_off T m' m0"
  using assms unfolding same_off_def by auto

lemma write_link_word:
  assumes "ku_memcpy_law ku"
  shows "load32 (write_link ku ty p l m) p =
      (if l = 0 then load32 m p else if ty = R_ARM_ABS32 then load32 m p + l else l)"
    "4 \<le> unat (x - p) \<Longrightarrow> write_link ku ty p l m x = m x"
  using ku_write_word [OF assms] by (simp_all add: write_link_def)

lemma write_dynlib_word:
  assumes "ku_memcpy_law ku"
  shows "load32 (write_dynlib ku dynlib p name m) p =
      (case dynlib_search m dynlib name of Some f \<Rightarrow> f | None \<Rightarrow> load32 m p)"
    "4 \<le> unat (x - p) \<Longrightarrow> write_dynlib ku dynlib p name m x = m x"
  using ku_write_word [OF assms] by (simp_all add: write_dynlib_def split: option.split)

lemma resolve_one_word:
  assumes ku: "ku_memcpy_law ku" and g: "resolvable mods dynlib only md m0" and i: "i < num_rels md"
    and off: "same_off (rel_ptr m0 md ` {..<num_rels md}) m m0" and w: "load32 m (rel_ptr m0 md i) = load32 m0 (rel_ptr m0 md i)"
  shows "\<exists>m'. resolve_one ku mods dynlib only md i m = Some m' \<and>
      load32 m' (rel_ptr m0 md i) = resolved_word mods dynlib only md m0 i \<and>
      (\<forall>x. 4 \<le> unat (x - rel_ptr m0 md i) \<longrightarrow> m' x = m x)"
proof -
  have ta: "tables_apart md m0" using g by (simp add: resolvable_def)
  let ?p = "rel_ptr m0 md i" and ?sym = "rel_sym m0 md i" and ?ty = "rel_type m0 md i" and ?a = "import_name md m0 i"
  note tr = table_reads [OF ta off i]
  show ?thesis
  proof (cases "needs_import md m0 i")
    case False
    then show ?thesis using w by (auto simp: resolve_one_def Let_def tr resolved_word_def needs_import_def)
  next
    case True
    obtain s v where sv: "cstr m0 ?a = Some s"
        "\<And>j. j < num_rels md \<Longrightarrow> region_apart (rel_ptr m0 md j) ?a (length s + 1)"
        "only \<or> (\<forall>m'. same_off (rel_ptr m0 md ` {..<num_rels md}) m' m0 \<longrightarrow> so_resolve_link m' mods md s = Some v)"
      using g i True unfolding resolvable_def by blast
    have name: "cstr m1 ?a = Some s" if "same_off (rel_ptr m0 md ` {..<num_rels md}) m1 m0" for m1
      by (rule cstr_same [OF sv(1) same_off_bytes [OF that]]) (use sv(2) in auto)
    have search: "dynlib_search m1 dynlib ?a = dynlib_search m0 dynlib ?a"
      if "same_off (rel_ptr m0 md ` {..<num_rels md}) m1 m0" for m1
      by (rule dynlib_search_same [OF name [OF that] sv(1)]) (use g in \<open>simp add: resolvable_def\<close>)
    let ?l = "import_link mods only md m0 i"
    have link: "(if only then Some 0 else do { s \<leftarrow> cstr m ?a; so_resolve_link m mods md s }) = Some ?l"
    proof (cases only)
      case True
      then show ?thesis by (simp add: import_link_def)
    next
      case False
      have "same_off (rel_ptr m0 md ` {..<num_rels md}) m0 m0" by (simp add: same_off_def)
      then have "so_resolve_link m mods md s = Some v" "so_resolve_link m0 mods md s = Some v"
        using sv(3) False off by blast+
      then show ?thesis using False sv(1) name [OF off] by (simp add: import_link_def)
    qed
    define m1 where "m1 = write_link ku ?ty ?p ?l m"
    have off1: "same_off (rel_ptr m0 md ` {..<num_rels md}) m1 m0"
      unfolding m1_def by (rule write_same_off [OF off, of ?p]) (use i write_link_word(2) [OF ku] in auto)
    note tr1 = table_reads [OF ta off1 i]
    have eq: "resolve_one ku mods dynlib only md i m = Some (write_dynlib ku dynlib ?p ?a m1)"
    proof -
      have cond: "((?ty = R_ARM_ABS32 \<or> ?ty = R_ARM_GLOB_DAT \<or> ?ty = R_ARM_JUMP_SLOT) \<and> st_shndx m0 ?sym = 0) = True"
        using True by (simp add: needs_import_def)
      show ?thesis
        unfolding resolve_one_def Let_def tr cond if_True link [unfolded import_name_def] import_name_def
        by (simp add: m1_def [symmetric] tr1(6))
    qed
    show ?thesis
      unfolding eq using True write_dynlib_word [OF ku] write_link_word [OF ku] search [OF off1] w
      by (auto simp: resolved_word_def Let_def m1_def split: option.splits)
  qed
qed

interpretation resolution: reloc_pass
  "\<lambda>m. ku_memcpy_law ku \<and> resolvable mods dynlib only md m" "resolve_one ku mods dynlib only md" "num_rels md"
  "\<lambda>m i. rel_ptr m md i" "resolved_word mods dynlib only md"
proof unfold_locales
  fix m0 i j
  assume "ku_memcpy_law ku \<and> resolvable mods dynlib only md m0" "i < num_rels md" "j < num_rels md" "i \<noteq> j"
  then show "region_apart (rel_ptr m0 md i) (rel_ptr m0 md j) 4" by (simp add: resolvable_def tables_apart_def)
next
  fix m0 i m
  assume "ku_memcpy_law ku \<and> resolvable mods dynlib only md m0" "i < num_rels md"
    "same_off (rel_ptr m0 md ` {..<num_rels md}) m m0" "load32 m (rel_ptr m0 md i) = load32 m0 (rel_ptr m0 md i)"
  then show "\<exists>m'. resolve_one ku mods dynlib only md i m = Some m' \<and>
      load32 m' (rel_ptr m0 md i) = resolved_word mods dynlib only md m0 i \<and>
      (\<forall>x. 4 \<le> unat (x - rel_ptr m0 md i) \<longrightarrow> m' x = m x)"
    by (intro resolve_one_word) simp_all
qed

text \<open>
  \<open>so_resolve\<close> binds every undefined symbol of the image: to the import table's function if the table
  has the name, else to the first dependency that defines it (plus the addend for \<open>R_ARM_ABS32\<close>), else
  the word stays as it was; no other byte changes.
\<close>

theorem so_resolve_correct:
  assumes "ku_memcpy_law ku" "resolvable mods dynlib only md m"
  shows "\<exists>m'. so_resolve ku mods dynlib only md m = Some m' \<and>
    (\<forall>i < num_rels md. load32 m' (rel_ptr m md i) = resolved_word mods dynlib only md m i) \<and>
    (\<forall>x. (\<forall>i < num_rels md. 4 \<le> unat (x - rel_ptr m md i)) \<longrightarrow> m' x = m x)"
  using resolution.pass [of ku mods dynlib only md m] assms by (auto simp: so_resolve_def same_off_def)

text \<open>The demonstration image with a \<open>GLOB_DAT\<close> entry for the undefined symbol \<open>b\<close>, found in a table.\<close>

definition demo_import :: memory where
  "demo_import = (\<lambda>_. 0)
     (0x94000110 := 1, 0x94000204 := 21, 0x94000205 := 1, 0x94000201 := 0x10, 0x94000301 := 98)"

lemma demo_import_reads:
  "num_rels demo_module = 1" "rel_ptr demo_import demo_module 0 = 0x94001000"
  "rel_sym demo_import demo_module 0 = 0x94000110" "rel_type demo_import demo_module 0 = 21"
  "rel_at demo_module 0 = 0x94000200" "import_name demo_module demo_import 0 = 0x94000301"
  "st_shndx demo_import 0x94000110 = 0" "load32 demo_import 0x94001000 = 0"
proof -
  show d: "num_rels demo_module = 1" "rel_at demo_module 0 = 0x94000200"
    by (simp_all add: num_rels_def demo_module_def rel_at_def)
  have w: "load32 demo_import 0x94000200 = 0x1000" "load32 demo_import 0x94000204 = 0x115" "load32 demo_import 0x94000110 = 1"
    by (simp_all add: load32_def demo_import_def)
  show p: "rel_ptr demo_import demo_module 0 = 0x94001000" "rel_sym demo_import demo_module 0 = 0x94000110"
    "rel_type demo_import demo_module 0 = 21"
    using w by (simp_all add: rel_ptr_def rel_sym_def rel_type_def d r_offset_def r_info_def r_sym_def r_type_def sym_at_def)
      (simp_all add: demo_module_def)
  show "import_name demo_module demo_import 0 = 0x94000301"
    using w by (simp add: import_name_def p st_name_def) (simp add: demo_module_def)
  show "st_shndx demo_import 0x94000110 = 0" "load32 demo_import 0x94001000 = 0"
    by (simp_all add: st_shndx_def load16_def load32_def demo_import_def)
qed

lemma demo_resolvable: "resolvable [] [([98], 0x81000000)] True demo_module demo_import"
proof -
  have "cstr demo_import 0x94000301 = Some [98]"
    by (rule streq_cstr) (simp_all add: demo_import_def)
  then show ?thesis
    by (simp add: resolvable_def tables_apart_def demo_import_reads region_apart_def)
qed

theorem so_resolve_correct_witness:
  "\<exists>m'. so_resolve write_bytes [] [([98], 0x81000000)] True demo_module demo_import = Some m' \<and>
     load32 m' 0x94001000 = 0x81000000"
proof -
  have "resolved_word [] [([98], 0x81000000)] True demo_module demo_import 0 = 0x81000000"
    by (simp add: resolved_word_def Let_def needs_import_def demo_import_reads r_types) (simp add: demo_import_def)
  then show ?thesis
    using so_resolve_correct [OF write_bytes_law demo_resolvable] by (auto simp: demo_import_reads)
qed

end
