(* ===== verification/So_Load.thy ===== *)
theory So_Load
  imports So_Symbols
begin

text \<open>
  Loading a module (\<open>so_load\<close> of \<open>so_util.c\<close>): the file is read into a buffer, its loadable segments are
  placed into memory blocks, its sections are looked up by name, and the module joins the list of loaded
  modules.  Files, \<open>malloc\<close> and the kernel's memory blocks are parameters with their state \<open>'e\<close>.  A value
  \<open>None\<close> stands for the undefined behaviour of writing through a \<open>NULL\<close> that \<open>malloc\<close> returned.
\<close>

record 'e load_api =
  sceIoOpen :: "'e \<Rightarrow> i32 \<times> 'e"
  io_size :: "i32 \<Rightarrow> 'e \<Rightarrow> u32 \<times> 'e"
  sceIoRead :: "i32 \<Rightarrow> nat \<Rightarrow> 'e \<Rightarrow> u8 list \<times> 'e"
  sceIoClose :: "i32 \<Rightarrow> 'e \<Rightarrow> 'e"
  l_malloc :: "u32 \<Rightarrow> 'e \<Rightarrow> u32 \<times> 'e"
  l_free :: "u32 \<Rightarrow> 'e \<Rightarrow> 'e"
  kuKernelAllocMemBlock :: "bool \<Rightarrow> u32 \<Rightarrow> u32 \<Rightarrow> 'e \<Rightarrow> i32 \<times> 'e"
  sceKernelGetMemBlockBase :: "i32 \<Rightarrow> 'e \<Rightarrow> u32"
  sceKernelFreeMemBlock :: "i32 \<Rightarrow> 'e \<Rightarrow> 'e"

record 'e load_state =
  lmem :: memory
  lext :: 'e
  lmod :: so_module
  lres :: i32
  data_addr :: u32

section \<open>The file buffer\<close>

definition e_phoff :: "memory \<Rightarrow> u32 \<Rightarrow> u32" where "e_phoff m d = load32 m (d + 28)"
definition e_shoff :: "memory \<Rightarrow> u32 \<Rightarrow> u32" where "e_shoff m d = load32 m (d + 32)"
definition e_phnum :: "memory \<Rightarrow> u32 \<Rightarrow> nat" where "e_phnum m d = unat (load16 m (d + 44))"
definition e_shnum :: "memory \<Rightarrow> u32 \<Rightarrow> nat" where "e_shnum m d = unat (load16 m (d + 48))"
definition e_shstrndx :: "memory \<Rightarrow> u32 \<Rightarrow> nat" where "e_shstrndx m d = unat (load16 m (d + 50))"

text \<open>\<open>mod->phdr\<close>, \<open>mod->shdr\<close> and \<open>mod->shstr\<close>\<close>

definition phdr_of :: "memory \<Rightarrow> u32 \<Rightarrow> u32" where "phdr_of m d = d + e_phoff m d"
definition shdr_of :: "memory \<Rightarrow> u32 \<Rightarrow> u32" where "shdr_of m d = d + e_shoff m d"

definition shstr_of :: "memory \<Rightarrow> u32 \<Rightarrow> u32" where
  "shstr_of m d = d + load32 m (shdr_of m d + of_nat (40 * e_shstrndx m d) + 16)"

definition p_type :: "memory \<Rightarrow> u32 \<Rightarrow> u32" where "p_type m p = load32 m p"
definition p_offset :: "memory \<Rightarrow> u32 \<Rightarrow> u32" where "p_offset m p = load32 m (p + 4)"
definition p_vaddr :: "memory \<Rightarrow> u32 \<Rightarrow> u32" where "p_vaddr m p = load32 m (p + 8)"
definition p_filesz :: "memory \<Rightarrow> u32 \<Rightarrow> u32" where "p_filesz m p = load32 m (p + 16)"
definition p_memsz :: "memory \<Rightarrow> u32 \<Rightarrow> u32" where "p_memsz m p = load32 m (p + 20)"
definition p_flags :: "memory \<Rightarrow> u32 \<Rightarrow> u32" where "p_flags m p = load32 m (p + 24)"
definition p_align :: "memory \<Rightarrow> u32 \<Rightarrow> u32" where "p_align m p = load32 m (p + 28)"

definition ALIGN_MEM :: "u32 \<Rightarrow> u32 \<Rightarrow> u32" where
  "ALIGN_MEM x align = (x + (align - 1)) AND NOT (align - 1)"

text \<open>The read loop: it ends at the end of the file or at a read that returns nothing.\<close>

function read_file :: "'e load_api \<Rightarrow> i32 \<Rightarrow> u32 \<Rightarrow> nat \<Rightarrow> nat \<Rightarrow> memory \<Rightarrow> 'e \<Rightarrow> memory \<times> 'e" where
  "read_file api fd d nbytes got m e =
     (if got < nbytes then
        let (bs, e) = sceIoRead api fd (nbytes - got) e
        in if bs = [] then (m, e)
           else read_file api fd d nbytes (got + length bs) (write_bytes m (d + of_nat got) bs) e
      else (m, e))"
  by pat_completeness auto
termination
  by (relation "measure (\<lambda>(api, fd, d, nbytes, got, m, e). nbytes - got)")
    (auto simp: length_greater_0_conv [symmetric] simp del: length_greater_0_conv intro!: diff_less_mono2)

declare read_file.simps [simp del]

section \<open>Segments\<close>

text \<open>The block is zeroed through a temporary buffer, then the file's bytes are copied to \<open>p_vaddr\<close>.\<close>

definition install_segment :: "'e load_api \<Rightarrow> ku_memcpy \<Rightarrow> u32 \<Rightarrow> u32 \<Rightarrow> u32 \<Rightarrow> u32 \<Rightarrow> 'e load_state \<Rightarrow> 'e load_state option" where
  "install_segment api ku d p prog_data prog_size s =
     (let (zero, e) = l_malloc api prog_size (lext s); n = unat prog_size
      in if zero = 0 \<and> 0 < n then None
         else let m = write_bytes (lmem s) zero (replicate n 0);
                  m = ku m prog_data (read_bytes m zero n);
                  m = ku m (p_vaddr m p) (read_bytes m (d + p_offset m p) (unat (p_filesz m p)))
              in Some (s\<lparr>lmem := m, lext := l_free api zero e\<rparr>))"

datatype 'e seg_exit =
    Next "'e load_state"
  | Err_free_so "'e load_state"
  | Err_free_text "'e load_state"

definition set_vaddr :: "u32 \<Rightarrow> u32 \<Rightarrow> memory \<Rightarrow> memory" where
  "set_vaddr p v m = write_bytes m (p + 8) (le32 v)"

definition load_text :: "'e load_api \<Rightarrow> ku_memcpy \<Rightarrow> u32 \<Rightarrow> u32 \<Rightarrow> u32 \<Rightarrow> 'e load_state \<Rightarrow> 'e seg_exit option" where
  "load_text api ku load_addr d p s =
     (let m = lmem s; size = ALIGN_MEM (p_memsz m p) (p_align m p);
          (b, e) = kuKernelAllocMemBlock api True size load_addr (lext s);
          s = s\<lparr>lres := b, lmod := (lmod s)\<lparr>m_text_blockid := b\<rparr>, lext := e\<rparr>
      in if sint b < 0 then Some (Err_free_so s)
         else let prog = sceKernelGetMemBlockBase api b e;
                  v = p_vaddr m p + prog;
                  s = s\<lparr>lmem := set_vaddr p v m,
                        lmod := (lmod s)\<lparr>m_text_base := v, m_text_size := p_memsz m p\<rparr>,
                        data_addr := prog + size\<rparr>
              in map_option Next (install_segment api ku d p prog size s))"

definition load_data :: "'e load_api \<Rightarrow> ku_memcpy \<Rightarrow> u32 \<Rightarrow> u32 \<Rightarrow> 'e load_state \<Rightarrow> 'e seg_exit option" where
  "load_data api ku d p s =
     (if data_addr s = 0 then Some (Err_free_so s)
      else let m = lmem s;
               size = ALIGN_MEM (p_memsz m p + p_vaddr m p - (data_addr s - m_text_base (lmod s))) (p_align m p);
               (b, e) = kuKernelAllocMemBlock api False size (data_addr s) (lext s);
               s = s\<lparr>lres := b, lmod := (lmod s)\<lparr>m_data_blockid := b\<rparr>, lext := e\<rparr>
           in if sint b < 0 then Some (Err_free_text s)
              else let prog = sceKernelGetMemBlockBase api b e;
                       v = p_vaddr m p + m_text_base (lmod s);
                       s = s\<lparr>lmem := set_vaddr p v m,
                             lmod := (lmod s)\<lparr>m_data_base := v, m_data_size := p_memsz m p\<rparr>\<rparr>
                   in map_option Next (install_segment api ku d p prog size s))"

definition PT_LOAD :: u32 where "PT_LOAD = 1"
definition PF_X :: u32 where "PF_X = 1"

definition load_segment :: "'e load_api \<Rightarrow> ku_memcpy \<Rightarrow> u32 \<Rightarrow> u32 \<Rightarrow> u32 \<Rightarrow> 'e load_state \<Rightarrow> 'e seg_exit option" where
  "load_segment api ku load_addr d p s =
     (if p_type (lmem s) p = PT_LOAD then
        if p_flags (lmem s) p AND PF_X = PF_X then load_text api ku load_addr d p s
        else load_data api ku d p s
      else Some (Next s))"

lemma e_phnum_less: "e_phnum m d < 65536"
  unfolding e_phnum_def using unsigned_less [of "load16 m (d + 44)", where 'a = nat] by simp

text \<open>
  The loop over the program headers: \<open>phdr\<close> was computed once, \<open>e_phnum\<close> is read again in every round and is
  a 16-bit number.
\<close>

function load_segments :: "'e load_api \<Rightarrow> ku_memcpy \<Rightarrow> u32 \<Rightarrow> u32 \<Rightarrow> u32 \<Rightarrow> nat \<Rightarrow> 'e load_state \<Rightarrow> 'e seg_exit option" where
  "load_segments api ku load_addr d phdr i s =
     (if i < e_phnum (lmem s) d then
        case load_segment api ku load_addr d (phdr + of_nat (32 * i)) s of
          Some (Next s') \<Rightarrow> load_segments api ku load_addr d phdr (Suc i) s'
        | x \<Rightarrow> x
      else Some (Next s))"
  by pat_completeness auto

termination
proof (relation "measure (\<lambda>(api, ku, load_addr, d, phdr, i, s). 65536 - i)", goal_cases)
  case (2 api ku load_addr d phdr i s)
  then have "i < 65536" by (blast intro: less_trans e_phnum_less)
  then show ?case by simp
qed simp

declare load_segments.simps [simp del]

section \<open>Sections\<close>

definition bytes :: "string \<Rightarrow> u8 list" where
  "bytes s = map of_char s"

definition scan_section :: "memory \<Rightarrow> u32 \<Rightarrow> u32 \<Rightarrow> nat \<Rightarrow> so_module \<Rightarrow> so_module" where
  "scan_section m shdr shstr i md =
     (let sh = shdr + of_nat (40 * i);
          name = shstr + load32 m sh; addr = m_text_base md + load32 m (sh + 12); size = unat (load32 m (sh + 20))
      in if streq m name (bytes ''.dynamic'') then md\<lparr>m_dynamic := addr, m_num_dynamic := size div 8\<rparr>
         else if streq m name (bytes ''.dynstr'') then md\<lparr>m_dynstr := addr\<rparr>
         else if streq m name (bytes ''.dynsym'') then md\<lparr>m_dynsym := addr, m_num_dynsym := size div 16\<rparr>
         else if streq m name (bytes ''.rel.dyn'') then md\<lparr>m_reldyn := addr, m_num_reldyn := size div 8\<rparr>
         else if streq m name (bytes ''.rel.plt'') then md\<lparr>m_relplt := addr, m_num_relplt := size div 8\<rparr>
         else if streq m name (bytes ''.init_array'') then md\<lparr>m_init_array := addr, m_num_init_array := size div 4\<rparr>
         else if streq m name (bytes ''.hash'') then md\<lparr>m_hash := addr\<rparr>
         else md)"

definition scan_sections :: "memory \<Rightarrow> u32 \<Rightarrow> u32 \<Rightarrow> u32 \<Rightarrow> so_module \<Rightarrow> so_module" where
  "scan_sections m d shdr shstr md = fold (scan_section m shdr shstr) [0..<e_shnum m d] md"

definition DT_SONAME :: u32 where "DT_SONAME = 14"

definition find_soname :: "memory \<Rightarrow> so_module \<Rightarrow> so_module" where
  "find_soname m md =
     fold (\<lambda>i md. if dyn_tag m md i = DT_SONAME then md\<lparr>m_soname := m_dynstr md + dyn_ptr m md i\<rparr> else md)
       [0..<m_num_dynamic md] md"

section \<open>so_load\<close>

definition empty_module :: so_module where
  "empty_module = \<lparr>m_text_base = 0, m_data_base = 0, m_text_size = 0, m_data_size = 0,
     m_text_blockid = 0, m_data_blockid = 0, m_dynamic = 0, m_dynsym = 0, m_reldyn = 0, m_relplt = 0,
     m_init_array = 0, m_hash = 0, m_num_dynamic = 0, m_num_dynsym = 0, m_num_reldyn = 0, m_num_relplt = 0,
     m_num_init_array = 0, m_soname = 0, m_dynstr = 0\<rparr>"

definition tables_found :: "so_module \<Rightarrow> bool" where
  "tables_found md \<longleftrightarrow> m_dynamic md \<noteq> 0 \<and> m_dynstr md \<noteq> 0 \<and> m_dynsym md \<noteq> 0 \<and> m_reldyn md \<noteq> 0 \<and> m_relplt md \<noteq> 0"

text \<open>Behind the segments: sections, the check of the tables, \<open>soname\<close>, the module list.\<close>

definition finish_load :: "'e load_api \<Rightarrow> u32 \<Rightarrow> u32 \<Rightarrow> u32 \<Rightarrow> so_module list \<Rightarrow> 'e load_state \<Rightarrow> i32 \<times> so_module list \<times> 'e load_state" where
  "finish_load api d shdr shstr mods s =
     (let md = scan_sections (lmem s) d shdr shstr (lmod s)
      in if \<not> tables_found md
         then (- 2, mods, s\<lparr>lmod := md, lext := l_free api d (sceKernelFreeMemBlock api (m_text_blockid md)
                 (sceKernelFreeMemBlock api (m_data_blockid md) (lext s)))\<rparr>)
         else let md = find_soname (lmem s) md
              in (0, mods @ [md], s\<lparr>lmod := md, lext := l_free api d (lext s)\<rparr>))"

definition so_load :: "'e load_api \<Rightarrow> ku_memcpy \<Rightarrow> u32 \<Rightarrow> so_module list \<Rightarrow> memory \<Rightarrow> 'e \<Rightarrow>
    (i32 \<times> so_module list \<times> 'e load_state) option" where
  "so_load api ku load_addr mods m e =
     (let (fd, e) = sceIoOpen api e; s0 = \<lparr>lmem = m, lext = e, lmod = empty_module, lres = 0, data_addr = 0\<rparr>
      in if sint fd < 0 then Some (fd, mods, s0)
         else let (size, e) = io_size api fd e; (d, e) = l_malloc api size e
              in if d = 0 then Some (- 1, mods, s0\<lparr>lext := e\<rparr>)
                 else let (m, e) = read_file api fd d (unat size) 0 m e;
                          e = sceIoClose api fd e; s = s0\<lparr>lmem := m, lext := e\<rparr>
                      in if read_bytes m d 4 \<noteq> [0x7f, 0x45, 0x4c, 0x46]
                         then Some (- 1, mods, s\<lparr>lext := l_free api d e\<rparr>)
                         else do {
                           x \<leftarrow> load_segments api ku load_addr d (phdr_of m d) 0 s;
                           Some (case x of
                               Next s \<Rightarrow> finish_load api d (shdr_of m d) (shstr_of m d) mods s
                             | Err_free_so s \<Rightarrow> (lres s, mods, s\<lparr>lext := l_free api d (lext s)\<rparr>)
                             | Err_free_text s \<Rightarrow> (lres s, mods, s\<lparr>lext := l_free api d
                                 (sceKernelFreeMemBlock api (m_text_blockid (lmod s)) (lext s))\<rparr>)) })"

section \<open>What a load leaves behind\<close>

text \<open>
  The environment as resources: the pointers \<open>malloc\<close> has handed out, the open descriptors and the live
  memory blocks.  Every call changes one of them in the way its manual says.
\<close>

definition load_api_law :: "'e load_api \<Rightarrow> ('e \<Rightarrow> u32 set) \<Rightarrow> ('e \<Rightarrow> i32 set) \<Rightarrow> bool" where
  "load_api_law api live fds \<longleftrightarrow>
     (\<forall>e fd e'. sceIoOpen api e = (fd, e') \<longrightarrow> live e' = live e \<and>
        (if sint fd < 0 then fds e' = fds e else fd \<notin> fds e \<and> fds e' = insert fd (fds e))) \<and>
     (\<forall>e fd n e'. io_size api fd e = (n, e') \<longrightarrow> live e' = live e \<and> fds e' = fds e) \<and>
     (\<forall>e fd n bs e'. sceIoRead api fd n e = (bs, e') \<longrightarrow> live e' = live e \<and> fds e' = fds e) \<and>
     (\<forall>e fd. live (sceIoClose api fd e) = live e \<and> fds (sceIoClose api fd e) = fds e - {fd}) \<and>
     (\<forall>e n p e'. l_malloc api n e = (p, e') \<longrightarrow> fds e' = fds e \<and>
        (if p = 0 then live e' = live e else p \<notin> live e \<and> live e' = insert p (live e))) \<and>
     (\<forall>e p. fds (l_free api p e) = fds e \<and> live (l_free api p e) = (if p = 0 then live e else live e - {p})) \<and>
     (\<forall>x size at e b e'. kuKernelAllocMemBlock api x size at e = (b, e') \<longrightarrow> live e' = live e \<and> fds e' = fds e) \<and>
     (\<forall>b e. live (sceKernelFreeMemBlock api b e) = live e \<and> fds (sceKernelFreeMemBlock api b e) = fds e)"

lemma load_api_lawD:
  assumes "load_api_law api live fds"
  shows api_open: "sceIoOpen api e = (fd, e') \<Longrightarrow> live e' = live e \<and>
          (if sint fd < 0 then fds e' = fds e else fd \<notin> fds e \<and> fds e' = insert fd (fds e))"
    and api_size: "io_size api fd e = (n, e') \<Longrightarrow> live e' = live e \<and> fds e' = fds e"
    and api_read: "sceIoRead api fd k e = (bs, e') \<Longrightarrow> live e' = live e \<and> fds e' = fds e"
    and api_close: "live (sceIoClose api fd e) = live e" "fds (sceIoClose api fd e) = fds e - {fd}"
    and api_malloc: "l_malloc api n e = (p, e') \<Longrightarrow> fds e' = fds e \<and>
          (if p = 0 then live e' = live e else p \<notin> live e \<and> live e' = insert p (live e))"
    and api_free: "fds (l_free api p e) = fds e" "live (l_free api p e) = (if p = 0 then live e else live e - {p})"
    and api_alloc: "kuKernelAllocMemBlock api x n at e = (b, e') \<Longrightarrow> live e' = live e \<and> fds e' = fds e"
    and api_release: "live (sceKernelFreeMemBlock api b e) = live e" "fds (sceKernelFreeMemBlock api b e) = fds e"
  by (insert assms [unfolded load_api_law_def], (elim conjE, metis)+)

lemma read_file_keeps:
  assumes "load_api_law api live fds"
  shows "read_file api fd d n got m e = (m', e') \<Longrightarrow> live e' = live e \<and> fds e' = fds e"
  using assms
proof (induction api fd d n got m e arbitrary: m' e' rule: read_file.induct)
  case (1 api fd d n got m e)
  obtain bs e1 where r: "sceIoRead api fd (n - got) e = (bs, e1)" by (metis surj_pair)
  show ?case
  proof (cases "got < n \<and> bs \<noteq> []")
    case True
    with "1.prems" r have "read_file api fd d n (got + length bs) (write_bytes m (d + of_nat got) bs) e1 = (m', e')"
      by (subst (asm) read_file.simps) simp
    with True r "1.prems" "1.IH" api_read [OF "1.prems"(2) r] show ?thesis by simp
  next
    case False
    with "1.prems" r show ?thesis
      by (subst (asm) read_file.simps) (auto split: if_splits dest!: api_read [OF "1.prems"(2)])
  qed
qed

fun exit_state :: "'e seg_exit \<Rightarrow> 'e load_state" where
  "exit_state (Next s) = s" | "exit_state (Err_free_so s) = s" | "exit_state (Err_free_text s) = s"

text \<open>What the handling of a segment keeps: pointers, descriptors; and a failure's result is negative, or the
  data segment came first.\<close>

definition seg_ok :: "('e \<Rightarrow> u32 set) \<Rightarrow> ('e \<Rightarrow> i32 set) \<Rightarrow> 'e load_state \<Rightarrow> 'e seg_exit \<Rightarrow> bool" where
  "seg_ok live fds s x \<longleftrightarrow>
     live (lext (exit_state x)) = live (lext s) \<and> fds (lext (exit_state x)) = fds (lext s) \<and>
     (case x of Next _ \<Rightarrow> True
      | Err_free_so t \<Rightarrow> sint (lres t) < 0 \<or> data_addr t = 0
      | Err_free_text t \<Rightarrow> sint (lres t) < 0)"

lemma install_segment_keeps:
  assumes "load_api_law api live fds" "install_segment api ku d p a n s = Some s'"
  shows "live (lext s') = live (lext s) \<and> fds (lext s') = fds (lext s)"
  using assms(2) api_malloc [OF assms(1)] api_free [OF assms(1)]
  unfolding install_segment_def
  by (auto simp: Let_def split: prod.splits if_splits)

lemma load_text_ok:
  assumes "load_api_law api live fds" "load_text api ku at d p s = Some x"
  shows "seg_ok live fds s x"
  using assms(2) api_alloc [OF assms(1)]
  unfolding load_text_def seg_ok_def
  by (fastforce simp: Let_def split: prod.splits if_splits dest!: install_segment_keeps [OF assms(1)])

lemma load_data_ok:
  assumes "load_api_law api live fds" "load_data api ku d p s = Some x"
  shows "seg_ok live fds s x"
  using assms(2) api_alloc [OF assms(1)]
  unfolding load_data_def seg_ok_def
  by (fastforce simp: Let_def split: prod.splits if_splits dest!: install_segment_keeps [OF assms(1)])

lemma load_segment_ok:
  assumes "load_api_law api live fds" "load_segment api ku at d p s = Some x"
  shows "seg_ok live fds s x"
  using assms(2) load_text_ok [OF assms(1)] load_data_ok [OF assms(1)]
  unfolding load_segment_def by (auto simp: seg_ok_def split: if_splits)

lemma load_segments_ok:
  assumes "load_api_law api live fds"
  shows "load_segments api ku at d phdr i s = Some x \<Longrightarrow> seg_ok live fds s x"
  using assms
proof (induction api ku at d phdr i s arbitrary: x rule: load_segments.induct)
  case (1 api ku at d phdr i s)
  show ?case
  proof (cases "i < e_phnum (lmem s) d")
    case False
    with "1.prems" show ?thesis by (subst (asm) load_segments.simps) (auto simp: seg_ok_def)
  next
    case True
    with "1.prems"(1) obtain y where y: "load_segment api ku at d (phdr + of_nat (32 * i)) s = Some y"
      by (subst (asm) load_segments.simps) (auto split: option.splits)
    note y_ok = load_segment_ok [OF "1.prems"(2) y]
    show ?thesis
    proof (cases y)
      case (Next s')
      with True y "1.prems"(1) have "load_segments api ku at d phdr (Suc i) s' = Some x"
        by (subst (asm) load_segments.simps) simp
      then have "seg_ok live fds s' x" using "1.IH" [OF True y Next] "1.prems"(2) by simp
      with y_ok Next show ?thesis by (auto simp: seg_ok_def)
    qed (use True y "1.prems"(1) y_ok in \<open>subst (asm) load_segments.simps, simp\<close>)+
  qed
qed

lemma find_soname_tables [simp]: "tables_found (find_soname m md) = tables_found md"
proof -
  have "tables_found (fold (\<lambda>i md. if dyn_tag m md i = DT_SONAME then md\<lparr>m_soname := m_dynstr md + dyn_ptr m md i\<rparr> else md) xs md')
     = tables_found md'" for xs md'
    by (induction xs arbitrary: md') (auto simp: tables_found_def)
  then show ?thesis by (simp add: find_soname_def)
qed


text \<open>An environment with one file; the file has one segment, for data.\<close>

record demo_env =
  de_live :: "u32 set"
  de_fds :: "i32 set"
  de_rest :: "u8 list"

definition demo_api :: "demo_env load_api" where
  "demo_api = \<lparr>
     sceIoOpen = (\<lambda>e. if 3 \<in> de_fds e then (- 1, e) else (3, e\<lparr>de_fds := insert 3 (de_fds e)\<rparr>)),
     io_size = (\<lambda>fd e. (of_nat (length (de_rest e)), e)),
     sceIoRead = (\<lambda>fd n e. (take n (de_rest e), e\<lparr>de_rest := drop n (de_rest e)\<rparr>)),
     sceIoClose = (\<lambda>fd e. e\<lparr>de_fds := de_fds e - {fd}\<rparr>),
     l_malloc = (\<lambda>n e. if 0x1000 \<in> de_live e then (0, e) else (0x1000, e\<lparr>de_live := insert 0x1000 (de_live e)\<rparr>)),
     l_free = (\<lambda>p e. if p = 0 then e else e\<lparr>de_live := de_live e - {p}\<rparr>),
     kuKernelAllocMemBlock = (\<lambda>x n at e. (5, e)),
     sceKernelGetMemBlockBase = (\<lambda>b e. 0x94000000),
     sceKernelFreeMemBlock = (\<lambda>b e. e)\<rparr>"

definition data_first_so :: "u8 list" where
  "data_first_so = [0x7f, 0x45, 0x4c, 0x46] @ replicate 24 0 @ [40, 0, 0, 0] @ replicate 8 0 @
     [1, 0, 0, 0, 1, 0, 0, 0] @ replicate 24 0"

lemma demo_api_law: "load_api_law demo_api de_live de_fds"
  unfolding load_api_law_def demo_api_def by (auto split: if_splits)

text \<open>A file whose data segment comes first: \<open>so_load\<close> returns 0, the caller's success, and registers nothing.\<close>

lemma so_load_data_first:
  "\<exists>s. so_load demo_api write_bytes 0 [] (\<lambda>_. 0) \<lparr>de_live = {}, de_fds = {}, de_rest = data_first_so\<rparr> = Some (0, [], s)"
proof -
  let ?m = "write_bytes (\<lambda>_. 0) 0x1000 data_first_so"
  have img: "?m x = (if unat (x - 0x1000) < 72 then data_first_so ! unat (x - 0x1000) else 0)" for x
    by (subst write_bytes_apply) (simp_all add: data_first_so_def)
  have n: "length data_first_so = 72" by (simp add: data_first_so_def)
  have f: "read_file demo_api 3 0x1000 72 0 (\<lambda>_. 0) \<lparr>de_live = {0x1000}, de_fds = {3}, de_rest = data_first_so\<rparr>
    = (?m, \<lparr>de_live = {0x1000}, de_fds = {3}, de_rest = []\<rparr>)"
    by (subst read_file.simps, simp add: demo_api_def n, subst read_file.simps, simp add: n)
  have h: "read_bytes ?m 0x1000 4 = [0x7f, 0x45, 0x4c, 0x46]" "e_phnum ?m 0x1000 = 1" "phdr_of ?m 0x1000 = 0x1028"
    "p_type ?m 0x1028 = 1" "p_flags ?m 0x1028 = 0"
    unfolding read_bytes_def e_phnum_def phdr_of_def e_phoff_def p_type_def p_flags_def load16_def load32_def img
    by (simp_all add: data_first_so_def upt_rec nth_append nth_Cons')
  show ?thesis
    using f h n
    by (auto simp: so_load_def demo_api_def load_segments.simps load_segment_def load_data_def PT_LOAD_def PF_X_def)
qed


section \<open>The image of a segment\<close>

definition inside :: "u32 \<Rightarrow> nat \<Rightarrow> u32 \<Rightarrow> bool" where
  "inside a n x \<longleftrightarrow> unat (x - a) < n"

lemma write_zeros_apply: "write_bytes m z (replicate (unat (n :: u32)) 0) x = (if inside z (unat n) x then 0 else m x)"
  using unsigned_less [of n, where 'a = nat] by (subst write_bytes_apply) (auto simp: inside_def)

lemma read_zeros: "read_bytes (write_bytes m z (replicate (unat (n :: u32)) 0)) z (unat n) = replicate (unat n) 0"
proof (rule nth_equalityI)
  fix i
  assume "i < length (read_bytes (write_bytes m z (replicate (unat n) 0)) z (unat n))"
  moreover have "unat (of_nat i :: u32) \<le> i" by (simp add: unat_of_nat)
  ultimately show "read_bytes (write_bytes m z (replicate (unat n) 0)) z (unat n) ! i = replicate (unat n) 0 ! i"
    by (simp add: write_zeros_apply inside_def)
qed simp

text \<open>Bytes that lie in neither the temporary buffer nor the block.\<close>

definition clear_of :: "u32 \<Rightarrow> u32 \<Rightarrow> nat \<Rightarrow> u32 \<Rightarrow> nat \<Rightarrow> bool" where
  "clear_of z prog n a k \<longleftrightarrow> (\<forall>i<k. \<not> inside z n (a + of_nat i) \<and> \<not> inside prog n (a + of_nat i))"

lemma clear_ofI:
  assumes "n \<le> unat (a - z)" "unat (a - z) + k \<le> 2 ^ 32" "n \<le> unat (a - prog)" "unat (a - prog) + k \<le> 2 ^ 32"
  shows "clear_of z prog n a k"
  unfolding clear_of_def inside_def using assms by (auto simp: unat_le_add_offset not_less)

lemma clear_load32:
  assumes "clear_of z prog n p 32" "\<And>x. \<not> inside z n x \<Longrightarrow> \<not> inside prog n x \<Longrightarrow> m' x = m x"
  shows "p_vaddr m' p = p_vaddr m p" "p_offset m' p = p_offset m p" "p_filesz m' p = p_filesz m p"
proof -
  have "m' (p + of_nat i) = m (p + of_nat i)" if "i < 32" for i
    using assms that by (simp add: clear_of_def)
  from this [of 4] this [of 5] this [of 6] this [of 7] this [of 8] this [of 9] this [of 10] this [of 11]
    this [of 16] this [of 17] this [of 18] this [of 19]
  show "p_vaddr m' p = p_vaddr m p" "p_offset m' p = p_offset m p" "p_filesz m' p = p_filesz m p"
    by (simp_all add: p_vaddr_def p_offset_def p_filesz_def load32_def add.assoc)
qed

text \<open>
  Installing a segment puts the bytes of the file at the segment's address, fills the rest of its memory
  block with zeros, and changes nothing else apart from the freed temporary buffer.
\<close>
theorem install_segment_image:
  assumes ku: "ku_memcpy_law ku"
    and zero: "l_malloc api n (lext s) = (z, e')"
    and header: "clear_of z prog (unat n) p 32"
    and source: "clear_of z prog (unat n) (d + p_offset (lmem s) p) (unat (p_filesz (lmem s) p))"
    and run: "install_segment api ku d p prog n s = Some s'"
  shows "lmem s' x =
    (if inside (p_vaddr (lmem s) p) (unat (p_filesz (lmem s) p)) x
     then lmem s (d + p_offset (lmem s) p + (x - p_vaddr (lmem s) p))
     else if inside prog (unat n) x \<or> inside z (unat n) x then 0 else lmem s x)"
proof -
  define m1 where "m1 = write_bytes (lmem s) z (replicate (unat n) 0)"
  define m2 where "m2 = ku m1 prog (replicate (unat n) 0)"
  let ?v = "p_vaddr (lmem s) p" and ?o = "p_offset (lmem s) p" and ?f = "p_filesz (lmem s) p"
  have len: "unat (w :: u32) < 2 ^ 32" for w using unsigned_less [of w, where 'a = nat] by simp
  have m2: "m2 y = (if inside prog (unat n) y \<or> inside z (unat n) y then 0 else lmem s y)" for y
    using ku len [of n] unfolding m2_def ku_memcpy_law_def by (auto simp: m1_def write_zeros_apply inside_def)
  have h: "p_vaddr m2 p = ?v" "p_offset m2 p = ?o" "p_filesz m2 p = ?f"
    using clear_load32 [OF header, of m2 "lmem s"] by (simp_all add: m2)
  have "s' = s\<lparr>lmem := (let m = ku m1 prog (read_bytes m1 z (unat n))
      in ku m (p_vaddr m p) (read_bytes m (d + p_offset m p) (unat (p_filesz m p)))), lext := l_free api z e'\<rparr>"
    using run unfolding install_segment_def m1_def by (auto simp: zero Let_def split: if_splits)
  then have "lmem s' = ku m2 ?v (read_bytes m2 (d + ?o) (unat ?f))"
    by (simp add: Let_def m1_def read_zeros h [unfolded m2_def m1_def] m2_def)
  then have "lmem s' x = (if inside ?v (unat ?f) x then m2 (d + ?o + (x - ?v)) else m2 x)"
    using ku len [of ?f] unfolding ku_memcpy_law_def by (simp add: inside_def)
  moreover have "m2 (d + ?o + (x - ?v)) = lmem s (d + ?o + (x - ?v))" if "inside ?v (unat ?f) x"
    using source [unfolded clear_of_def, rule_format, of "unat (x - ?v)"] that
    by (simp add: m2 inside_def [of ?v])
  ultimately show ?thesis using m2 [of x] by simp
qed

definition demo_segment :: "demo_env load_state" where
  "demo_segment = \<lparr>lmem = (\<lambda>_. 0)(0x3001 := 0x45, 0x303F := 0x94, 0x3044 := 2),
     lext = \<lparr>de_live = {}, de_fds = {}, de_rest = []\<rparr>, lmod = empty_module, lres = 0, data_addr = 0\<rparr>"

lemma demo_segment_clear: "clear_of 0x1000 0x94000000 4 0x3034 32" "clear_of 0x1000 0x94000000 4 0x3000 2"
  by (rule clear_ofI; simp)+

lemma demo_segment_header:
  "p_vaddr (lmem demo_segment) 0x3034 = 0x94000000" "p_offset (lmem demo_segment) 0x3034 = 0"
  "p_filesz (lmem demo_segment) 0x3034 = 2"
  by (simp_all add: demo_segment_def p_vaddr_def p_offset_def p_filesz_def load32_def)

theorem install_segment_image_witness:
  "\<exists>s'. install_segment demo_api write_bytes 0x3000 0x3034 0x94000000 4 demo_segment = Some s' \<and>
     lmem s' 0x94000001 = 0x45 \<and> lmem s' 0x94000002 = 0"
proof -
  have z: "l_malloc demo_api 4 (lext demo_segment) = (0x1000, \<lparr>de_live = {0x1000}, de_fds = {}, de_rest = []\<rparr>)"
    by (simp add: demo_api_def demo_segment_def)
  obtain s' where r: "install_segment demo_api write_bytes 0x3000 0x3034 0x94000000 4 demo_segment = Some s'"
    by (simp add: install_segment_def z Let_def)
  have "lmem s' x = (if inside 0x94000000 2 x then lmem demo_segment (0x3000 + (x - 0x94000000))
     else if inside 0x94000000 4 x \<or> inside 0x1000 4 x then 0 else lmem demo_segment x)" for x
    using install_segment_image [OF write_bytes_law z _ _ r, of x]
    by (simp add: demo_segment_header demo_segment_clear)
  then show ?thesis using r by (simp add: inside_def demo_segment_def)
qed

end
