(* ===== verification/Jni_Slots.thy ===== *)
theory Jni_Slots
  imports Prelude
begin

text \<open>
  The function table behind the fake \<open>JNIEnv\<close> (\<open>jni_init\<close> of \<open>jni_patch.c\<close>): which function of the loader
  stands in which of the 233 slots, against the return types the Java Native Interface gives the slots.
  A function is represented by its C name, a null pointer by the empty name.
\<close>

definition slot_rows_a :: "(nat \<times> string) list" where
  "slot_rows_a =
    [(4, ''GetVersion''), (6, ''FindClass''), (10, ''g_ret0''), (11, ''IsAssignableFrom''), (13, ''Throw''),
     (14, ''ThrowNew''), (15, ''ExceptionOccurred''), (16, ''ExceptionDescribe''), (17, ''ExceptionClear''),
     (18, ''FatalError''), (19, ''PushLocalFrame''), (20, ''PopLocalFrame''), (21, ''NewGlobalRef''),
     (22, ''DeleteGlobalRef''), (23, ''DeleteLocalRef''), (24, ''IsSameObject''), (25, ''g_self''),
     (26, ''g_ret0''), (27, ''g_ret1''), (28, ''NewObject''), (29, ''NewObjectV''), (30, ''NewObjectA''),
     (31, ''GetObjectClass''), (32, ''IsInstanceOf''), (33, ''GetMethodID''), (113, ''GetMethodID''),
     (34, ''CallObjectMethod''), (35, ''CallObjectMethodV''), (36, ''CallObjectMethodA''),
     (37, ''CallBooleanMethod''), (38, ''CallBooleanMethodV''), (39, ''CallBooleanMethodA''),
     (40, ''CallIntMethod''), (41, ''CallIntMethodV''), (42, ''CallIntMethodA''), (43, ''CallIntMethod''),
     (44, ''CallIntMethodV''), (45, ''CallIntMethodA''), (46, ''CallIntMethod''), (47, ''CallIntMethodV''),
     (48, ''CallIntMethodA''), (49, ''CallIntMethod''), (50, ''CallIntMethodV''), (51, ''CallIntMethodA''),
     (52, ''CallLongMethod''), (53, ''CallLongMethodV''), (54, ''CallLongMethodA''), (55, ''CallFloatMethod''),
     (56, ''CallFloatMethodV''), (57, ''g_ret0f''), (58, ''g_ret0d''), (59, ''g_ret0d''), (60, ''g_ret0d''),
     (61, ''CallVoidMethod''), (62, ''CallVoidMethodV''), (63, ''CallVoidMethodA''), (64, ''g_ret0''),
     (65, ''g_ret0''), (66, ''g_ret0''), (67, ''g_ret0''), (68, ''g_ret0''), (69, ''g_ret0''), (70, ''g_ret0''),
     (71, ''g_ret0''), (72, ''g_ret0''), (73, ''g_ret0''), (74, ''g_ret0''), (75, ''g_ret0''), (76, ''g_ret0''),
     (77, ''g_ret0''), (78, ''g_ret0''), (79, ''g_ret0''), (80, ''g_ret0''), (81, ''g_ret0''), (82, ''g_ret0''),
     (83, ''g_ret0''), (84, ''g_ret0''), (85, ''g_ret0''), (86, ''g_ret0''), (87, ''g_ret0''), (88, ''g_ret0''),
     (89, ''g_ret0''), (90, ''g_ret0''), (91, ''g_ret0''), (92, ''g_ret0''), (93, ''g_ret0''),
     (114, ''CallObjectMethod''), (115, ''CallObjectMethodV''), (116, ''CallObjectMethodA''),
     (117, ''CallBooleanMethod''), (118, ''CallBooleanMethodV''), (119, ''CallBooleanMethodA''),
     (120, ''CallIntMethod''), (121, ''CallIntMethodV''), (122, ''CallIntMethodA''), (123, ''CallIntMethod''),
     (124, ''CallIntMethodV''), (125, ''CallIntMethodA''), (126, ''CallIntMethod''), (127, ''CallIntMethodV''),
     (128, ''CallIntMethodA''), (129, ''CallIntMethod''), (130, ''CallIntMethodV''), (131, ''CallIntMethodA''),
     (132, ''CallLongMethod''), (133, ''CallLongMethodV''), (134, ''CallLongMethodA''), (135, ''CallFloatMethod''),
     (136, ''CallFloatMethodV''), (137, ''g_ret0f''), (138, ''g_ret0d''), (139, ''g_ret0d'')]"

definition slot_rows_b :: "(nat \<times> string) list" where
  "slot_rows_b =
    [(140, ''g_ret0d''), (141, ''CallVoidMethod''), (142, ''CallVoidMethodV''), (143, ''CallVoidMethodA''),
     (94, ''GetFieldID''), (144, ''GetStaticFieldID''), (95, ''g_ret0''), (96, ''g_ret0''), (97, ''g_ret0''),
     (98, ''g_ret0''), (99, ''g_ret0''), (100, ''g_ret0''), (101, ''g_ret0l''), (102, ''g_ret0f''),
     (103, ''g_ret0d''), (145, ''g_ret0''), (146, ''g_ret0''), (147, ''g_ret0''), (148, ''g_ret0''),
     (149, ''g_ret0''), (150, ''g_ret0''), (151, ''g_ret0l''), (152, ''g_ret0f''), (153, ''g_ret0d''),
     (104, ''g_void''), (105, ''g_void''), (106, ''g_void''), (107, ''g_void''), (108, ''g_void''),
     (109, ''g_void''), (110, ''g_void''), (111, ''g_void''), (112, ''g_void''), (154, ''g_void''),
     (155, ''g_void''), (156, ''g_void''), (157, ''g_void''), (158, ''g_void''), (159, ''g_void''),
     (160, ''g_void''), (161, ''g_void''), (162, ''g_void''), (163, ''NewString''), (164, ''GetStringLength''),
     (165, ''GetStringChars''), (166, ''ReleaseStringChars''), (167, ''NewStringUTF''),
     (168, ''GetStringUTFLength''), (169, ''GetStringUTFChars''), (170, ''ReleaseStringUTFChars''),
     (171, ''GetArrayLength''), (172, ''NewObjectArray''), (173, ''GetObjectArrayElement''),
     (174, ''SetObjectArrayElement''), (175, ''NewBooleanArray''), (176, ''NewByteArray''),
     (177, ''NewCharArray''), (178, ''NewShortArray''), (179, ''NewIntArray''), (180, ''NewLongArray''),
     (181, ''NewFloatArray''), (182, ''NewDoubleArray''), (183, ''g_elems''), (191, ''g_release''),
     (199, ''g_getregion1''), (207, ''g_setregion1''), (184, ''g_elems''), (192, ''g_release''),
     (200, ''g_getregion1''), (208, ''g_setregion1''), (185, ''g_elems''), (193, ''g_release''),
     (201, ''g_getregion2''), (209, ''g_setregion2''), (186, ''g_elems''), (194, ''g_release''),
     (202, ''g_getregion2''), (210, ''g_setregion2''), (187, ''g_elems''), (195, ''g_release''),
     (203, ''g_getregion4''), (211, ''g_setregion4''), (188, ''g_elems''), (196, ''g_release''),
     (204, ''g_getregion8''), (212, ''g_setregion8''), (189, ''g_elems''), (197, ''g_release''),
     (205, ''g_getregion4''), (213, ''g_setregion4''), (190, ''g_elems''), (198, ''g_release''),
     (206, ''g_getregion8''), (214, ''g_setregion8''), (215, ''RegisterNatives''), (216, ''g_ret0''),
     (217, ''g_ret0''), (218, ''g_ret0''), (219, ''GetJavaVM''), (220, ''g_void''), (221, ''GetStringUTFRegion''),
     (222, ''GetPrimitiveArrayCritical''), (223, ''ReleasePrimitiveArrayCritical''), (224, ''GetStringChars''),
     (225, ''ReleaseStringChars''), (226, ''g_self''), (227, ''g_void''), (228, ''ExceptionCheck''),
     (229, ''g_ret0''), (230, ''g_ret0''), (231, ''g_ret0''), (232, ''g_ret1'')]"

definition slot_rows :: "(nat \<times> string) list" where
  "slot_rows = slot_rows_a @ slot_rows_b"

text \<open>\<open>env_table\<close> and \<open>vm_table\<close> as \<open>jni_init\<close> leaves them; a slot is an index of the C array.\<close>

definition set_slot :: "nat \<times> string \<Rightarrow> (nat \<Rightarrow> string) \<Rightarrow> nat \<Rightarrow> string" where
  "set_slot r t = t(fst r := snd r)"

definition trap_table :: "nat \<Rightarrow> string" where
  "trap_table i = (if i < 233 then ''jni_trap'' else [])"

definition env_table :: "nat \<Rightarrow> string" where
  "env_table = fold set_slot slot_rows trap_table"

definition vm_rows :: "(nat \<times> string) list" where
  "vm_rows = [(4, ''JavaVM_AttachCurrentThread''), (5, ''JavaVM_DetachCurrentThread''), (6, ''JavaVM_GetEnv''),
     (7, ''JavaVM_AttachCurrentThread'')]"

definition vm_table :: "nat \<Rightarrow> string" where
  "vm_table = fold set_slot vm_rows (\<lambda>_. [])"

section \<open>Functions with a fixed answer\<close>

text \<open>A number, or the argument of that index behind the environment.\<close>

datatype env_result = Result nat | Argument nat

definition env_results_a :: "(string \<times> env_result) list" where
  "env_results_a =
    [(''NewGlobalRef'', Argument 1), (''PushLocalFrame'', Result 0), (''PopLocalFrame'', Argument 1),
     (''GetObjectClass'', Result 1), (''GetStaticFieldID'', Result 1), (''GetFieldID'', Result 1),
     (''GetStaticIntField'', Result 0), (''GetIntField'', Result 0), (''GetStaticObjectField'', Result 0),
     (''GetObjectField'', Result 0), (''RegisterNatives'', Result 0), (''GetJavaVM'', Result 0),
     (''GetVersion'', Result 0x10006), (''NewObject'', Result 1)]"

definition env_results_b :: "(string \<times> env_result) list" where
  "env_results_b =
    [(''g_ret0'', Result 0), (''g_self'', Argument 1), (''g_ret1'', Result 1), (''g_ret0l'', Result 0),
     (''g_ret0f'', Result 0), (''g_ret0d'', Result 0)]"

definition env_results_c :: "(string \<times> env_result) list" where
  "env_results_c =
    [(''NewObjectV'', Result 1), (''NewObjectA'', Result 1)]"

definition env_results_d :: "(string \<times> env_result) list" where
  "env_results_d =
    [(''Throw'', Result 0), (''ThrowNew'', Result 0), (''IsInstanceOf'', Result 1), (''IsAssignableFrom'', Result 1)]"

definition env_result_of :: "string \<Rightarrow> env_result option" where
  "env_result_of = map_of (env_results_a @ env_results_b @ env_results_c @ env_results_d)"

section \<open>Return types\<close>

text \<open>
  How a value comes back under the soft-float ABI the loader is built for: in \<open>r0\<close> (\<open>In_r0\<close>: references,
  integers, booleans, floats), in \<open>r0\<close> and \<open>r1\<close> (\<open>In_r0_r1\<close>: long and double), or not at all.
\<close>

datatype returns = In_r0 | In_r0_r1 | No_value

definition c_returns :: "string \<Rightarrow> returns" where
  "c_returns f =
     (if f \<in> set [''CallLongMethod'', ''CallLongMethodV'', ''CallLongMethodA'', ''g_ret0l'', ''g_ret0d''] then In_r0_r1
      else if f \<in> set
        [''ExceptionDescribe'', ''ExceptionClear'', ''FatalError'', ''DeleteGlobalRef'', ''DeleteLocalRef'',
         ''CallVoidMethod'', ''CallVoidMethodV'', ''CallVoidMethodA'', ''ReleaseStringChars'',
         ''ReleaseStringUTFChars'', ''SetObjectArrayElement'', ''g_release'', ''g_getregion1'', ''g_setregion1'',
         ''g_getregion2'', ''g_setregion2'', ''g_getregion4'', ''g_setregion4'', ''g_getregion8'',
         ''g_setregion8'', ''GetStringUTFRegion'', ''ReleasePrimitiveArrayCritical'', ''g_void''] then No_value
      else In_r0)"

text \<open>
  The slots' return types in the Java Native Interface: the three variants of the ten \<open>Call<Type>Method\<close>
  families (virtual from 34, non-virtual from 64, static from 114), the field accessors (from 95 and 145)
  and the functions that return nothing.
\<close>

definition jni_returns :: "nat \<Rightarrow> returns" where
  "jni_returns n =
     (if n \<in> set [52, 53, 54, 58, 59, 60, 82, 83, 84, 88, 89, 90, 132, 133, 134, 138, 139, 140, 101, 103, 151, 153, 231]
      then In_r0_r1
      else if n \<in> set [16, 17, 18, 22, 23, 61, 62, 63, 91, 92, 93, 141, 142, 143, 166, 170, 174, 220, 221, 223, 225, 227] \<or>
        104 \<le> n \<and> n \<le> 112 \<or> 154 \<le> n \<and> n \<le> 162 \<or> 191 \<le> n \<and> n \<le> 214 then No_value
      else In_r0)"

text \<open>A caller that reads \<open>r0\<close> is served by both kinds of result; one that reads nothing by any function.\<close>

fun serves :: "returns \<Rightarrow> returns \<Rightarrow> bool" where
  "serves In_r0_r1 r = (r = In_r0_r1)"
| "serves In_r0 r = (r \<noteq> No_value)"
| "serves No_value r = True"

text \<open>The non-virtual calls of long and double methods, and \<open>GetDirectBufferCapacity\<close>.\<close>

definition half_served :: "nat list" where
  "half_served = [82, 83, 84, 88, 89, 90, 231]"

definition unset_slots :: "nat list" where
  "unset_slots = [0, 1, 2, 3, 5, 7, 8, 9, 12]"

section \<open>The table\<close>

lemma fold_set_slot:
  "distinct (map fst rows) \<Longrightarrow>
   fold set_slot rows t n = (case map_of rows n of Some f \<Rightarrow> f | None \<Rightarrow> t n)"
proof (induction rows arbitrary: t)
  case Nil
  then show ?case by simp
next
  case (Cons r rows)
  have "map_of rows (fst r) = None" using Cons.prems by (simp add: map_of_eq_None_iff)
  then show ?case using Cons by (cases r) (auto simp: set_slot_def split: option.splits)
qed

lemma slots_list: "map fst slot_rows = map fst slot_rows_a @ map fst slot_rows_b"
  by (simp add: slot_rows_def)

lemma slots_a_distinct: "distinct (map fst slot_rows_a)"
  unfolding slot_rows_a_def by simp

lemma slots_b_distinct: "distinct (map fst slot_rows_b)"
  unfolding slot_rows_b_def by simp

lemma slots_disjoint: "list_all (\<lambda>n. n \<notin> set (map fst slot_rows_a)) (map fst slot_rows_b)"
  unfolding slot_rows_a_def slot_rows_b_def by simp

lemma slots_distinct: "distinct (map fst slot_rows)"
  unfolding slots_list distinct_append using slots_a_distinct slots_b_distinct slots_disjoint
  unfolding list_all_iff by blast

lemma env_row: "(n, f) \<in> set slot_rows \<Longrightarrow> env_table n = f"
  by (simp add: env_table_def fold_set_slot [OF slots_distinct] map_of_is_SomeI [OF slots_distinct])

definition slot_ok :: "nat \<times> string \<Rightarrow> bool" where
  "slot_ok r \<longleftrightarrow> fst r < 233 \<and> fst r \<notin> set unset_slots \<and> snd r \<noteq> ''jni_trap'' \<and>
     (fst r \<in> set half_served \<or> serves (jni_returns (fst r)) (c_returns (snd r)))"

lemmas slot_simps = slot_ok_def unset_slots_def half_served_def jni_returns_def c_returns_def

lemma slots_a_ok: "list_all slot_ok slot_rows_a"
  unfolding slot_rows_a_def by (simp add: slot_simps)

lemma slots_b_ok: "list_all slot_ok slot_rows_b"
  unfolding slot_rows_b_def by (simp add: slot_simps)

lemma slots_ok: "r \<in> set slot_rows \<Longrightarrow> slot_ok r"
  using slots_a_ok slots_b_ok by (auto simp: slot_rows_def list_all_iff)

lemma slots_number: "length slot_rows = 224"
  by (simp add: slot_rows_def slot_rows_a_def slot_rows_b_def)

lemma slots_filled: "set (map fst slot_rows) = {..<233} - set unset_slots"
proof (rule card_subset_eq)
  show "set (map fst slot_rows) \<subseteq> {..<233} - set unset_slots"
    using slots_ok by (auto simp: slot_ok_def)
  have "set unset_slots \<subseteq> {..<233}" "card (set unset_slots) = 9" by (simp_all add: unset_slots_def)
  then have "card ({..<233} - set unset_slots) = 224" by (simp add: card_Diff_subset)
  then show "card (set (map fst slot_rows)) = card ({..<233} - set unset_slots)"
    using distinct_card [OF slots_distinct] slots_number by simp
qed simp

text \<open>
  C34: After \<open>jni_init\<close> every slot of the 233 but nine holds a function that is not the trap, the nine hold the trap,
  and every slot's function returns its result where the caller of that slot looks for it, with seven
  exceptions: the non-virtual calls of long and double methods and \<open>GetDirectBufferCapacity\<close>, whose
  stand-in \<open>g_ret0\<close> sets only half of the result.
\<close>
theorem env_table_typed:
  assumes "n < 233"
  shows "(env_table n = ''jni_trap'' \<longleftrightarrow> n \<in> set unset_slots) \<and>
    (n \<notin> set unset_slots \<longrightarrow> n \<notin> set half_served \<longrightarrow> serves (jni_returns n) (c_returns (env_table n))) \<and>
    (n \<in> set half_served \<longrightarrow> env_table n = ''g_ret0'' \<and> jni_returns n = In_r0_r1)"
proof (cases "n \<in> set unset_slots")
  case True
  then have "map_of slot_rows n = None" using slots_filled by (auto simp: map_of_eq_None_iff)
  moreover have "n \<notin> set half_served" using True by (auto simp: unset_slots_def half_served_def)
  ultimately show ?thesis
    using True assms by (simp add: env_table_def fold_set_slot [OF slots_distinct] trap_table_def)
next
  case False
  then have "n \<in> set (map fst slot_rows)" using slots_filled assms by auto
  then obtain f where f: "(n, f) \<in> set slot_rows" by auto
  then have e: "env_table n = f" by (rule env_row)
  have "f = ''g_ret0''" if "n \<in> set half_served"
  proof -
    have "list_all (\<lambda>k. (k, ''g_ret0'') \<in> set slot_rows) half_served"
      by (simp add: slot_rows_def slot_rows_a_def slot_rows_b_def half_served_def)
    then have "(n, ''g_ret0'') \<in> set slot_rows" using that by (auto simp: list_all_iff)
    then show ?thesis using e by (simp add: env_row)
  qed
  moreover have "jni_returns n = In_r0_r1" if "n \<in> set half_served"
    using that by (auto simp: half_served_def jni_returns_def)
  ultimately show ?thesis using slots_ok [OF f] False e unfolding slot_ok_def by auto
qed

theorem env_table_typed_witness:
  "env_table 52 = ''CallLongMethod'' \<and> serves (jni_returns 52) (c_returns (env_table 52))"
proof -
  have "(52, ''CallLongMethod'') \<in> set slot_rows" by (simp add: slot_rows_def slot_rows_a_def)
  then show ?thesis using env_table_typed [of 52] env_row by (simp add: unset_slots_def half_served_def)
qed

section \<open>Typed arrays\<close>

text \<open>The element sizes of the eight primitive types, from \<open>boolean\<close> to \<open>double\<close>, in the order of the slots.\<close>

definition jni_sizes :: "nat list" where
  "jni_sizes = [1, 1, 2, 2, 4, 8, 4, 8]"

definition getter_size :: "string \<Rightarrow> nat" where
  "getter_size f = (if f = ''g_getregion1'' \<or> f = ''g_setregion1'' then 1
     else if f = ''g_getregion2'' \<or> f = ''g_setregion2'' then 2
     else if f = ''g_getregion4'' \<or> f = ''g_setregion4'' then 4
     else if f = ''g_getregion8'' \<or> f = ''g_setregion8'' then 8 else 0)"

definition array_makers :: "string list" where
  "array_makers = [''NewBooleanArray'', ''NewByteArray'', ''NewCharArray'', ''NewShortArray'', ''NewIntArray'',
     ''NewLongArray'', ''NewFloatArray'', ''NewDoubleArray'']"

definition array_rows :: "(nat \<times> string) list" where
  "array_rows = zip [175, 176, 177, 178, 179, 180, 181, 182] array_makers @
     zip [199, 200, 201, 202, 203, 204, 205, 206] [''g_getregion1'', ''g_getregion1'', ''g_getregion2'', ''g_getregion2'',
       ''g_getregion4'', ''g_getregion8'', ''g_getregion4'', ''g_getregion8''] @
     zip [207, 208, 209, 210, 211, 212, 213, 214] [''g_setregion1'', ''g_setregion1'', ''g_setregion2'', ''g_setregion2'',
       ''g_setregion4'', ''g_setregion8'', ''g_setregion4'', ''g_setregion8'']"

lemma array_rows_in: "list_all (\<lambda>r. r \<in> set slot_rows_b) array_rows"
  unfolding array_rows_def array_makers_def slot_rows_b_def by simp

lemma array_row: "(n, f) \<in> set array_rows \<Longrightarrow> env_table n = f"
  using array_rows_in env_row by (auto simp: list_all_iff slot_rows_def)

lemmas array_row_at = array_row [unfolded array_rows_def array_makers_def, simplified]

text \<open>
  For each primitive type the slot that makes an array, the one that reads a region and the one that writes
  a region hold functions of the same element size, the one of that type.
\<close>
theorem array_slots_agree:
  "map (\<lambda>k. env_table (175 + k)) [0, 1, 2, 3, 4, 5, 6, 7] = array_makers \<and>
   map (\<lambda>k. getter_size (env_table (199 + k))) [0, 1, 2, 3, 4, 5, 6, 7] = jni_sizes \<and>
   map (\<lambda>k. getter_size (env_table (207 + k))) [0, 1, 2, 3, 4, 5, 6, 7] = jni_sizes"
  by (simp add: array_row_at array_makers_def jni_sizes_def getter_size_def)

end
