(* ===== verification/Jni_Objects.thy ===== *)
theory Jni_Objects
  imports Machine
begin

text \<open>
  The Java objects the fake JNI environment (\<open>jni_patch.c\<close>) hands to the game: arrays, laid out as a length
  word followed by the data, references, and the values the EGL queries put into arrays.  Strings are
  the subject of \<open>Jni_Strings\<close>.  \<open>calloc\<close> is a parameter with its state; writing through a \<open>NULL\<close> it returned is \<open>None\<close>.
\<close>

type_synonym 'e calloc_fun = "u32 \<Rightarrow> u32 \<Rightarrow> 'e \<Rightarrow> u32 \<times> 'e"

record 'e java_heap =
  jmem :: memory
  jext :: 'e
  jni_n_str :: u32
  jni_n_arr :: u32
  jni_b_arr :: u32
  jni_n_del :: u32

section \<open>Arrays\<close>

text \<open>\<open>int *a = calloc(c, z); a[0] = n;\<close> with the counters of the status log.\<close>

definition new_block :: "'e calloc_fun \<Rightarrow> u32 \<Rightarrow> u32 \<Rightarrow> u32 \<Rightarrow> u32 \<Rightarrow> 'e java_heap \<Rightarrow> (u32 \<times> 'e java_heap) option" where
  "new_block calloc c z n nbytes s =
     (let s = s\<lparr>jni_n_arr := jni_n_arr s + 1, jni_b_arr := jni_b_arr s + nbytes\<rparr>; (a, e) = calloc c z (jext s)
      in if a = 0 then None
         else Some (a, s\<lparr>jmem := write_bytes (write_bytes (jmem s) a (replicate (unat c * unat z) 0)) a (le32 n), jext := e\<rparr>))"

definition NewIntArray :: "'e calloc_fun \<Rightarrow> u32 \<Rightarrow> 'e java_heap \<Rightarrow> (u32 \<times> 'e java_heap) option" where
  "NewIntArray calloc n = new_block calloc (n + 1) 4 n (n * 4)"

definition NewByteArray :: "'e calloc_fun \<Rightarrow> u32 \<Rightarrow> 'e java_heap \<Rightarrow> (u32 \<times> 'e java_heap) option" where
  "NewByteArray calloc n = new_block calloc 1 (n + 4) n n"

definition g_newarr :: "'e calloc_fun \<Rightarrow> u32 \<Rightarrow> u32 \<Rightarrow> 'e java_heap \<Rightarrow> (u32 \<times> 'e java_heap) option" where
  "g_newarr calloc n esz = new_block calloc 1 (4 + n * esz) n (n * esz)"

definition NewBooleanArray where "NewBooleanArray calloc n = g_newarr calloc n 1"
definition NewCharArray where "NewCharArray calloc n = g_newarr calloc n 2"
definition NewShortArray where "NewShortArray calloc n = g_newarr calloc n 2"
definition NewLongArray where "NewLongArray calloc n = g_newarr calloc n 8"
definition NewFloatArray where "NewFloatArray calloc n = g_newarr calloc n 4"
definition NewDoubleArray where "NewDoubleArray calloc n = g_newarr calloc n 8"

text \<open>The initial element is ignored.\<close>

definition NewObjectArray :: "'e calloc_fun \<Rightarrow> u32 \<Rightarrow> u32 \<Rightarrow> u32 \<Rightarrow> 'e java_heap \<Rightarrow> (u32 \<times> 'e java_heap) option" where
  "NewObjectArray calloc n c i = NewIntArray calloc n"

definition GetArrayLength :: "memory \<Rightarrow> u32 \<Rightarrow> u32" where
  "GetArrayLength m a = (if a = 0 then 0 else load32 m a)"

text \<open>
  \<open>Get<Type>ArrayElements\<close> gives out the data itself, and says so in \<open>isCopy\<close> when the caller asks; the data
  needs no release.  \<open>GetPrimitiveArrayCritical\<close> and the unused variants for int and byte arrays leave \<open>isCopy\<close> as it is.
\<close>

definition store_flag :: "u32 \<Rightarrow> u32 \<Rightarrow> memory \<Rightarrow> memory" where
  "store_flag p v m = (if p \<noteq> 0 then write_bytes m p (le32 v) else m)"

definition g_elems :: "u32 \<Rightarrow> u32 \<Rightarrow> memory \<Rightarrow> u32 \<times> memory" where
  "g_elems a isCopy m = (a + 4, store_flag isCopy 0 m)"

definition GetPrimitiveArrayCritical :: "u32 \<Rightarrow> u32 \<Rightarrow> memory \<Rightarrow> u32 \<times> memory" where
  "GetPrimitiveArrayCritical a c m = (a + 4, m)"

definition GetIntArrayElements :: "u32 \<Rightarrow> u32 \<Rightarrow> memory \<Rightarrow> u32 \<times> memory" where
  "GetIntArrayElements a c m = (a + 4, m)"

definition GetByteArrayElements :: "u32 \<Rightarrow> u32 \<Rightarrow> memory \<Rightarrow> u32 \<times> memory" where
  "GetByteArrayElements a c m = (a + 4, m)"

definition g_release :: "u32 \<Rightarrow> u32 \<Rightarrow> memory \<Rightarrow> memory" where
  "g_release a e m = m"

definition g_getregion :: "u32 \<Rightarrow> u32 \<Rightarrow> u32 \<Rightarrow> u32 \<Rightarrow> u32 \<Rightarrow> memory \<Rightarrow> memory" where
  "g_getregion esz a start len buf m = write_bytes m buf (read_bytes m (a + 4 + start * esz) (unat (len * esz)))"

definition g_setregion :: "u32 \<Rightarrow> u32 \<Rightarrow> u32 \<Rightarrow> u32 \<Rightarrow> u32 \<Rightarrow> memory \<Rightarrow> memory" where
  "g_setregion esz a start len buf m = write_bytes m (a + 4 + start * esz) (read_bytes m buf (unat (len * esz)))"

definition GetByteArrayRegion :: "u32 \<Rightarrow> u32 \<Rightarrow> u32 \<Rightarrow> u32 \<Rightarrow> memory \<Rightarrow> memory" where
  "GetByteArrayRegion a s l b m = write_bytes m b (read_bytes m (a + 4 + s) (unat l))"

definition SetByteArrayRegion :: "u32 \<Rightarrow> u32 \<Rightarrow> u32 \<Rightarrow> u32 \<Rightarrow> memory \<Rightarrow> memory" where
  "SetByteArrayRegion a s l b m = write_bytes m (a + 4 + s) (read_bytes m b (unat l))"

text \<open>The byte variants are instances of the generic ones that the environment uses.\<close>

lemma byte_regions:
  "GetByteArrayRegion a s l b m = g_getregion 1 a s l b m" "SetByteArrayRegion a s l b m = g_setregion 1 a s l b m"
  by (simp_all add: GetByteArrayRegion_def SetByteArrayRegion_def g_getregion_def g_setregion_def)

definition SetObjectArrayElement :: "u32 \<Rightarrow> u32 \<Rightarrow> u32 \<Rightarrow> memory \<Rightarrow> memory" where
  "SetObjectArrayElement a i v m = write_bytes m (a + 4 * (1 + i)) (le32 v)"

definition GetObjectArrayElement :: "memory \<Rightarrow> u32 \<Rightarrow> u32 \<Rightarrow> u32" where
  "GetObjectArrayElement m a i = load32 m (a + 4 * (1 + i))"

section \<open>EGL queries\<close>

text \<open>\<open>if (arr && arr[0] > 0) arr[1] = v;\<close>\<close>

definition put_first :: "u32 \<Rightarrow> u32 \<Rightarrow> memory \<Rightarrow> memory" where
  "put_first arr v m = (if arr \<noteq> 0 \<and> 0 < sint (load32 m arr) then write_bytes m (arr + 4) (le32 v) else m)"

text \<open>\<open>if (configs && configs[0] > 0)\<close>: the length of an object array is compared as an unsigned number.\<close>

definition put_first_u :: "u32 \<Rightarrow> u32 \<Rightarrow> memory \<Rightarrow> memory" where
  "put_first_u arr v m = (if arr \<noteq> 0 \<and> 0 < load32 m arr then write_bytes m (arr + 4) (le32 v) else m)"

definition SCREEN_W :: u32 where "SCREEN_W = 960"
definition SCREEN_H :: u32 where "SCREEN_H = 544"
definition EGL_WIDTH :: u32 where "EGL_WIDTH = 0x3057"
definition EGL_HEIGHT :: u32 where "EGL_HEIGHT = 0x3056"

definition egl_query_surface :: "u32 \<Rightarrow> u32 \<Rightarrow> memory \<Rightarrow> u32 \<times> memory" where
  "egl_query_surface attrib arr m =
     (1, put_first arr (if attrib = EGL_WIDTH then SCREEN_W else if attrib = EGL_HEIGHT then SCREEN_H else 0) m)"

definition egl_query_context :: "u32 \<Rightarrow> u32 \<Rightarrow> memory \<Rightarrow> u32 \<times> memory" where
  "egl_query_context attrib arr m = (1, put_first arr (if attrib = 0x3098 then 2 else 0) m)"

definition egl_choose_config :: "u32 \<Rightarrow> u32 \<Rightarrow> memory \<Rightarrow> u32 \<times> memory" where
  "egl_choose_config configs num m = (1, put_first num 1 (put_first_u configs 1 m))"

definition config_attrib :: "u32 \<Rightarrow> u32" where
  "config_attrib attrib =
     (if attrib \<in> {0x3024, 0x3023, 0x3022, 0x3021} then 8
      else if attrib = 0x3025 then 24
      else if attrib = 0x3026 then 8
      else if attrib = 0x3040 then 4
      else if attrib = 0x3033 then 4
      else 0)"

definition egl_get_config_attrib :: "u32 \<Rightarrow> u32 \<Rightarrow> memory \<Rightarrow> u32 \<times> memory" where
  "egl_get_config_attrib attrib arr m = (1, put_first arr (config_attrib attrib) m)"

section \<open>References\<close>

text \<open>A reference is the object's address; none is ever counted, and deleting one only counts the call.\<close>

definition NewGlobalRef :: "u32 \<Rightarrow> u32" where "NewGlobalRef obj = obj"
definition DeleteGlobalRef :: "u32 \<Rightarrow> 'e java_heap \<Rightarrow> 'e java_heap" where "DeleteGlobalRef obj s = s"

definition DeleteLocalRef :: "u32 \<Rightarrow> 'e java_heap \<Rightarrow> 'e java_heap" where
  "DeleteLocalRef obj s = s\<lparr>jni_n_del := jni_n_del s + 1\<rparr>"

definition IsSameObject :: "u32 \<Rightarrow> u32 \<Rightarrow> u32" where
  "IsSameObject a b = (if a = b then 1 else 0)"

text \<open>
  The virtual machine: \<open>GetJavaVM\<close> stores the address of the fake machine, and the machine's functions store that
  of the one environment every thread uses.
\<close>

definition GetJavaVM :: "u32 \<Rightarrow> u32 \<Rightarrow> memory \<Rightarrow> u32 \<times> memory" where
  "GetJavaVM fake_vm vm m = (0, write_bytes m vm (le32 fake_vm))"

definition JavaVM_GetEnv :: "u32 \<Rightarrow> u32 \<Rightarrow> u32 \<Rightarrow> memory \<Rightarrow> u32 \<times> memory" where
  "JavaVM_GetEnv fake_env env ver m = (0, write_bytes m env (le32 fake_env))"

definition JavaVM_AttachCurrentThread :: "u32 \<Rightarrow> u32 \<Rightarrow> u32 \<Rightarrow> memory \<Rightarrow> u32 \<times> memory" where
  "JavaVM_AttachCurrentThread fake_env env args m = (0, write_bytes m env (le32 fake_env))"

definition JavaVM_DetachCurrentThread :: "memory \<Rightarrow> u32 \<times> memory" where
  "JavaVM_DetachCurrentThread m = (0, m)"

lemma env_stored:
  "load32 (snd (JavaVM_GetEnv fake_env env ver m)) env = fake_env"
  "load32 (snd (JavaVM_AttachCurrentThread fake_env env args m)) env = fake_env"
  using flat.load32_written [of 0 "[fake_env]" m env]
  by (simp_all add: JavaVM_GetEnv_def JavaVM_AttachCurrentThread_def)

section \<open>The copy flag\<close>

text \<open>
  The Java Native Interface declares the flag as a \<open>jboolean\<close>, one byte; the environment stores an \<open>int\<close>, so
  the three bytes behind the caller's flag are overwritten too.
\<close>

lemma copy_flag_overrun:
  assumes "p \<noteq> 0" "k < 4"
  shows "snd (g_elems a p m) (p + of_nat k) = 0"
proof -
  have "unat (p + of_nat k - p) = k" using assms(2) by (simp add: unat_of_nat)
  moreover have "le32 0 ! k = 0" using assms(2) by (auto simp: le32_def numeral_nat less_Suc_eq)
  ultimately show ?thesis using assms by (simp add: g_elems_def store_flag_def write_bytes_apply)
qed

section \<open>Arrays read back what was put in\<close>

lemma offset_add:
  fixes x a :: u32
  assumes "unat (x - (a + of_nat k)) + k < 2 ^ 32"
  shows "unat (x - a) = unat (x - (a + of_nat k)) + k"
proof -
  have "unat ((a + of_nat k) + (x - (a + of_nat k)) - a) = unat (x - (a + of_nat k)) + k"
    using assms unat_le_add_offset [of "x - (a + of_nat k)" 0 k] by (simp add: algebra_simps)
  then show ?thesis by simp
qed

lemma offset4:
  fixes x a :: u32
  shows "unat (x - (a + 4)) < n \<Longrightarrow> n \<le> 2 ^ 32 - 4 \<Longrightarrow> unat (x - a) = unat (x - (a + 4)) + 4"
  using offset_add [of x a 4] by simp

lemma length_positive: "0 < sint (w :: u32) \<Longrightarrow> 1 \<le> unat w"
  by (metis One_nat_def Suc_leI neq0_conv order_less_irrefl signed_0 unat_eq_0)

lemma put_first_frame:
  assumes "put_first arr v m x \<noteq> m x"
  shows "arr \<noteq> 0 \<and> 4 \<le> unat (x - arr) \<and> unat (x - arr) < 4 + 4 * unat (load32 m arr)"
proof -
  have "arr \<noteq> 0" "0 < sint (load32 m arr)" "unat (x - (arr + 4)) < 4"
    using assms by (auto simp: put_first_def write_bytes_apply split: if_splits)
  then show ?thesis using offset4 [of x arr 4] length_positive [of "load32 m arr"] by simp
qed

lemma put_first_u_frame:
  assumes "put_first_u arr v m x \<noteq> m x"
  shows "arr \<noteq> 0 \<and> 4 \<le> unat (x - arr) \<and> unat (x - arr) < 4 + 4 * unat (load32 m arr)"
proof -
  have "arr \<noteq> 0" "0 < unat (load32 m arr)" "unat (x - (arr + 4)) < 4"
    using assms by (auto simp: put_first_u_def write_bytes_apply word_less_nat_alt split: if_splits)
  then show ?thesis using offset4 [of x arr 4] by simp
qed

lemma put_first_value: "arr \<noteq> 0 \<Longrightarrow> 0 < sint (load32 m arr) \<Longrightarrow> load32 (put_first arr v m) (arr + 4) = v"
  using flat.load32_written [of 0 "[v]" m "arr + 4"] by (simp add: put_first_def)

text \<open>The bytes of an array's elements, by its length word.\<close>

definition array_data :: "memory \<Rightarrow> u32 \<Rightarrow> u32 \<Rightarrow> u32 \<Rightarrow> bool" where
  "array_data m arr esz x \<longleftrightarrow> arr \<noteq> 0 \<and> 4 \<le> unat (x - arr) \<and> unat (x - arr) < 4 + unat esz * unat (load32 m arr)"

text \<open>
  The EGL queries answer in Java arrays the game passes.  Whatever it passes, a null reference or an empty
  array included, they change no byte outside the elements of the array; an array with room receives the
  value, the screen's size for a surface query.
\<close>
theorem egl_queries_in_bounds:
  "(snd (egl_query_surface attrib arr m) x \<noteq> m x \<or> snd (egl_query_context attrib arr m) x \<noteq> m x \<or>
      snd (egl_get_config_attrib attrib arr m) x \<noteq> m x \<longrightarrow> array_data m arr 4 x) \<and>
   (arr \<noteq> 0 \<and> 0 < sint (load32 m arr) \<longrightarrow>
      load32 (snd (egl_query_surface EGL_WIDTH arr m)) (arr + 4) = SCREEN_W \<and>
      load32 (snd (egl_query_surface EGL_HEIGHT arr m)) (arr + 4) = SCREEN_H \<and>
      load32 (snd (egl_get_config_attrib attrib arr m)) (arr + 4) = config_attrib attrib)"
  using put_first_frame [of arr _ m x] put_first_value [of arr m]
  by (auto simp: array_data_def egl_query_surface_def egl_query_context_def egl_get_config_attrib_def
      EGL_WIDTH_def EGL_HEIGHT_def)

theorem egl_queries_in_bounds_witness:
  "array_data ((\<lambda>_. 0)(0x1000 := 1)) 0x1000 4 0x1004 \<and>
   load32 (snd (egl_query_surface 0x3057 0x1000 ((\<lambda>_. 0)(0x1000 := 1)))) 0x1004 = 960"
proof -
  have "load32 ((\<lambda>_. 0)(0x1000 := 1)) 0x1000 = 1" by (simp add: load32_def)
  then show ?thesis
    using egl_queries_in_bounds [where attrib = "0x3057" and arr = "0x1000" and m = "(\<lambda>_. 0)(0x1000 := 1)" and x = "0x1004"]
    by (simp add: egl_query_surface_def put_first_def le32_def EGL_WIDTH_def SCREEN_W_def)
qed

text \<open>The elements of an array as bytes.\<close>

definition elements :: "memory \<Rightarrow> u32 \<Rightarrow> u32 \<Rightarrow> u8 list" where
  "elements m a esz = read_bytes m (a + 4) (unat (load32 m a) * unat esz)"

text \<open>An array whose block does not wrap around the address space.\<close>

definition array_fits :: "memory \<Rightarrow> u32 \<Rightarrow> u32 \<Rightarrow> bool" where
  "array_fits m a esz \<longleftrightarrow> 4 + unat (load32 m a) * unat esz < 2 ^ 32"

lemma region_word:
  fixes k esz :: u32
  assumes "unat k \<le> n" "4 + n * unat esz < 2 ^ 32"
  shows "unat (k * esz) = unat k * unat esz" "4 + unat k * unat esz < 2 ^ 32"
proof -
  have "unat k * unat esz \<le> n * unat esz" using assms(1) by (rule mult_le_mono1)
  then show "4 + unat k * unat esz < 2 ^ 32" using assms(2) by linarith
  then show "unat (k * esz) = unat k * unat esz" by (simp add: unat_word_ariths)
qed

text \<open>
  Storing a region into a Java array and reading it back: the array keeps its length, the elements of the
  region become the caller's bytes and the others stay, and reading the region gives those bytes again.
\<close>
theorem array_region_roundtrip:
  assumes fits: "array_fits m a esz" and range: "unat start + unat len \<le> unat (load32 m a)"
    and m1_def: "m1 = g_setregion esz a start len buf m"
  shows "load32 m1 a = load32 m a
    \<and> elements m1 a esz = blit (elements m a esz) (unat start * unat esz) (read_bytes m buf (unat len * unat esz))
    \<and> read_bytes (g_getregion esz a start len buf' m1) buf' (unat len * unat esz) = read_bytes m buf (unat len * unat esz)"
proof -
  let ?n = "unat (load32 m a)" and ?k = "unat start * unat esz" and ?l = "unat len * unat esz"
  have n: "4 + ?n * unat esz < 2 ^ 32" using fits by (simp add: array_fits_def)
  have s: "unat (start * esz) = ?k" "unat (len * esz) = ?l" "4 + ?k < 2 ^ 32"
    using region_word [OF _ n, of start] region_word [OF _ n, of len] range by simp_all
  have kl: "?k + ?l \<le> ?n * unat esz" using mult_le_mono1 [OF range, of "unat esz"] by (simp add: add_mult_distrib)
  have at: "a + 4 + start * esz = (a + 4) + of_nat ?k" by (simp flip: s(1))
  have m1: "m1 = write_bytes m ((a + 4) + of_nat ?k) (read_bytes m buf ?l)"
    unfolding m1_def g_setregion_def at s(2) by simp
  have "a - ((a + 4) + of_nat ?k) = (of_nat 0 :: u32) - of_nat (4 + ?k)" by simp
  then have "unat (a - ((a + 4) + of_nat ?k)) = 2 ^ 32 - (4 + ?k)"
    using unat_of_nat32_diff_less [of 0 "4 + ?k"] s(3) by (simp only:)
  then have len: "load32 m1 a = load32 m a"
    unfolding m1 using kl n by (intro flat.load32_frame) auto
  moreover have "elements m1 a esz = blit (elements m a esz) ?k (read_bytes m buf ?l)"
    unfolding elements_def len unfolding m1 using kl n by (intro read_bytes_write) auto
  moreover have "read_bytes m1 ((a + 4) + of_nat ?k) ?l = read_bytes m buf ?l"
    unfolding m1 using read_write_bytes [of "read_bytes m buf ?l"] kl n by simp
  then have "read_bytes (g_getregion esz a start len buf' m1) buf' ?l = read_bytes m buf ?l"
    unfolding g_getregion_def at s(2) using read_write_bytes [of "read_bytes m buf ?l" m1 buf'] kl n by simp
  ultimately show ?thesis by blast
qed

theorem array_region_roundtrip_witness:
  "read_bytes (g_getregion 2 0x1000 1 1 0x3000 (g_setregion 2 0x1000 1 1 0x2000 ((\<lambda>_. 0)(0x1000 := 3, 0x2000 := 7)))) 0x3000 2
    = [7, 0]"
proof -
  let ?m = "(\<lambda>_. 0)(0x1000 := 3, 0x2000 := 7) :: memory"
  have "load32 ?m 0x1000 = 3" by (simp add: load32_def)
  then show ?thesis
    using array_region_roundtrip [where m = ?m and a = "0x1000" and esz = 2 and start = 1 and len = 1
        and buf = "0x2000" and buf' = "0x3000", OF _ _ refl]
    by (simp add: array_fits_def read_bytes_def upt_rec)
qed

end
