(* ===== verification/Jni_Methods.thy ===== *)
theory Jni_Methods
  imports Jni_Objects
begin

text \<open>
  Method lookup and dispatch of the fake JNI environment (\<open>jni_patch.c\<close>): \<open>FindClass\<close>, \<open>GetMethodID\<close> over the
  table of asset-manager methods, the table of delegate methods and the names it has never heard of, and
  the \<open>Call<Type>Method\<close> families.  A function is represented by its C name.  Running a table function
  (\<open>invoke\<close>) and an asset-manager method (\<open>special\<close>) are parameters here; both return the registers
  \<open>r0\<close>, \<open>r1\<close> as one 64-bit word.
\<close>

section \<open>The tables\<close>

definition M_OPEN :: int where "M_OPEN = 900"
definition M_GETASSETS :: int where "M_GETASSETS = 910"
definition UNKNOWN_BASE :: int where "UNKNOWN_BASE = 1000"

definition special_rows :: "(string \<times> int) list" where
  "special_rows =
    [(''open'', 900), (''openFd'', 901), (''list'', 902), (''read'', 903), (''skip'', 904), (''close'', 905),
     (''getLength'', 906), (''available'', 907), (''reset'', 908), (''mark'', 909), (''getAssets'', 910)]"

definition methods_a :: "(string \<times> string) list" where
  "methods_a =
    [(''eglGetDisplay'', ''ret1''), (''eglInitialize'', ''egl_ok''), (''eglChooseConfig'', ''egl_choose_config''),
     (''eglGetConfigAttrib'', ''egl_get_config_attrib''), (''eglCreateContext'', ''ret1''),
     (''eglCreateWindowSurface'', ''ret1''), (''eglCreatePbufferSurface'', ''ret1''),
     (''eglMakeCurrent'', ''egl_ok''), (''eglSwapBuffers'', ''egl_swap''), (''eglDestroySurface'', ''egl_ok''),
     (''eglDestroyContext'', ''egl_ok''), (''eglTerminate'', ''egl_ok''),
     (''eglQuerySurface'', ''egl_query_surface''), (''eglGetError'', ''ret0''),
     (''eglQueryContext'', ''egl_query_context''), (''eglQueryString'', ''lang''), (''exitApp'', ''retv''),
     (''openURL'', ''retv''), (''GetExternalStorageDirectory'', ''storage_ext''),
     (''GetInternalStorageDirectory'', ''storage_int''), (''GetObbDirectory'', ''storage_obb''),
     (''GetCacheDirectory'', ''storage_int''), (''IsExternalStorageAvailable'', ''ret1''),
     (''GetPrimaryExternalStorageDirectoryRoot'', ''storage_ext''),
     (''GetPrimaryExternalStorageDirectory'', ''storage_ext''), (''GetPrimaryExternalStorageState'', ''ret1''),
     (''play'', ''audio_play''), (''stop'', ''audio_stop''), (''write'', ''audio_write''), (''Startup'', ''retv''),
     (''Shutdown'', ''retv''), (''GetDisplayWidth'', ''screen_w''), (''GetDisplayHeight'', ''screen_h''),
     (''GetDisplayDensity'', ''density''), (''GetApiLevel'', ''api_level_str''),
     (''GetDeviceName'', ''device_name''), (''GetLanguage'', ''lang''), (''GetOrientation'', ''ret0''),
     (''SetOrientation'', ''retv''), (''GetBatteryLevel'', ''ret1''), (''IsPowerConnected'', ''ret1''),
     (''ShowKeyboard'', ''retv''), (''HideKeyboard'', ''retv''), (''Initialize'', ''retv''),
     (''IsInitialized'', ''ret1''), (''RequestTierInfo'', ''retv''), (''RequestPurchase'', ''retv''),
     (''RestorePurchaseItems'', ''retv''), (''AuthenticatePurchase'', ''retv''), (''Play'', ''video_play''),
     (''Stop'', ''retv''), (''IsPlaying'', ''ret0''), (''IsFinished'', ''ret1''), (''HasFinished'', ''ret1''),
     (''GetPosition'', ''ret0''), (''GetDuration'', ''ret1''), (''GetState'', ''ret0''), (''Prepare'', ''ret1''),
     (''Load'', ''ret1''), (''Pause'', ''retv''), (''Resume'', ''retv''), (''Release'', ''retv''),
     (''SetVolume'', ''retv''), (''<init>'', ''ret1''), (''GetAccelerometerCount'', ''ret1''),
     (''GetGyroscopeCount'', ''ret0''), (''GetMicrophoneCount'', ''ret0''), (''GetTouchPadCount'', ''ret0''),
     (''GetTouchScreenCount'', ''ret1''), (''GetTrackBallCount'', ''ret0''), (''GetVibratorCount'', ''ret0''),
     (''GetApplicationVersionCode'', ''app_vercode''), (''GetApplicationVersion'', ''app_ver''),
     (''GetChipset'', ''dev_chipset''), (''GetFirmware'', ''dev_fw''), (''GetManufacturer'', ''dev_maker''),
     (''GetDeviceModel'', ''dev_model''), (''GetDeviceUniqueId'', ''dev_uid''),
     (''GetHardwareFloatingPointSupport'', ''dev_fp''), (''GetPlatformVersion'', ''platform_ver''),
     (''GetProcessorArchitecture'', ''proc_arch''), (''GetLocale'', ''locale_str''),
     (''GetTotalMemory'', ''ret1''), (''GetAvailableMemory'', ''ret1''), (''ApplyKeepAwake'', ''retv''),
     (''AttachView'', ''retv''), (''BringToFront'', ''retv''), (''Cancel'', ''retv''),
     (''CancelAllLocalNotifications'', ''ret1''), (''CancelLocalNotification'', ''ret1''),
     (''DetachView'', ''retv''), (''EnableAAR'', ''retv''), (''Exit'', ''retv'')]"

definition methods_b :: "(string \<times> string) list" where
  "methods_b =
    [(''GenerateUniqueNotificationId'', ''notif_id''), (''GetBatteryLevel'', ''f_battery''),
     (''GetCommandLineArguments'', ''empty_str_array''), (''GetCurrentHeight'', ''cur_height''),
     (''GetDefaultWidth'', ''retv''), (''GetDisplayOrientationLock'', ''ret0''), (''GetDpiX'', ''f_dpi''),
     (''GetDpiY'', ''f_dpi''), (''GetGLView'', ''gl_view''), (''GetPendingNFC'', ''ret0''),
     (''GetStdOrientation'', ''ret0''), (''Init'', ''ret1''), (''IntentView'', ''ret0''),
     (''IsAvailable'', ''ret0''), (''IsNavigationVisible'', ''ret0''), (''IsPowerConnected'', ''ret1''),
     (''IsVisible'', ''ret1''), (''NotifyPendingBackgroundLocalNotifications'', ''ret0''),
     (''NotifyPendingBackgroundPushNotifications'', ''retv''),
     (''NotifyPendingStartupLocalNotifications'', ''ret0''), (''NotifyPendingStartupPushNotifications'', ''retv''),
     (''OnLifeCycleFocusGained'', ''retv''), (''OnPhysicalKeyboardVisibilityChanged'', ''retv''),
     (''RegisterApplicationForNotifications'', ''retv''), (''RegisterUserData'', ''retv''),
     (''ScheduleLocalNotification'', ''ret0''), (''SetEnabled'', ''retv''), (''SetEnterKeyLabel'', ''retv''),
     (''SetLayout'', ''retv''), (''SetMimeType'', ''retv''), (''SetShiftEnabled'', ''retv''),
     (''SetStdOrientation'', ''retv''), (''SetUpdateFrequency'', ''retv''), (''SetViewFrame'', ''retv''),
     (''UnregisterApplicationForNotifications'', ''retv''), (''UserSetVisible'', ''retv''),
     (''VerifyUrlLaunch'', ''retv''), (''Vibrate'', ''retv''), (''IsPhysicalKeyboardVisible'', ''ret0''),
     (''IsTouchScreenMultiTouch'', ''ret1''), (''GetDeviceName'', ''device_name''),
     (''GetDefaultHeight'', ''cur_height''), (''GetCurrentWidth'', ''cur_width''),
     (''GetDefaultWidthI'', ''cur_width''), (''GetEgl'', ''ret1''), (''GetEglNoContext'', ''ret0''),
     (''GetEglNoDisplay'', ''ret0''), (''GetEglNoSurface'', ''ret0''), (''GetSurface'', ''ret1''),
     (''authenticatePurchases'', ''retv''), (''checkWaitingPurchases'', ''retv''),
     (''erasePurchaseState'', ''retv''), (''getPendingId'', ''ret0''), (''requestStoreItems'', ''retv''),
     (''purchaseStoreItem'', ''retv''), (''requestPurchasedItems'', ''retv''),
     (''isItemAlreadyPurchased'', ''ret0''), (''initialize'', ''retv''), (''GetArgumentCount'', ''ret0'')]"

definition methods :: "(string \<times> string) list" where
  "methods = methods_a @ methods_b"

definition NMETHODS :: nat where "NMETHODS = length methods"

section \<open>Classes\<close>

fun strstr :: "string \<Rightarrow> string \<Rightarrow> bool" where
  "strstr [] n = (n = [])"
| "strstr (c # s) n = (take (length n) (c # s) = n \<or> strstr s n)"

datatype java_class = CLASS_GENERIC | CLASS_ACTIVITY | CLASS_EGL | CLASS_ASSETMGR | CLASS_STORAGE | CLASS_VIDEO
  | CLASS_TRUST5 | CLASS_ARGS

definition FindClass :: "string \<Rightarrow> java_class" where
  "FindClass name =
     (if strstr name ''Egl'' \<or> strstr name ''khronos'' then CLASS_EGL
      else if strstr name ''StorageDirectory'' then CLASS_STORAGE
      else if strstr name ''PlayerAndroid'' then CLASS_VIDEO
      else if strstr name ''Trust5'' then CLASS_TRUST5
      else if strstr name ''AssetManager'' \<or> strstr name ''AssetFileDescriptor'' then CLASS_ASSETMGR
      else if strstr name ''EAActivityArguments'' then CLASS_ARGS
      else CLASS_GENERIC)"

section \<open>Method identifiers\<close>

text \<open>
  \<open>unknown_names\<close> has 512 entries; \<open>unknown_count\<close> is not bounded by it.  An entry \<open>None\<close> is a \<open>NULL\<close> that
  \<open>strdup\<close> returned; comparing with it, or with an entry behind the array, is undefined.
\<close>

record unknowns =
  unknown_names :: "string option list"
  unknown_count :: nat

definition no_unknowns :: unknowns where
  "no_unknowns = \<lparr>unknown_names = replicate 512 None, unknown_count = 0\<rparr>"

fun index_of :: "(string \<times> 'a) list \<Rightarrow> string \<Rightarrow> nat option" where
  "index_of [] n = None"
| "index_of ((k, f) # t) n = (if k = n then Some 0 else map_option Suc (index_of t n))"

text \<open>The search over the entries \<open>is\<close>; the outer option is undefined behaviour.\<close>

fun find_unknown :: "string option list \<Rightarrow> string \<Rightarrow> nat list \<Rightarrow> nat option option" where
  "find_unknown names n [] = Some None"
| "find_unknown names n (i # is) =
     (if i < length names
      then case names ! i of None \<Rightarrow> None
        | Some k \<Rightarrow> if k = n then Some (Some i) else find_unknown names n is
      else None)"

definition GetMethodID :: "(string \<Rightarrow> string option) \<Rightarrow> string \<Rightarrow> unknowns \<Rightarrow> (int \<times> unknowns) option" where
  "GetMethodID strdup name u =
     (case map_of special_rows name of Some i \<Rightarrow> Some (i, u)
      | None \<Rightarrow> case index_of methods name of Some i \<Rightarrow> Some (int i + 1, u)
      | None \<Rightarrow> do {
          x \<leftarrow> find_unknown (unknown_names u) name [0..<unknown_count u];
          Some (case x of Some i \<Rightarrow> (UNKNOWN_BASE + int i, u)
                | None \<Rightarrow> (UNKNOWN_BASE + int (unknown_count u),
                    u\<lparr>unknown_names := (if unknown_count u < 512
                         then (unknown_names u)[unknown_count u := strdup name] else unknown_names u),
                      unknown_count := unknown_count u + 1\<rparr>)) })"

definition jni_lookup :: "int \<Rightarrow> string option" where
  "jni_lookup i = (if 1 \<le> i \<and> i \<le> int NMETHODS then Some (snd (methods ! nat (i - 1))) else None)"

section \<open>Calls\<close>

text \<open>The arguments behind the method identifier: 32-bit and 64-bit values of a \<open>va_list\<close>.\<close>

datatype c_arg = W32 u32 | W64 u64

fun arg_words :: "c_arg \<Rightarrow> u32 list" where
  "arg_words (W32 w) = [w]"
| "arg_words (W64 d) = [ucast d, ucast (drop_bit 32 d)]"

text \<open>Six words are read, whatever was passed; \<open>junk\<close> is what lies behind the arguments.\<close>

definition six_words :: "u32 list \<Rightarrow> c_arg list \<Rightarrow> u32 list" where
  "six_words junk args = take 6 (concat (map arg_words args) @ junk)"

datatype special_req =
    Get_assets
  | Open u32
  | List_dir u32
  | Read u32 u32 u32
  | Skip u64
  | Close
  | Get_length
  | Available
  | Reset
  | Mark

text \<open>\<open>special_call\<close>: the arguments by their types; \<open>None\<close> where \<open>va_arg\<close> asks for another type.\<close>

definition special_call :: "int \<Rightarrow> c_arg list \<Rightarrow> special_req option" where
  "special_call mid args =
     (if mid = 910 then Some Get_assets
      else if mid = 900 \<or> mid = 901 then (case args of W32 n # _ \<Rightarrow> Some (Open n) | _ \<Rightarrow> None)
      else if mid = 902 then (case args of W32 n # _ \<Rightarrow> Some (List_dir n) | _ \<Rightarrow> None)
      else if mid = 903 then (case args of W32 a # W32 off # W32 len # _ \<Rightarrow> Some (Read a off len) | _ \<Rightarrow> None)
      else if mid = 904 then (case args of W64 n # _ \<Rightarrow> Some (Skip n) | _ \<Rightarrow> None)
      else if mid = 905 then Some Close
      else if mid = 906 then Some Get_length
      else if mid = 907 then Some Available
      else if mid = 908 then Some Reset
      else Some Mark)"

text \<open>\<open>special_callA\<close>: the words of the caller's array, one 32-bit word per argument.\<close>

definition special_callA :: "int \<Rightarrow> u32 list \<Rightarrow> special_req option" where
  "special_callA mid a =
     (if mid = 910 then Some Get_assets
      else if mid = 900 \<or> mid = 901 then (case a of n # _ \<Rightarrow> Some (Open n) | _ \<Rightarrow> None)
      else if mid = 902 then (case a of n # _ \<Rightarrow> Some (List_dir n) | _ \<Rightarrow> None)
      else if mid = 903 then (case a of r # off # len # _ \<Rightarrow> Some (Read r off len) | _ \<Rightarrow> None)
      else if mid = 904 then (case a of lo # hi # _ \<Rightarrow> Some (Skip (ucast lo OR push_bit 32 (ucast hi))) | _ \<Rightarrow> None)
      else if mid = 905 then Some Close
      else if mid = 906 then Some Get_length
      else if mid = 907 then Some Available
      else if mid = 908 then Some Reset
      else Some Mark)"

record 'w jni_world =
  invoke :: "string \<Rightarrow> u32 \<Rightarrow> u32 list \<Rightarrow> 'w \<Rightarrow> u64 \<times> 'w"
  special :: "special_req \<Rightarrow> u32 \<Rightarrow> 'w \<Rightarrow> u64 \<times> 'w"

text \<open>
  \<open>Call<Type>MethodV\<close>.  The array that limits the log to one line per unknown method has 512 entries, like
  the array of names the line prints.
\<close>

definition callV :: "'w jni_world \<Rightarrow> u32 list \<Rightarrow> unknowns \<Rightarrow> u32 \<Rightarrow> int \<Rightarrow> c_arg list \<Rightarrow> 'w \<Rightarrow> (u64 \<times> 'w) option" where
  "callV J junk u obj mid args w =
     (if M_OPEN \<le> mid \<and> mid \<le> M_GETASSETS then do { q \<leftarrow> special_call mid args; Some (special J q obj w) }
      else case jni_lookup mid of
          Some f \<Rightarrow> Some (invoke J f obj (six_words junk args) w)
        | None \<Rightarrow> if mid < UNKNOWN_BASE \<or> int (unknown_count u) \<le> mid - UNKNOWN_BASE then Some (0, w)
            else if 512 \<le> mid - UNKNOWN_BASE then None else Some (0, w))"

definition callA :: "'w jni_world \<Rightarrow> u32 \<Rightarrow> int \<Rightarrow> u32 list \<Rightarrow> 'w \<Rightarrow> (u64 \<times> 'w) option" where
  "callA J obj mid a w =
     (if M_OPEN \<le> mid \<and> mid \<le> M_GETASSETS then do { q \<leftarrow> special_callA mid a; Some (special J q obj w) }
      else case jni_lookup mid of
          Some f \<Rightarrow> if 6 \<le> length a then Some (invoke J f obj (take 6 a) w) else None
        | None \<Rightarrow> Some (0, w))"

text \<open>\<open>CallFloatMethodV\<close> passes the object alone and does not know the asset-manager methods.\<close>

definition callFloatV :: "'w jni_world \<Rightarrow> u32 \<Rightarrow> int \<Rightarrow> 'w \<Rightarrow> u64 \<times> 'w" where
  "callFloatV J obj mid w =
     (case jni_lookup mid of Some f \<Rightarrow> invoke J f obj [] w | None \<Rightarrow> (0, w))"

definition callVoidV :: "'w jni_world \<Rightarrow> u32 list \<Rightarrow> unknowns \<Rightarrow> u32 \<Rightarrow> int \<Rightarrow> c_arg list \<Rightarrow> 'w \<Rightarrow> 'w option" where
  "callVoidV J junk u obj mid args w =
     (if M_OPEN \<le> mid \<and> mid \<le> M_GETASSETS then do { q \<leftarrow> special_call mid args; Some (snd (special J q obj w)) }
      else case jni_lookup mid of
          Some f \<Rightarrow> Some (snd (invoke J f obj (six_words junk args) w))
        | None \<Rightarrow> if UNKNOWN_BASE \<le> mid \<and> mid - UNKNOWN_BASE < int (unknown_count u) \<and> 512 \<le> mid - UNKNOWN_BASE
            then None else Some w)"

definition callVoidA :: "'w jni_world \<Rightarrow> u32 \<Rightarrow> int \<Rightarrow> u32 list \<Rightarrow> 'w \<Rightarrow> 'w option" where
  "callVoidA J obj mid a w = map_option snd (callA J obj mid a w)"

section \<open>Results of the table functions\<close>

text \<open>A word in \<open>r0\<close> (a number, or the bits of a float) or a C string.\<close>

datatype java_const = Num u32 | Str string

definition helpers_a :: "(string \<times> java_const) list" where
  "helpers_a =
    [(''ret0'', Num 0), (''ret1'', Num 1), (''storage_ext'', Str ''/data/ssx/external''),
     (''storage_int'', Str ''/data/ssx/internal''), (''storage_obb'', Str ''/data/ssx/obb''),
     (''device_name'', Str ''PS Vita''), (''lang'', Str ''en''), (''screen_w'', Num 960), (''screen_h'', Num 544),
     (''api_level_str'', Str ''19''), (''platform_ver'', Str ''4.4.4''), (''proc_arch'', Str ''armeabi-v7a''),
     (''locale_str'', Str ''en_US''), (''density'', Num 0x3F800000), (''egl_ok'', Num 1)]"

definition helpers_b :: "(string \<times> java_const) list" where
  "helpers_b =
    [(''dev_model'', Str ''XT910''), (''dev_maker'', Str ''motorola''), (''dev_chipset'', Str ''OMAP4430''),
     (''dev_fw'', Str ''4.4.4''), (''dev_uid'', Str ''0123456789abcdef''), (''dev_fp'', Str ''neon vfpv3''),
     (''app_ver'', Str ''0.0.7833''), (''app_vercode'', Num 7833)]"

definition helpers_c :: "(string \<times> java_const) list" where
  "helpers_c =
    [(''f_dpi'', Num 0x43800000), (''f_battery'', Num 0x3F800000), (''gl_view'', Num 1), (''cur_height'', Num 544),
     (''cur_width'', Num 960)]"

text \<open>What a call of the method of this name gives the game, where the table's function is one of these.\<close>

definition method_result :: "string \<Rightarrow> java_const option" where
  "method_result name =
     (case GetMethodID Some name no_unknowns of
        Some (i, u) \<Rightarrow> (case jni_lookup i of Some f \<Rightarrow> map_of (helpers_a @ helpers_b @ helpers_c) f | None \<Rightarrow> None)
      | None \<Rightarrow> None)"

section \<open>Every name has one identifier\<close>

definition unknown_name :: "string \<Rightarrow> bool" where
  "unknown_name n \<longleftrightarrow> map_of special_rows n = None \<and> index_of methods n = None"

definition names_seen :: "unknowns \<Rightarrow> string set" where
  "names_seen u = {k. \<exists>i < unknown_count u. unknown_names u ! i = Some k}"

definition unknowns_ok :: "unknowns \<Rightarrow> bool" where
  "unknowns_ok u \<longleftrightarrow> length (unknown_names u) = 512 \<and> unknown_count u \<le> 512 \<and>
     (\<forall>i < unknown_count u. \<exists>k. unknown_names u ! i = Some k \<and> unknown_name k) \<and>
     inj_on (\<lambda>i. unknown_names u ! i) {..<unknown_count u}"

text \<open>The identifier a name has in a state, if it has been asked for.\<close>

definition assigned :: "unknowns \<Rightarrow> string \<Rightarrow> int option" where
  "assigned u n =
     (case map_of special_rows n of Some i \<Rightarrow> Some i
      | None \<Rightarrow> case index_of methods n of Some i \<Rightarrow> Some (int i + 1)
      | None \<Rightarrow> map_option (\<lambda>i. UNKNOWN_BASE + int i) (find (\<lambda>i. unknown_names u ! i = Some n) [0..<unknown_count u]))"

lemma index_of_Some: "index_of t n = Some i \<Longrightarrow> i < length t \<and> fst (t ! i) = n \<and> map_of t n = Some (snd (t ! i))"
  by (induction t n arbitrary: i rule: index_of.induct) (auto split: if_splits)

lemma index_of_None: "index_of t n = None \<longleftrightarrow> map_of t n = None"
  by (induction t n rule: index_of.induct) auto

lemma index_of_inj: "index_of t a = Some i \<Longrightarrow> index_of t b = Some i \<Longrightarrow> a = b"
  by (metis index_of_Some)

lemma find_append: "find P (xs @ ys) = (case find P xs of Some x \<Rightarrow> Some x | None \<Rightarrow> find P ys)"
  by (induction xs) auto

lemma special_range: "map_of special_rows n = Some i \<Longrightarrow> 900 \<le> i \<and> i \<le> 910"
  by (auto simp: special_rows_def split: if_splits)

lemma special_inj: "map_of special_rows a = Some i \<Longrightarrow> map_of special_rows b = Some i \<Longrightarrow> a = b"
  by (auto simp: special_rows_def split: if_splits)

lemma NMETHODS_value: "NMETHODS = 152"
  by (simp add: NMETHODS_def methods_def methods_a_def methods_b_def)

lemma method_range: "index_of methods n = Some i \<Longrightarrow> i < 152"
  using index_of_Some [of methods n i] NMETHODS_value by (simp add: NMETHODS_def)

lemma find_unknown_find:
  "\<forall>i\<in>set is. i < length names \<and> names ! i \<noteq> None \<Longrightarrow>
   find_unknown names n is = Some (find (\<lambda>i. names ! i = Some n) is)"
  by (induction "is") (auto split: option.splits)

lemma find_unknown_ok:
  assumes "unknowns_ok u"
  shows "find_unknown (unknown_names u) n [0..<unknown_count u] =
    Some (find (\<lambda>i. unknown_names u ! i = Some n) [0..<unknown_count u])"
  using assms unfolding unknowns_ok_def by (intro find_unknown_find) auto

lemma find_seen:
  "find (\<lambda>i. unknown_names u ! i = Some n) [0..<unknown_count u] = None \<longleftrightarrow> n \<notin> names_seen u"
  by (auto simp: find_None_iff names_seen_def)

lemma find_upt_Some:
  "find P [0..<c] = Some i \<Longrightarrow> i < c \<and> P i"
  by (auto simp: find_Some_iff)

lemma assigned_cases:
  assumes "assigned u n = Some j"
  obtains (special) "map_of special_rows n = Some j" "900 \<le> j" "j \<le> 910"
  | (row) i where "map_of special_rows n = None" "index_of methods n = Some i" "j = int i + 1" "i < 152"
  | (unknown) i where "unknown_name n" "j = 1000 + int i" "i < unknown_count u" "unknown_names u ! i = Some n"
  using assms special_range [of n] method_range [of n]
  unfolding assigned_def unknown_name_def UNKNOWN_BASE_def
  by (auto split: option.splits dest!: find_upt_Some)

lemma assigned_inj:
  assumes "assigned u a = Some j" "assigned u b = Some j"
  shows "a = b"
  using assms(1)
proof (cases rule: assigned_cases)
  case special
  show ?thesis using assms(2) by (cases rule: assigned_cases) (use special special_inj in auto)
next
  case (row i)
  from assms(2) show ?thesis
  proof (cases rule: assigned_cases)
    case (row i')
    then have "i' = i" using \<open>j = int i + 1\<close> by simp
    with row(2) \<open>index_of methods a = Some i\<close> show ?thesis by (blast intro: index_of_inj)
  qed (use row(3,4) in simp_all)
next
  case (unknown i)
  show ?thesis using assms(2) by (cases rule: assigned_cases) (use unknown in auto)
qed

lemma assigned_known: "assigned u n = None \<longleftrightarrow> unknown_name n \<and> n \<notin> names_seen u"
  unfolding assigned_def unknown_name_def find_seen [symmetric]
  by (cases "map_of special_rows n"; cases "index_of methods n"; simp)

definition add_name :: "string \<Rightarrow> unknowns \<Rightarrow> unknowns" where
  "add_name n u = u\<lparr>unknown_names := (unknown_names u)[unknown_count u := Some n], unknown_count := unknown_count u + 1\<rparr>"

lemma add_name_ok:
  assumes "unknowns_ok u" "unknown_name n" "n \<notin> names_seen u" "unknown_count u < 512"
  shows "unknowns_ok (add_name n u)" "names_seen (add_name n u) = insert n (names_seen u)"
proof -
  let ?c = "unknown_count u" and ?N = "unknown_names u"
  have N: "?N[?c := Some n] ! i = (if i = ?c then Some n else ?N ! i)" if "i < Suc ?c" for i
    using assms(1,4) that by (auto simp: unknowns_ok_def nth_list_update)
  show "names_seen (add_name n u) = insert n (names_seen u)"
    unfolding names_seen_def add_name_def using N by (auto simp: less_Suc_eq)
  have "?N ! i \<noteq> Some n" if "i < ?c" for i using assms(3) that by (auto simp: names_seen_def)
  then show "unknowns_ok (add_name n u)"
    using assms(1,2,4) N unfolding unknowns_ok_def add_name_def
    by (auto simp: inj_on_def less_Suc_eq)
qed

lemma assigned_add:
  assumes "unknowns_ok u" "unknown_count u < 512" "assigned u m = Some j"
  shows "assigned (add_name n u) m = Some j"
proof -
  let ?c = "unknown_count u" and ?N = "unknown_names u"
  have "find (\<lambda>i. ?N[?c := Some n] ! i = Some m) [0..<?c] = find (\<lambda>i. ?N ! i = Some m) [0..<?c]"
    by (rule find_cong) auto
  then show ?thesis using assms(3)
    by (auto simp: assigned_def add_name_def find_append split: option.splits)
qed

lemma assigned_new:
  assumes "unknowns_ok u" "unknown_name n" "n \<notin> names_seen u" "unknown_count u < 512"
  shows "assigned (add_name n u) n = Some (1000 + int (unknown_count u))"
proof -
  let ?c = "unknown_count u" and ?N = "unknown_names u"
  have "find (\<lambda>i. ?N[?c := Some n] ! i = Some n) [0..<?c] = find (\<lambda>i. ?N ! i = Some n) [0..<?c]"
    by (rule find_cong) auto
  also have "\<dots> = None" using assms(3) find_seen by simp
  finally show ?thesis using assms
    by (simp add: assigned_def add_name_def find_append unknown_name_def UNKNOWN_BASE_def unknowns_ok_def)
qed

lemma GetMethodID_step:
  assumes ok: "unknowns_ok u" and room: "unknown_name n \<Longrightarrow> n \<notin> names_seen u \<Longrightarrow> unknown_count u < 512"
  obtains i u' where "GetMethodID Some n u = Some (i, u')" "unknowns_ok u'" "assigned u' n = Some i"
    "\<And>m j. assigned u m = Some j \<Longrightarrow> assigned u' m = Some j"
    "names_seen u' = names_seen u \<union> {k. k = n \<and> unknown_name k}"
proof (cases "assigned u n")
  case (Some i)
  then have "GetMethodID Some n u = Some (i, u)"
    unfolding GetMethodID_def assigned_def find_unknown_ok [OF ok] by (auto split: option.splits)
  moreover have "unknown_name n \<Longrightarrow> n \<in> names_seen u" using Some assigned_known [of u n] by auto
  then have "names_seen u = names_seen u \<union> {k. k = n \<and> unknown_name k}" by auto
  ultimately show ?thesis using that [of i u] ok Some by simp
next
  case None
  then have new: "unknown_name n" "n \<notin> names_seen u" by (simp_all add: assigned_known)
  then have "find (\<lambda>i. unknown_names u ! i = Some n) [0..<unknown_count u] = None" by (simp add: find_seen)
  then have "GetMethodID Some n u = Some (1000 + int (unknown_count u), add_name n u)"
    using new room unfolding GetMethodID_def find_unknown_ok [OF ok] unknown_name_def
    by (simp add: add_name_def UNKNOWN_BASE_def)
  moreover have "names_seen (add_name n u) = names_seen u \<union> {k. k = n \<and> unknown_name k}"
    using add_name_ok(2) [OF ok new room [OF new]] new by auto
  ultimately show ?thesis
    using that [of "1000 + int (unknown_count u)" "add_name n u"] add_name_ok(1) [OF ok new room [OF new]]
      assigned_new [OF ok new room [OF new]] assigned_add [OF ok room [OF new]] by simp
qed

fun get_ids :: "(string \<Rightarrow> string option) \<Rightarrow> string list \<Rightarrow> unknowns \<Rightarrow> (int list \<times> unknowns) option" where
  "get_ids strdup [] u = Some ([], u)"
| "get_ids strdup (n # ns) u = do {
     (i, u) \<leftarrow> GetMethodID strdup n u;
     (is, u) \<leftarrow> get_ids strdup ns u;
     Some (i # is, u) }"

lemma card_seen: "unknowns_ok u \<Longrightarrow> finite (names_seen u) \<and> card (names_seen u) = unknown_count u"
proof -
  assume ok: "unknowns_ok u"
  have "names_seen u = (\<lambda>i. the (unknown_names u ! i)) ` {..<unknown_count u}"
proof (intro equalityI subsetI)
    fix k
    assume "k \<in> names_seen u"
    then obtain i where "i < unknown_count u" "unknown_names u ! i = Some k" by (auto simp: names_seen_def)
    then show "k \<in> (\<lambda>i. the (unknown_names u ! i)) ` {..<unknown_count u}" by force
  next
    fix k
    assume "k \<in> (\<lambda>i. the (unknown_names u ! i)) ` {..<unknown_count u}"
    then obtain i where "i < unknown_count u" "k = the (unknown_names u ! i)" by auto
    moreover from this ok have "unknown_names u ! i = Some k" unfolding unknowns_ok_def by (metis option.sel)
    ultimately show "k \<in> names_seen u" by (auto simp: names_seen_def)
  qed
  moreover have "inj_on (\<lambda>i. the (unknown_names u ! i)) {..<unknown_count u}"
    using ok unfolding unknowns_ok_def inj_on_def by (metis lessThan_iff option.sel)
  ultimately show ?thesis by (simp add: card_image)
qed

lemma get_ids_from:
  assumes "unknowns_ok u" "card (names_seen u \<union> {n \<in> set ns. unknown_name n}) \<le> 512"
  shows "\<exists>ids u'. get_ids Some ns u = Some (ids, u') \<and> unknowns_ok u' \<and> map (assigned u') ns = map Some ids \<and>
    (\<forall>m j. assigned u m = Some j \<longrightarrow> assigned u' m = Some j)"
  using assms
proof (induction ns arbitrary: u)
  case Nil
  then show ?case by simp
next
  case (Cons n ns)
  let ?S = "names_seen u \<union> {k \<in> set (n # ns). unknown_name k}"
  have room: "unknown_count u < 512" if "unknown_name n" "n \<notin> names_seen u"
  proof -
    have "insert n (names_seen u) \<subseteq> ?S" using that by auto
    then have "card (insert n (names_seen u)) \<le> card ?S" using card_seen [OF Cons.prems(1)] by (intro card_mono) auto
    then show ?thesis using Cons.prems card_seen [OF Cons.prems(1)] that by simp
  qed
  obtain i u1 where s: "GetMethodID Some n u = Some (i, u1)" "unknowns_ok u1" "assigned u1 n = Some i"
      "\<And>m j. assigned u m = Some j \<Longrightarrow> assigned u1 m = Some j"
      "names_seen u1 = names_seen u \<union> {k. k = n \<and> unknown_name k}"
    using GetMethodID_step [OF Cons.prems(1) room] by blast
  have "names_seen u1 \<union> {k \<in> set ns. unknown_name k} = ?S" unfolding s(5) by auto
  then have "card (names_seen u1 \<union> {k \<in> set ns. unknown_name k}) \<le> 512" using Cons.prems(2) by simp
  from Cons.IH [OF s(2) this] s show ?case by fastforce
qed

lemma no_unknowns_ok: "unknowns_ok no_unknowns" "names_seen no_unknowns = {}"
  by (simp_all add: unknowns_ok_def no_unknowns_def names_seen_def)

lemma get_ids_assigned:
  assumes "card {n \<in> set ns. unknown_name n} \<le> 512"
  shows "\<exists>ids u. get_ids Some ns no_unknowns = Some (ids, u) \<and> unknowns_ok u \<and> map (assigned u) ns = map Some ids"
  using get_ids_from [of no_unknowns ns] assms no_unknowns_ok by auto

lemma few_names: "length ns \<le> 512 \<Longrightarrow> card {n \<in> set ns. unknown_name n} \<le> 512"
  using card_mono [of "set ns" "{n \<in> set ns. unknown_name n}"] card_length [of ns] by force

text \<open>
  C30: As long as the game asks for at most 512 names that no table has, every \<open>GetMethodID\<close> of a sequence returns,
  and two of its answers are equal exactly if the names were: an identifier stands for one method for good.
\<close>
theorem method_ids_faithful:
  assumes "card {n \<in> set ns. unknown_name n} \<le> 512"
  shows "\<exists>ids u. get_ids Some ns no_unknowns = Some (ids, u) \<and> length ids = length ns \<and>
    (\<forall>a < length ns. \<forall>b < length ns. ids ! a = ids ! b \<longleftrightarrow> ns ! a = ns ! b)"
proof -
  obtain ids u where r: "get_ids Some ns no_unknowns = Some (ids, u)" "map (assigned u) ns = map Some ids"
    using get_ids_assigned [OF assms] by blast
  have len: "length ids = length ns" using arg_cong [OF r(2), of length] by simp
  have at: "assigned u (ns ! a) = Some (ids ! a)" if "a < length ns" for a
    using arg_cong [OF r(2), of "\<lambda>xs. xs ! a"] that len by simp
  have "ids ! a = ids ! b \<longleftrightarrow> ns ! a = ns ! b" if "a < length ns" "b < length ns" for a b
    using at [OF that(1)] at [OF that(2)] assigned_inj by (metis option.inject)
  then show ?thesis using r(1) len by blast
qed

theorem method_ids_faithful_witness:
  "\<exists>ids u. get_ids Some [''open'', ''Frobnicate'', ''Play'', ''Frobnicate''] no_unknowns = Some (ids, u) \<and>
     ids ! 1 = ids ! 3 \<and> ids ! 0 \<noteq> ids ! 2"
proof -
  let ?ns = "[''open'', ''Frobnicate'', ''Play'', ''Frobnicate'']"
  from method_ids_faithful [OF few_names, of ?ns] obtain ids u where r: "get_ids Some ?ns no_unknowns = Some (ids, u)"
    "\<forall>a < length ?ns. \<forall>b < length ?ns. ids ! a = ids ! b \<longleftrightarrow> ?ns ! a = ?ns ! b" by auto
  have "ids ! 1 = ids ! 3" "ids ! 0 \<noteq> ids ! 2"
    using r(2) [rule_format, of 1 3] r(2) [rule_format, of 0 2] by simp_all
  with r(1) show ?thesis by blast
qed


definition demo_jni :: "string jni_world" where
  "demo_jni = \<lparr>invoke = (\<lambda>f obj a w. (7, f)), special = (\<lambda>q obj w. (0, w))\<rparr>"

lemma play_ids: "get_ids Some [''Play''] no_unknowns = Some ([50], no_unknowns)"
proof -
  have "index_of methods ''Play'' = Some 49" by (simp add: methods_def methods_a_def)
  moreover have "map_of special_rows ''Play'' = None" by (simp add: special_rows_def)
  ultimately show ?thesis by (simp add: GetMethodID_def)
qed


section \<open>What the table says\<close>

lemma map_of_methods: "map_of methods n = (case map_of methods_a n of Some f \<Rightarrow> Some f | None \<Rightarrow> map_of methods_b n)"
  by (simp add: methods_def map_add_def split: option.splits)

lemma method_result_row:
  assumes "map_of special_rows n = None" "map_of methods n = Some f"
  shows "method_result n = map_of (helpers_a @ helpers_b @ helpers_c) f"
proof -
  obtain i where i: "index_of methods n = Some i" using assms(2) index_of_None [of methods n] by (cases "index_of methods n") auto
  then have "i < 152" "snd (methods ! i) = f" using index_of_Some [OF i] method_range [OF i] assms(2) by auto
  then show ?thesis using i assms(1) by (simp add: method_result_def GetMethodID_def jni_lookup_def NMETHODS_value)
qed

lemma misses_a:
  "map_of methods_a ''GetCurrentWidth'' = None" "map_of methods_a ''GetCurrentHeight'' = None"
  "map_of methods_a ''GetDefaultHeight'' = None" "map_of methods_a ''GetDefaultWidthI'' = None"
  "map_of methods_a ''GetCameraCount'' = None" "map_of methods_a ''GetCompassCount'' = None"
  unfolding methods_a_def by simp_all

lemma hits_a:
  "map_of methods_a ''GetDisplayWidth'' = Some ''screen_w''" "map_of methods_a ''GetDisplayHeight'' = Some ''screen_h''"
  "map_of methods_a ''GetBatteryLevel'' = Some ''ret1''"
  unfolding methods_a_def by simp_all

lemma hits_b:
  "map_of methods_b ''GetCurrentWidth'' = Some ''cur_width''" "map_of methods_b ''GetCurrentHeight'' = Some ''cur_height''"
  "map_of methods_b ''GetDefaultHeight'' = Some ''cur_height''" "map_of methods_b ''GetDefaultWidthI'' = Some ''cur_width''"
  "map_of methods_b ''GetCameraCount'' = None" "map_of methods_b ''GetCompassCount'' = None"
  unfolding methods_b_def by simp_all

lemmas method_rows = map_of_methods misses_a hits_a hits_b

lemma rows_of_display:
  "map_of methods ''GetDisplayWidth'' = Some ''screen_w''" "map_of methods ''GetDisplayHeight'' = Some ''screen_h''"
  "map_of methods ''GetCurrentWidth'' = Some ''cur_width''" "map_of methods ''GetCurrentHeight'' = Some ''cur_height''"
  "map_of methods ''GetDefaultHeight'' = Some ''cur_height''" "map_of methods ''GetDefaultWidthI'' = Some ''cur_width''"
  by (simp_all add: method_rows)

lemma display_results:
  "method_result ''GetDisplayWidth'' = Some (Num 960)" "method_result ''GetCurrentWidth'' = Some (Num 960)"
  "method_result ''GetDefaultWidthI'' = Some (Num 960)" "method_result ''GetDisplayHeight'' = Some (Num 544)"
  "method_result ''GetCurrentHeight'' = Some (Num 544)" "method_result ''GetDefaultHeight'' = Some (Num 544)"
  by (subst method_result_row, simp add: special_rows_def, rule rows_of_display,
      simp add: helpers_a_def helpers_b_def helpers_c_def)+

text \<open>
  The size of the screen is the same wherever the game can ask for it: the display delegate, the view delegate
  and the EGL surface all say 960 by 544.
\<close>
theorem display_size_consistent:
  "map method_result [''GetDisplayWidth'', ''GetCurrentWidth'', ''GetDefaultWidthI''] = replicate 3 (Some (Num SCREEN_W)) \<and>
   map method_result [''GetDisplayHeight'', ''GetCurrentHeight'', ''GetDefaultHeight''] = replicate 3 (Some (Num SCREEN_H))"
  using display_results by (simp add: SCREEN_W_def SCREEN_H_def numeral_3_eq_3)

text \<open>Rows behind a first one of the same name are dead: the battery level is the word 1, not the float 1.0.\<close>

lemma battery_row_shadowed: "method_result ''GetBatteryLevel'' = Some (Num 1)"
proof -
  have "map_of methods ''GetBatteryLevel'' = Some ''ret1''" by (simp add: method_rows)
  then show ?thesis by (simp add: method_result_row special_rows_def helpers_a_def helpers_b_def helpers_c_def)
qed

text \<open>Two rows stand behind a comment sign and are not in the table.\<close>

lemma rows_lost: "map_of methods ''GetCameraCount'' = None" "map_of methods ''GetCompassCount'' = None"
  by (simp_all add: method_rows)

text \<open>With 513 unknown names counted, looking up another one reads behind the array.\<close>

lemma too_many_unknowns:
  assumes "unknown_name n" "n \<notin> set ks" "length ks = 512"
  shows "GetMethodID Some n \<lparr>unknown_names = map Some ks, unknown_count = 513\<rparr> = None"
proof -
  have "find_unknown (map Some ks) n (xs @ [512]) = None" if "set xs \<subseteq> {..<512}" for xs
    using that assms by (induction xs) auto
  from this [of "[0..<512]"] have "find_unknown (map Some ks) n [0..<513] = None"
    using upt_Suc_append [of 0 512] by (simp add: atLeast0LessThan)
  then show ?thesis using assms(1) by (simp add: GetMethodID_def unknown_name_def)
qed

text \<open>
  The Java Native Interface passes the arguments of the \<open>A\<close> variants as an array of 8-byte \<open>jvalue\<close>s; read as an
  array of words, the second argument is the upper half of the first.
\<close>

definition jvalue_words :: "u32 list \<Rightarrow> u32 list" where
  "jvalue_words vs = concat (map (\<lambda>v. [v, 0]) vs)"

lemma jvalue_stride: "special_callA 903 (jvalue_words [arr, off, len]) = Some (Read arr 0 off)"
  by (simp add: special_callA_def jvalue_words_def)

end
