(* ===== verification/Jni_Assets.thy ===== *)
theory Jni_Assets
  imports Prelude
begin

text \<open>
  The asset manager of \<open>jni_patch.c\<close>: paths of assets on the card, opening an asset (with the movies, the
  missing shaders and the oversized sample banks the loader hides), the stream operations the game calls
  through Java, and the rewriting of \<open>memory.cfg\<close>.  Files are a parameter with their state \<open>'e\<close>; memory
  for the loader's own small objects is taken to be there.  \<open>None\<close> is undefined behaviour: a copy of a
  negative length or from outside the stream's buffer, a comparison that runs off a buffer.
\<close>

record 'e file_api =
  f_open :: "string \<Rightarrow> 'e \<Rightarrow> int \<times> 'e"
  f_size :: "int \<Rightarrow> 'e \<Rightarrow> int \<times> 'e"
  f_seek :: "int \<Rightarrow> int \<Rightarrow> 'e \<Rightarrow> 'e"
  f_read :: "int \<Rightarrow> int \<Rightarrow> 'e \<Rightarrow> string \<times> 'e"
  f_close :: "int \<Rightarrow> 'e \<Rightarrow> 'e"

record asset_stream =
  s_fd :: int
  s_size :: int
  s_pos :: int
  s_mem :: "string option"
  s_calls :: nat

section \<open>Paths\<close>

definition strip_scheme :: "string \<Rightarrow> string" where
  "strip_scheme name = (if take 11 name = ''appbundle:/'' then drop 11 name else name)"

definition asset_path :: "nat \<Rightarrow> string \<Rightarrow> string" where
  "asset_path n name =
     take (n - 1) (DATA_PATH @ ''/obb/'' @ dropWhile (\<lambda>c. c = CHR ''/'') (strip_scheme name))"

text \<open>\<open>l > strlen(suffix) && !strcmp(name + l - strlen(suffix), suffix)\<close>\<close>

definition has_suffix :: "string \<Rightarrow> string \<Rightarrow> bool" where
  "has_suffix suf name \<longleftrightarrow> length suf < length name \<and> drop (length name - length suf) name = suf"

section \<open>The heap table\<close>

definition memcfg_rules :: "(string \<times> string) list" where
  "memcfg_rules =
    [(''AUDIODATA_GEN'', ''60M''), (''GAMEPLAY_GEN'', ''22M''), (''GAMEWORLD_GEN'', ''8M''), (''GLOBAL_GEN'', ''32M''),
     (''RENDER_GEN'', ''48M''), (''STL_GEN'', ''5M''), (''FE_GEN'', ''7M''), (''FE_SFGFX_GEN_A'', ''24M''),
     (''FE_SFGFX_GEN_B'', ''2M''), (''FE_SFGFX_AS_SBA'', ''2M''), (''FE_SFGFX_ASCRIPT'', ''6M''),
     (''FE_SFGFX_REN_SBA'', ''4M''), (''FE_SFGFX_RENDER'', ''6M''), (''FE_UX_GEN'', ''2M''),
     (''GLOBAL_ASSETTMP'', ''7M''), (''GAMEWORLD_SLOTALLOC'', ''25M''), (''ASSETSTREAM_READBUF'', ''4M''),
     (''AUDIO_RWAC'', ''8M'')]"

definition is_ws :: "char \<Rightarrow> bool" where
  "is_ws c \<longleftrightarrow> c = CHR '' '' \<or> c = CHR 0x09"

abbreviation newline :: char where "newline \<equiv> CHR 0x0A"

text \<open>The rule's name as a word at position \<open>i\<close>; the loop keeps \<open>i + length name < length buf\<close>.\<close>

definition name_at :: "string \<Rightarrow> string \<Rightarrow> nat \<Rightarrow> bool" where
  "name_at name buf i \<longleftrightarrow> take (length name) (drop i buf) = name \<and> (i = 0 \<or> is_ws (buf ! (i - 1))) \<and>
     is_ws (buf ! (i + length name))"

text \<open>
  The search for \<open>size=\<close> on the rest \<open>xs\<close> of the buffer from position \<open>j\<close>: the position, or no position on this
  line, or undefined where the comparison would need characters behind the end.
\<close>

fun find_size :: "string \<Rightarrow> nat \<Rightarrow> nat option option" where
  "find_size [] j = Some None"
| "find_size (c # cs) j =
     (if c = newline then Some None
      else if take 5 (c # cs) = ''size='' then Some (Some j)
      else if length (c # cs) < 5 \<and> take (length (c # cs)) ''size='' = c # cs then None
      else find_size cs (Suc j))"

text \<open>The length of the value at the head of the rest, by the nesting depth of its braces.\<close>

fun value_length :: "int \<Rightarrow> string \<Rightarrow> nat" where
  "value_length depth [] = 0"
| "value_length depth (c # cs) =
     (if c = CHR ''{'' then Suc (value_length (depth + 1) cs)
      else if c = CHR ''}'' then Suc (value_length (depth - 1) cs)
      else if depth = 0 \<and> (c = CHR '','' \<or> c = CHR '']'' \<or> c = CHR '' '' \<or> c = newline) then 0
      else Suc (value_length depth cs))"

lemma find_size_bound: "find_size xs j = Some (Some k) \<Longrightarrow> j \<le> k \<and> k + 5 \<le> j + length xs"
proof (induction xs j rule: find_size.induct)
  case (2 c cs j)
  show ?case
  proof (cases "take 5 (c # cs) = ''size=''")
    case True
    have "length (take 5 (c # cs)) = 5" unfolding True by simp
    then have "5 \<le> length (c # cs)" unfolding length_take by (simp only: min_def split: if_splits)
    then show ?thesis using 2 True by (auto split: if_splits)
  next
    case False
    with 2 show ?thesis by (auto split: if_splits)
  qed
qed simp

lemma value_length_bound: "value_length d xs \<le> length xs"
  by (induction d xs rule: value_length.induct) auto

text \<open>One rule over the buffer from position \<open>i\<close> on.\<close>

function rewrite_rule :: "string \<Rightarrow> string \<Rightarrow> nat \<Rightarrow> string \<Rightarrow> string option" where
  "rewrite_rule name sz i buf =
     (if i + length name < length buf then
        if name_at name buf i then
          case find_size (drop (i + length name) buf) (i + length name) of
            None \<Rightarrow> None
          | Some None \<Rightarrow> rewrite_rule name sz (i + 1) buf
          | Some (Some j) \<Rightarrow>
              let vs = j + 5; ve = vs + value_length 0 (drop vs buf)
              in rewrite_rule name sz (vs + length sz + 1) (take vs buf @ sz @ drop ve buf)
        else rewrite_rule name sz (i + 1) buf
      else Some buf)"
  by pat_completeness auto
termination
proof (relation "measure (\<lambda>(name, sz, i, buf). length buf - i)", goal_cases)
  case (3 name sz i buf x x2 vs ve)
  have "i + length name \<le> x2" "x2 + 5 \<le> length buf"
    using find_size_bound [of "drop (i + length name) buf" "i + length name" x2] 3 by auto
  then show ?case using 3 by auto
qed auto

declare rewrite_rule.simps [simp del]

fun rewrite_rules :: "(string \<times> string) list \<Rightarrow> string \<Rightarrow> string option" where
  "rewrite_rules [] buf = Some buf"
| "rewrite_rules ((name, sz) # rs) buf = do { buf \<leftarrow> rewrite_rule name sz 0 buf; rewrite_rules rs buf }"

definition rewrite_memcfg :: "string \<Rightarrow> string option" where
  "rewrite_memcfg buf = rewrite_rules memcfg_rules buf"

section \<open>Opening an asset\<close>

text \<open>Reading the whole file into memory: until it is all there, or a read returns nothing.\<close>

function read_whole :: "'e file_api \<Rightarrow> int \<Rightarrow> int \<Rightarrow> string \<Rightarrow> 'e \<Rightarrow> string \<times> 'e" where
  "read_whole api fd n acc e =
     (if int (length acc) < n then
        case f_read api fd (n - int (length acc)) e of (bs, e) \<Rightarrow>
          if bs = [] then (acc, e) else read_whole api fd n (acc @ bs) e
      else (acc, e))"
  by pat_completeness auto
termination
proof (relation "measure (\<lambda>(api, fd, n, acc, e). nat (n - int (length acc)))", goal_cases)
  case 2
  then show ?case by (auto simp: length_greater_0_conv [symmetric] simp del: length_greater_0_conv)
qed simp

definition SAMPLE_BANK_MAX :: int where "SAMPLE_BANK_MAX = 64 * 1024 * 1024"

text \<open>
  The stream, whether a \<open>FileNotFoundException\<close> is set pending, and the files.  A stream object below is
  \<open>None\<close> for a null reference or an object without the stream's tag.
\<close>

definition asset_open :: "'e file_api \<Rightarrow> string \<Rightarrow> bool \<Rightarrow> 'e \<Rightarrow> (asset_stream option \<times> bool \<times> 'e) option" where
  "asset_open api name pending e =
     (let p = asset_path 512 name
      in if has_suffix ''.mp4'' name then Some (None, True, e)
         else let (fd, e) = f_open api p e;
                  (fd, e) = (if fd < 0 \<and> has_suffix ''.fxo'' p
                    then f_open api (DATA_PATH @ ''/obb/mobile/shaders/errormissing.fxo'') e else (fd, e))
              in if fd < 0 then Some (None, True, e)
                 else let (n, e) = f_size api fd e
                      in if has_suffix ''.abk'' name \<and> SAMPLE_BANK_MAX < n then Some (None, True, f_close api fd e)
                         else if 10 \<le> length name \<and> drop (length name - 10) name = ''memory.cfg'' then do {
                           let (buf, e) = read_whole api fd n [] e;
                           m \<leftarrow> rewrite_memcfg buf;
                           Some (Some \<lparr>s_fd = - 1, s_size = int (length m), s_pos = 0, s_mem = Some m, s_calls = 0\<rparr>,
                             pending, f_close api fd e) }
                         else Some (Some \<lparr>s_fd = fd, s_size = n, s_pos = 0, s_mem = None, s_calls = 0\<rparr>, pending, e))"

text \<open>The pending exception as the game sees it.\<close>

definition ExceptionCheck :: "bool \<Rightarrow> nat" where "ExceptionCheck pending = (if pending then 1 else 0)"
definition ExceptionClear :: "bool \<Rightarrow> bool" where "ExceptionClear pending = False"

text \<open>The reference to the exception is the address \<open>a\<close> of the flag itself, or null.\<close>

definition ExceptionOccurred :: "nat \<Rightarrow> bool \<Rightarrow> nat" where
  "ExceptionOccurred a pending = (if pending then a else 0)"

section \<open>Stream operations\<close>

text \<open>The Java byte array is the list \<open>arr\<close>; \<open>put_bytes\<close> is the copy into it from index \<open>off\<close> on.\<close>

definition put_bytes :: "string \<Rightarrow> int \<Rightarrow> string \<Rightarrow> string option" where
  "put_bytes arr off bs =
     (if 0 \<le> off \<and> nat off + length bs \<le> length arr then Some (blit arr (nat off) bs) else None)"

definition after_read :: "asset_stream \<Rightarrow> nat \<Rightarrow> int \<times> asset_stream" where
  "after_read s n =
     (if 0 < n then (int n, s\<lparr>s_calls := s_calls s + 1, s_pos := s_pos s + int n\<rparr>)
      else (- 1, s\<lparr>s_calls := s_calls s + 1\<rparr>))"

definition asset_read :: "'e file_api \<Rightarrow> asset_stream option \<Rightarrow> string \<Rightarrow> int \<Rightarrow> int \<Rightarrow> 'e \<Rightarrow>
    (int \<times> string \<times> asset_stream option \<times> 'e) option" where
  "asset_read api st arr off len e =
     (case st of None \<Rightarrow> Some (- 1, arr, None, e)
      | Some s \<Rightarrow>
          if s_size s \<le> s_pos s then Some (- 1, arr, st, e)
          else case s_mem s of
              Some m \<Rightarrow>
                (let n = min len (s_size s - s_pos s)
                 in if n < 0 \<or> s_pos s < 0 \<or> int (length m) < s_pos s + n then None
                    else do { arr' \<leftarrow> put_bytes arr off (take (nat n) (drop (nat (s_pos s)) m));
                              let (r, s') = after_read s (nat n);
                              Some (r, arr', Some s', e) })
            | None \<Rightarrow>
                (let (bs, e) = f_read api (s_fd s) len e
                 in do { arr' \<leftarrow> (if bs = [] then Some arr else put_bytes arr off bs);
                         let (r, s') = after_read s (length bs);
                         Some (r, arr', Some s', e) }))"

text \<open>The 64-bit argument is cut to a 32-bit \<open>long\<close>; the sum must not leave its range.\<close>

definition asset_skip :: "'e file_api \<Rightarrow> asset_stream option \<Rightarrow> int \<Rightarrow> 'e \<Rightarrow> (int \<times> asset_stream option \<times> 'e) option" where
  "asset_skip api st n e =
     (case st of None \<Rightarrow> Some (0, None, e)
      | Some s \<Rightarrow>
          (let np = s_pos s + signed_take_bit 31 n
           in if np < - (2 ^ 31) \<or> 2 ^ 31 \<le> np then None
              else let np = (if s_size s < np then s_size s else np);
                       e = (if s_mem s = None then f_seek api (s_fd s) np e else e)
                   in Some (np - s_pos s, Some (s\<lparr>s_pos := np\<rparr>), e)))"

definition asset_reset :: "'e file_api \<Rightarrow> asset_stream option \<Rightarrow> 'e \<Rightarrow> asset_stream option \<times> 'e" where
  "asset_reset api st e =
     (case st of None \<Rightarrow> (None, e)
      | Some s \<Rightarrow> (Some (s\<lparr>s_pos := 0\<rparr>), if s_mem s = None then f_seek api (s_fd s) 0 e else e))"

text \<open>The object loses its tag: what is left is no stream.\<close>

definition asset_close :: "'e file_api \<Rightarrow> asset_stream option \<Rightarrow> 'e \<Rightarrow> asset_stream option \<times> 'e" where
  "asset_close api st e =
     (case st of None \<Rightarrow> (None, e) | Some s \<Rightarrow> (None, if s_mem s = None then f_close api (s_fd s) e else e))"

definition asset_length :: "asset_stream option \<Rightarrow> int" where
  "asset_length st = (case st of None \<Rightarrow> 0 | Some s \<Rightarrow> s_size s)"

definition asset_available :: "asset_stream option \<Rightarrow> int" where
  "asset_available st = (case st of None \<Rightarrow> 0 | Some s \<Rightarrow> s_size s - s_pos s)"

text \<open>The names of a directory, at most 512 of them, behind their number; none if it cannot be opened.\<close>

definition asset_list :: "(string \<Rightarrow> string list option) \<Rightarrow> string \<Rightarrow> nat \<times> string list" where
  "asset_list entries name =
     (case entries (asset_path 512 name) of None \<Rightarrow> (0, [])
      | Some ns \<Rightarrow> (length (take 512 ns), take 512 ns))"

section \<open>A rule's effect on a line\<close>

lemma find_size_hit:
  assumes "newline \<notin> set sep"
    and "\<And>k. k < length sep \<Longrightarrow> take 5 (drop k sep @ ''size='' @ rest) \<noteq> ''size=''"
  shows "find_size (sep @ ''size='' @ rest) j = Some (Some (j + length sep))"
  using assms
proof (induction sep arbitrary: j)
  case Nil
  then show ?case by simp
next
  case (Cons c cs)
  have "take 5 (c # cs @ ''size='' @ rest) \<noteq> ''size=''" using Cons.prems(2) [of 0] by simp
  moreover have "take 5 (drop k cs @ ''size='' @ rest) \<noteq> ''size=''" if "k < length cs" for k
    using Cons.prems(2) [of "Suc k"] that by simp
  then have "find_size (cs @ ''size='' @ rest) (Suc j) = Some (Some (Suc j + length cs))"
    using Cons.prems(1) by (intro Cons.IH) auto
  ultimately show ?case using Cons.prems(1) by auto
qed

text \<open>
  Where a rule's name stands as a word on a line of \<open>memory.cfg\<close> with \<open>size=\<close> behind it, the rewriting replaces
  exactly the value token, braces of a conditional included, by the rule's size, and goes on behind it.
\<close>
theorem rewrite_rule_hit:
  assumes pre: "pre = [] \<or> is_ws (last pre)"
    and sep: "sep \<noteq> []" "is_ws (hd sep)" "newline \<notin> set sep"
      "\<And>k. k < length sep \<Longrightarrow> take 5 (drop k sep @ ''size='' @ val @ rest) \<noteq> ''size=''"
    and val: "value_length 0 (val @ rest) = length val"
  shows "rewrite_rule name sz (length pre) (pre @ name @ sep @ ''size='' @ val @ rest) =
    rewrite_rule name sz (length (pre @ name @ sep @ ''size='' @ sz) + 1) (pre @ name @ sep @ ''size='' @ sz @ rest)"
proof -
  let ?i = "length pre" and ?b = "pre @ name @ sep @ ''size='' @ val @ rest"
  let ?j = "?i + length name + length sep"
  have six: "6 + n = Suc (Suc (Suc (Suc (Suc (Suc n)))))" for n :: nat by simp
  have "?b ! (?i + length name) = hd sep" using sep(1) by (simp add: nth_append hd_conv_nth)
  moreover have "pre \<noteq> [] \<Longrightarrow> ?b ! (?i - 1) = last pre" by (simp add: nth_append last_conv_nth)
  ultimately have at: "name_at name ?b ?i" using pre sep(2) unfolding name_at_def by (cases "pre = []") simp_all
  have f: "find_size (drop (?i + length name) ?b) (?i + length name) = Some (Some ?j)"
    using find_size_hit [OF sep(3), of "val @ rest" "?i + length name"] sep(4) by (simp add: add.assoc)
  have "drop (?j + 5) ?b = val @ rest" "take (?j + 5) ?b = pre @ name @ sep @ ''size=''" by simp_all
  moreover from this(1) have "drop (length val) (drop (?j + 5) ?b) = rest" by (simp only: append_eq_conv_conj drop_append) simp
  then have "drop (?j + 5 + length val) ?b = rest" by (simp only: drop_drop add.commute [of _ "length val"])
  ultimately show ?thesis
    using at f val by (subst rewrite_rule.simps) (simp add: Let_def add.assoc six)
qed

theorem rewrite_rule_hit_witness:
  "rewrite_rule ''STL_GEN'' ''5M'' 0 ''STL_GEN size={{pc}?20M:100M}, x'' =
   rewrite_rule ''STL_GEN'' ''5M'' 16 ''STL_GEN size=5M, x''"
proof -
  have e: "length ([] @ ''STL_GEN'' @ '' '' @ ''size='' @ ''5M'') + 1 = 16" by simp
  show ?thesis
  using rewrite_rule_hit [of "[]" "'' ''" "''{{pc}?20M:100M}''" "'', x''" "''STL_GEN''" "''5M''"] unfolding e
  by (simp add: is_ws_def)
qed

section \<open>Opening fails with an exception\<close>

text \<open>
  C33: \<open>open\<close> returns null exactly when it throws: without a stream an exception is pending, with a stream the
  exception state is as before and the stream is at its start.  A movie is never opened, and a sample bank
  above the limit is closed again.
\<close>
theorem asset_open_error:
  assumes "asset_open api name pending e = Some (st, pending', e')"
  shows "(case st of None \<Rightarrow> ExceptionCheck pending' = 1
      | Some s \<Rightarrow> pending' = pending \<and> s_pos s = 0 \<and> \<not> has_suffix ''.mp4'' name \<and>
          (has_suffix ''.abk'' name \<longrightarrow> s_mem s = None \<longrightarrow> s_size s \<le> SAMPLE_BANK_MAX)) \<and>
    (has_suffix ''.mp4'' name \<longrightarrow> e' = e)"
proof (cases "has_suffix ''.mp4'' name")
  case True
  then show ?thesis using assms by (simp add: asset_open_def Let_def ExceptionCheck_def)
next
  case movie: False
  let ?p = "asset_path 512 name"
  obtain fd0 e0 where o: "f_open api ?p e = (fd0, e0)" by (metis surj_pair)
  obtain fd e1 where f: "(if fd0 < 0 \<and> has_suffix ''.fxo'' ?p
      then f_open api (DATA_PATH @ ''/obb/mobile/shaders/errormissing.fxo'') e0 else (fd0, e0)) = (fd, e1)" by (metis surj_pair)
  obtain n e2 where z: "f_size api fd e1 = (n, e2)" by (metis surj_pair)
  obtain buf e3 where r: "read_whole api fd n [] e2 = (buf, e3)" by (metis surj_pair)
  note run = assms [unfolded asset_open_def Let_def o prod.case f z r bind_split]
  show ?thesis
  proof (cases "fd < 0 \<or> has_suffix ''.abk'' name \<and> SAMPLE_BANK_MAX < n")
    case True
    then have "st = None" "pending'" using run movie z by (auto split: if_splits)
    then show ?thesis using movie by (simp add: ExceptionCheck_def)
  next
    case False
    then show ?thesis using run movie z r
      by (cases "rewrite_memcfg buf") (auto split: if_splits)
  qed
qed

section \<open>Asset streams are Java input streams\<close>

text \<open>
  A file with the given content: \<open>pos\<close> is the file position.  A read of a positive length returns something,
  and not more than asked for, except at the end of the file.
\<close>

definition file_law :: "'e file_api \<Rightarrow> string \<Rightarrow> (int \<Rightarrow> 'e \<Rightarrow> nat) \<Rightarrow> bool" where
  "file_law api content pos \<longleftrightarrow>
     (\<forall>fd n e. 0 < n \<longrightarrow> pos fd e < length content \<longrightarrow>
        (\<exists>k e'. 0 < k \<and> int k \<le> n \<and> pos fd e + k \<le> length content \<and>
           f_read api fd n e = (take k (drop (pos fd e) content), e') \<and> pos fd e' = pos fd e + k)) \<and>
     (\<forall>fd p e. 0 \<le> p \<longrightarrow> p \<le> int (length content) \<longrightarrow> pos fd (f_seek api fd p e) = nat p)"

text \<open>The abstract stream: its content and the number of characters already read.\<close>

definition stream_rel :: "string \<Rightarrow> (int \<Rightarrow> 'e \<Rightarrow> nat) \<Rightarrow> asset_stream \<Rightarrow> 'e \<Rightarrow> nat \<Rightarrow> bool" where
  "stream_rel content pos s e p \<longleftrightarrow>
     s_size s = int (length content) \<and> s_pos s = int p \<and> p \<le> length content \<and> length content < 2 ^ 31 \<and>
     (case s_mem s of Some m \<Rightarrow> m = content | None \<Rightarrow> pos (s_fd s) e = p)"

lemma after_read_pos: "0 < k \<Longrightarrow> after_read s k = (int k, s\<lparr>s_calls := s_calls s + 1, s_pos := s_pos s + int k\<rparr>)"
  by (simp add: after_read_def)

lemma asset_read_step:
  assumes law: "file_law api content pos" and rel: "stream_rel content pos s e p"
    and buf: "0 < len" "0 \<le> off" "nat off + nat len \<le> length arr" and more: "p < length content"
  obtains k s' e' where "0 < k" "int k \<le> len" "p + k \<le> length content"
    "asset_read api (Some s) arr off len e = Some (int k, blit arr (nat off) (take k (drop p content)), Some s', e')"
    "stream_rel content pos s' e' (p + k)"
proof (cases "s_mem s")
  case None
  then have "pos (s_fd s) e = p" using rel by (simp add: stream_rel_def)
  then obtain k e' where k: "0 < k" "int k \<le> len" "p + k \<le> length content"
      "f_read api (s_fd s) len e = (take k (drop p content), e')" "pos (s_fd s) e' = p + k"
    using law buf(1) more unfolding file_law_def by metis
  have bs: "length (take k (drop p content)) = k" "take k (drop p content) \<noteq> []" using k(1,3) by auto
  have "put_bytes arr off (take k (drop p content)) = Some (blit arr (nat off) (take k (drop p content)))"
    using buf k(2) bs(1) by (simp add: put_bytes_def)
  then have "asset_read api (Some s) arr off len e = Some (int k, blit arr (nat off) (take k (drop p content)),
      Some (s\<lparr>s_calls := s_calls s + 1, s_pos := s_pos s + int k\<rparr>), e')"
    using None rel more k(1,4) bs by (simp add: asset_read_def stream_rel_def after_read_pos Let_def)
  then show ?thesis using that k rel None by (auto simp: stream_rel_def)
next
  case (Some m)
  define k where "k = nat (min len (int (length content) - int p))"
  have k: "0 < k" "int k \<le> len" "p + k \<le> length content" "min len (int (length content) - int p) = int k"
    using buf(1) more by (auto simp: k_def)
  have "put_bytes arr off (take k (drop p content)) = Some (blit arr (nat off) (take k (drop p content)))"
    using buf k(2,3) by (simp add: put_bytes_def)
  then have "asset_read api (Some s) arr off len e = Some (int k, blit arr (nat off) (take k (drop p content)),
      Some (s\<lparr>s_calls := s_calls s + 1, s_pos := s_pos s + int k\<rparr>), e)"
    using Some rel more k by (simp add: asset_read_def stream_rel_def after_read_pos Let_def)
  then show ?thesis using that k rel Some by (auto simp: stream_rel_def)
qed

lemma asset_read_end:
  "stream_rel content pos s e p \<Longrightarrow> p = length content \<Longrightarrow> asset_read api (Some s) arr off len e = Some (- 1, arr, Some s, e)"
  by (simp add: asset_read_def stream_rel_def)

lemma asset_skip_step:
  assumes "file_law api content pos" "stream_rel content pos s e p" "0 \<le> n" "int p + n < 2 ^ 31"
  shows "\<exists>s' e'. asset_skip api (Some s) n e = Some (int (min (nat n) (length content - p)), Some s', e') \<and>
    stream_rel content pos s' e' (p + min (nat n) (length content - p))"
proof -
  have n: "signed_take_bit 31 n = n" using assms(3,4) by (intro signed_take_bit_int_eq_self) auto
  have np: "(if int (length content) < int p + n then int (length content) else int p + n) = int (p + min (nat n) (length content - p))"
    using assms(2,3) by (auto simp: stream_rel_def)
  show ?thesis
    using assms n np unfolding asset_skip_def stream_rel_def file_law_def
    by (auto simp: Let_def split: option.splits)
qed

text \<open>
  C31: An open asset is a Java input stream over its content, whether it lies in memory or in a file that may return
  less than asked for: a read of a positive length copies the next characters into the array and advances
  by their number, -1 is returned exactly at the end, \<open>skip\<close> stops at the end, \<open>reset\<close> goes back to the
  start, and \<open>available\<close> is what is left.
\<close>
theorem asset_stream_refines:
  assumes "file_law api content pos" "stream_rel content pos s e p"
    and "0 < len" "0 \<le> off" "nat off + nat len \<le> length arr" "0 \<le> n" "int p + n < 2 ^ 31"
  shows "(\<exists>r arr' s' e'. asset_read api (Some s) arr off len e = Some (r, arr', Some s', e') \<and>
      (if p = length content then r = - 1 \<and> arr' = arr \<and> stream_rel content pos s' e' p
       else 0 < r \<and> r \<le> len \<and> arr' = blit arr (nat off) (take (nat r) (drop p content)) \<and>
         stream_rel content pos s' e' (p + nat r))) \<and>
    (\<exists>s' e'. asset_skip api (Some s) n e = Some (int (min (nat n) (length content - p)), Some s', e') \<and>
      stream_rel content pos s' e' (p + min (nat n) (length content - p))) \<and>
    (\<exists>s' e'. asset_reset api (Some s) e = (Some s', e') \<and> stream_rel content pos s' e' 0) \<and>
    asset_length (Some s) = int (length content) \<and> asset_available (Some s) = int (length content - p)"
proof (intro conjI)
  show "\<exists>r arr' s' e'. asset_read api (Some s) arr off len e = Some (r, arr', Some s', e') \<and>
      (if p = length content then r = - 1 \<and> arr' = arr \<and> stream_rel content pos s' e' p
       else 0 < r \<and> r \<le> len \<and> arr' = blit arr (nat off) (take (nat r) (drop p content)) \<and>
         stream_rel content pos s' e' (p + nat r))"
  proof (cases "p = length content")
    case True
    then show ?thesis using asset_read_end [OF assms(2)] assms(2) by simp
  next
    case False
    then have "p < length content" using assms(2) by (simp add: stream_rel_def)
    from asset_read_step [OF assms(1-5) this] obtain k s' e' where "0 < k" "int k \<le> len"
      "asset_read api (Some s) arr off len e = Some (int k, blit arr (nat off) (take k (drop p content)), Some s', e')"
      "stream_rel content pos s' e' (p + k)" by blast
    with False show ?thesis by (intro exI [of _ "int k"]) auto
  qed
  show "\<exists>s' e'. asset_skip api (Some s) n e = Some (int (min (nat n) (length content - p)), Some s', e') \<and>
      stream_rel content pos s' e' (p + min (nat n) (length content - p))"
    by (rule asset_skip_step [OF assms(1,2,6,7)])
  show "\<exists>s' e'. asset_reset api (Some s) e = (Some s', e') \<and> stream_rel content pos s' e' 0"
    using assms(1,2) unfolding asset_reset_def stream_rel_def file_law_def by (auto split: option.splits)
qed (use assms(2) in \<open>simp_all add: asset_length_def asset_available_def stream_rel_def\<close>)

definition demo_files :: "string \<Rightarrow> nat file_api" where
  "demo_files content = \<lparr>f_open = (\<lambda>p e. (3, 0)), f_size = (\<lambda>fd e. (int (length content), e)),
     f_seek = (\<lambda>fd p e. nat p), f_read = (\<lambda>fd n e. (take 1 (drop e content), e + 1)), f_close = (\<lambda>fd e. e)\<rparr>"

lemma demo_file_law: "file_law (demo_files content) content (\<lambda>fd e. e)"
  unfolding file_law_def demo_files_def
  by (auto intro!: exI [of _ "Suc 0"])

theorem asset_stream_refines_witness:
  "\<exists>r arr' s' e'. asset_read (demo_files ''abc'') (Some \<lparr>s_fd = 3, s_size = 3, s_pos = 1, s_mem = None, s_calls = 0\<rparr>)
     ''xxxx'' 0 4 1 = Some (r, arr', Some s', e') \<and> 0 < r \<and> r \<le> 4 \<and> s_pos s' = 1 + r"
proof -
  have "stream_rel ''abc'' (\<lambda>fd e. e) \<lparr>s_fd = 3, s_size = 3, s_pos = 1, s_mem = None, s_calls = 0\<rparr> 1 1"
    by (simp add: stream_rel_def)
  from asset_stream_refines [OF demo_file_law this, of 4 0 "''xxxx''" 0] show ?thesis
    by (auto simp: stream_rel_def)
qed

text \<open>The loop of a Java caller: read into a buffer until -1, with a bound on the number of reads.\<close>

fun drain :: "nat \<Rightarrow> 'e file_api \<Rightarrow> int \<Rightarrow> asset_stream option \<Rightarrow> string \<Rightarrow> 'e \<Rightarrow> string option" where
  "drain 0 api len st arr e = None"
| "drain (Suc f) api len st arr e = do {
     (r, arr, st, e) \<leftarrow> asset_read api st arr 0 len e;
     if r = - 1 then Some [] else do { rest \<leftarrow> drain f api len st arr e; Some (take (nat r) arr @ rest) } }"

text \<open>
  A caller that reads an asset in pieces until -1 comes to an end after at most one read per character and one
  more, and has read what was left of the content, each character once and in order.
\<close>
theorem asset_drain_complete:
  assumes "file_law api content pos" "stream_rel content pos s e p" "0 < len" "length arr = nat len"
    "length content - p < fuel"
  shows "drain fuel api len (Some s) arr e = Some (drop p content)"
  using assms
proof (induction fuel arbitrary: s e p arr)
  case 0
  then show ?case by simp
next
  case (Suc f)
  show ?case
  proof (cases "p = length content")
    case True
    then show ?thesis using asset_read_end [OF Suc.prems(2)] by simp
  next
    case False
    then have more: "p < length content" using Suc.prems(2) by (simp add: stream_rel_def)
    obtain k s' e' where k: "0 < k" "int k \<le> len" "p + k \<le> length content"
      and r: "asset_read api (Some s) arr 0 len e = Some (int k, blit arr (nat 0) (take k (drop p content)), Some s', e')"
      and rel: "stream_rel content pos s' e' (p + k)"
      using asset_read_step [OF Suc.prems(1-3), of 0 arr] Suc.prems(4) more by auto
    let ?arr = "blit arr 0 (take k (drop p content))"
    have "length ?arr = nat len" "take k ?arr = take k (drop p content)"
      using k Suc.prems(4) by (auto simp: blit_def)
    moreover from this(1) have "drain f api len (Some s') ?arr e' = Some (drop (p + k) content)"
      using Suc.IH [OF Suc.prems(1) rel Suc.prems(3)] Suc.prems(5) k by simp
    moreover have "take k (drop p content) @ drop (p + k) content = drop p content"
      by (metis add.commute append_take_drop_id drop_drop)
    ultimately show ?thesis using r k(1) by simp
  qed
qed

theorem asset_drain_complete_witness:
  "drain 4 (demo_files ''abc'') 2 (Some \<lparr>s_fd = 3, s_size = 3, s_pos = 0, s_mem = None, s_calls = 0\<rparr>) ''xx'' 0 = Some ''abc''"
proof -
  have "stream_rel ''abc'' (\<lambda>fd e. e) \<lparr>s_fd = 3, s_size = 3, s_pos = 0, s_mem = None, s_calls = 0\<rparr> 0 0"
    by (simp add: stream_rel_def)
  from asset_drain_complete [OF demo_file_law this, of 2 "''xx''" 4] show ?thesis by simp
qed

theorem asset_open_error_witness:
  "\<exists>st p' e'. asset_open (demo_files ''abc'') ''intro.mp4'' False 5 = Some (st, p', e') \<and> st = None \<and>
     ExceptionCheck p' = 1 \<and> e' = 5"
proof -
  have r: "asset_open (demo_files ''abc'') ''intro.mp4'' False 5 = Some (None, True, 5)"
    by (simp add: asset_open_def has_suffix_def Let_def)
  show ?thesis using asset_open_error [OF r] r by auto
qed

text \<open>A negative \<open>skip\<close> takes the position of a stream in memory before its buffer; the next read leaves the buffer.\<close>

lemma negative_skip:
  "asset_skip (demo_files []) (Some \<lparr>s_fd = - 1, s_size = 3, s_pos = 0, s_mem = Some ''abc'', s_calls = 0\<rparr>) (- 1) 0 =
     Some (- 1, Some \<lparr>s_fd = - 1, s_size = 3, s_pos = - 1, s_mem = Some ''abc'', s_calls = 0\<rparr>, 0)"
  "asset_read (demo_files []) (Some \<lparr>s_fd = - 1, s_size = 3, s_pos = - 1, s_mem = Some ''abc'', s_calls = 0\<rparr>) ''xx'' 0 2 0 = None"
  by (simp_all add: asset_skip_def asset_read_def Let_def)

text \<open>A read of length 0 before the end reports the end of the stream.\<close>

lemma empty_read:
  "asset_read (demo_files []) (Some \<lparr>s_fd = - 1, s_size = 3, s_pos = 0, s_mem = Some ''abc'', s_calls = 0\<rparr>) ''xx'' 0 0 0 =
     Some (- 1, ''xx'', Some \<lparr>s_fd = - 1, s_size = 3, s_pos = 0, s_mem = Some ''abc'', s_calls = 1\<rparr>, 0)"
  by (simp add: asset_read_def put_bytes_def after_read_def)

end
