(* ===== verification/Jni_Audio.thy ===== *)
theory Jni_Audio
  imports Prelude
begin

text \<open>
  The \<open>AudioTrack\<close> emulation of \<open>jni_patch.c\<close> (\<open>audio_write\<close>, \<open>audio_stop\<close>): samples the game writes are
  gathered in a buffer of 2048 shorts and handed to the output port one full buffer at a time.  Opening
  the port is a parameter; what was handed to the port is the list \<open>played\<close>.  \<open>None\<close> is a copy that leaves
  the caller's array.
\<close>

definition JAVA_GRAIN :: nat where "JAVA_GRAIN = 1024"

record audio_track =
  audio_port :: int
  audio_buf :: "i16 list"
  audio_fill :: nat
  played :: "i16 list list"

definition audio_track_init :: audio_track where
  "audio_track_init = \<lparr>audio_port = - 1, audio_buf = replicate (JAVA_GRAIN * 2) 0, audio_fill = 0, played = []\<rparr>"

text \<open>The copying loop: \<open>src\<close> is the array, \<open>i\<close> the next sample, \<open>n\<close> the samples left.\<close>

function audio_loop :: "i16 list \<Rightarrow> nat \<Rightarrow> nat \<Rightarrow> audio_track \<Rightarrow> audio_track option" where
  "audio_loop src i n s =
     (if n = 0 then Some s
      else let k = min n (JAVA_GRAIN * 2 - audio_fill s)
           in if k = 0 then None
              else case memcpy_at (audio_buf s) (audio_fill s) src i k of None \<Rightarrow> None
                | Some buf \<Rightarrow>
                    let fill = audio_fill s + k;
                        s' = (if fill = JAVA_GRAIN * 2
                              then s\<lparr>audio_buf := buf, audio_fill := 0, played := played s @ [buf]\<rparr>
                              else s\<lparr>audio_buf := buf, audio_fill := fill\<rparr>)
                    in audio_loop src (i + k) (n - k) s')"
  by pat_completeness auto
termination
  by (relation "measure (\<lambda>(src, i, n, s). n)") auto

declare audio_loop.simps [simp del]

text \<open>\<open>open_port\<close> is the result of \<open>sceAudioOutOpenPort\<close>; without a port the samples are dropped.\<close>

definition audio_write :: "int \<Rightarrow> i16 list \<Rightarrow> int \<Rightarrow> int \<Rightarrow> audio_track \<Rightarrow> (int \<times> audio_track) option" where
  "audio_write open_port arr off len s =
     (let s = (if audio_port s < 0 then s\<lparr>audio_port := open_port\<rparr> else s)
      in if audio_port s < 0 then Some (len, s)
         else if len \<le> 0 then Some (len, s)
         else if off < 0 then None
         else do { s' \<leftarrow> audio_loop arr (nat off) (nat len) s; Some (len, s') })"

definition audio_stop :: "audio_track \<Rightarrow> audio_track" where
  "audio_stop s = (if 0 \<le> audio_port s then s\<lparr>audio_fill := 0\<rparr> else s)"

section \<open>No sample is lost\<close>

definition track_ok :: "audio_track \<Rightarrow> bool" where
  "track_ok s \<longleftrightarrow> length (audio_buf s) = JAVA_GRAIN * 2 \<and> audio_fill s < JAVA_GRAIN * 2 \<and>
     (\<forall>c \<in> set (played s). length c = JAVA_GRAIN * 2)"

text \<open>Everything written since the start: what was played and what still waits in the buffer.\<close>

definition track_samples :: "audio_track \<Rightarrow> i16 list" where
  "track_samples s = concat (played s) @ take (audio_fill s) (audio_buf s)"

lemma track_init: "track_ok audio_track_init" "track_samples audio_track_init = []"
  by (simp_all add: track_ok_def track_samples_def audio_track_init_def JAVA_GRAIN_def)

lemma audio_loop_spec:
  assumes "track_ok s" "i + n \<le> length src"
  shows "\<exists>s'. audio_loop src i n s = Some s' \<and> track_ok s' \<and> audio_port s' = audio_port s \<and>
    track_samples s' = track_samples s @ take n (drop i src)"
  using assms
proof (induction src i n s rule: audio_loop.induct)
  case (1 src i n s)
  let ?G = "JAVA_GRAIN * 2"
  define k where "k = min n (?G - audio_fill s)"
  show ?case
  proof (cases "n = 0")
    case True
    then show ?thesis using "1.prems" by (simp add: audio_loop.simps)
  next
    case False
    then have k: "0 < k" "k \<le> n" "audio_fill s + k \<le> ?G" using "1.prems" by (auto simp: k_def track_ok_def)
    let ?piece = "take k (drop i src)"
    let ?buf = "blit (audio_buf s) (audio_fill s) ?piece"
    have piece: "length ?piece = k" using k "1.prems" by simp
    have m: "memcpy_at (audio_buf s) (audio_fill s) src i k = Some ?buf"
      using k "1.prems" by (simp add: memcpy_at_def track_ok_def)
    have buf: "take (audio_fill s + k) ?buf = take (audio_fill s) (audio_buf s) @ ?piece"
      using k piece "1.prems" by (simp add: blit_def track_ok_def)
    have len: "length ?buf = ?G" using k piece "1.prems" by (simp add: track_ok_def)
    define s' where "s' = (if audio_fill s + k = ?G
      then s\<lparr>audio_buf := ?buf, audio_fill := 0, played := played s @ [?buf]\<rparr>
      else s\<lparr>audio_buf := ?buf, audio_fill := audio_fill s + k\<rparr>)"
    have step: "audio_loop src i n s = audio_loop src (i + k) (n - k) s'"
      using False k(1) m by (subst audio_loop.simps) (simp add: Let_def k_def [symmetric] s'_def)
    have ok: "track_ok s'" using "1.prems"(1) k len by (auto simp: s'_def track_ok_def)
    have samples: "track_samples s' = track_samples s @ ?piece"
      using buf len by (auto simp: s'_def track_samples_def)
    have "i + k + (n - k) \<le> length src" using "1.prems"(2) k by simp
    then have "\<exists>s''. audio_loop src (i + k) (n - k) s' = Some s'' \<and> track_ok s'' \<and> audio_port s'' = audio_port s' \<and>
        track_samples s'' = track_samples s' @ take (n - k) (drop (i + k) src)"
      using "1.IH" [OF False k_def _ m refl s'_def] k(1) ok by simp
    moreover have "audio_port s' = audio_port s" by (simp add: s'_def)
    moreover have "take n (drop i src) = ?piece @ take (n - k) (drop (i + k) src)"
      using k(2) by (metis add.commute drop_drop le_add_diff_inverse take_add)
    ultimately show ?thesis using step samples by simp
  qed
qed

text \<open>A sequence of writes of whole arrays, with the port open.\<close>

fun write_all :: "int \<Rightarrow> i16 list list \<Rightarrow> audio_track \<Rightarrow> audio_track option" where
  "write_all p [] s = Some s"
| "write_all p (a # as) s = do { (r, s) \<leftarrow> audio_write p a 0 (int (length a)) s; write_all p as s }"

lemma audio_write_spec:
  assumes "track_ok s" "0 \<le> p" "0 \<le> off" "0 \<le> len" "nat off + nat len \<le> length arr"
  shows "\<exists>s'. audio_write p arr off len s = Some (len, s') \<and> track_ok s' \<and>
    track_samples s' = track_samples s @ take (nat len) (drop (nat off) arr)"
proof -
  define t where "t = (if audio_port s < 0 then s\<lparr>audio_port := p\<rparr> else s)"
  have t: "track_ok t" "track_samples t = track_samples s" "0 \<le> audio_port t"
    using assms(1,2) by (auto simp: t_def track_ok_def track_samples_def)
  obtain s' where "audio_loop arr (nat off) (nat len) t = Some s'" "track_ok s'"
    "track_samples s' = track_samples t @ take (nat len) (drop (nat off) arr)"
    using audio_loop_spec [OF t(1) assms(5)] by blast
  then show ?thesis using t assms
    unfolding audio_write_def t_def [symmetric] by (cases "len = 0") auto
qed

text \<open>
  Whatever the game writes to the Java audio track, in pieces of any size, reaches the output in order and
  without loss: the port only gets full buffers, and they are the samples written so far up to a rest of
  less than one buffer.
\<close>
theorem audio_track_stream:
  assumes "0 \<le> p"
  shows "\<exists>s. write_all p as audio_track_init = Some s \<and> track_samples s = concat as \<and>
    (\<forall>c \<in> set (played s). length c = 2048) \<and>
    concat (played s) = take (2048 * (length (concat as) div 2048)) (concat as)"
proof -
  have "\<exists>s'. write_all p as s = Some s' \<and> track_ok s' \<and> track_samples s' = track_samples s @ concat as"
    if "track_ok s" for s
    using that
  proof (induction as arbitrary: s)
    case (Cons a as)
    obtain t where t: "audio_write p a 0 (int (length a)) s = Some (int (length a), t)" "track_ok t"
      "track_samples t = track_samples s @ a"
      using audio_write_spec [OF Cons.prems assms, of 0 "int (length a)" a] by auto
    then show ?case using Cons.IH [OF t(2)] by auto
  qed simp
  from this [OF track_init(1)] obtain s where s: "write_all p as audio_track_init = Some s" "track_ok s"
    "track_samples s = concat as" using track_init(2) by auto
  have chunks: "\<forall>c \<in> set (played s). length c = 2048" "audio_fill s < 2048" "length (audio_buf s) = 2048"
    using s(2) by (simp_all add: track_ok_def JAVA_GRAIN_def)
  have "length (concat cs) = 2048 * length cs" if "\<forall>c \<in> set cs. length c = 2048" for cs :: "i16 list list"
    using that by (induction cs) auto
  then have n: "length (concat (played s)) = 2048 * length (played s)" using chunks(1) .
  have "length (concat as) = 2048 * length (played s) + audio_fill s"
    using arg_cong [OF s(3), of length] n chunks by (simp add: track_samples_def)
  then have "length (concat as) div 2048 = length (played s)" using chunks(2) by simp
  then have "concat (played s) = take (2048 * (length (concat as) div 2048)) (concat as)"
    using s(3) n by (metis append_eq_conv_conj track_samples_def)
  then show ?thesis using s chunks by blast
qed

theorem audio_track_stream_witness:
  "\<exists>s. write_all 1 [[1, 2], [3]] audio_track_init = Some s \<and> track_samples s = [1, 2, 3] \<and> played s = []"
proof -
  obtain s where s: "write_all 1 [[1, 2], [3]] audio_track_init = Some s" "track_samples s = [1, 2, 3]"
    "\<forall>c \<in> set (played s). length c = 2048" "concat (played s) = []"
    using audio_track_stream [of 1 "[[1, 2], [3]]"] by auto
  from s(3,4) have "played s = []" by (cases "played s") auto
  with s show ?thesis by blast
qed

text \<open>Stopping drops the rest that waits in the buffer, so that the next sound starts on a clean buffer.\<close>

lemma audio_stop_samples:
  "track_ok s \<Longrightarrow> 0 \<le> audio_port s \<Longrightarrow> track_ok (audio_stop s) \<and> track_samples (audio_stop s) = concat (played s)"
  by (simp add: audio_stop_def track_ok_def track_samples_def)

end
