(* ===== verification/Pthread_Lazy.thy ===== *)
theory Pthread_Lazy
  imports Prelude
begin

text \<open>
  Lazy creation of the real synchronisation objects in \<open>pthread_bridge.c\<close> (\<open>mutex_get\<close>, \<open>cond_get\<close>,
  \<open>ksem_get\<close>): any number of threads look at the same 4-byte slot, and the one that finds it without an
  object under the bridge's lock creates one.  A step is one access to the slot or to the lock.
\<close>

definition IS_UNINIT :: "u32 \<Rightarrow> bool" where
  "IS_UNINIT v \<longleftrightarrow> v < 0x10000"

text \<open>The real kinds of a mutex, and which one a bionic initialiser in the slot asks for.\<close>

datatype mutex_kind = NORMAL | RECURSIVE | ERRORCHECK

definition mutex_kind_of :: "u32 \<Rightarrow> mutex_kind" where
  "mutex_kind_of init =
     (if init AND 0x4000 \<noteq> 0 then RECURSIVE else if init AND 0x8000 \<noteq> 0 then ERRORCHECK else NORMAL)"

text \<open>Where a thread is in \<open>mutex_get\<close>.\<close>

datatype get_pc =
    Look          \<comment> \<open>before the test outside the lock\<close>
  | Acquire       \<comment> \<open>waiting for \<open>bridge_lock\<close>\<close>
  | Recheck       \<comment> \<open>inside the lock, before the second test\<close>
  | Create        \<comment> \<open>inside the lock, the slot held no object\<close>
  | Unlock        \<comment> \<open>inside the lock, the slot holds an object\<close>
  | Reread        \<comment> \<open>after the lock, before the final read of the slot\<close>
  | Got u32

record 'k get_state =
  slot :: u32
  owner :: "nat option"
  created :: "(u32 \<times> 'k) list"
  pc :: "nat \<Rightarrow> get_pc"

text \<open>\<open>alloc n\<close> is the address of the \<open>n\<close>-th object, \<open>kind\<close> what is made of the slot's initialiser.\<close>

inductive get_step :: "(nat \<Rightarrow> u32) \<Rightarrow> (u32 \<Rightarrow> 'k) \<Rightarrow> 'k get_state \<Rightarrow> 'k get_state \<Rightarrow> bool"
  for alloc kind where
  look_done: "pc s t = Look \<Longrightarrow> \<not> IS_UNINIT (slot s) \<Longrightarrow>
    get_step alloc kind s (s\<lparr>pc := (pc s)(t := Got (slot s))\<rparr>)"
| look_uninit: "pc s t = Look \<Longrightarrow> IS_UNINIT (slot s) \<Longrightarrow>
    get_step alloc kind s (s\<lparr>pc := (pc s)(t := Acquire)\<rparr>)"
| acquire: "pc s t = Acquire \<Longrightarrow> owner s = None \<Longrightarrow>
    get_step alloc kind s (s\<lparr>owner := Some t, pc := (pc s)(t := Recheck)\<rparr>)"
| recheck_uninit: "pc s t = Recheck \<Longrightarrow> IS_UNINIT (slot s) \<Longrightarrow>
    get_step alloc kind s (s\<lparr>pc := (pc s)(t := Create)\<rparr>)"
| recheck_done: "pc s t = Recheck \<Longrightarrow> \<not> IS_UNINIT (slot s) \<Longrightarrow>
    get_step alloc kind s (s\<lparr>pc := (pc s)(t := Unlock)\<rparr>)"
| create: "pc s t = Create \<Longrightarrow>
    get_step alloc kind s (s\<lparr>slot := alloc (length (created s)),
      created := created s @ [(alloc (length (created s)), kind (slot s))], pc := (pc s)(t := Unlock)\<rparr>)"
| unlock: "pc s t = Unlock \<Longrightarrow>
    get_step alloc kind s (s\<lparr>owner := None, pc := (pc s)(t := Reread)\<rparr>)"
| reread: "pc s t = Reread \<Longrightarrow>
    get_step alloc kind s (s\<lparr>pc := (pc s)(t := Got (slot s))\<rparr>)"

definition get_init :: "u32 \<Rightarrow> 'k get_state" where
  "get_init v = \<lparr>slot = v, owner = None, created = [], pc = (\<lambda>_. Look)\<rparr>"

inductive get_reachable :: "(nat \<Rightarrow> u32) \<Rightarrow> (u32 \<Rightarrow> 'k) \<Rightarrow> u32 \<Rightarrow> 'k get_state \<Rightarrow> bool"
  for alloc kind v where
  start: "get_reachable alloc kind v (get_init v)"
| step: "get_reachable alloc kind v s \<Longrightarrow> get_step alloc kind s s' \<Longrightarrow> get_reachable alloc kind v s'"

section \<open>One object, and everyone gets it\<close>

definition inside :: "get_pc \<Rightarrow> bool" where
  "inside p \<longleftrightarrow> p = Recheck \<or> p = Create \<or> p = Unlock"

definition early :: "get_pc \<Rightarrow> bool" where
  "early p \<longleftrightarrow> p = Look \<or> p = Acquire \<or> p = Recheck \<or> p = Create"

definition late :: "u32 \<Rightarrow> get_pc \<Rightarrow> bool" where
  "late a p \<longleftrightarrow> p \<noteq> Create \<and> (\<forall>b. p = Got b \<longrightarrow> b = a)"

text \<open>
  The lock is held by the one thread inside; before the object exists nobody has passed the creation; once
  it exists the slot holds it and nobody is about to create another.
\<close>

definition lock_inv :: "'k get_state \<Rightarrow> bool" where
  "lock_inv s \<longleftrightarrow> (\<forall>t. inside (pc s t) \<longleftrightarrow> owner s = Some t)"

definition slot_inv :: "(nat \<Rightarrow> u32) \<Rightarrow> (u32 \<Rightarrow> 'k) \<Rightarrow> u32 \<Rightarrow> 'k get_state \<Rightarrow> bool" where
  "slot_inv alloc kind v s \<longleftrightarrow>
     created s = [] \<and> slot s = v \<and> (\<forall>t. early (pc s t)) \<or>
     created s = [(alloc 0, kind v)] \<and> slot s = alloc 0 \<and> (\<forall>t. late (alloc 0) (pc s t))"

lemma owner_inside: "lock_inv s \<Longrightarrow> inside (pc s t) \<Longrightarrow> owner s = Some t"
  by (simp add: lock_inv_def)

lemma inside_simps [simp]: "inside Recheck" "inside Create" "inside Unlock"
  by (simp_all add: inside_def)

lemma lock_inv_upd:
  "lock_inv s \<Longrightarrow> inside x = inside (pc s t) \<Longrightarrow> lock_inv (s\<lparr>pc := (pc s)(t := x)\<rparr>)"
  "lock_inv s \<Longrightarrow> inside x = inside (pc s t) \<Longrightarrow> lock_inv (s\<lparr>slot := a, created := c, pc := (pc s)(t := x)\<rparr>)"
  by (simp_all add: lock_inv_def)

lemma inside_outside [simp]: "\<not> inside Look" "\<not> inside Acquire" "\<not> inside Reread" "\<not> inside (Got a)"
  by (simp_all add: inside_def)

lemma lock_inv_step:
  assumes "get_step alloc kind s s'" "lock_inv s"
  shows "lock_inv s'"
  using assms(1)
proof cases
  case (acquire t)
  then show ?thesis using assms(2) by (simp add: lock_inv_def inside_def)
next
  case (unlock t)
  then have "owner s = Some t" using owner_inside [OF assms(2), of t] by simp
  then show ?thesis using unlock assms(2) by (auto simp: lock_inv_def inside_def)
qed (use assms(2) in \<open>simp_all add: lock_inv_upd\<close>)

lemma slot_inv_step:
  assumes "get_step alloc kind s s'" "lock_inv s" "slot_inv alloc kind v s" "IS_UNINIT v" "\<not> IS_UNINIT (alloc 0)"
  shows "slot_inv alloc kind v s'"
proof (cases "created s = []")
  case True
  then have s: "slot s = v" "\<forall>t. early (pc s t)" using assms(3) by (auto simp: slot_inv_def)
  from assms(1) show ?thesis
  proof cases
    case (create t)
    have "late (alloc 0) (pc s u)" if "u \<noteq> t" for u
    proof -
      have "owner s = Some t" "inside (pc s u) \<longleftrightarrow> owner s = Some u"
        using owner_inside [OF assms(2), of t] create(2) assms(2) by (simp_all add: lock_inv_def)
      then have "\<not> inside (pc s u)" using that by simp
      then show ?thesis using spec [OF s(2), of u] by (auto simp: early_def late_def inside_def)
    qed
    moreover have "late (alloc 0) Unlock" by (simp add: late_def)
    ultimately show ?thesis using create True s(1) by (simp add: slot_inv_def)
  next
    case (unlock t)
    then have "early Unlock" using s(2) by metis
    then show ?thesis by (simp add: early_def)
  next
    case (reread t)
    then have "early Reread" using s(2) by metis
    then show ?thesis by (simp add: early_def)
  qed (use True s assms(4) in \<open>simp_all add: slot_inv_def early_def\<close>)
next
  case False
  then have s: "created s = [(alloc 0, kind v)]" "slot s = alloc 0" "\<forall>t. late (alloc 0) (pc s t)"
    using assms(3) by (auto simp: slot_inv_def)
  from assms(1) show ?thesis
  proof cases
    case (create t)
    then have "late (alloc 0) Create" using s(3) by metis
    then show ?thesis by (simp add: late_def)
  qed (use s assms(5) in \<open>simp_all add: slot_inv_def late_def\<close>)
qed

lemma get_reachable_inv:
  assumes "get_reachable alloc kind v s" "IS_UNINIT v" "\<And>n. \<not> IS_UNINIT (alloc n)"
  shows "lock_inv s \<and> slot_inv alloc kind v s"
  using assms(1)
proof induction
  case start
  show ?case by (simp add: lock_inv_def slot_inv_def get_init_def inside_def early_def)
next
  case (step s s')
  then show ?case using lock_inv_step slot_inv_step assms(2,3) by blast
qed

text \<open>
  C6: However the threads that use an uninitialised slot for the first time are interleaved, at most one real object
  is created, of the kind the slot's initialiser asks for, at most one thread is inside the lock, and every
  thread that comes out has that object.
\<close>
theorem lazy_creation_once:
  assumes "get_reachable alloc mutex_kind_of v s" "IS_UNINIT v" "\<And>n. \<not> IS_UNINIT (alloc n)"
  shows "length (created s) \<le> 1 \<and> (\<forall>t a. pc s t = Got a \<longrightarrow> created s = [(a, mutex_kind_of v)] \<and> slot s = a) \<and>
    (\<forall>t u. inside (pc s t) \<longrightarrow> inside (pc s u) \<longrightarrow> t = u)"
proof -
  have inv: "lock_inv s" "slot_inv alloc mutex_kind_of v s" using get_reachable_inv [OF assms] by simp_all
  have "created s = [(a, mutex_kind_of v)] \<and> slot s = a" if "pc s t = Got a" for t a
  proof -
    have "\<not> early (pc s t)" using that by (simp add: early_def)
    then have "created s = [(alloc 0, mutex_kind_of v)]" "slot s = alloc 0" "late (alloc 0) (pc s t)"
      using inv(2) by (auto simp: slot_inv_def)
    then show ?thesis using that by (simp add: late_def)
  qed
  moreover have "length (created s) \<le> 1" using inv(2) by (auto simp: slot_inv_def)
  moreover have "t = u" if "inside (pc s t)" "inside (pc s u)" for t u
    using inv(1) that by (simp add: lock_inv_def)
  ultimately show ?thesis by blast
qed

text \<open>Two threads, both of which find the slot empty.\<close>

lemma two_threads:
  "\<exists>s. get_reachable (\<lambda>n. 0x81000000) mutex_kind_of 0x4000 s \<and> pc s 0 = Got 0x81000000 \<and> pc s 1 = Got 0x81000000"
proof -
  define R where "R = get_reachable (\<lambda>n. 0x81000000) mutex_kind_of 0x4000"
  define st where "st = (\<lambda>sl ow cr p0 p1. \<lparr>slot = sl, owner = ow, created = cr,
    pc = (\<lambda>_. Look)(0 := p0, 1 := p1)\<rparr> :: mutex_kind get_state)"
  have next_state: "R s \<Longrightarrow> get_step (\<lambda>n. 0x81000000) mutex_kind_of s s' \<Longrightarrow> R s'" for s s'
    unfolding R_def by (rule get_reachable.step)
  have i: "IS_UNINIT 0x4000" "\<not> IS_UNINIT 0x81000000" by (simp_all add: IS_UNINIT_def)
  let ?o = "[(0x81000000, mutex_kind_of 0x4000)]"
  have "R (st 0x4000 None [] Look Look)"
  proof -
    have "st 0x4000 None [] Look Look = get_init 0x4000" by (simp add: st_def get_init_def fun_eq_iff)
    then show ?thesis unfolding R_def by (simp only: get_reachable.start)
  qed
  then have "R (st 0x4000 None [] Acquire Look)"
    by (rule next_state) (use get_step.look_uninit [of "st 0x4000 None [] Look Look" 0] i in \<open>simp add: st_def fun_upd_twist\<close>)
  then have "R (st 0x4000 None [] Acquire Acquire)"
    by (rule next_state) (use get_step.look_uninit [of "st 0x4000 None [] Acquire Look" 1] i in \<open>simp add: st_def\<close>)
  then have "R (st 0x4000 (Some 0) [] Recheck Acquire)"
    by (rule next_state) (use get_step.acquire [of "st 0x4000 None [] Acquire Acquire" 0] in \<open>simp add: st_def fun_upd_twist\<close>)
  then have "R (st 0x4000 (Some 0) [] Create Acquire)"
    by (rule next_state) (use get_step.recheck_uninit [of "st 0x4000 (Some 0) [] Recheck Acquire" 0] i in \<open>simp add: st_def fun_upd_twist\<close>)
  then have "R (st 0x81000000 (Some 0) ?o Unlock Acquire)"
    by (rule next_state) (use get_step.create [of "st 0x4000 (Some 0) [] Create Acquire" 0 "\<lambda>n. 0x81000000"] in \<open>simp add: st_def fun_upd_twist\<close>)
  then have "R (st 0x81000000 None ?o Reread Acquire)"
    by (rule next_state) (use get_step.unlock [of "st 0x81000000 (Some 0) ?o Unlock Acquire" 0] in \<open>simp add: st_def fun_upd_twist\<close>)
  then have "R (st 0x81000000 None ?o (Got 0x81000000) Acquire)"
    by (rule next_state) (use get_step.reread [of "st 0x81000000 None ?o Reread Acquire" 0] in \<open>simp add: st_def fun_upd_twist\<close>)
  then have "R (st 0x81000000 (Some 1) ?o (Got 0x81000000) Recheck)"
    by (rule next_state) (use get_step.acquire [of "st 0x81000000 None ?o (Got 0x81000000) Acquire" 1] in \<open>simp add: st_def\<close>)
  then have "R (st 0x81000000 (Some 1) ?o (Got 0x81000000) Unlock)"
    by (rule next_state) (use get_step.recheck_done [of "st 0x81000000 (Some 1) ?o (Got 0x81000000) Recheck" 1] i in \<open>simp add: st_def\<close>)
  then have "R (st 0x81000000 None ?o (Got 0x81000000) Reread)"
    by (rule next_state) (use get_step.unlock [of "st 0x81000000 (Some 1) ?o (Got 0x81000000) Unlock" 1] in \<open>simp add: st_def\<close>)
  then have "R (st 0x81000000 None ?o (Got 0x81000000) (Got 0x81000000))"
    by (rule next_state) (use get_step.reread [of "st 0x81000000 None ?o (Got 0x81000000) Reread" 1] in \<open>simp add: st_def\<close>)
  then show ?thesis unfolding R_def by (intro exI conjI) (assumption, simp_all add: st_def)
qed

theorem lazy_creation_once_witness:
  "\<exists>s. get_reachable (\<lambda>n. 0x81000000) mutex_kind_of 0x4000 s \<and> pc s 1 = Got 0x81000000 \<and>
     created s = [(0x81000000, RECURSIVE)] \<and> length (created s) \<le> 1"
proof -
  obtain s where s: "get_reachable (\<lambda>n. 0x81000000) mutex_kind_of 0x4000 s" "pc s 1 = Got 0x81000000"
    using two_threads by blast
  have "length (created s) \<le> 1 \<and> created s = [(0x81000000, mutex_kind_of 0x4000)]"
    using lazy_creation_once [OF s(1)] s(2) by (simp add: IS_UNINIT_def)
  then show ?thesis using s by (auto simp: mutex_kind_of_def)
qed

end
