(* ===== verification/Pthread_Bridge.thy ===== *)
theory Pthread_Bridge
  imports Pthread_Lazy Machine
begin

text \<open>
  The functions of \<open>pthread_bridge.c\<close> one call at a time: bionic's mutexes, condition variables, thread
  attributes, threads and semaphores as 4-byte slots in the game's memory over newlib's and the kernel's
  objects.  The objects behind the slots are a table from addresses to what was made there; \<open>calloc\<close> gives
  the next address (\<open>fresh\<close>), never a small one.
\<close>

section \<open>Mutexes\<close>

record bridge =
  bmem :: memory
  mutexes :: "u32 \<rightharpoonup> mutex_kind"
  conds :: "u32 set"
  attrs :: "u32 \<rightharpoonup> nat"     \<comment> \<open>the stack sizes of the real attribute objects\<close>
  detached :: "u32 \<rightharpoonup> bool"
  next_obj :: nat

definition slot_of :: "bridge \<Rightarrow> u32 \<Rightarrow> u32" where
  "slot_of b a = load32 (bmem b) a"

definition put_slot :: "u32 \<Rightarrow> u32 \<Rightarrow> bridge \<Rightarrow> bridge" where
  "put_slot a v b = b\<lparr>bmem := write_bytes (bmem b) a (le32 v)\<rparr>"

definition mutex_get :: "(nat \<Rightarrow> u32) \<Rightarrow> u32 \<Rightarrow> bridge \<Rightarrow> u32 \<times> bridge" where
  "mutex_get fresh a b =
     (if \<not> IS_UNINIT (slot_of b a) then (slot_of b a, b)
      else let m = fresh (next_obj b); kind = mutex_kind_of (slot_of b a);
               b = put_slot a m (b\<lparr>mutexes := (mutexes b)(m \<mapsto> kind), next_obj := next_obj b + 1\<rparr>)
           in (slot_of b a, b))"

text \<open>The 4-byte attribute of a bionic mutex is its type: 0 normal, 1 recursive, 2 error checking.\<close>

definition pthread_mutexattr_init_bridge :: "u32 \<Rightarrow> bridge \<Rightarrow> bridge" where
  "pthread_mutexattr_init_bridge attr b = put_slot attr 0 b"

definition pthread_mutexattr_settype_bridge :: "u32 \<Rightarrow> u32 \<Rightarrow> bridge \<Rightarrow> bridge" where
  "pthread_mutexattr_settype_bridge attr ty b = put_slot attr ty b"

definition pthread_mutex_init_bridge :: "(nat \<Rightarrow> u32) \<Rightarrow> u32 \<Rightarrow> u32 \<Rightarrow> bridge \<Rightarrow> bridge" where
  "pthread_mutex_init_bridge fresh a attr b =
     (let ty = (if attr \<noteq> 0 then slot_of b attr else 0)
      in snd (mutex_get fresh a (put_slot a (if ty = 1 then 0x4000 else if ty = 2 then 0x8000 else 0) b)))"

definition pthread_mutex_destroy_bridge :: "u32 \<Rightarrow> bridge \<Rightarrow> bridge" where
  "pthread_mutex_destroy_bridge a b =
     (if \<not> IS_UNINIT (slot_of b a) then put_slot a 0 (b\<lparr>mutexes := (mutexes b)(slot_of b a := None)\<rparr>) else b)"

text \<open>Locking, trying and unlocking call newlib's function (\<open>f\<close>) on the real object.\<close>

definition pthread_mutex_op_bridge :: "(nat \<Rightarrow> u32) \<Rightarrow> (u32 \<Rightarrow> 'r) \<Rightarrow> u32 \<Rightarrow> bridge \<Rightarrow> 'r \<times> bridge" where
  "pthread_mutex_op_bridge fresh f a b = (let (m, b) = mutex_get fresh a b in (f m, b))"

section \<open>Condition variables\<close>

definition cond_get :: "(nat \<Rightarrow> u32) \<Rightarrow> u32 \<Rightarrow> bridge \<Rightarrow> u32 \<times> bridge" where
  "cond_get fresh a b =
     (if \<not> IS_UNINIT (slot_of b a) then (slot_of b a, b)
      else let c = fresh (next_obj b);
               b = put_slot a c (b\<lparr>conds := insert c (conds b), next_obj := next_obj b + 1\<rparr>)
           in (slot_of b a, b))"

definition pthread_cond_init_bridge :: "(nat \<Rightarrow> u32) \<Rightarrow> u32 \<Rightarrow> bridge \<Rightarrow> bridge" where
  "pthread_cond_init_bridge fresh a b = snd (cond_get fresh a (put_slot a 0 b))"

definition pthread_cond_destroy_bridge :: "u32 \<Rightarrow> bridge \<Rightarrow> bridge" where
  "pthread_cond_destroy_bridge a b =
     (if \<not> IS_UNINIT (slot_of b a) then put_slot a 0 (b\<lparr>conds := conds b - {slot_of b a}\<rparr>) else b)"

definition pthread_cond_op_bridge :: "(nat \<Rightarrow> u32) \<Rightarrow> (u32 \<Rightarrow> 'r) \<Rightarrow> u32 \<Rightarrow> bridge \<Rightarrow> 'r \<times> bridge" where
  "pthread_cond_op_bridge fresh f a b = (let (c, b) = cond_get fresh a b in (f c, b))"

definition pthread_cond_wait_bridge :: "(nat \<Rightarrow> u32) \<Rightarrow> (u32 \<Rightarrow> u32 \<Rightarrow> 'r) \<Rightarrow> u32 \<Rightarrow> u32 \<Rightarrow> bridge \<Rightarrow> 'r \<times> bridge" where
  "pthread_cond_wait_bridge fresh f c m b =
     (let (rc, b) = cond_get fresh c b; (rm, b) = mutex_get fresh m b in (f rc rm, b))"

text \<open>A deadline is a pair of seconds and nanoseconds; \<open>None\<close> is a null pointer.\<close>

definition deadline_is_far :: "(int \<times> int) option \<Rightarrow> int \<times> int \<Rightarrow> bool" where
  "deadline_is_far ts now = (case ts of None \<Rightarrow> True | Some (s, ns) \<Rightarrow> 3600 < s - fst now)"

datatype wait_kind = Untimed | Timed "int \<times> int"

text \<open>Which of newlib's waits is called.\<close>

definition pthread_cond_timedwait_bridge :: "(int \<times> int) option \<Rightarrow> int \<times> int \<Rightarrow> wait_kind" where
  "pthread_cond_timedwait_bridge ts now =
     (if deadline_is_far ts now then Untimed else case ts of None \<Rightarrow> Untimed | Some d \<Rightarrow> Timed d)"

section \<open>Thread attributes and threads\<close>

definition DEFAULT_STACK :: nat where "DEFAULT_STACK = 512 * 1024"
definition BIG_STACK :: nat where "BIG_STACK = 2 * 1024 * 1024"
definition MAX_STACK :: nat where "MAX_STACK = 4 * 1024 * 1024"

text \<open>The first word of the 24-byte bionic attribute points to the real one.\<close>

definition attr_get :: "(nat \<Rightarrow> u32) \<Rightarrow> u32 \<Rightarrow> bridge \<Rightarrow> u32 \<times> bridge" where
  "attr_get fresh a b =
     (if a = 0 then (0, b)
      else if IS_UNINIT (slot_of b a) then
        let r = fresh (next_obj b);
            b = put_slot a r (b\<lparr>attrs := (attrs b)(r \<mapsto> DEFAULT_STACK), next_obj := next_obj b + 1\<rparr>)
        in (slot_of b a, b)
      else (slot_of b a, b))"

definition pthread_attr_init_bridge :: "(nat \<Rightarrow> u32) \<Rightarrow> u32 \<Rightarrow> bridge \<Rightarrow> bridge" where
  "pthread_attr_init_bridge fresh a b =
     snd (attr_get fresh a (b\<lparr>bmem := write_bytes (bmem b) a (replicate 24 0)\<rparr>))"

definition pthread_attr_destroy_bridge :: "u32 \<Rightarrow> bridge \<Rightarrow> bridge" where
  "pthread_attr_destroy_bridge a b =
     (if a \<noteq> 0 \<and> \<not> IS_UNINIT (slot_of b a) then put_slot a 0 (b\<lparr>attrs := (attrs b)(slot_of b a := None)\<rparr>) else b)"

definition pthread_attr_setdetachstate_bridge :: "(nat \<Rightarrow> u32) \<Rightarrow> u32 \<Rightarrow> u32 \<Rightarrow> bridge \<Rightarrow> bridge" where
  "pthread_attr_setdetachstate_bridge fresh a st b =
     (let (r, b) = attr_get fresh a b in b\<lparr>detached := (detached b)(r \<mapsto> (st \<noteq> 0))\<rparr>)"

definition clamp_stack :: "nat \<Rightarrow> nat" where
  "clamp_stack n =
     (let n = (if n < 64 * 1024 then 64 * 1024 else n) in if MAX_STACK < n then MAX_STACK else n)"

definition pthread_attr_setstacksize_bridge :: "(nat \<Rightarrow> u32) \<Rightarrow> u32 \<Rightarrow> nat \<Rightarrow> bridge \<Rightarrow> bridge" where
  "pthread_attr_setstacksize_bridge fresh a n b =
     (let (r, b) = attr_get fresh a b in b\<lparr>attrs := (attrs b)(r \<mapsto> clamp_stack n)\<rparr>)"

definition pthread_attr_getstack_bridge :: "u32 \<times> nat" where
  "pthread_attr_getstack_bridge = (0, DEFAULT_STACK)"

text \<open>The stack a new thread gets: the creation counter, the attribute object it is created with.\<close>

definition wanted_stack :: "nat \<Rightarrow> nat" where
  "wanted_stack idx = (if 9 \<le> idx \<and> idx \<le> 11 then BIG_STACK else DEFAULT_STACK)"

definition pthread_create_stack :: "(nat \<Rightarrow> u32) \<Rightarrow> nat \<Rightarrow> u32 \<Rightarrow> bridge \<Rightarrow> nat option \<times> nat \<times> bridge" where
  "pthread_create_stack fresh threads a b =
     (let (ra, b) = attr_get fresh a b; idx = threads + 1; want = wanted_stack idx
      in if ra = 0 then (Some want, idx, b)
         else let b = (if DEFAULT_STACK < want then b\<lparr>attrs := (attrs b)(ra \<mapsto> want)\<rparr> else b)
              in (attrs b ra, idx, b))"

definition pthread_self_bridge :: "u32 \<Rightarrow> u32" where
  "pthread_self_bridge t = (if t \<noteq> 0 then t else 0x4D41494E)"

section \<open>The thread registry\<close>

text \<open>Names are cut to 31 characters; \<open>None\<close> is a null pointer.\<close>

definition thread_registry_add :: "int \<Rightarrow> string option \<Rightarrow> (int \<times> string) list \<Rightarrow> (int \<times> string) list" where
  "thread_registry_add uid nm reg =
     (if uid \<in> fst ` set reg then
        (case nm of None \<Rightarrow> reg
         | Some n \<Rightarrow> map (\<lambda>(u, k). if u = uid then (u, take 31 n) else (u, k)) reg)
      else if length reg < 64 then reg @ [(uid, take 31 (case nm of None \<Rightarrow> ''?'' | Some n \<Rightarrow> n))]
      else reg)"

text \<open>
  What a new thread does before its function runs: it registers itself and, once the priority of the main
  thread is known, takes the next lower one (a larger number).
\<close>

definition thread_boot_fn :: "int \<Rightarrow> int \<Rightarrow> (int \<times> string) list \<Rightarrow> (int \<times> string) list \<times> int option" where
  "thread_boot_fn main_prio uid reg =
     (thread_registry_add uid (Some ''pthread'') reg, if main_prio \<noteq> 0 then Some (main_prio + 1) else None)"

section \<open>Semaphores\<close>

record kernel_sems =
  sem_mem :: memory
  sema :: "u32 \<rightharpoonup> int"     \<comment> \<open>the counts of the kernel's semaphores\<close>
  next_sem :: nat
  errno :: nat

definition EINVAL :: nat where "EINVAL = 22"
definition EAGAIN :: nat where "EAGAIN = 11"
definition ETIMEDOUT :: nat where "ETIMEDOUT = 116"

text \<open>The largest count of a semaphore the bridge creates.\<close>

definition SEMA_MAX :: int where "SEMA_MAX = 0x7FFFFFFF"

text \<open>\<open>create n init\<close> is the identifier \<open>sceKernelCreateSema\<close> gives, or \<open>None\<close> where it fails.\<close>

definition ksem_get :: "(nat \<Rightarrow> u32 option) \<Rightarrow> u32 \<Rightarrow> kernel_sems \<Rightarrow> u32 \<times> kernel_sems" where
  "ksem_get create a k =
     (let v = load32 (sem_mem k) a
      in if 0x10000 \<le> v then (v, k)
         else case create (next_sem k) of
             None \<Rightarrow> (v, k)
           | Some i \<Rightarrow>
               let k = k\<lparr>sema := (sema k)(i \<mapsto> sint v), next_sem := next_sem k + 1,
                         sem_mem := write_bytes (sem_mem k) a (le32 i)\<rparr>
               in (load32 (sem_mem k) a, k))"

definition sem_init_bridge :: "(nat \<Rightarrow> u32 option) \<Rightarrow> u32 \<Rightarrow> u32 \<Rightarrow> kernel_sems \<Rightarrow> kernel_sems" where
  "sem_init_bridge create a value k =
     snd (ksem_get create a (k\<lparr>sem_mem := write_bytes (sem_mem k) a (le32 value)\<rparr>))"

definition sem_destroy_bridge :: "u32 \<Rightarrow> kernel_sems \<Rightarrow> kernel_sems" where
  "sem_destroy_bridge a k =
     (let v = load32 (sem_mem k) a
      in if 0x10000 \<le> v then k\<lparr>sema := (sema k)(v := None), sem_mem := write_bytes (sem_mem k) a (le32 0)\<rparr> else k)"

definition ksem_bad :: "u32 \<Rightarrow> bool" where
  "ksem_bad i \<longleftrightarrow> sint i \<le> 0"

definition sem_post_bridge :: "(nat \<Rightarrow> u32 option) \<Rightarrow> u32 \<Rightarrow> kernel_sems \<Rightarrow> int \<times> kernel_sems" where
  "sem_post_bridge create a k =
     (let (i, k) = ksem_get create a k
      in if ksem_bad i then (- 1, k\<lparr>errno := EINVAL\<rparr>)
         else case sema k i of None \<Rightarrow> (- 1, k) | Some c \<Rightarrow>
              if c < SEMA_MAX then (0, k\<lparr>sema := (sema k)(i \<mapsto> c + 1)\<rparr>) else (- 1, k))"

text \<open>A wait that finds the count 0 would block: no result.\<close>

definition sem_wait_bridge :: "(nat \<Rightarrow> u32 option) \<Rightarrow> u32 \<Rightarrow> kernel_sems \<Rightarrow> (int \<times> kernel_sems) option" where
  "sem_wait_bridge create a k =
     (let (i, k) = ksem_get create a k
      in if ksem_bad i then Some (- 1, k\<lparr>errno := EINVAL\<rparr>)
         else case sema k i of None \<Rightarrow> Some (- 1, k)
           | Some c \<Rightarrow> if 0 < c then Some (0, k\<lparr>sema := (sema k)(i \<mapsto> c - 1)\<rparr>) else None)"

definition sem_trywait_bridge :: "(nat \<Rightarrow> u32 option) \<Rightarrow> u32 \<Rightarrow> kernel_sems \<Rightarrow> int \<times> kernel_sems" where
  "sem_trywait_bridge create a k =
     (let (i, k) = ksem_get create a k
      in case sema k i of
          Some c \<Rightarrow> if 0 < c then (0, k\<lparr>sema := (sema k)(i \<mapsto> c - 1)\<rparr>) else (- 1, k\<lparr>errno := EAGAIN\<rparr>)
        | None \<Rightarrow> (- 1, k\<lparr>errno := EAGAIN\<rparr>))"

text \<open>The timeout of \<open>sem_timedwait\<close> in microseconds; \<open>None\<close> is a wait without one.\<close>

definition time_left :: "int \<times> int \<Rightarrow> int \<times> int \<Rightarrow> int" where
  "time_left ts now =
     (fst ts - fst now) * 1000000 +
       (let d = snd ts - snd now in if d < 0 then - (- d div 1000) else d div 1000)"

definition sem_timeout :: "(int \<times> int) option \<Rightarrow> int \<times> int \<Rightarrow> u32 option" where
  "sem_timeout ts now =
     (case ts of None \<Rightarrow> None
      | Some d \<Rightarrow>
          let us = time_left d now
          in if 3600 * 1000000 < us then None
             else Some (word_of_int (if us < 0 then 0 else us)))"

definition sem_getvalue :: "nat \<Rightarrow> int \<Rightarrow> int" where
  "sem_getvalue num_wait_threads current_count =
     (if 0 < num_wait_threads then - int num_wait_threads else current_count)"

section \<open>Once\<close>

text \<open>One call, with nobody else in between: how often the initialiser runs, and the slot afterwards.\<close>

definition pthread_once_bridge :: "int \<Rightarrow> nat \<times> int" where
  "pthread_once_bridge v = (if v = 2 then (0, v) else (1, 2))"

datatype once_pc = O_look | O_lock | O_run | O_relock | O_done

record once_state =
  once_slot :: int
  runs :: nat
  opc :: "nat \<Rightarrow> once_pc"

text \<open>
  Concurrent calls: the lock is given back while the initialiser runs.  \<open>O_lock\<close> takes the lock, tests the
  slot and gives it back in one step, since nothing inside it waits.
\<close>

inductive once_step :: "once_state \<Rightarrow> once_state \<Rightarrow> bool" where
  "opc s t = O_look \<Longrightarrow> once_slot s = 2 \<Longrightarrow> once_step s (s\<lparr>opc := (opc s)(t := O_done)\<rparr>)"
| "opc s t = O_look \<Longrightarrow> once_slot s \<noteq> 2 \<Longrightarrow> once_step s (s\<lparr>opc := (opc s)(t := O_lock)\<rparr>)"
| "opc s t = O_lock \<Longrightarrow> once_slot s \<noteq> 2 \<Longrightarrow> once_step s (s\<lparr>once_slot := 1, opc := (opc s)(t := O_run)\<rparr>)"
| "opc s t = O_lock \<Longrightarrow> once_slot s = 2 \<Longrightarrow> once_step s (s\<lparr>opc := (opc s)(t := O_done)\<rparr>)"
| "opc s t = O_run \<Longrightarrow> once_step s (s\<lparr>runs := runs s + 1, opc := (opc s)(t := O_relock)\<rparr>)"
| "opc s t = O_relock \<Longrightarrow> once_step s (s\<lparr>once_slot := 2, opc := (opc s)(t := O_done)\<rparr>)"

section \<open>Slots\<close>

lemma slot_put [simp]: "slot_of (put_slot a v b) a = v"
  using flat.load32_written [of 0 "[v]" "bmem b" a] by (simp add: slot_of_def put_slot_def)

lemma put_slot_simps [simp]:
  "mutexes (put_slot a v b) = mutexes b" "next_obj (put_slot a v b) = next_obj b" "attrs (put_slot a v b) = attrs b"
  "conds (put_slot a v b) = conds b"
  by (simp_all add: put_slot_def)

lemma slot_of_update [simp]:
  "slot_of (b\<lparr>mutexes := x\<rparr>) a = slot_of b a" "slot_of (b\<lparr>attrs := y\<rparr>) a = slot_of b a"
  "slot_of (b\<lparr>next_obj := n\<rparr>) a = slot_of b a" "slot_of (b\<lparr>conds := c\<rparr>) a = slot_of b a"
  by (simp_all add: slot_of_def)

text \<open>The kind of mutex a bionic attribute type asks for.\<close>

definition bionic_kind :: "u32 \<Rightarrow> mutex_kind" where
  "bionic_kind ty = (if ty = 1 then RECURSIVE else if ty = 2 then ERRORCHECK else NORMAL)"


definition demo_bridge :: bridge where
  "demo_bridge = \<lparr>bmem = (\<lambda>_. 0)(0x2000 := 1), mutexes = Map.empty, conds = {}, attrs = Map.empty,
     detached = Map.empty, next_obj = 0\<rparr>"


section \<open>Stack sizes\<close>

definition stacks_ok :: "bridge \<Rightarrow> bool" where
  "stacks_ok b \<longleftrightarrow> (\<forall>r n. attrs b r = Some n \<longrightarrow> 64 * 1024 \<le> n \<and> n \<le> MAX_STACK)"

lemma stack_sizes:
  "64 * 1024 \<le> DEFAULT_STACK" "DEFAULT_STACK \<le> MAX_STACK" "64 * 1024 \<le> BIG_STACK" "BIG_STACK \<le> MAX_STACK"
  "64 * 1024 \<le> clamp_stack n" "clamp_stack n \<le> MAX_STACK"
  by (simp_all add: DEFAULT_STACK_def BIG_STACK_def MAX_STACK_def clamp_stack_def Let_def)

lemma stacks_ok_update:
  "stacks_ok b \<Longrightarrow> 64 * 1024 \<le> n \<Longrightarrow> n \<le> MAX_STACK \<Longrightarrow> attrs b' = (attrs b)(r \<mapsto> n) \<Longrightarrow> stacks_ok b'"
  by (auto simp: stacks_ok_def)

lemma attr_get_ok:
  assumes "stacks_ok b" "attr_get fresh a b = (r, b')"
  shows "stacks_ok b'"
proof (cases "a \<noteq> 0 \<and> IS_UNINIT (slot_of b a)")
  case True
  then have "attrs b' = (attrs b)(fresh (next_obj b) \<mapsto> DEFAULT_STACK)"
    using assms(2) by (auto simp: attr_get_def Let_def)
  then show ?thesis using stacks_ok_update [OF assms(1) stack_sizes(1,2)] by blast
next
  case False
  then show ?thesis using assms by (auto simp: attr_get_def split: if_splits)
qed

text \<open>
  Whatever stack sizes the game asks for, every attribute object holds a size between 64 KB and 4 MB, and every
  thread gets such a stack: the asset threads (the 9th to 11th) 2 MB, a thread without an attribute the default.
\<close>
theorem thread_stacks_bounded:
  assumes "stacks_ok b"
  shows "stacks_ok (pthread_attr_init_bridge fresh a b) \<and> stacks_ok (pthread_attr_setstacksize_bridge fresh a n b) \<and>
    stacks_ok (pthread_attr_destroy_bridge a b) \<and>
    (case pthread_create_stack fresh threads a b of (stk, idx, b') \<Rightarrow>
       stacks_ok b' \<and> idx = threads + 1 \<and>
       (\<forall>z. stk = Some z \<longrightarrow> 64 * 1024 \<le> z \<and> z \<le> MAX_STACK \<and> (9 \<le> idx \<and> idx \<le> 11 \<longrightarrow> z = BIG_STACK)) \<and>
       (a = 0 \<longrightarrow> stk = Some (wanted_stack idx)))"
proof (intro conjI)
  have "stacks_ok (b\<lparr>bmem := write_bytes (bmem b) a (replicate 24 0)\<rparr>)" using assms by (simp add: stacks_ok_def)
  then show "stacks_ok (pthread_attr_init_bridge fresh a b)"
    unfolding pthread_attr_init_bridge_def by (metis attr_get_ok prod.collapse)
  obtain r b1 where g: "attr_get fresh a b = (r, b1)" by fastforce
  note ok1 = attr_get_ok [OF assms g]
  show "stacks_ok (pthread_attr_setstacksize_bridge fresh a n b)"
    using stacks_ok_update [OF ok1 stack_sizes(5,6)] by (simp add: pthread_attr_setstacksize_bridge_def g)
  show "stacks_ok (pthread_attr_destroy_bridge a b)"
    using assms by (simp add: pthread_attr_destroy_bridge_def stacks_ok_def)
  let ?want = "wanted_stack (threads + 1)"
  have want: "64 * 1024 \<le> ?want" "?want \<le> MAX_STACK" using stack_sizes by (simp_all add: wanted_stack_def)
  have null: "a = 0 \<Longrightarrow> r = 0" using g by (simp add: attr_get_def)
  define b2 where "b2 = (if DEFAULT_STACK < ?want then b1\<lparr>attrs := (attrs b1)(r \<mapsto> ?want)\<rparr> else b1)"
  have ok2: "stacks_ok b2" using ok1 stacks_ok_update [OF ok1 want] by (simp add: b2_def)
  have big: "9 \<le> threads + 1 \<and> threads + 1 \<le> 11 \<Longrightarrow> ?want = BIG_STACK \<and> attrs b2 r = Some BIG_STACK"
    by (simp add: b2_def wanted_stack_def BIG_STACK_def DEFAULT_STACK_def)
  have r0: "pthread_create_stack fresh threads a b = (if r = 0 then (Some ?want, threads + 1, b1) else (attrs b2 r, threads + 1, b2))"
    by (simp add: pthread_create_stack_def g b2_def Let_def)
  have ranges: "attrs b2 r = Some z \<Longrightarrow> 64 * 1024 \<le> z \<and> z \<le> MAX_STACK" for z
    using ok2 unfolding stacks_ok_def by blast
  show "case pthread_create_stack fresh threads a b of (stk, idx, b') \<Rightarrow>
       stacks_ok b' \<and> idx = threads + 1 \<and>
       (\<forall>z. stk = Some z \<longrightarrow> 64 * 1024 \<le> z \<and> z \<le> MAX_STACK \<and> (9 \<le> idx \<and> idx \<le> 11 \<longrightarrow> z = BIG_STACK)) \<and>
       (a = 0 \<longrightarrow> stk = Some (wanted_stack idx))"
    unfolding r0 using null want ok1 ok2 big ranges by (cases "r = 0") auto
qed

theorem thread_stacks_bounded_witness:
  "pthread_create_stack (\<lambda>n. 0x81000000) 8 0 demo_bridge = (Some BIG_STACK, 9, demo_bridge) \<and>
   stacks_ok (pthread_attr_setstacksize_bridge (\<lambda>n. 0x81000000) 0x1000 1 demo_bridge)"
proof -
  have "stacks_ok demo_bridge" by (simp add: stacks_ok_def demo_bridge_def)
  from thread_stacks_bounded [OF this, of "\<lambda>n. 0x81000000" "0x1000" 1 8] show ?thesis
    by (simp add: pthread_create_stack_def attr_get_def wanted_stack_def)
qed

text \<open>An asset thread whose attribute asks for more than 2 MB gets less than it asked for.\<close>

lemma big_stack_lowers:
  "attr_get fresh a b = (r, b) \<Longrightarrow> r \<noteq> 0 \<Longrightarrow> attrs b r = Some MAX_STACK \<Longrightarrow>
   fst (pthread_create_stack fresh 8 a b) = Some BIG_STACK"
  by (simp add: pthread_create_stack_def wanted_stack_def BIG_STACK_def DEFAULT_STACK_def)

section \<open>The registry\<close>

definition registry_ok :: "(int \<times> string) list \<Rightarrow> bool" where
  "registry_ok reg \<longleftrightarrow> distinct (map fst reg) \<and> length reg \<le> 64 \<and> (\<forall>r \<in> set reg. length (snd r) \<le> 31)"

text \<open>
  However often threads register themselves and are renamed, the registry stays within its 64 entries, has one
  entry per thread and only names that fit with their terminator; a thread that is in it is found under the
  name it was last given.
\<close>
theorem registry_bounded:
  "let reg = fold (\<lambda>(uid, nm) reg. thread_registry_add uid nm reg) calls [] in
     registry_ok reg \<and>
     (\<forall>uid n. uid \<in> fst ` set reg \<longrightarrow> map_of (thread_registry_add uid (Some n) reg) uid = Some (take 31 n))"
proof -
  have step: "registry_ok (thread_registry_add uid nm reg)" if "registry_ok reg" for uid nm reg
  proof -
    have "fst \<circ> (\<lambda>(u, k). if u = uid then (u, f) else (u, k)) = fst" for f :: string
      by (auto simp: fun_eq_iff)
    then show ?thesis using that unfolding registry_ok_def thread_registry_add_def
      by (auto split: option.splits if_splits)
  qed
  have "registry_ok (fold (\<lambda>(uid, nm) reg. thread_registry_add uid nm reg) calls reg)" if "registry_ok reg" for reg
    using that step by (induction calls arbitrary: reg) auto
  moreover have "registry_ok []" by (simp add: registry_ok_def)
  moreover have "map_of (map (\<lambda>(u, k). if u = uid then (u, f) else (u, k)) reg) uid = Some f"
    if "uid \<in> fst ` set reg" for uid f and reg :: "(int \<times> string) list"
    using that by (induction reg) auto
  ultimately show ?thesis by (simp add: Let_def thread_registry_add_def)
qed

theorem registry_bounded_witness:
  "map_of (thread_registry_add 7 (Some ''FGGameRender'') [(7, ''pthread'')]) 7 = Some ''FGGameRender''"
  using registry_bounded [of "[(7, Some ''pthread'')]"]
  by (simp add: Let_def thread_registry_add_def)

section \<open>Timeouts\<close>

text \<open>
  A deadline either becomes a wait without a timeout, and then it is missing or more than an hour away, or a
  timeout that is exactly the time left, not below zero and small enough for the kernel's 32-bit
  microseconds; the timed waits of condition variables stay within the same hour.
\<close>
theorem timeouts_fit:
  "(case sem_timeout (Some ts) now of
      None \<Rightarrow> 3600 * 1000000 < time_left ts now
    | Some t \<Rightarrow> uint t = max 0 (time_left ts now) \<and> uint t \<le> 3600 * 1000000) \<and>
   (case pthread_cond_timedwait_bridge (Some ts) now of
      Untimed \<Rightarrow> 3600 < fst ts - fst now
    | Timed d \<Rightarrow> d = ts \<and> (fst d - fst now) * 1000 \<le> 3600000)"
proof -
  have "uint (word_of_int (if us < 0 then 0 else us) :: u32) = max 0 us" if "us \<le> 3600 * 1000000" for us :: int
    using that by (auto simp: unsigned_of_int take_bit_int_eq_self)
  then show ?thesis
    by (auto simp: sem_timeout_def pthread_cond_timedwait_bridge_def deadline_is_far_def Let_def split: prod.splits)
qed

section \<open>Semaphores count\<close>

lemma load_stored: "load32 (write_bytes m a (le32 v)) a = v"
  using flat.load32_written [of 0 "[v]" m a] by simp

fun posts :: "(nat \<Rightarrow> u32 option) \<Rightarrow> u32 \<Rightarrow> nat \<Rightarrow> kernel_sems \<Rightarrow> kernel_sems" where
  "posts create a 0 k = k"
| "posts create a (Suc n) k = posts create a n (snd (sem_post_bridge create a k))"

fun waits :: "(nat \<Rightarrow> u32 option) \<Rightarrow> u32 \<Rightarrow> nat \<Rightarrow> kernel_sems \<Rightarrow> kernel_sems option" where
  "waits create a 0 k = Some k"
| "waits create a (Suc n) k = do { (r, k) \<leftarrow> sem_wait_bridge create a k; if r = 0 then waits create a n k else None }"

definition sem_at :: "u32 \<Rightarrow> u32 \<Rightarrow> int \<Rightarrow> kernel_sems \<Rightarrow> bool" where
  "sem_at a i c k \<longleftrightarrow> load32 (sem_mem k) a = i \<and> sema k i = Some c"

lemma sem_post_step:
  assumes "sem_at a i c k" "0x10000 \<le> i" "0 < sint i" "c < SEMA_MAX"
  shows "sem_at a i (c + 1) (snd (sem_post_bridge create a k))" "fst (sem_post_bridge create a k) = 0"
  using assms by (simp_all add: sem_at_def sem_post_bridge_def ksem_get_def ksem_bad_def Let_def)

lemma sem_wait_step:
  assumes "sem_at a i c k" "0x10000 \<le> i" "0 < sint i" "0 < c"
  shows "\<exists>k'. sem_wait_bridge create a k = Some (0, k') \<and> sem_at a i (c - 1) k'"
  using assms by (simp add: sem_at_def sem_wait_bridge_def ksem_get_def ksem_bad_def Let_def)

lemma posts_step:
  "sem_at a i c k \<Longrightarrow> 0x10000 \<le> i \<Longrightarrow> 0 < sint i \<Longrightarrow> c + int n \<le> SEMA_MAX \<Longrightarrow> sem_at a i (c + int n) (posts create a n k)"
proof (induction n arbitrary: k c)
  case (Suc n)
  have "c < SEMA_MAX" "c + 1 + int n \<le> SEMA_MAX" using Suc.prems(4) by simp_all
  from Suc.IH [OF sem_post_step(1) [OF Suc.prems(1-3) this(1)] Suc.prems(2,3) this(2)] show ?case by (simp add: add.assoc)
qed simp

lemma waits_step:
  "sem_at a i c k \<Longrightarrow> 0x10000 \<le> i \<Longrightarrow> 0 < sint i \<Longrightarrow> int n \<le> c \<Longrightarrow>
   \<exists>k'. waits create a n k = Some k' \<and> sem_at a i (c - int n) k'"
proof (induction n arbitrary: k c)
  case (Suc n)
  obtain k1 where k1: "sem_wait_bridge create a k = Some (0, k1)" "sem_at a i (c - 1) k1"
    using sem_wait_step [OF Suc.prems(1-3), of create] Suc.prems(4) by auto
  then show ?case using Suc.IH [OF k1(2) Suc.prems(2,3)] Suc.prems(4) by (simp add: algebra_simps)
qed simp

text \<open>
  A semaphore initialised with \<open>v\<close> and posted \<open>n\<close> times lets exactly \<open>v + n\<close> waits pass: that many succeed, the
  next one would block and a try fails with \<open>EAGAIN\<close>.
\<close>
theorem semaphore_counts:
  assumes create: "create (next_sem k) = Some i" "0x10000 \<le> i" "0 < sint i" and v: "v < 0x10000"
    and room: "int (unat v + n) \<le> SEMA_MAX" and k': "k' = posts create a n (sem_init_bridge create a v k)"
  shows "\<exists>k''. waits create a (unat v + n) k' = Some k'' \<and> sem_wait_bridge create a k'' = None \<and>
    fst (sem_trywait_bridge create a k'') = - 1 \<and> errno (snd (sem_trywait_bridge create a k'')) = EAGAIN"
proof -
  have "sint v = int (unat v)" using sint_of_nat32 [of "unat v"] v by (simp add: word_less_nat_alt)
  moreover have "\<not> 0x10000 \<le> v" using v by (simp add: not_le)
  ultimately have "sem_at a i (int (unat v)) (sem_init_bridge create a v k)"
    using create(1) v by (simp add: sem_at_def sem_init_bridge_def ksem_get_def load_stored Let_def)
  from posts_step [OF this create(2,3), of n create] room
  have "sem_at a i (int (unat v + n)) k'" by (simp add: k')
  from waits_step [OF this create(2,3), of "unat v + n" create]
  obtain k'' where w: "waits create a (unat v + n) k' = Some k''" "sem_at a i 0 k''" by auto
  from w(2) create have "sem_wait_bridge create a k'' = None"
    "fst (sem_trywait_bridge create a k'') = - 1" "errno (snd (sem_trywait_bridge create a k'')) = EAGAIN"
    by (simp_all add: sem_at_def sem_wait_bridge_def sem_trywait_bridge_def ksem_get_def ksem_bad_def Let_def)
  with w(1) show ?thesis by blast
qed

definition demo_sems :: kernel_sems where
  "demo_sems = \<lparr>sem_mem = (\<lambda>_. 0), sema = Map.empty, next_sem = 0, errno = 0\<rparr>"

theorem semaphore_counts_witness:
  "\<exists>k''. waits (\<lambda>n. Some 0x40010001) 0x1000 3 (posts (\<lambda>n. Some 0x40010001) 0x1000 1
      (sem_init_bridge (\<lambda>n. Some 0x40010001) 0x1000 2 demo_sems)) = Some k'' \<and>
    sem_wait_bridge (\<lambda>n. Some 0x40010001) 0x1000 k'' = None"
  using semaphore_counts [of "\<lambda>n. Some 0x40010001" demo_sems "0x40010001" 2 1, OF _ _ _ _ _ refl, of "0x1000"]
  by (auto simp: SEMA_MAX_def)

section \<open>Once is not once for two threads\<close>

inductive once_reachable :: "once_state \<Rightarrow> bool" where
  "once_reachable \<lparr>once_slot = 0, runs = 0, opc = (\<lambda>_. O_look)\<rparr>"
| "once_reachable s \<Longrightarrow> once_step s s' \<Longrightarrow> once_reachable s'"

lemma once_alone: "pthread_once_bridge 0 = (1, 2)" "pthread_once_bridge 2 = (0, 2)"
  by (simp_all add: pthread_once_bridge_def)

text \<open>Two threads that meet at the slot both run the initialiser: the slot's value 1 is never looked at.\<close>

lemma once_runs_twice: "\<exists>s. once_reachable s \<and> runs s = 2 \<and> opc s 0 = O_done \<and> opc s 1 = O_done"
proof -
  define st where "st = (\<lambda>sl n p0 p1. \<lparr>once_slot = sl, runs = n, opc = (\<lambda>_. O_look)(0 := p0, 1 := p1)\<rparr>)"
  have next_state: "once_reachable s \<Longrightarrow> once_step s s' \<Longrightarrow> once_reachable s'" for s s'
    by (rule once_reachable.intros(2))
  have "st 0 0 O_look O_look = \<lparr>once_slot = 0, runs = 0, opc = (\<lambda>_. O_look)\<rparr>" by (simp add: st_def fun_eq_iff)
  then have "once_reachable (st 0 0 O_look O_look)" by (simp only: once_reachable.intros(1))
  then have "once_reachable (st 0 0 O_lock O_look)"
    by (rule next_state) (use once_step.intros(2) [of "st 0 0 O_look O_look" 0] in \<open>simp add: st_def fun_upd_twist\<close>)
  then have "once_reachable (st 0 0 O_lock O_lock)"
    by (rule next_state) (use once_step.intros(2) [of "st 0 0 O_lock O_look" 1] in \<open>simp add: st_def\<close>)
  then have "once_reachable (st 1 0 O_run O_lock)"
    by (rule next_state) (use once_step.intros(3) [of "st 0 0 O_lock O_lock" 0] in \<open>simp add: st_def fun_upd_twist\<close>)
  then have "once_reachable (st 1 0 O_run O_run)"
    by (rule next_state) (use once_step.intros(3) [of "st 1 0 O_run O_lock" 1] in \<open>simp add: st_def\<close>)
  then have "once_reachable (st 1 1 O_relock O_run)"
    by (rule next_state) (use once_step.intros(5) [of "st 1 0 O_run O_run" 0] in \<open>simp add: st_def fun_upd_twist\<close>)
  then have "once_reachable (st 1 2 O_relock O_relock)"
    by (rule next_state) (use once_step.intros(5) [of "st 1 1 O_relock O_run" 1] in \<open>simp add: st_def numeral_2_eq_2\<close>)
  then have "once_reachable (st 2 2 O_done O_relock)"
    by (rule next_state) (use once_step.intros(6) [of "st 1 2 O_relock O_relock" 0] in \<open>simp add: st_def fun_upd_twist\<close>)
  then have "once_reachable (st 2 2 O_done O_done)"
    by (rule next_state) (use once_step.intros(6) [of "st 2 2 O_done O_relock" 1] in \<open>simp add: st_def\<close>)
  then show ?thesis by (intro exI conjI) (assumption, simp_all add: st_def)
qed

end
