(* ===== verification/Glsl.thy ===== *)
theory Glsl
  imports Prelude
begin

text \<open>
  The source passes a shader goes through before vitaGL's GLSL translator sees it
  (\<open>glsl_prepass\<close>, \<open>rename_tex_sampler\<close> and \<open>static_globals\<close> of \<open>default_dynlib.c\<close>).

  Each pass copies its input into a buffer it allocates first.  A definition here gives the text written
  (the cursor \<open>i\<close> is the text still to read, the cursor \<open>o\<close> the length of the text written so far), and a
  second one gives the size the code allocates for it; \<open>glsl_passes_fit\<close> relates the two.
\<close>

section \<open>Characters\<close>

definition code :: "char \<Rightarrow> nat" where
  "code c = of_char c"

definition is_word_char :: "char \<Rightarrow> bool" where
  "is_word_char c \<longleftrightarrow>
     (code CHR ''a'' \<le> code c \<and> code c \<le> code CHR ''z'') \<or> (code CHR ''A'' \<le> code c \<and> code c \<le> code CHR ''Z'') \<or>
     (code CHR ''0'' \<le> code c \<and> code c \<le> code CHR ''9'') \<or> c = CHR ''_''"

definition is_id_char :: "char \<Rightarrow> bool" where
  "is_id_char c \<longleftrightarrow> is_word_char c \<or> c = CHR ''.'' \<or> c = CHR ''['' \<or> c = CHR '']''"

definition is_blank :: "char \<Rightarrow> bool" where
  "is_blank c \<longleftrightarrow> c = CHR '' '' \<or> c = CHR 0x09"

definition newline :: char where
  "newline = CHR 0x0A"

definition prefixed :: "string \<Rightarrow> string \<Rightarrow> bool" where
  "prefixed p s \<longleftrightarrow> take (length p) s = p"

text \<open>A C string ends at its first zero byte.\<close>

definition zero_cut :: "string \<Rightarrow> string" where
  "zero_cut s = takeWhile (\<lambda>c. c \<noteq> CHR 0x00) s"

section \<open>Compound multiplication\<close>

text \<open>The left-hand side of the assignment: the identifier characters the output ends with, before blanks.\<close>

definition trailing_lhs :: "string \<Rightarrow> string" where
  "trailing_lhs out = rev (takeWhile is_id_char (dropWhile is_blank (rev out)))"

fun prepass_loop :: "string \<Rightarrow> string \<Rightarrow> string" where
  "prepass_loop out [] = out"
| "prepass_loop out (c # s) =
     (let lhs = trailing_lhs out in
      if prefixed ''*='' (c # s) \<and> 0 < length lhs \<and> length lhs < 48
      then prepass_loop (out @ ''= '' @ lhs @ '' *'') (drop 1 s)
      else prepass_loop (out @ [c]) s)"

definition glsl_prepass :: "string \<Rightarrow> string" where
  "glsl_prepass src = prepass_loop [] src"

fun star_eqs :: "string \<Rightarrow> nat" where
  "star_eqs [] = 0"
| "star_eqs (c # s) = (if prefixed ''*='' (c # s) then 1 else 0) + star_eqs s"

definition glsl_prepass_size :: "string \<Rightarrow> nat" where
  "glsl_prepass_size src = length src + 64 * star_eqs src + 1"

section \<open>Renaming the sampler\<close>

fun rename_loop :: "char option \<Rightarrow> string \<Rightarrow> string" where
  "rename_loop pre [] = []"
| "rename_loop pre (c # s) =
     (if prefixed ''tex'' (c # s) \<and>
         \<not> (case pre of None \<Rightarrow> False | Some p \<Rightarrow> is_word_char p) \<and>
         \<not> (case drop 2 s of [] \<Rightarrow> False | p # _ \<Rightarrow> is_word_char p)
      then ''s_tex'' @ rename_loop (Some CHR ''x'') (drop 2 s)
      else c # rename_loop (Some c) s)"

definition rename_tex_sampler :: "string \<Rightarrow> string" where
  "rename_tex_sampler src = rename_loop None src"

definition rename_tex_sampler_size :: "string \<Rightarrow> nat" where
  "rename_tex_sampler_size src = length src * 2 + 64"

section \<open>File-scope declarations\<close>

definition trim_end :: "string \<Rightarrow> string" where
  "trim_end t = rev (dropWhile (\<lambda>c. c = CHR 0x0D \<or> is_blank c) (rev t))"

definition static_line :: "int \<Rightarrow> string \<Rightarrow> string" where
  "static_line depth line =
     (let t = dropWhile is_blank line; tl = length (trim_end t) in
      if depth = 0 \<and> tl > 2 \<and> t ! (tl - 1) = CHR '';'' \<and>
         CHR ''('' \<notin> set t \<and> CHR ''='' \<notin> set t \<and> CHR ''{'' \<notin> set t \<and> CHR ''}'' \<notin> set t \<and>
         t ! 0 \<noteq> CHR ''#'' \<and> t ! 0 \<noteq> CHR ''/'' \<and>
         \<not> prefixed ''uniform'' t \<and> \<not> prefixed ''attribute'' t \<and> \<not> prefixed ''varying'' t \<and>
         \<not> prefixed ''struct'' t \<and> \<not> prefixed ''precision'' t \<and> \<not> prefixed ''const'' t \<and>
         \<not> prefixed ''invariant'' t \<and> \<not> prefixed ''static'' t
      then takeWhile is_blank line @ ''static '' @ t
      else line)"

definition brace_depth :: "int \<Rightarrow> string \<Rightarrow> int" where
  "brace_depth depth line =
     fold (\<lambda>c d. if c = CHR ''{'' then d + 1 else if c = CHR ''}'' then d - 1 else d) line depth"

function static_loop :: "int \<Rightarrow> string \<Rightarrow> string" where
  "static_loop depth s =
     (if s = [] then []
      else let line = takeWhile (\<lambda>c. c \<noteq> newline) s; rest = dropWhile (\<lambda>c. c \<noteq> newline) s in
        static_line depth line @
        (if rest = [] then [] else newline # static_loop (brace_depth depth line) (drop 1 rest)))"
  by pat_completeness auto
termination
proof (relation "measure (\<lambda>(_, s). length s)", goal_cases)
  case 1
  then show ?case by simp
next
  case (2 depth s line rest)
  have "length rest \<le> length s" using 2 by (simp add: length_dropWhile_le)
  moreover have "0 < length rest" using 2 by simp
  ultimately show ?case by (cases rest) auto
qed

declare static_loop.simps [simp del]

definition static_globals :: "string \<Rightarrow> string" where
  "static_globals src = static_loop 0 src"

definition static_globals_size :: "string \<Rightarrow> nat" where
  "static_globals_size src = length src + (1 + count_list src newline) * 7 + 1"

section \<open>The buffers are large enough\<close>

lemma prefixed_Cons2: "prefixed [a, b] (c # s) \<longleftrightarrow> c = a \<and> (\<exists>r. s = b # r)"
  by (cases s) (auto simp: prefixed_def)

lemma prepass_loop_length: "length (prepass_loop out s) \<le> length out + length s + 64 * star_eqs s"
proof (induction out s rule: prepass_loop.induct)
  case (1 out)
  then show ?case by simp
next
  case (2 out c s)
  show ?case
  proof (cases "prefixed ''*='' (c # s) \<and> 0 < length (trailing_lhs out) \<and> length (trailing_lhs out) < 48")
    case True
    then obtain r where s: "s = CHR ''='' # r" by (auto simp: prefixed_Cons2)
    have "star_eqs r \<le> star_eqs s" by (simp add: s)
    then show ?thesis using 2(1) [OF refl True] True s by (simp add: Let_def)
  next
    case False
    then show ?thesis using 2(2) [OF refl False] by (auto simp: Let_def)
  qed
qed

lemma rename_loop_length: "length (rename_loop pre s) \<le> 2 * length s"
proof (induction pre s rule: rename_loop.induct)
  case (1 pre)
  then show ?case by simp
next
  case (2 pre c s)
  show ?case
  proof (cases "prefixed ''tex'' (c # s) \<and>
      \<not> (case pre of None \<Rightarrow> False | Some p \<Rightarrow> is_word_char p) \<and>
      \<not> (case drop 2 s of [] \<Rightarrow> False | p # _ \<Rightarrow> is_word_char p)")
    case True
    then have "take 2 s = ''ex''" by (simp add: prefixed_def numeral_2_eq_2)
    then have "length (take 2 s) = 2" by simp
    then have "2 \<le> length s" by simp
    then show ?thesis using 2(1) [OF True] True by simp
  next
    case False
    show ?thesis using 2(2) [OF False] by (simp only: rename_loop.simps if_not_P [OF False] list.size) simp
  qed
qed

lemma if_one_of: "(if b then x else y) = x \<or> (if b then x else y) = y"
  by simp

lemma static_line_length: "length (static_line depth line) \<le> length line + 7"
proof -
  have "length (takeWhile is_blank line) + length (dropWhile is_blank line) = length line"
    by (simp only: length_append [symmetric] takeWhile_dropWhile_id)
  moreover have "static_line depth line = takeWhile is_blank line @ ''static '' @ dropWhile is_blank line \<or>
      static_line depth line = line"
    unfolding static_line_def Let_def by (rule if_one_of)
  ultimately show ?thesis by auto
qed

lemma line_end:
  assumes "dropWhile (\<lambda>c. c \<noteq> newline) s \<noteq> []"
  shows "\<exists>r. dropWhile (\<lambda>c. c \<noteq> newline) s = newline # r"
  using hd_dropWhile [OF assms] assms by (cases "dropWhile (\<lambda>c. c \<noteq> newline) s") simp_all

lemma static_loop_length:
  "length (static_loop depth s) \<le> length s + (1 + count_list s newline) * 7"
proof (induction depth s rule: static_loop.induct)
  case (1 depth s)
  define line where "line = takeWhile (\<lambda>c. c \<noteq> newline) s"
  define rest where "rest = dropWhile (\<lambda>c. c \<noteq> newline) s"
  have s: "s = line @ rest" by (simp add: line_def rest_def)
  have one: "length (static_line depth line) \<le> length line + 7" by (rule static_line_length)
  have no: "count_list line newline = 0"
    using set_takeWhileD [of newline "\<lambda>c. c \<noteq> newline" s] by (auto simp: line_def count_list_0_iff)
  show ?case
  proof (cases "rest = []")
    case True
    then have "static_loop depth s = (if s = [] then [] else static_line depth line)"
      by (subst static_loop.simps) (simp add: line_def rest_def)
    moreover have "s = line" using s True by simp
    ultimately show ?thesis using one by auto
  next
    case False
    then obtain r where r: "rest = newline # r"
      using line_end [of s] by (auto simp only: rest_def)
    have ne: "s \<noteq> []" using s r by simp
    have eq: "static_loop depth s = static_line depth line @ newline # static_loop (brace_depth depth line) r"
      using ne r by (subst static_loop.simps) (simp add: line_def rest_def Let_def)
    have "length (static_loop (brace_depth depth line) r) \<le> length r + (1 + count_list r newline) * 7"
      using 1 [OF ne line_def rest_def] r by simp
    then have "length (static_loop depth s) \<le> (length line + 7) + 1 + (length r + (1 + count_list r newline) * 7)"
      using one by (simp add: eq)
    moreover have "count_list s newline = 1 + count_list r newline" using no by (simp add: s r)
    moreover have "length s = length line + 1 + length r" by (simp add: s r)
    ultimately show ?thesis by simp
  qed
qed


text \<open>
  The rewriting of \<open>*=\<close> puts no parentheses around the right-hand side, so a sum on the right is
  multiplied in part only.
\<close>

lemma prepass_precedence: "glsl_prepass ''a *= b + c;'' = ''a = a * b + c;''"
  by (simp add: glsl_prepass_def trailing_lhs_def prefixed_def is_id_char_def is_word_char_def
      is_blank_def code_def Let_def)

section \<open>The renaming works on whole identifiers\<close>

text \<open>A reference definition: split the text into identifiers and single other characters, replace \<open>tex\<close>.\<close>

function tokens :: "string \<Rightarrow> string list" where
  "tokens [] = []"
| "tokens (c # s) =
     (if is_word_char c
      then takeWhile is_word_char (c # s) # tokens (dropWhile is_word_char s)
      else [c] # tokens s)"
  by pat_completeness auto
termination
  by (relation "measure length") (auto simp: length_dropWhile_le less_Suc_eq_le)

definition rename_token :: "string \<Rightarrow> string" where
  "rename_token t = (if t = ''tex'' then ''s_tex'' else t)"

abbreviation starts_word :: "string \<Rightarrow> bool" where
  "starts_word s \<equiv> (case s of [] \<Rightarrow> False | c # _ \<Rightarrow> is_word_char c)"

abbreviation in_word :: "char option \<Rightarrow> bool" where
  "in_word pre \<equiv> (case pre of None \<Rightarrow> False | Some p \<Rightarrow> is_word_char p)"

lemma rename_inside:
  assumes "in_word pre" "\<forall>c\<in>set t. is_word_char c" "\<not> starts_word r"
  shows "\<exists>p. rename_loop pre (t @ r) = t @ rename_loop p r \<and> (t \<noteq> [] \<longrightarrow> in_word p)"
  using assms
proof (induction t arbitrary: pre)
  case Nil
  then show ?case by auto
next
  case (Cons c t)
  have "rename_loop pre ((c # t) @ r) = c # rename_loop (Some c) (t @ r)" using Cons.prems(1) by simp
  moreover obtain p where "rename_loop (Some c) (t @ r) = t @ rename_loop p r \<and> (t \<noteq> [] \<longrightarrow> in_word p)"
    using Cons by fastforce
  ultimately have "rename_loop pre ((c # t) @ r) = (c # t) @ rename_loop p r" by simp
  moreover have ?case if "t = []" using that calculation Cons.prems(1,2)
    by (intro exI [of _ "Some c"]) simp
  moreover have ?case if "t \<noteq> []"
    using that calculation(1) \<open>rename_loop (Some c) (t @ r) = t @ rename_loop p r \<and> (t \<noteq> [] \<longrightarrow> in_word p)\<close>
    by blast
  ultimately show ?case by blast
qed

lemma tex_word: "is_word_char CHR ''t''" "is_word_char CHR ''e''" "is_word_char CHR ''x''"
  by (simp_all add: is_word_char_def code_def)

lemma rename_pre_free:
  assumes "\<not> starts_word r"
  shows "rename_loop p r = rename_loop q r"
proof (cases r)
  case Nil
  then show ?thesis by simp
next
  case (Cons c s)
  then have "\<not> is_word_char c" using assms by simp
  then have "c \<noteq> CHR ''t''" using tex_word by blast
  then show ?thesis using Cons by (simp add: prefixed_def)
qed

lemma rename_word:
  assumes "\<not> in_word pre" "t \<noteq> []" "\<forall>c\<in>set t. is_word_char c" "\<not> starts_word r"
  shows "rename_loop pre (t @ r) = rename_token t @ rename_loop None r"
proof (cases "t = ''tex''")
  case True
  have "rename_loop pre (''tex'' @ r) = ''s_tex'' @ rename_loop (Some CHR ''x'') r"
    using assms(1,4) by (simp add: prefixed_def)
  then show ?thesis using True rename_pre_free [OF assms(4)] by (simp add: rename_token_def)
next
  case False
  obtain c u where t: "t = c # u" using assms(2) by (cases t) auto
  have "\<not> (prefixed ''tex'' (t @ r) \<and> \<not> starts_word (drop 3 (t @ r)))"
  proof
    assume h: "prefixed ''tex'' (t @ r) \<and> \<not> starts_word (drop 3 (t @ r))"
    then have p: "take 3 (t @ r) = ''tex''" by (simp only: prefixed_def) (simp add: numeral_3_eq_3)
    show False
    proof (cases "length t < 3")
      case True
      then have "(t @ r) ! length t \<in> set ''tex''"
        using p by (metis length_take list.size(3,4) nth_mem nth_take numeral_3_eq_3 min.absorb2 nat_le_linear not_less_eq_eq One_nat_def add.right_neutral add_Suc_right length_append min_def)
      then have "is_word_char ((t @ r) ! length t)" using tex_word by auto
      moreover have "r \<noteq> []" using p True by (cases r) auto
      ultimately show False using assms(4) by (cases r) (auto simp: nth_append)
    next
      case long: False
      then have "take 3 t = ''tex''" using p by simp
      then have "drop 3 t \<noteq> []" using False by (metis append_Nil2 append_take_drop_id)
      then obtain d v where "drop 3 t = d # v" by (cases "drop 3 t") auto
      moreover have "d \<in> set t" using calculation by (metis in_set_dropD list.set_intros(1))
      ultimately show False using h long assms(3) by simp
    qed
  qed
  then have "\<not> (prefixed ''tex'' (c # (u @ r)) \<and> \<not> in_word pre \<and> \<not> starts_word (drop 2 (u @ r)))"
    by (auto simp: t numeral_3_eq_3 numeral_2_eq_2)
  then have "rename_loop pre (t @ r) = c # rename_loop (Some c) (u @ r)"
    by (simp only: t append_Cons rename_loop.simps if_False)
  moreover obtain p where "rename_loop (Some c) (u @ r) = u @ rename_loop p r"
    using rename_inside [of "Some c" u r] assms(3,4) t by auto
  ultimately show ?thesis using False t rename_pre_free [OF assms(4), of p None] by (simp add: rename_token_def)
qed

lemma rename_loop_tokens:
  "\<not> in_word pre \<Longrightarrow> rename_loop pre s = concat (map rename_token (tokens s))"
proof (induction s arbitrary: pre rule: tokens.induct)
  case 1
  then show ?case by simp
next
  case (2 c s)
  show ?case
  proof (cases "is_word_char c")
    case True
    let ?t = "takeWhile is_word_char (c # s)" and ?r = "dropWhile is_word_char s"
    have split: "c # s = ?t @ ?r" using True by simp
    have t: "\<forall>x\<in>set ?t. is_word_char x" by (meson set_takeWhileD)
    have r: "\<not> starts_word ?r" by (simp add: dropWhile_eq_Cons_conv split: list.splits)
    have "rename_loop pre (c # s) = rename_token ?t @ rename_loop None ?r"
      using rename_word [OF 2(3) _ t r] True split by (metis list.distinct(1) takeWhile.simps(2))
    also have "rename_loop None ?r = concat (map rename_token (tokens ?r))"
      using 2(1) [OF True] by simp
    finally show ?thesis using True by simp
  next
    case False
    then have "c \<noteq> CHR ''t''" using tex_word by blast
    then have "rename_loop pre (c # s) = c # rename_loop (Some c) s" by (simp add: prefixed_def)
    also have "rename_loop (Some c) s = concat (map rename_token (tokens s))"
      using 2(2) [OF False] False by simp
    also have "c # concat (map rename_token (tokens s)) = concat (map rename_token (tokens (c # s)))"
      using False \<open>c \<noteq> CHR ''t''\<close> by (simp add: rename_token_def)
    finally show ?thesis .
  qed
qed

text \<open>
  C16: the renaming pass replaces exactly the identifiers \<open>tex\<close> by \<open>s_tex\<close>: it agrees with splitting the
  source into maximal identifiers and other characters and replacing the identifier \<open>tex\<close>, so an
  identifier that only contains \<open>tex\<close> (\<open>texCoord\<close>, \<open>vertex\<close>) is never touched.
\<close>

theorem rename_tex_whole_words:
  "rename_tex_sampler src = concat (map rename_token (tokens src))"
  by (simp add: rename_tex_sampler_def rename_loop_tokens)

end
