(* ===== verification/Gl_Prog.thy ===== *)
theory Gl_Prog
  imports Glsl Machine
begin

text \<open>
  The programs of the GL lock (\<open>gl_lock.c\<close>) and their two semantics.

  A wrapper of \<open>gl_lock.c\<close> is a HOL function from its arguments to a \<open>gl_prog\<close>: the tree of the effects the
  C body has, in the order it has them.  The effects are the acquisition and the release of \<open>gl_lock\<close>, a
  call of vitaGL or of the C library, a word read or written through a pointer, a \<open>memcpy\<close>, and a read or
  an update of the file's static variables.  \<open>gl_run\<close> runs a program of one thread to its end; the step
  relation of \<open>Gl_Serial\<close> interleaves the programs of many threads at these effects.

  vitaGL and the C library are parameters (\<open>gl_api\<close>).  An argument is a word (an integer, a pointer, the
  bit pattern of a float), a string (a pointer to a string with no zero byte inside), an array of strings,
  or \<open>Out\<close>: the address of a local variable initialised to zero, whose value after the call is the call's
  result in the model.
\<close>

section \<open>The static variables\<close>

record fbo_attach =
  at_fbo :: u32
  at_point :: u32
  at_tex :: u32
  at_level :: i32

record fbo_rb =
  rb_fbo :: u32
  rb_point :: u32
  rb_name :: u32

text \<open>
  \<open>fbo_attach_cache\<close> and \<open>fbo_rb_cache\<close> hold the entries in use of the C arrays (\<open>fbo_attach_n\<close> and
  \<open>fbo_rb_n\<close> are their lengths).  \<open>src_tab\<close> is the shader source table of \<open>default_dynlib.c\<close>, which only the
  locked wrappers use: 64 pairs of a shader name and a pointer to the kept source; \<open>shader_fail_dumps\<close> counts
  the sources that were printed.
\<close>

record gl_state =
  c_alloc_n :: "u32 list"
  c_alloc_kb :: "u32 list"
  c_vp_fit :: u32
  c_texsub_calls :: u32
  c_texsub_px :: u32
  c_subdata_calls :: u32
  c_subdata_bytes :: u32
  c_draws :: u32
  c_draws_fbo0 :: u32
  c_clears :: u32
  c_fbobinds :: u32
  c_useprog :: u32
  c_texupload :: u32
  c_viewport_w :: u32
  c_viewport_h :: u32
  cur_fbo :: u32
  c_clear_rgba :: "u32 list"
  fbo_attach_cache :: "fbo_attach list"
  fbo_rb_cache :: "fbo_rb list"
  mapped_ptr :: "u32 list"
  staging :: "u32 list"
  staging_sz :: "i32 list"
  src_tab :: "(u32 \<times> u32) list"
  src_tab_n :: nat
  shader_fail_dumps :: i32

definition gl_state_init :: gl_state where
  "gl_state_init =
     \<lparr>c_alloc_n = replicate 5 0, c_alloc_kb = replicate 5 0, c_vp_fit = 0, c_texsub_calls = 0, c_texsub_px = 0,
      c_subdata_calls = 0, c_subdata_bytes = 0, c_draws = 0, c_draws_fbo0 = 0, c_clears = 0, c_fbobinds = 0,
      c_useprog = 0, c_texupload = 0, c_viewport_w = 0, c_viewport_h = 0, cur_fbo = 0,
      c_clear_rgba = replicate 4 0, fbo_attach_cache = [], fbo_rb_cache = [], mapped_ptr = [0, 0],
      staging = [0, 0], staging_sz = [0, 0], src_tab = replicate 64 (0, 0), src_tab_n = 0,
      shader_fail_dumps = 0\<rparr>"

section \<open>Programs\<close>

datatype arg = W u32 | S string | Ss "string option list" | Out

datatype gl_prog =
    Ret u32
  | Spin
  | Lock gl_prog
  | Unlock gl_prog
  | Gl string "arg list" "u32 \<Rightarrow> gl_prog"
  | Libc string "arg list" "u32 \<Rightarrow> gl_prog"
  | Load u32 "u32 \<Rightarrow> gl_prog"
  | Store u32 u32 gl_prog
  | Memcpy u32 u32 u32 gl_prog
  | Get "gl_state \<Rightarrow> gl_prog"
  | Upd "gl_state \<Rightarrow> gl_state" gl_prog

text \<open>A call of one wrapper by another one.\<close>

primrec gl_bind :: "gl_prog \<Rightarrow> (u32 \<Rightarrow> gl_prog) \<Rightarrow> gl_prog" where
  "gl_bind (Ret v) k = k v"
| "gl_bind Spin k = Spin"
| "gl_bind (Lock p) k = Lock (gl_bind p k)"
| "gl_bind (Unlock p) k = Unlock (gl_bind p k)"
| "gl_bind (Gl f as q) k = Gl f as (\<lambda>r. gl_bind (q r) k)"
| "gl_bind (Libc f as q) k = Libc f as (\<lambda>r. gl_bind (q r) k)"
| "gl_bind (Load a q) k = Load a (\<lambda>r. gl_bind (q r) k)"
| "gl_bind (Store a v p) k = Store a v (gl_bind p k)"
| "gl_bind (Memcpy d s n p) k = Memcpy d s n (gl_bind p k)"
| "gl_bind (Get q) k = Get (\<lambda>s. gl_bind (q s) k)"
| "gl_bind (Upd f p) k = Upd f (gl_bind p k)"

section \<open>One thread\<close>

text \<open>The world of the programs: vitaGL's own state, the memory, and the static variables.\<close>

record 'g gl_world =
  vgl :: 'g
  ram :: memory
  own :: gl_state

record 'g gl_api =
  gl_call :: "string \<Rightarrow> arg list \<Rightarrow> 'g \<times> memory \<Rightarrow> u32 \<times> 'g \<times> memory"
  libc_call :: "string \<Rightarrow> arg list \<Rightarrow> 'g \<times> memory \<Rightarrow> u32 \<times> 'g \<times> memory"

definition do_call ::
  "(string \<Rightarrow> arg list \<Rightarrow> 'g \<times> memory \<Rightarrow> u32 \<times> 'g \<times> memory) \<Rightarrow> string \<Rightarrow> arg list \<Rightarrow> 'g gl_world \<Rightarrow>
   u32 \<times> 'g gl_world" where
  "do_call call f as w =
     (case call f as (vgl w, ram w) of (r, g, m) \<Rightarrow> (r, w\<lparr>vgl := g, ram := m\<rparr>))"

definition do_memcpy :: "u32 \<Rightarrow> u32 \<Rightarrow> u32 \<Rightarrow> memory \<Rightarrow> memory" where
  "do_memcpy d s n m = write_bytes m d (read_bytes m s (unat n))"

text \<open>
  Without other threads the lock is always free or the caller's own, so acquiring it has no effect.
  \<open>None\<close> is a program that never returns (\<open>Spin\<close>: a loop \<open>while (glGetError())\<close> that ran out of fuel, or a read
  through a null pointer).
\<close>

primrec gl_run :: "'g gl_api \<Rightarrow> gl_prog \<Rightarrow> 'g gl_world \<Rightarrow> (u32 \<times> 'g gl_world) option" where
  "gl_run api (Ret v) w = Some (v, w)"
| "gl_run api Spin w = None"
| "gl_run api (Lock p) w = gl_run api p w"
| "gl_run api (Unlock p) w = gl_run api p w"
| "gl_run api (Gl f as q) w = (case do_call (gl_call api) f as w of (r, w') \<Rightarrow> gl_run api (q r) w')"
| "gl_run api (Libc f as q) w = (case do_call (libc_call api) f as w of (r, w') \<Rightarrow> gl_run api (q r) w')"
| "gl_run api (Load a q) w = gl_run api (q (load32 (ram w) a)) w"
| "gl_run api (Store a v p) w = gl_run api p (w\<lparr>ram := write_bytes (ram w) a (le32 v)\<rparr>)"
| "gl_run api (Memcpy d s n p) w = gl_run api p (w\<lparr>ram := do_memcpy d s n (ram w)\<rparr>)"
| "gl_run api (Get q) w = gl_run api (q (own w)) w"
| "gl_run api (Upd f p) w = gl_run api p (w\<lparr>own := f (own w)\<rparr>)"

lemma gl_run_bind:
  "gl_run api (gl_bind p k) w =
     (case gl_run api p w of None \<Rightarrow> None | Some (v, w') \<Rightarrow> gl_run api (k v) w')"
  by (induction p arbitrary: w) (simp_all split: prod.splits)

section \<open>The lock discipline\<close>

text \<open>
  \<open>guarded n d p\<close>: run by a thread that holds the lock \<open>d\<close> times, \<open>p\<close> enters vitaGL and updates the
  static variables only while it holds the lock, never releases a lock it does not hold, and returns
  holding it \<open>n\<close> times.
\<close>

primrec guarded :: "nat \<Rightarrow> nat \<Rightarrow> gl_prog \<Rightarrow> bool" where
  "guarded n d (Ret v) \<longleftrightarrow> d = n"
| "guarded n d Spin \<longleftrightarrow> True"
| "guarded n d (Lock p) \<longleftrightarrow> guarded n (Suc d) p"
| "guarded n d (Unlock p) \<longleftrightarrow> 0 < d \<and> guarded n (d - 1) p"
| "guarded n d (Gl f as q) \<longleftrightarrow> 0 < d \<and> (\<forall>r. guarded n d (q r))"
| "guarded n d (Libc f as q) \<longleftrightarrow> (\<forall>r. guarded n d (q r))"
| "guarded n d (Load a q) \<longleftrightarrow> (\<forall>r. guarded n d (q r))"
| "guarded n d (Store a v p) \<longleftrightarrow> guarded n d p"
| "guarded n d (Memcpy a s l p) \<longleftrightarrow> guarded n d p"
| "guarded n d (Get q) \<longleftrightarrow> (\<forall>s. guarded n d (q s))"
| "guarded n d (Upd f p) \<longleftrightarrow> 0 < d \<and> guarded n d p"

lemma guarded_bind:
  "guarded m d p \<Longrightarrow> (\<And>v. guarded n m (k v)) \<Longrightarrow> guarded n d (gl_bind p k)"
  by (induction p arbitrary: d) auto

end
