(* ===== verification/Gl_Lock.thy ===== *)
theory Gl_Lock
  imports Complex_Main Gl_Prog
begin

text \<open>
  The wrappers of \<open>gl_lock.c\<close>: every GL entry the game gets, serialised through one recursive mutex, with
  the counters, the attachment caches and the buffer checks some of them add, and the shader functions of
  \<open>default_dynlib.c\<close> that three of them call.  The tables at the end give each wrapper under its name,
  with the number of its arguments.
\<close>

abbreviation word_at :: "arg list \<Rightarrow> nat \<Rightarrow> u32" where
  "word_at as i \<equiv> (case as ! i of W w \<Rightarrow> w | _ \<Rightarrow> 0)"

section \<open>Plain wrappers\<close>

text \<open>A function without a result, one with a result, and one that also updates the static variables.\<close>

definition forwards :: "string \<Rightarrow> arg list \<Rightarrow> gl_prog" where
  "forwards f as = Lock (Gl f as (\<lambda>_. Unlock (Ret 0)))"

definition returns :: "string \<Rightarrow> arg list \<Rightarrow> gl_prog" where
  "returns f as = Lock (Gl f as (\<lambda>r. Unlock (Ret r)))"

definition counted :: "(arg list \<Rightarrow> gl_state \<Rightarrow> gl_state) \<Rightarrow> string \<Rightarrow> arg list \<Rightarrow> gl_prog" where
  "counted u f as = Lock (Upd (u as) (Gl f as (\<lambda>_. Unlock (Ret 0))))"

definition count_bind :: "arg list \<Rightarrow> gl_state \<Rightarrow> gl_state" where
  "count_bind as s = s\<lparr>c_fbobinds := c_fbobinds s + 1, cur_fbo := word_at as 1\<rparr>"

definition count_clear :: "arg list \<Rightarrow> gl_state \<Rightarrow> gl_state" where
  "count_clear as s = s\<lparr>c_clears := c_clears s + 1\<rparr>"

definition note_clear_color :: "arg list \<Rightarrow> gl_state \<Rightarrow> gl_state" where
  "note_clear_color as s = s\<lparr>c_clear_rgba := [word_at as 0, word_at as 1, word_at as 2, word_at as 3]\<rparr>"

definition count_upload :: "arg list \<Rightarrow> gl_state \<Rightarrow> gl_state" where
  "count_upload as s = s\<lparr>c_texupload := c_texupload s + 1\<rparr>"

definition count_draw :: "arg list \<Rightarrow> gl_state \<Rightarrow> gl_state" where
  "count_draw as s =
     (let s = s\<lparr>c_draws := c_draws s + 1\<rparr> in
      if cur_fbo s = 0 then s\<lparr>c_draws_fbo0 := c_draws_fbo0 s + 1\<rparr> else s)"

definition count_texsub :: "arg list \<Rightarrow> gl_state \<Rightarrow> gl_state" where
  "count_texsub as s =
     s\<lparr>c_texsub_calls := c_texsub_calls s + 1, c_texsub_px := c_texsub_px s + word_at as 4 * word_at as 5\<rparr>"

definition count_program :: "arg list \<Rightarrow> gl_state \<Rightarrow> gl_state" where
  "count_program as s = s\<lparr>c_useprog := c_useprog s + 1\<rparr>"

section \<open>Statistics\<close>

text \<open>\<open>vgl_alloc_trace\<close> is called by vitaGL on every pool allocation, \<open>gl_frame_summary\<close> once per frame.\<close>

definition vgl_alloc_trace :: "u32 \<Rightarrow> i32 \<Rightarrow> gl_state \<Rightarrow> gl_state" where
  "vgl_alloc_trace bytes type s =
     (if type = 9 then s
      else let t = (if sint type < 0 \<or> sint type > 4 then 4 else nat (sint type)) in
        s\<lparr>c_alloc_n := (c_alloc_n s)[t := c_alloc_n s ! t + 1],
          c_alloc_kb := (c_alloc_kb s)[t := c_alloc_kb s ! t + bytes div 1024]\<rparr>)"

definition gl_frame_summary :: "gl_state \<Rightarrow> gl_state" where
  "gl_frame_summary s =
     s\<lparr>c_alloc_n := replicate 5 0, c_alloc_kb := replicate 5 0,
       c_draws := 0, c_draws_fbo0 := 0, c_clears := 0, c_fbobinds := 0, c_useprog := 0, c_texupload := 0,
       c_subdata_calls := 0, c_subdata_bytes := 0, c_texsub_calls := 0, c_texsub_px := 0, c_vp_fit := 0\<rparr>"

section \<open>Buffers\<close>

text \<open>\<open>while (glGetError()) {}\<close>, at most \<open>fuel\<close> times.\<close>

primrec drain_errors :: "nat \<Rightarrow> gl_prog \<Rightarrow> gl_prog" where
  "drain_errors 0 k = Spin"
| "drain_errors (Suc fuel) k = Gl ''glGetError'' [] (\<lambda>e. if e = 0 then k else drain_errors fuel k)"

definition buffer_binding :: "u32 \<Rightarrow> u32" where
  "buffer_binding target = (if target = 0x8893 then 0x8895 else 0x8894)"

definition vgl_storage :: "nat \<Rightarrow> u32 \<Rightarrow> (u32 \<Rightarrow> gl_prog) \<Rightarrow> gl_prog" where
  "vgl_storage fuel target k =
     Gl ''glGetIntegerv'' [W (buffer_binding target), Out] (\<lambda>id. drain_errors fuel
       (if id < 0x1000 then k 0 else Load id k))"

text \<open>\<open>e = glGetError(); if (!e && size > 0 && !vgl_storage(target)) e = GL_OUT_OF_MEMORY;\<close>\<close>

definition alloc_error :: "nat \<Rightarrow> u32 \<Rightarrow> i32 \<Rightarrow> (u32 \<Rightarrow> gl_prog) \<Rightarrow> gl_prog" where
  "alloc_error fuel target sz k =
     Gl ''glGetError'' [] (\<lambda>e.
       if e = 0 \<and> 0 < sint sz then vgl_storage fuel target (\<lambda>p. k (if p = 0 then 0x505 else e)) else k e)"

definition glBufferData_locked :: "nat \<Rightarrow> u32 \<Rightarrow> i32 \<Rightarrow> u32 \<Rightarrow> u32 \<Rightarrow> gl_prog" where
  "glBufferData_locked fuel target sz data usage =
     Lock (drain_errors fuel
       (let usage = (if 65536 \<le> sint sz \<and> usage \<noteq> 0x88E4 then 0x88E4 else usage) in
        Gl ''glBufferData'' [W target, W sz, W data, W usage] (\<lambda>_. alloc_error fuel target sz (\<lambda>e.
          if e \<noteq> 0
          then Gl ''glBufferData'' [W target, W sz, W data, W 0x88E4] (\<lambda>_. alloc_error fuel target sz (\<lambda>_.
            Unlock (Ret 0)))
          else Unlock (Ret 0)))))"

text \<open>The part of \<open>glBufferSubData_locked\<close> after the check that re-creates a buffer that is too short.\<close>

definition subdata_in_place :: "nat \<Rightarrow> u32 \<Rightarrow> i32 \<Rightarrow> i32 \<Rightarrow> u32 \<Rightarrow> gl_prog" where
  "subdata_in_place fuel target offset sz data =
     vgl_storage fuel target (\<lambda>base.
       if base = 0 then Unlock (Ret 0)
       else Gl ''glGetBufferParameteriv'' [W target, W 0x8764, Out] (\<lambda>now. drain_errors fuel
         (if sint (offset + sz) \<le> sint now
          then Memcpy (base + offset) data sz (Unlock (Ret 0))
          else Unlock (Ret 0))))"

definition glBufferSubData_locked :: "nat \<Rightarrow> u32 \<Rightarrow> i32 \<Rightarrow> i32 \<Rightarrow> u32 \<Rightarrow> gl_prog" where
  "glBufferSubData_locked fuel target offset sz data =
     Lock (if sint sz \<le> 0 \<or> data = 0 then Unlock (Ret 0)
      else Gl ''glGetBufferParameteriv'' [W target, W 0x8764, Out] (\<lambda>cur. drain_errors fuel
       (Upd (\<lambda>s. s\<lparr>c_subdata_calls := c_subdata_calls s + 1, c_subdata_bytes := c_subdata_bytes s + sz\<rparr>)
        (if sint cur \<le> 0 \<or> sint cur < sint (offset + sz)
         then Gl ''glGetIntegerv'' [W (buffer_binding target), Out] (\<lambda>_.
           let need = (if sint (offset + sz) < sint cur then cur else offset + sz) in
           Unlock (gl_bind (glBufferData_locked fuel target need 0 0x88E4) (\<lambda>_.
             Lock (subdata_in_place fuel target offset sz data))))
         else subdata_in_place fuel target offset sz data))))"

section \<open>Framebuffer attachments\<close>

text \<open>The first entry that satisfies a condition.\<close>

fun first_index :: "('a \<Rightarrow> bool) \<Rightarrow> 'a list \<Rightarrow> nat option" where
  "first_index P [] = None"
| "first_index P (x # xs) = (if P x then Some 0 else map_option Suc (first_index P xs))"

definition glFramebufferRenderbuffer_locked :: "u32 \<Rightarrow> u32 \<Rightarrow> u32 \<Rightarrow> u32 \<Rightarrow> gl_prog" where
  "glFramebufferRenderbuffer_locked target attachment rbtarget rb =
     Lock (Get (\<lambda>s.
       let cache = fbo_rb_cache s;
           found = first_index (\<lambda>e. rb_fbo e = cur_fbo s \<and> rb_point e = attachment) cache;
           attach = Gl ''glFramebufferRenderbuffer'' [W target, W attachment, W rbtarget, W rb] (\<lambda>_.
             Unlock (Ret 0)) in
       case found of
         Some i \<Rightarrow>
           if rb_name (cache ! i) = rb then Unlock (Ret 0)
           else Upd (\<lambda>s. s\<lparr>fbo_rb_cache := cache[i := (cache ! i)\<lparr>rb_name := rb\<rparr>]\<rparr>) attach
       | None \<Rightarrow>
           if length cache < 256
           then Upd (\<lambda>s. s\<lparr>fbo_rb_cache :=
               cache @ [\<lparr>rb_fbo = cur_fbo s, rb_point = attachment, rb_name = rb\<rparr>]\<rparr>) attach
           else attach))"

definition glFramebufferTexture2D_locked :: "u32 \<Rightarrow> u32 \<Rightarrow> u32 \<Rightarrow> u32 \<Rightarrow> i32 \<Rightarrow> gl_prog" where
  "glFramebufferTexture2D_locked target attachment textarget texture level =
     Lock (Get (\<lambda>s.
       let cache = fbo_attach_cache s;
           found = first_index (\<lambda>e. at_fbo e = cur_fbo s \<and> at_point e = attachment) cache;
           attach = Gl ''glFramebufferTexture2D'' [W target, W attachment, W textarget, W texture, W level] (\<lambda>_.
             Unlock (Ret 0)) in
       case found of
         Some i \<Rightarrow>
           if at_tex (cache ! i) = texture \<and> at_level (cache ! i) = level then Unlock (Ret 0)
           else Upd (\<lambda>s. s\<lparr>fbo_attach_cache :=
               cache[i := (cache ! i)\<lparr>at_tex := texture, at_level := level\<rparr>]\<rparr>) attach
       | None \<Rightarrow>
           if length cache < 256
           then Upd (\<lambda>s. s\<lparr>fbo_attach_cache := cache @
               [\<lparr>at_fbo = cur_fbo s, at_point = attachment, at_tex = texture, at_level = level\<rparr>]\<rparr>) attach
           else attach))"

definition forget_fbo :: "u32 \<Rightarrow> gl_state \<Rightarrow> gl_state" where
  "forget_fbo f s =
     s\<lparr>fbo_attach_cache := map (\<lambda>e. if at_fbo e = f then e\<lparr>at_tex := 0xFFFFFFFF\<rparr> else e) (fbo_attach_cache s),
       fbo_rb_cache := map (\<lambda>e. if rb_fbo e = f then e\<lparr>rb_name := 0xFFFFFFFF\<rparr> else e) (fbo_rb_cache s)\<rparr>"

definition forget_rb :: "u32 \<Rightarrow> gl_state \<Rightarrow> gl_state" where
  "forget_rb r s =
     s\<lparr>fbo_rb_cache := map (\<lambda>e. if rb_name e = r then e\<lparr>rb_name := 0xFFFFFFFF\<rparr> else e) (fbo_rb_cache s)\<rparr>"

text \<open>The loop over an array of \<open>n\<close> names at \<open>p\<close>.\<close>

primrec for_names :: "nat \<Rightarrow> u32 \<Rightarrow> (u32 \<Rightarrow> gl_state \<Rightarrow> gl_state) \<Rightarrow> gl_prog \<Rightarrow> gl_prog" where
  "for_names 0 p u k = k"
| "for_names (Suc n) p u k = Load p (\<lambda>x. Upd (u x) (for_names n (p + 4) u k))"

definition glDeleteFramebuffers_locked :: "i32 \<Rightarrow> u32 \<Rightarrow> gl_prog" where
  "glDeleteFramebuffers_locked n framebuffers =
     Lock (for_names (nat (sint n)) framebuffers forget_fbo
       (Gl ''glDeleteFramebuffers'' [W n, W framebuffers] (\<lambda>_. Unlock (Ret 0))))"

definition glDeleteRenderbuffers_locked :: "i32 \<Rightarrow> u32 \<Rightarrow> gl_prog" where
  "glDeleteRenderbuffers_locked n renderbuffers =
     Lock (for_names (nat (sint n)) renderbuffers forget_rb
       (Gl ''glDeleteRenderbuffers'' [W n, W renderbuffers] (\<lambda>_. Unlock (Ret 0))))"

section \<open>Shaders\<close>

primrec clean_srcs :: "u32 \<Rightarrow> nat list \<Rightarrow> gl_prog \<Rightarrow> gl_prog" where
  "clean_srcs sh [] k = k"
| "clean_srcs sh (i # is) k = Get (\<lambda>s.
     if fst (src_tab s ! i) = sh
     then Libc ''free'' [W (snd (src_tab s ! i))] (\<lambda>_.
       Upd (\<lambda>s. s\<lparr>src_tab := (src_tab s)[i := (0, 0)]\<rparr>) (clean_srcs sh is k))
     else clean_srcs sh is k)"

text \<open>Printing a kept source: it is copied, and the copy is not tested.  The lines go to the log only.\<close>

definition dump_src :: "u32 \<Rightarrow> gl_prog \<Rightarrow> gl_prog" where
  "dump_src sh k = Get (\<lambda>s.
     case first_index (\<lambda>e. fst e = sh) (src_tab s) of
       None \<Rightarrow> k
     | Some i \<Rightarrow>
         if snd (src_tab s ! i) = 0 then k
         else Libc ''strdup'' [W (snd (src_tab s ! i))] (\<lambda>c.
           if c = 0 then Spin else Libc ''free'' [W c] (\<lambda>_. k)))"

definition glCompileShader_log :: "u32 \<Rightarrow> gl_prog \<Rightarrow> gl_prog" where
  "glCompileShader_log sh k =
     Gl ''glCompileShader'' [W sh] (\<lambda>_. Gl ''glGetShaderiv'' [W sh, W 0x8B81, Out] (\<lambda>ok.
       if ok \<noteq> 0 then clean_srcs sh [0..<64] k
       else Gl ''glGetShaderInfoLog'' [W sh, W 1024, Out, Out] (\<lambda>_.
         Upd (\<lambda>s. s\<lparr>shader_fail_dumps := shader_fail_dumps s + 1\<rparr>) k)))"

text \<open>
  After a failed link the code asks for the logs of the attached shaders, and prints the sources of those that
  failed to compile while less than four were printed.  The call that fills \<open>shs\<close> returns its count here, and
  an element of the array is asked for by a query of its own.
\<close>

primrec link_logs :: "nat list \<Rightarrow> gl_prog \<Rightarrow> gl_prog" where
  "link_logs [] k = k"
| "link_logs (i # is) k =
     Gl ''glGetAttachedShaders: shs'' [W (of_nat i)] (\<lambda>sh. Gl ''glGetShaderiv'' [W sh, W 0x8B81, Out] (\<lambda>cok.
       Gl ''glGetShaderInfoLog'' [W sh, W 2048, Out, Out] (\<lambda>_.
         if cok \<noteq> 0 then link_logs is k
         else Get (\<lambda>s. Upd (\<lambda>s. s\<lparr>shader_fail_dumps := shader_fail_dumps s + 1\<rparr>)
           (if sint (shader_fail_dumps s) < 4 then dump_src sh (link_logs is k) else link_logs is k)))))"

definition glLinkProgram_log :: "u32 \<Rightarrow> gl_prog \<Rightarrow> gl_prog" where
  "glLinkProgram_log p k =
     Gl ''glLinkProgram'' [W p] (\<lambda>_. Gl ''glGetProgramiv'' [W p, W 0x8B82, Out] (\<lambda>ok.
       if ok \<noteq> 0 then k
       else Gl ''glGetProgramInfoLog'' [W p, W 1024, Out, Out] (\<lambda>_.
         Gl ''glGetAttachedShaders'' [W p, W 4, Out, Out] (\<lambda>nsh. link_logs [0..<nat (sint nsh)] k))))"

definition remember_src :: "u32 \<Rightarrow> string \<Rightarrow> gl_prog \<Rightarrow> gl_prog" where
  "remember_src sh src k = Get (\<lambda>s.
     case first_index (\<lambda>e. fst e = sh) (src_tab s) of
       Some i \<Rightarrow> Libc ''free'' [W (snd (src_tab s ! i))] (\<lambda>_. Libc ''strdup'' [S src] (\<lambda>p.
         Upd (\<lambda>s. s\<lparr>src_tab := (src_tab s)[i := (sh, p)]\<rparr>) k))
     | None \<Rightarrow> let i = src_tab_n s mod 64 in
         Upd (\<lambda>s. s\<lparr>src_tab_n := src_tab_n s + 1\<rparr>)
         (Libc ''free'' [W (snd (src_tab s ! i))] (\<lambda>_. Libc ''strdup'' [S src] (\<lambda>p.
           Upd (\<lambda>s. s\<lparr>src_tab := (src_tab s)[i := (if p = 0 then 0 else sh, p)]\<rparr>) k))))"

definition first_source :: "arg \<Rightarrow> string option" where
  "first_source a = (case a of Ss (Some b # _) \<Rightarrow> Some b | _ \<Rightarrow> None)"

text \<open>
  A source string comes with its length or ends with a zero byte; a pass that finds the heap full makes
  the shader go to vitaGL as it is.
\<close>

definition prepare_source :: "string \<Rightarrow> (string \<Rightarrow> u32 \<Rightarrow> gl_prog) \<Rightarrow> gl_prog \<Rightarrow> gl_prog" where
  "prepare_source src k raw =
     Libc ''malloc'' [W (of_nat (glsl_prepass_size src))] (\<lambda>p1.
       if p1 = 0 then Libc ''free'' [W 0] (\<lambda>_. Libc ''free'' [W 0] (\<lambda>_. raw))
       else let fixed = zero_cut (glsl_prepass src) in
         Libc ''malloc'' [W (of_nat (rename_tex_sampler_size fixed))] (\<lambda>p2. Libc ''free'' [W p1] (\<lambda>_.
           if p2 = 0 then Libc ''free'' [W 0] (\<lambda>_. raw)
           else let renamed = zero_cut (rename_tex_sampler fixed) in
             Libc ''malloc'' [W (of_nat (static_globals_size renamed))] (\<lambda>p3. Libc ''free'' [W p2] (\<lambda>_.
               if p3 = 0 then raw else k (static_globals renamed) p3)))))"

definition glShaderSource_log :: "u32 \<Rightarrow> i32 \<Rightarrow> arg \<Rightarrow> u32 \<Rightarrow> gl_prog \<Rightarrow> gl_prog" where
  "glShaderSource_log sh n src len k =
     (let raw = Gl ''glShaderSource'' [W sh, W n, src, W len] (\<lambda>_. k);
          prepare = (\<lambda>text.
            if n = 1
            then prepare_source text (\<lambda>final p.
              remember_src sh final (Gl ''glShaderSource'' [W sh, W 1, Ss [Some final], W 0] (\<lambda>_.
                Libc ''free'' [W p] (\<lambda>_. k)))) raw
            else raw) in
      case (if 0 < sint n then first_source src else None) of
        None \<Rightarrow> raw
      | Some b \<Rightarrow>
          if len = 0 then prepare (zero_cut b)
          else Load len (\<lambda>l. prepare (if 0 < sint l then take (unat l) b else zero_cut b)))"

definition glGetUniformLocation_locked :: "arg \<Rightarrow> string \<Rightarrow> gl_prog" where
  "glGetUniformLocation_locked prog name =
     Lock (Gl ''glGetUniformLocation'' [prog, S name] (\<lambda>r.
       if sint r < 0 \<and> prefixed ''tex'' name \<and> (drop 3 name = [] \<or> name ! 3 = CHR ''['')
       then Gl ''glGetUniformLocation'' [prog, S (take 79 (''s_'' @ name))] (\<lambda>r. Unlock (Ret r))
       else Unlock (Ret r)))"

section \<open>Viewports\<close>

text \<open>
  \<open>fit_rect\<close> computes with single-precision floats: \<open>rnd\<close> rounds a real to the nearest one.  A quotient by
  zero is an infinity, so a zero width or height is never the smaller scale.  The conversion of a float to
  an integer truncates.
\<close>

definition trunc :: "real \<Rightarrow> int" where
  "trunc r = (if r < 0 then ceiling r else floor r)"

definition fit_scale :: "(real \<Rightarrow> real) \<Rightarrow> int \<Rightarrow> int \<Rightarrow> real" where
  "fit_scale rnd w h =
     (let sx = rnd (960 / rnd (of_int w)); sy = rnd (544 / rnd (of_int h)) in
      if w \<noteq> 0 \<and> (h = 0 \<or> sx < sy) then sx else sy)"

definition fit_side :: "(real \<Rightarrow> real) \<Rightarrow> int \<Rightarrow> real \<Rightarrow> int" where
  "fit_side rnd v s = trunc (rnd (rnd (rnd (of_int v) * s) + 1 / 2))"

text \<open>C division by two.\<close>

definition half :: "int \<Rightarrow> int" where
  "half d = (if d < 0 then - (- d div 2) else d div 2)"

definition fit_rect :: "(real \<Rightarrow> real) \<Rightarrow> u32 \<Rightarrow> int \<Rightarrow> int \<Rightarrow> int \<Rightarrow> int \<Rightarrow> (int \<times> int \<times> int \<times> int) option" where
  "fit_rect rnd fbo x y w h =
     (if fbo \<noteq> 0 \<or> (w \<le> 960 \<and> h \<le> 544) then None
      else let s = fit_scale rnd w h; nw = fit_side rnd w s; nh = fit_side rnd h s in
        Some (trunc (rnd (rnd (of_int x) * s)) + half (960 - nw), trunc (rnd (rnd (of_int y) * s)) + half (544 - nh),
              nw, nh))"

definition glViewport_locked :: "(real \<Rightarrow> real) \<Rightarrow> i32 \<Rightarrow> i32 \<Rightarrow> i32 \<Rightarrow> i32 \<Rightarrow> gl_prog" where
  "glViewport_locked rnd x y w h =
     Lock (Get (\<lambda>s.
       let view = (\<lambda>x y w h. Upd (\<lambda>s. s\<lparr>c_viewport_w := w, c_viewport_h := h\<rparr>)
             (Gl ''glViewport'' [W x, W y, W w, W h] (\<lambda>_. Unlock (Ret 0)))) in
       case fit_rect rnd (cur_fbo s) (sint x) (sint y) (sint w) (sint h) of
         None \<Rightarrow> view x y w h
       | Some (x, y, w, h) \<Rightarrow> Upd (\<lambda>s. s\<lparr>c_vp_fit := c_vp_fit s + 1\<rparr>)
           (view (of_int x) (of_int y) (of_int w) (of_int h))))"

definition glScissor_locked :: "(real \<Rightarrow> real) \<Rightarrow> i32 \<Rightarrow> i32 \<Rightarrow> i32 \<Rightarrow> i32 \<Rightarrow> gl_prog" where
  "glScissor_locked rnd x y w h =
     Lock (Get (\<lambda>s.
       case fit_rect rnd (cur_fbo s) (sint x) (sint y) (sint w) (sint h) of
         None \<Rightarrow> Gl ''glScissor'' [W x, W y, W w, W h] (\<lambda>_. Unlock (Ret 0))
       | Some (x, y, w, h) \<Rightarrow>
           Gl ''glScissor'' [W (of_int x), W (of_int y), W (of_int w), W (of_int h)] (\<lambda>_. Unlock (Ret 0))))"

section \<open>Mapped buffers\<close>

definition map_idx :: "u32 \<Rightarrow> nat" where
  "map_idx t = (if t = 0x8893 then 1 else 0)"

definition set_mapped :: "u32 \<Rightarrow> u32 \<Rightarrow> gl_state \<Rightarrow> gl_state" where
  "set_mapped t r s = s\<lparr>mapped_ptr := (mapped_ptr s)[map_idx t := r]\<rparr>"

definition glMapBufferOES_locked :: "u32 \<Rightarrow> u32 \<Rightarrow> gl_prog" where
  "glMapBufferOES_locked t a =
     Lock (Gl ''glMapBuffer'' [W t, W a] (\<lambda>r.
       let finish = (\<lambda>r. Upd (set_mapped t r) (Unlock (Ret r))); i = map_idx t in
       if r \<noteq> 0 then finish r
       else Gl ''glGetBufferParameteriv'' [W t, W 0x8764, Out] (\<lambda>sz. Get (\<lambda>s.
         if sint (staging_sz s ! i) < sint sz
         then Libc ''free'' [W (staging s ! i)] (\<lambda>_. Libc ''malloc'' [W sz] (\<lambda>p.
           Upd (\<lambda>s. s\<lparr>staging := (staging s)[i := p], staging_sz := (staging_sz s)[i := sz]\<rparr>) (finish p)))
         else finish (staging s ! i)))))"

definition glGetBufferPointervOES_impl :: "u32 \<Rightarrow> u32 \<Rightarrow> u32 \<Rightarrow> gl_prog" where
  "glGetBufferPointervOES_impl t pname params =
     (if params \<noteq> 0 then Get (\<lambda>s. Store params (mapped_ptr s ! map_idx t) (Ret 0)) else Ret 0)"

definition glUnmapBufferOES_locked :: "nat \<Rightarrow> u32 \<Rightarrow> gl_prog" where
  "glUnmapBufferOES_locked fuel t =
     Lock (Get (\<lambda>s.
       let i = map_idx t; finish = (\<lambda>r. Upd (set_mapped t 0) (Unlock (Ret r))) in
       if mapped_ptr s ! i = staging s ! i \<and> staging s ! i \<noteq> 0
       then Unlock (gl_bind (glBufferSubData_locked fuel t 0 (staging_sz s ! i) (staging s ! i)) (\<lambda>_.
         Lock (finish 1)))
       else Gl ''glUnmapBuffer'' [W t] finish))"

definition glMapBufferRangeEXT_locked :: "u32 \<Rightarrow> u32 \<Rightarrow> u32 \<Rightarrow> u32 \<Rightarrow> gl_prog" where
  "glMapBufferRangeEXT_locked t offset l a =
     Lock (Gl ''glMapBufferRange'' [W t, W offset, W l, W a] (\<lambda>r. Upd (set_mapped t r) (Unlock (Ret r))))"

definition no_operation :: "arg list \<Rightarrow> gl_prog" where
  "no_operation as = Ret 0"

section \<open>The wrappers by name\<close>

text \<open>A row is the wrapper's name, the number of its arguments, and its program.\<close>

type_synonym gl_entry = "string \<times> nat \<times> (arg list \<Rightarrow> gl_prog)"

definition gl_entries_a :: "nat \<Rightarrow> gl_entry list" where
  "gl_entries_a fuel =
    [(''glActiveTexture_locked'', 1, (forwards ''glActiveTexture'')),
     (''glAttachShader_locked'', 2, (forwards ''glAttachShader'')),
     (''glBindAttribLocation_locked'', 3, (forwards ''glBindAttribLocation'')),
     (''glBindBuffer_locked'', 2, (forwards ''glBindBuffer'')),
     (''glBindFramebuffer_locked'', 2, (counted count_bind ''glBindFramebuffer'')),
     (''glBindRenderbuffer_locked'', 2, (forwards ''glBindRenderbuffer'')),
     (''glBindTexture_locked'', 2, (forwards ''glBindTexture'')),
     (''glBlendEquation_locked'', 1, (forwards ''glBlendEquation'')),
     (''glBlendEquationSeparate_locked'', 2, (forwards ''glBlendEquationSeparate'')),
     (''glBlendFunc_locked'', 2, (forwards ''glBlendFunc'')),
     (''glBlendFuncSeparate_locked'', 4, (forwards ''glBlendFuncSeparate'')),
     (''glBufferData_locked'', 4, (\<lambda>as. glBufferData_locked fuel (word_at as 0) (word_at as 1) (word_at as 2) (word_at as 3))),
     (''glBufferSubData_locked'', 4, (\<lambda>as. glBufferSubData_locked fuel (word_at as 0) (word_at as 1) (word_at as 2) (word_at as 3)))]"

definition gl_entries_b :: "gl_entry list" where
  "gl_entries_b =
    [(''glCheckFramebufferStatus_locked'', 1, (returns ''glCheckFramebufferStatus'')),
     (''glClear_locked'', 1, (counted count_clear ''glClear'')),
     (''glClearColor_locked'', 4, (counted note_clear_color ''glClearColor'')),
     (''glClearDepthf_locked'', 1, (forwards ''glClearDepthf'')),
     (''glClearStencil_locked'', 1, (forwards ''glClearStencil'')),
     (''glColorMask_locked'', 4, (forwards ''glColorMask'')),
     (''glCompileShader_locked'', 1, (\<lambda>as. Lock (glCompileShader_log (word_at as 0) (Unlock (Ret 0))))),
     (''glCompressedTexImage2D_locked'', 8, (counted count_upload ''glCompressedTexImage2D'')),
     (''glCopyTexImage2D_locked'', 8, (forwards ''glCopyTexImage2D'')),
     (''glCopyTexSubImage2D_locked'', 8, (forwards ''glCopyTexSubImage2D'')),
     (''glCreateProgram_locked'', 0, (returns ''glCreateProgram'')),
     (''glCreateShader_locked'', 1, (returns ''glCreateShader'')),
     (''glCullFace_locked'', 1, (forwards ''glCullFace'')),
     (''glDeleteBuffers_locked'', 2, (forwards ''glDeleteBuffers'')),
     (''glDeleteFramebuffers_locked'', 2, (\<lambda>as. glDeleteFramebuffers_locked (word_at as 0) (word_at as 1))),
     (''glDeleteProgram_locked'', 1, (forwards ''glDeleteProgram'')),
     (''glDeleteRenderbuffers_locked'', 2, (\<lambda>as. glDeleteRenderbuffers_locked (word_at as 0) (word_at as 1))),
     (''glDeleteShader_locked'', 1, (forwards ''glDeleteShader'')),
     (''glDeleteTextures_locked'', 2, (forwards ''glDeleteTextures'')),
     (''glDepthFunc_locked'', 1, (forwards ''glDepthFunc'')),
     (''glDepthMask_locked'', 1, (forwards ''glDepthMask'')),
     (''glDepthRangef_locked'', 2, (forwards ''glDepthRangef'')),
     (''glDisable_locked'', 1, (forwards ''glDisable'')),
     (''glDisableVertexAttribArray_locked'', 1, (forwards ''glDisableVertexAttribArray'')),
     (''glDrawArrays_locked'', 3, (counted count_draw ''glDrawArrays'')),
     (''glDrawElements_locked'', 4, (counted count_draw ''glDrawElements'')),
     (''glEnable_locked'', 1, (forwards ''glEnable'')),
     (''glEnableVertexAttribArray_locked'', 1, (forwards ''glEnableVertexAttribArray'')),
     (''glFinish_locked'', 0, (forwards ''glFinish'')),
     (''glFlush_locked'', 0, (forwards ''glFlush''))]"

definition gl_entries_c :: "gl_entry list" where
  "gl_entries_c =
    [(''glFramebufferRenderbuffer_locked'', 4, (\<lambda>as. glFramebufferRenderbuffer_locked (word_at as 0) (word_at as 1) (word_at as 2) (word_at as 3))),
     (''glFramebufferTexture2D_locked'', 5, (\<lambda>as. glFramebufferTexture2D_locked (word_at as 0) (word_at as 1) (word_at as 2) (word_at as 3) (word_at as 4))),
     (''glFrontFace_locked'', 1, (forwards ''glFrontFace'')),
     (''glGenBuffers_locked'', 2, (forwards ''glGenBuffers'')),
     (''glGenFramebuffers_locked'', 2, (forwards ''glGenFramebuffers'')),
     (''glGenRenderbuffers_locked'', 2, (forwards ''glGenRenderbuffers'')),
     (''glGenTextures_locked'', 2, (forwards ''glGenTextures'')),
     (''glGenerateMipmap_locked'', 1, (forwards ''glGenerateMipmap'')),
     (''glGetActiveAttrib_locked'', 7, (forwards ''glGetActiveAttrib'')),
     (''glGetActiveUniform_locked'', 7, (forwards ''glGetActiveUniform'')),
     (''glGetAttachedShaders_locked'', 4, (forwards ''glGetAttachedShaders'')),
     (''glGetAttribLocation_locked'', 2, (returns ''glGetAttribLocation'')),
     (''glGetBooleanv_locked'', 2, (forwards ''glGetBooleanv'')),
     (''glGetBufferParameteriv_locked'', 3, (forwards ''glGetBufferParameteriv'')),
     (''glGetError_locked'', 0, (returns ''glGetError'')),
     (''glGetFloatv_locked'', 2, (forwards ''glGetFloatv'')),
     (''glGetFramebufferAttachmentParameteriv_locked'', 4, (forwards ''glGetFramebufferAttachmentParameteriv'')),
     (''glGetIntegerv_locked'', 2, (forwards ''glGetIntegerv'')),
     (''glGetProgramInfoLog_locked'', 4, (forwards ''glGetProgramInfoLog'')),
     (''glGetProgramiv_locked'', 3, (forwards ''glGetProgramiv'')),
     (''glGetShaderInfoLog_locked'', 4, (forwards ''glGetShaderInfoLog'')),
     (''glGetShaderSource_locked'', 4, (forwards ''glGetShaderSource'')),
     (''glGetShaderiv_locked'', 3, (forwards ''glGetShaderiv'')),
     (''glGetString_locked'', 1, (returns ''glGetString''))]"

definition gl_entries_d :: "gl_entry list" where
  "gl_entries_d =
    [(''glGetUniformLocation_locked'', 2, (\<lambda>as. case as ! 1 of S name \<Rightarrow> glGetUniformLocation_locked (as ! 0) name | _ \<Rightarrow> Ret 0)),
     (''glGetVertexAttribPointerv_locked'', 3, (forwards ''glGetVertexAttribPointerv'')),
     (''glGetVertexAttribfv_locked'', 3, (forwards ''glGetVertexAttribfv'')),
     (''glGetVertexAttribiv_locked'', 3, (forwards ''glGetVertexAttribiv'')),
     (''glHint_locked'', 2, (forwards ''glHint'')),
     (''glIsEnabled_locked'', 1, (returns ''glIsEnabled'')),
     (''glIsFramebuffer_locked'', 1, (returns ''glIsFramebuffer'')),
     (''glIsProgram_locked'', 1, (returns ''glIsProgram'')),
     (''glIsRenderbuffer_locked'', 1, (returns ''glIsRenderbuffer'')),
     (''glIsTexture_locked'', 1, (returns ''glIsTexture'')),
     (''glLineWidth_locked'', 1, (forwards ''glLineWidth'')),
     (''glLinkProgram_locked'', 1, (\<lambda>as. Lock (glLinkProgram_log (word_at as 0) (Unlock (Ret 0))))),
     (''glPixelStorei_locked'', 2, (forwards ''glPixelStorei'')),
     (''glPolygonOffset_locked'', 2, (forwards ''glPolygonOffset'')),
     (''glReadPixels_locked'', 7, (forwards ''glReadPixels'')),
     (''glReleaseShaderCompiler_locked'', 0, (forwards ''glReleaseShaderCompiler'')),
     (''glRenderbufferStorage_locked'', 4, (forwards ''glRenderbufferStorage'')),
     (''glShaderBinary_locked'', 5, (forwards ''glShaderBinary'')),
     (''glShaderSource_locked'', 4, (\<lambda>as. Lock (glShaderSource_log (word_at as 0) (word_at as 1) (as ! 2) (word_at as 3) (Unlock (Ret 0))))),
     (''glStencilFunc_locked'', 3, (forwards ''glStencilFunc'')),
     (''glStencilFuncSeparate_locked'', 4, (forwards ''glStencilFuncSeparate'')),
     (''glStencilMask_locked'', 1, (forwards ''glStencilMask'')),
     (''glStencilMaskSeparate_locked'', 2, (forwards ''glStencilMaskSeparate'')),
     (''glStencilOp_locked'', 3, (forwards ''glStencilOp'')),
     (''glStencilOpSeparate_locked'', 4, (forwards ''glStencilOpSeparate'')),
     (''glTexImage2D_locked'', 9, (counted count_upload ''glTexImage2D'')),
     (''glTexParameterf_locked'', 3, (forwards ''glTexParameterf'')),
     (''glTexParameteri_locked'', 3, (forwards ''glTexParameteri'')),
     (''glTexParameteriv_locked'', 3, (forwards ''glTexParameteriv'')),
     (''glTexSubImage2D_locked'', 9, (counted count_texsub ''glTexSubImage2D'')),
     (''glUniform1f_locked'', 2, (forwards ''glUniform1f'')),
     (''glUniform1fv_locked'', 3, (forwards ''glUniform1fv''))]"

definition gl_entries_e :: "gl_entry list" where
  "gl_entries_e =
    [(''glUniform1i_locked'', 2, (forwards ''glUniform1i'')),
     (''glUniform1iv_locked'', 3, (forwards ''glUniform1iv'')),
     (''glUniform2f_locked'', 3, (forwards ''glUniform2f'')),
     (''glUniform2fv_locked'', 3, (forwards ''glUniform2fv'')),
     (''glUniform2i_locked'', 3, (forwards ''glUniform2i'')),
     (''glUniform2iv_locked'', 3, (forwards ''glUniform2iv'')),
     (''glUniform3f_locked'', 4, (forwards ''glUniform3f'')),
     (''glUniform3fv_locked'', 3, (forwards ''glUniform3fv'')),
     (''glUniform3i_locked'', 4, (forwards ''glUniform3i'')),
     (''glUniform3iv_locked'', 3, (forwards ''glUniform3iv'')),
     (''glUniform4f_locked'', 5, (forwards ''glUniform4f'')),
     (''glUniform4fv_locked'', 3, (forwards ''glUniform4fv'')),
     (''glUniform4i_locked'', 5, (forwards ''glUniform4i'')),
     (''glUniform4iv_locked'', 3, (forwards ''glUniform4iv'')),
     (''glUniformMatrix2fv_locked'', 4, (forwards ''glUniformMatrix2fv'')),
     (''glUniformMatrix3fv_locked'', 4, (forwards ''glUniformMatrix3fv'')),
     (''glUniformMatrix4fv_locked'', 4, (forwards ''glUniformMatrix4fv'')),
     (''glUseProgram_locked'', 1, (counted count_program ''glUseProgram'')),
     (''glVertexAttrib1f_locked'', 2, (forwards ''glVertexAttrib1f'')),
     (''glVertexAttrib1fv_locked'', 2, (forwards ''glVertexAttrib1fv'')),
     (''glVertexAttrib2f_locked'', 3, (forwards ''glVertexAttrib2f'')),
     (''glVertexAttrib2fv_locked'', 2, (forwards ''glVertexAttrib2fv'')),
     (''glVertexAttrib3f_locked'', 4, (forwards ''glVertexAttrib3f'')),
     (''glVertexAttrib3fv_locked'', 2, (forwards ''glVertexAttrib3fv'')),
     (''glVertexAttrib4f_locked'', 5, (forwards ''glVertexAttrib4f'')),
     (''glVertexAttrib4fv_locked'', 2, (forwards ''glVertexAttrib4fv'')),
     (''glVertexAttribPointer_locked'', 6, (forwards ''glVertexAttribPointer''))]"

definition gl_entries_f :: "nat \<Rightarrow> (real \<Rightarrow> real) \<Rightarrow> gl_entry list" where
  "gl_entries_f fuel rnd =
    [(''glViewport_locked'', 4, (\<lambda>as. glViewport_locked rnd (word_at as 0) (word_at as 1) (word_at as 2) (word_at as 3))),
     (''glScissor_locked'', 4, (\<lambda>as. glScissor_locked rnd (word_at as 0) (word_at as 1) (word_at as 2) (word_at as 3))),
     (''glMapBufferOES_locked'', 2, (\<lambda>as. glMapBufferOES_locked (word_at as 0) (word_at as 1))),
     (''glGetBufferPointervOES_impl'', 3, (\<lambda>as. glGetBufferPointervOES_impl (word_at as 0) (word_at as 1) (word_at as 2))),
     (''glUnmapBufferOES_locked'', 1, (\<lambda>as. glUnmapBufferOES_locked fuel (word_at as 0))),
     (''glMapBufferRangeEXT_locked'', 4, (\<lambda>as. glMapBufferRangeEXT_locked (word_at as 0) (word_at as 1) (word_at as 2) (word_at as 3))),
     (''glFlushMappedBufferRangeEXT_noop'', 3, no_operation),
     (''glBindVertexArrayOES_locked'', 1, (forwards ''glBindVertexArray'')),
     (''glGenVertexArraysOES_locked'', 2, (forwards ''glGenVertexArrays'')),
     (''glDeleteVertexArraysOES_locked'', 2, (forwards ''glDeleteVertexArrays'')),
     (''glDiscardFramebufferEXT_noop'', 3, no_operation)]"

definition gl_entries :: "nat \<Rightarrow> (real \<Rightarrow> real) \<Rightarrow> gl_entry list" where
  "gl_entries fuel rnd =
     gl_entries_a fuel @ gl_entries_b @ gl_entries_c @ gl_entries_d @ gl_entries_e @ gl_entries_f fuel rnd"

text \<open>
  The GL functions vitaGL does not have (\<open>default_dynlib.c\<close>), imported under their own names.
\<close>

definition gl_stubs :: "gl_entry list" where
  "gl_stubs =
    [(''glBlendColor'', 4, no_operation),
     (''glCompressedTexSubImage2D'', 9, no_operation),
     (''glDetachShader'', 2, no_operation),
     (''glGetRenderbufferParameteriv'', 3, (\<lambda>as. Store (word_at as 2) 0 (Ret 0))),
     (''glGetShaderPrecisionFormat'', 4, (\<lambda>as. Store (word_at as 2) 127 (Store (word_at as 2 + 4) 127
        (Store (word_at as 3) 23 (Ret 0))))),
     (''glGetTexParameterfv'', 3, (\<lambda>as. Store (word_at as 2) 0 (Ret 0))),
     (''glGetTexParameteriv'', 3, (\<lambda>as. Store (word_at as 2) 0 (Ret 0))),
     (''glGetUniformfv'', 3, (\<lambda>as. Store (word_at as 2) 0 (Ret 0))),
     (''glGetUniformiv'', 3, (\<lambda>as. Store (word_at as 2) 0 (Ret 0))),
     (''glIsBuffer'', 1, (\<lambda>as. Ret (if word_at as 0 \<noteq> 0 then 1 else 0))),
     (''glIsShader'', 1, (\<lambda>as. Ret (if word_at as 0 \<noteq> 0 then 1 else 0))),
     (''glSampleCoverage'', 2, no_operation),
     (''glTexParameterfv'', 3, (\<lambda>as. Load (word_at as 2) (\<lambda>v.
        Gl ''glTexParameterf'' [as ! 0, as ! 1, W v] (\<lambda>_. Ret 0)))),
     (''glValidateProgram'', 1, no_operation)]"

text \<open>The frame's end in the main loop.\<close>

definition present_frame :: "arg list \<Rightarrow> gl_prog" where
  "present_frame as = Lock (Gl ''vglSwapBuffers'' [W 0] (\<lambda>_. Unlock (Ret 0)))"

definition gl_imports :: "nat \<Rightarrow> (real \<Rightarrow> real) \<Rightarrow> gl_entry list" where
  "gl_imports fuel rnd = gl_entries fuel rnd @ gl_stubs @ [(''vglSwapBuffers'', 0, present_frame)]"

text \<open>A call of an entry: \<open>None\<close> for a name that is not one, or a wrong number of arguments.\<close>

definition gl_entry_call :: "nat \<Rightarrow> (real \<Rightarrow> real) \<Rightarrow> string \<Rightarrow> arg list \<Rightarrow> gl_prog option" where
  "gl_entry_call fuel rnd name as =
     (case map_of (gl_imports fuel rnd) name of
        None \<Rightarrow> None
      | Some (n, f) \<Rightarrow> if length as = n then Some (f as) else None)"

section \<open>The extension table of eglGetProcAddress\<close>

definition egl_tbl :: "(string \<times> string) list" where
  "egl_tbl =
    [(''glMapBufferOES'', ''glMapBufferOES_locked''), (''glUnmapBufferOES'', ''glUnmapBufferOES_locked''),
     (''glMapBufferRangeEXT'', ''glMapBufferRangeEXT_locked''),
     (''glGetBufferPointervOES'', ''glGetBufferPointervOES_impl''),
     (''glFlushMappedBufferRangeEXT'', ''glFlushMappedBufferRangeEXT_noop''),
     (''glBindVertexArrayOES'', ''glBindVertexArrayOES_locked''),
     (''glGenVertexArraysOES'', ''glGenVertexArraysOES_locked''),
     (''glDeleteVertexArraysOES'', ''glDeleteVertexArraysOES_locked''),
     (''glDiscardFramebufferEXT'', ''glDiscardFramebufferEXT_noop'')]"

definition egl_core :: "(string \<times> string) list" where
  "egl_core =
    [(''glActiveTexture'', ''glActiveTexture_locked''), (''glAttachShader'', ''glAttachShader_locked''),
     (''glBindAttribLocation'', ''glBindAttribLocation_locked''), (''glBindBuffer'', ''glBindBuffer_locked''),
     (''glBindFramebuffer'', ''glBindFramebuffer_locked''),
     (''glBindRenderbuffer'', ''glBindRenderbuffer_locked''), (''glBindTexture'', ''glBindTexture_locked''),
     (''glBlendEquation'', ''glBlendEquation_locked''),
     (''glBlendEquationSeparate'', ''glBlendEquationSeparate_locked''), (''glBlendFunc'', ''glBlendFunc_locked''),
     (''glBlendFuncSeparate'', ''glBlendFuncSeparate_locked''), (''glBufferData'', ''glBufferData_locked''),
     (''glBufferSubData'', ''glBufferSubData_locked''),
     (''glCheckFramebufferStatus'', ''glCheckFramebufferStatus_locked''), (''glClear'', ''glClear_locked''),
     (''glClearColor'', ''glClearColor_locked''), (''glClearDepthf'', ''glClearDepthf_locked''),
     (''glClearStencil'', ''glClearStencil_locked''), (''glColorMask'', ''glColorMask_locked''),
     (''glCompileShader'', ''glCompileShader_locked''),
     (''glCompressedTexImage2D'', ''glCompressedTexImage2D_locked''),
     (''glCopyTexImage2D'', ''glCopyTexImage2D_locked''),
     (''glCopyTexSubImage2D'', ''glCopyTexSubImage2D_locked''), (''glCreateProgram'', ''glCreateProgram_locked''),
     (''glCreateShader'', ''glCreateShader_locked''), (''glCullFace'', ''glCullFace_locked''),
     (''glDeleteBuffers'', ''glDeleteBuffers_locked''),
     (''glDeleteFramebuffers'', ''glDeleteFramebuffers_locked''),
     (''glDeleteProgram'', ''glDeleteProgram_locked''),
     (''glDeleteRenderbuffers'', ''glDeleteRenderbuffers_locked''),
     (''glDeleteShader'', ''glDeleteShader_locked''), (''glDeleteTextures'', ''glDeleteTextures_locked''),
     (''glDepthFunc'', ''glDepthFunc_locked''), (''glDepthMask'', ''glDepthMask_locked''),
     (''glDepthRangef'', ''glDepthRangef_locked''), (''glDisable'', ''glDisable_locked''),
     (''glDisableVertexAttribArray'', ''glDisableVertexAttribArray_locked''),
     (''glDrawArrays'', ''glDrawArrays_locked''), (''glDrawElements'', ''glDrawElements_locked''),
     (''glEnable'', ''glEnable_locked''), (''glEnableVertexAttribArray'', ''glEnableVertexAttribArray_locked''),
     (''glFinish'', ''glFinish_locked''), (''glFlush'', ''glFlush_locked''),
     (''glFramebufferRenderbuffer'', ''glFramebufferRenderbuffer_locked''),
     (''glFramebufferTexture2D'', ''glFramebufferTexture2D_locked''), (''glFrontFace'', ''glFrontFace_locked''),
     (''glGenBuffers'', ''glGenBuffers_locked''), (''glGenFramebuffers'', ''glGenFramebuffers_locked''),
     (''glGenRenderbuffers'', ''glGenRenderbuffers_locked''), (''glGenTextures'', ''glGenTextures_locked''),
     (''glGenerateMipmap'', ''glGenerateMipmap_locked''), (''glGetActiveAttrib'', ''glGetActiveAttrib_locked''),
     (''glGetActiveUniform'', ''glGetActiveUniform_locked''),
     (''glGetAttachedShaders'', ''glGetAttachedShaders_locked''),
     (''glGetAttribLocation'', ''glGetAttribLocation_locked''), (''glGetBooleanv'', ''glGetBooleanv_locked''),
     (''glGetBufferParameteriv'', ''glGetBufferParameteriv_locked''), (''glGetError'', ''glGetError_locked''),
     (''glGetFloatv'', ''glGetFloatv_locked''),
     (''glGetFramebufferAttachmentParameteriv'', ''glGetFramebufferAttachmentParameteriv_locked''),
     (''glGetIntegerv'', ''glGetIntegerv_locked''), (''glGetProgramInfoLog'', ''glGetProgramInfoLog_locked''),
     (''glGetProgramiv'', ''glGetProgramiv_locked''), (''glGetShaderInfoLog'', ''glGetShaderInfoLog_locked''),
     (''glGetShaderSource'', ''glGetShaderSource_locked''), (''glGetShaderiv'', ''glGetShaderiv_locked''),
     (''glGetString'', ''glGetString_locked''), (''glGetUniformLocation'', ''glGetUniformLocation_locked''),
     (''glGetVertexAttribPointerv'', ''glGetVertexAttribPointerv_locked''),
     (''glGetVertexAttribfv'', ''glGetVertexAttribfv_locked''),
     (''glGetVertexAttribiv'', ''glGetVertexAttribiv_locked''), (''glHint'', ''glHint_locked''),
     (''glIsEnabled'', ''glIsEnabled_locked''), (''glIsFramebuffer'', ''glIsFramebuffer_locked''),
     (''glIsProgram'', ''glIsProgram_locked''), (''glIsRenderbuffer'', ''glIsRenderbuffer_locked''),
     (''glIsTexture'', ''glIsTexture_locked''), (''glLineWidth'', ''glLineWidth_locked''),
     (''glLinkProgram'', ''glLinkProgram_locked''), (''glPixelStorei'', ''glPixelStorei_locked''),
     (''glPolygonOffset'', ''glPolygonOffset_locked''), (''glReadPixels'', ''glReadPixels_locked''),
     (''glReleaseShaderCompiler'', ''glReleaseShaderCompiler_locked''),
     (''glRenderbufferStorage'', ''glRenderbufferStorage_locked''), (''glScissor'', ''glScissor_locked''),
     (''glShaderBinary'', ''glShaderBinary_locked''), (''glShaderSource'', ''glShaderSource_locked''),
     (''glStencilFunc'', ''glStencilFunc_locked''), (''glStencilFuncSeparate'', ''glStencilFuncSeparate_locked''),
     (''glStencilMask'', ''glStencilMask_locked''), (''glStencilMaskSeparate'', ''glStencilMaskSeparate_locked''),
     (''glStencilOp'', ''glStencilOp_locked''), (''glStencilOpSeparate'', ''glStencilOpSeparate_locked''),
     (''glTexImage2D'', ''glTexImage2D_locked''), (''glTexParameterf'', ''glTexParameterf_locked''),
     (''glTexParameteri'', ''glTexParameteri_locked''), (''glTexParameteriv'', ''glTexParameteriv_locked''),
     (''glTexSubImage2D'', ''glTexSubImage2D_locked''), (''glUniform1f'', ''glUniform1f_locked''),
     (''glUniform1fv'', ''glUniform1fv_locked''), (''glUniform1i'', ''glUniform1i_locked''),
     (''glUniform1iv'', ''glUniform1iv_locked''), (''glUniform2f'', ''glUniform2f_locked''),
     (''glUniform2fv'', ''glUniform2fv_locked''), (''glUniform2i'', ''glUniform2i_locked''),
     (''glUniform2iv'', ''glUniform2iv_locked''), (''glUniform3f'', ''glUniform3f_locked''),
     (''glUniform3fv'', ''glUniform3fv_locked''), (''glUniform3i'', ''glUniform3i_locked''),
     (''glUniform3iv'', ''glUniform3iv_locked''), (''glUniform4f'', ''glUniform4f_locked''),
     (''glUniform4fv'', ''glUniform4fv_locked''), (''glUniform4i'', ''glUniform4i_locked''),
     (''glUniform4iv'', ''glUniform4iv_locked''), (''glUniformMatrix2fv'', ''glUniformMatrix2fv_locked''),
     (''glUniformMatrix3fv'', ''glUniformMatrix3fv_locked''),
     (''glUniformMatrix4fv'', ''glUniformMatrix4fv_locked''), (''glUseProgram'', ''glUseProgram_locked''),
     (''glVertexAttrib1f'', ''glVertexAttrib1f_locked''), (''glVertexAttrib1fv'', ''glVertexAttrib1fv_locked''),
     (''glVertexAttrib2f'', ''glVertexAttrib2f_locked''), (''glVertexAttrib2fv'', ''glVertexAttrib2fv_locked''),
     (''glVertexAttrib3f'', ''glVertexAttrib3f_locked''), (''glVertexAttrib3fv'', ''glVertexAttrib3fv_locked''),
     (''glVertexAttrib4f'', ''glVertexAttrib4f_locked''), (''glVertexAttrib4fv'', ''glVertexAttrib4fv_locked''),
     (''glVertexAttribPointer'', ''glVertexAttribPointer_locked''), (''glViewport'', ''glViewport_locked'')]"

text \<open>An address is the name of the function it is the address of; \<open>proc\<close> is \<open>vglGetProcAddress\<close>.\<close>

definition egl_get_proc_address_shim :: "(string \<Rightarrow> string option) \<Rightarrow> string \<Rightarrow> string option" where
  "egl_get_proc_address_shim proc name =
     (case map_of egl_core name of
        Some f \<Rightarrow> Some f
      | None \<Rightarrow> (case map_of egl_tbl name of Some f \<Rightarrow> Some f | None \<Rightarrow> proc name))"

end
