(* ===== verification/Gl_Serial.thy ===== *)
theory Gl_Serial
  imports Gl_Lock
begin

text \<open>
  The lock of \<open>gl_lock.c\<close> at work: any number of threads call the GL functions the game can reach, their
  programs interleave at every effect, and vitaGL is still entered by one thread at a time.
\<close>

section \<open>Every wrapper keeps the lock discipline\<close>

lemma guarded_plain:
  "guarded 0 0 (forwards f as)" "guarded 0 0 (returns f as)" "guarded 0 0 (counted u f as)"
  "guarded 0 0 (no_operation as)" "guarded 0 0 (present_frame as)"
  by (simp_all add: forwards_def returns_def counted_def no_operation_def present_frame_def)

lemma guarded_drain [simp]: "0 < d \<Longrightarrow> guarded n d k \<Longrightarrow> guarded n d (drain_errors fuel k)"
  by (induction fuel) auto

lemma guarded_storage: "0 < d \<Longrightarrow> (\<And>p. guarded n d (k p)) \<Longrightarrow> guarded n d (vgl_storage fuel target k)"
  by (simp add: vgl_storage_def)

lemma guarded_alloc_error: "0 < d \<Longrightarrow> (\<And>p. guarded n d (k p)) \<Longrightarrow> guarded n d (alloc_error fuel target sz k)"
  by (simp add: alloc_error_def guarded_storage)

lemma guarded_buffer_data: "guarded 0 0 (glBufferData_locked fuel target sz data usage)"
  by (simp add: glBufferData_locked_def Let_def guarded_alloc_error)

lemma guarded_in_place: "guarded 0 1 (subdata_in_place fuel target offset sz data)"
  unfolding subdata_in_place_def by (rule guarded_storage) simp_all

lemma guarded_subdata: "guarded 0 0 (glBufferSubData_locked fuel target offset sz data)"
  by (simp add: glBufferSubData_locked_def Let_def guarded_in_place [unfolded One_nat_def]
      guarded_bind [OF guarded_buffer_data])

lemma guarded_attach:
  "guarded 0 0 (glFramebufferRenderbuffer_locked target attachment rbtarget rb)"
  "guarded 0 0 (glFramebufferTexture2D_locked target attachment textarget texture level)"
  by (simp_all add: glFramebufferRenderbuffer_locked_def glFramebufferTexture2D_locked_def Let_def split: option.split)

lemma guarded_for_names: "0 < d \<Longrightarrow> guarded n d k \<Longrightarrow> guarded n d (for_names m p u k)"
  by (induction m arbitrary: p) auto

lemma guarded_delete:
  "guarded 0 0 (glDeleteFramebuffers_locked n a)" "guarded 0 0 (glDeleteRenderbuffers_locked n a)"
  by (simp_all add: glDeleteFramebuffers_locked_def glDeleteRenderbuffers_locked_def guarded_for_names)

lemma guarded_clean: "0 < d \<Longrightarrow> guarded n d k \<Longrightarrow> guarded n d (clean_srcs sh is k)"
  by (induction "is") auto

lemma guarded_dump: "guarded n d k \<Longrightarrow> guarded n d (dump_src sh k)"
  by (simp add: dump_src_def split: option.split)

lemma guarded_link_logs: "0 < d \<Longrightarrow> guarded n d k \<Longrightarrow> guarded n d (link_logs is k)"
  by (induction "is") (auto simp: guarded_dump)

lemma guarded_shaders:
  assumes "0 < d" "guarded n d k"
  shows "guarded n d (glCompileShader_log sh k)" "guarded n d (glLinkProgram_log sh k)"
    "guarded n d (remember_src sh src k)"
  using assms
  by (simp_all add: glCompileShader_log_def glLinkProgram_log_def remember_src_def guarded_clean
      guarded_link_logs Let_def split: option.split)

lemma guarded_prepare:
  "guarded n d raw \<Longrightarrow> (\<And>t p. guarded n d (k t p)) \<Longrightarrow> guarded n d (prepare_source src k raw)"
  by (simp add: prepare_source_def Let_def)

lemma guarded_source:
  assumes "0 < d" "guarded n d k"
  shows "guarded n d (glShaderSource_log sh m src len k)"
  using assms
  by (simp add: glShaderSource_log_def Let_def guarded_prepare guarded_shaders split: option.split)

lemma guarded_misc:
  "guarded 0 0 (glGetUniformLocation_locked prog name)"
  "guarded 0 0 (glViewport_locked rnd x y w h)"
  "guarded 0 0 (glScissor_locked rnd x y w h)"
  "guarded 0 0 (glMapBufferOES_locked t a)"
  "guarded 0 0 (glGetBufferPointervOES_impl t a p)"
  "guarded 0 0 (glMapBufferRangeEXT_locked t b c e)"
  by (simp_all add: glGetUniformLocation_locked_def glViewport_locked_def glScissor_locked_def
      glMapBufferOES_locked_def glGetBufferPointervOES_impl_def glMapBufferRangeEXT_locked_def Let_def
      split: option.split)

lemma guarded_unmap: "guarded 0 0 (glUnmapBufferOES_locked fuel t)"
  by (simp add: glUnmapBufferOES_locked_def Let_def guarded_bind [OF guarded_subdata])

lemma guarded_shader_rows:
  "guarded 0 0 (Lock (glCompileShader_log sh (Unlock (Ret 0))))"
  "guarded 0 0 (Lock (glLinkProgram_log sh (Unlock (Ret 0))))"
  "guarded 0 0 (Lock (glShaderSource_log sh n src len (Unlock (Ret 0))))"
  by (simp_all add: guarded_shaders guarded_source)

lemmas guarded_rows = guarded_plain guarded_buffer_data guarded_subdata guarded_attach guarded_delete
  guarded_misc guarded_unmap guarded_shader_rows

definition row_guarded :: "gl_entry \<Rightarrow> bool" where
  "row_guarded r \<longleftrightarrow> (\<forall>as. guarded 0 0 (snd (snd r) as))"

lemma row_guardedI: "(\<And>as. guarded 0 0 (f as)) \<Longrightarrow> row_guarded (name, n, f)"
  by (simp add: row_guarded_def)

lemma uniform_row: "row_guarded (name, n, \<lambda>as. case as ! 1 of S s \<Rightarrow> glGetUniformLocation_locked (as ! 0) s | _ \<Rightarrow> Ret 0)"
  by (rule row_guardedI) (simp add: guarded_misc split: arg.split)

lemma entries_guarded_a: "list_all row_guarded (gl_entries_a fuel)"
  unfolding gl_entries_a_def list.pred_inject by (intro conjI row_guardedI guarded_rows list.pred_inject(1))

lemma entries_guarded_b: "list_all row_guarded gl_entries_b"
  unfolding gl_entries_b_def list.pred_inject by (intro conjI row_guardedI guarded_rows list.pred_inject(1))

lemma entries_guarded_c: "list_all row_guarded gl_entries_c"
  unfolding gl_entries_c_def list.pred_inject by (intro conjI row_guardedI guarded_rows list.pred_inject(1))

lemma entries_guarded_d: "list_all row_guarded gl_entries_d"
  unfolding gl_entries_d_def list.pred_inject by (intro conjI uniform_row row_guardedI guarded_rows list.pred_inject(1))

lemma entries_guarded_e: "list_all row_guarded gl_entries_e"
  unfolding gl_entries_e_def list.pred_inject by (intro conjI row_guardedI guarded_rows list.pred_inject(1))

lemma entries_guarded_f: "list_all row_guarded (gl_entries_f fuel rnd)"
  unfolding gl_entries_f_def list.pred_inject by (intro conjI row_guardedI guarded_rows list.pred_inject(1))

lemma stubs_guarded: "list_all (\<lambda>r. fst r \<noteq> ''glTexParameterfv'' \<longrightarrow> row_guarded r) gl_stubs"
  unfolding gl_stubs_def list.pred_inject by (simp add: row_guarded_def guarded_plain)

lemma imports_guarded:
  "r \<in> set (gl_imports fuel rnd) \<Longrightarrow> fst r \<noteq> ''glTexParameterfv'' \<Longrightarrow> row_guarded r"
  using entries_guarded_a [of fuel] entries_guarded_b entries_guarded_c entries_guarded_d entries_guarded_e
    entries_guarded_f [of fuel rnd] stubs_guarded row_guardedI [OF guarded_plain(5), of "''vglSwapBuffers''" 0]
  by (auto simp: gl_imports_def gl_entries_def list_all_iff)

lemma entry_call_guarded:
  assumes "gl_entry_call fuel rnd name as = Some p" "name \<noteq> ''glTexParameterfv''"
  shows "guarded 0 0 p"
proof -
  obtain n f where "map_of (gl_imports fuel rnd) name = Some (n, f)" and p: "p = f as"
    using assms(1) by (auto simp: gl_entry_call_def split: option.splits if_splits)
  then have "(name, n, f) \<in> set (gl_imports fuel rnd)" by (simp add: map_of_SomeD)
  then show ?thesis using imports_guarded assms(2) p by (fastforce simp: row_guarded_def)
qed

section \<open>Many threads\<close>

text \<open>
  \<open>progs s t\<close> is what thread \<open>t\<close> still has to do in the wrapper it called (\<open>Ret\<close> between two calls).  The
  mutex is recursive: its owner and how often the owner holds it.
\<close>

record 'g gl_sys =
  progs :: "nat \<Rightarrow> gl_prog"
  owner :: "nat option"
  depth :: nat
  world :: "'g gl_world"

fun gl_effect :: "'g gl_api \<Rightarrow> gl_prog \<Rightarrow> 'g gl_world \<Rightarrow> (gl_prog \<times> 'g gl_world) option" where
  "gl_effect api (Gl f as q) w = (case do_call (gl_call api) f as w of (r, w') \<Rightarrow> Some (q r, w'))"
| "gl_effect api (Libc f as q) w = (case do_call (libc_call api) f as w of (r, w') \<Rightarrow> Some (q r, w'))"
| "gl_effect api (Load a q) w = Some (q (load32 (ram w) a), w)"
| "gl_effect api (Store a v p) w = Some (p, w\<lparr>ram := write_bytes (ram w) a (le32 v)\<rparr>)"
| "gl_effect api (Memcpy d s n p) w = Some (p, w\<lparr>ram := do_memcpy d s n (ram w)\<rparr>)"
| "gl_effect api (Get q) w = Some (q (own w), w)"
| "gl_effect api (Upd f p) w = Some (p, w\<lparr>own := f (own w)\<rparr>)"
| "gl_effect api _ w = None"

inductive gl_step ::
  "'g gl_api \<Rightarrow> nat \<Rightarrow> (real \<Rightarrow> real) \<Rightarrow> (string \<Rightarrow> bool) \<Rightarrow> 'g gl_sys \<Rightarrow> 'g gl_sys \<Rightarrow> bool"
  for api fuel rnd allowed where
  acquire: "progs s t = Lock p \<Longrightarrow> owner s = None \<or> owner s = Some t \<Longrightarrow>
    gl_step api fuel rnd allowed s (s\<lparr>progs := (progs s)(t := p), owner := Some t, depth := depth s + 1\<rparr>)"
| release: "progs s t = Unlock p \<Longrightarrow> owner s = Some t \<Longrightarrow>
    gl_step api fuel rnd allowed s (s\<lparr>progs := (progs s)(t := p),
      owner := (if depth s = 1 then None else Some t), depth := depth s - 1\<rparr>)"
| effect: "gl_effect api (progs s t) (world s) = Some (p, w) \<Longrightarrow>
    gl_step api fuel rnd allowed s (s\<lparr>progs := (progs s)(t := p), world := w\<rparr>)"
| call: "progs s t = Ret v \<Longrightarrow> allowed name \<Longrightarrow> gl_entry_call fuel rnd name as = Some p \<Longrightarrow>
    gl_step api fuel rnd allowed s (s\<lparr>progs := (progs s)(t := p)\<rparr>)"

definition gl_start :: "'g gl_world \<Rightarrow> 'g gl_sys" where
  "gl_start w = \<lparr>progs = (\<lambda>_. Ret 0), owner = None, depth = 0, world = w\<rparr>"

definition held :: "'g gl_sys \<Rightarrow> nat \<Rightarrow> nat" where
  "held s t = (if owner s = Some t then depth s else 0)"

definition lock_ok :: "'g gl_sys \<Rightarrow> bool" where
  "lock_ok s \<longleftrightarrow> (owner s \<noteq> None \<longrightarrow> 0 < depth s) \<and> (owner s = None \<longrightarrow> depth s = 0) \<and>
     (\<forall>t. guarded 0 (held s t) (progs s t))"

lemma guarded_effect:
  "gl_effect api p w = Some (p', w') \<Longrightarrow> guarded n d p \<Longrightarrow> guarded n d p'"
  by (cases p) (auto split: prod.splits)

lemma others_hold_nothing:
  assumes "lock_ok s" "owner s = None \<or> owner s = Some t" "u \<noteq> t"
  shows "guarded 0 0 (progs s u)"
proof -
  have "held s u = 0" using assms(2,3) by (auto simp: held_def)
  then show ?thesis using assms(1) by (metis lock_ok_def)
qed

lemma held_update [simp]: "held (s\<lparr>progs := ps\<rparr>) = held s" "held (s\<lparr>progs := ps, world := w\<rparr>) = held s"
  by (simp_all add: held_def fun_eq_iff)

lemma lock_ok_prog:
  assumes "lock_ok s" "guarded 0 (held s t) p"
  shows "lock_ok (s\<lparr>progs := (progs s)(t := p), world := w\<rparr>)" "lock_ok (s\<lparr>progs := (progs s)(t := p)\<rparr>)"
  using assms unfolding lock_ok_def held_update by simp_all

lemma lock_ok_step:
  assumes "gl_step api fuel rnd (\<lambda>n. n \<noteq> ''glTexParameterfv'') s s'" "lock_ok s"
  shows "lock_ok s'"
  using assms
proof (cases rule: gl_step.cases)
  case (acquire t p)
  have "guarded 0 (held s t) (Lock p)" using assms(2) acquire(2) by (metis lock_ok_def)
  moreover have "depth s = held s t" using acquire(3) assms(2) by (auto simp: lock_ok_def held_def)
  moreover note others_hold_nothing [OF assms(2) acquire(3)]
  ultimately show ?thesis using assms(2) acquire by (auto simp: lock_ok_def held_def)
next
  case (release t p)
  have "guarded 0 (depth s) (Unlock p)" using assms(2) release(2,3) unfolding lock_ok_def held_def by metis
  moreover note others_hold_nothing [OF assms(2) disjI2 [OF release(3)]]
  ultimately show ?thesis using assms(2) release by (auto simp: lock_ok_def held_def)
next
  case (effect t p w)
  have "guarded 0 (held s t) p"
    using guarded_effect [OF effect(2)] assms(2) by (simp add: lock_ok_def)
  then show ?thesis using lock_ok_prog [OF assms(2)] effect(1) by simp
next
  case (call t v name as p)
  have "guarded 0 (held s t) (Ret v)" using assms(2) call(2) by (metis lock_ok_def)
  then have "held s t = 0" by simp
  moreover have "guarded 0 0 p" using entry_call_guarded call(3,4) by blast
  ultimately show ?thesis using lock_ok_prog [OF assms(2)] call(1) by simp
qed

lemma lock_ok_reachable:
  "(gl_step api fuel rnd (\<lambda>n. n \<noteq> ''glTexParameterfv''))\<^sup>*\<^sup>* (gl_start w) s \<Longrightarrow> lock_ok s"
proof (induction rule: rtranclp_induct)
  case base
  show ?case by (simp add: gl_start_def lock_ok_def held_def)
next
  case (step y z)
  then show ?case using lock_ok_step by blast
qed

text \<open>Inside vitaGL, or updating the static variables.\<close>

definition enters :: "gl_prog \<Rightarrow> bool" where
  "enters p = (case p of Gl _ _ _ \<Rightarrow> True | Upd _ _ \<Rightarrow> True | _ \<Rightarrow> False)"

text \<open>
  C10: however the threads of the game interleave, vitaGL is entered and the counters and caches of
  \<open>gl_lock.c\<close> are updated by one thread at a time, which owns \<open>gl_lock\<close>; a thread only releases the lock
  when it owns it, has released it when its call returns, and a thread that owns the lock can always take
  its next step (unless vitaGL reports errors for ever).  This holds for every GL function the game
  imports or gets from \<open>eglGetProcAddress\<close>, and for the buffer swap of the main loop, with the one
  exception of \<open>glTexParameterfv\<close>.
\<close>

theorem gl_serialised:
  assumes "(gl_step api fuel rnd (\<lambda>n. n \<noteq> ''glTexParameterfv''))\<^sup>*\<^sup>* (gl_start w) s"
  shows "(\<forall>t. enters (progs s t) \<longrightarrow> owner s = Some t) \<and>
    (\<forall>t u. enters (progs s t) \<and> enters (progs s u) \<longrightarrow> t = u) \<and>
    (\<forall>t p. progs s t = Unlock p \<longrightarrow> owner s = Some t) \<and>
    (\<forall>t v. progs s t = Ret v \<longrightarrow> owner s \<noteq> Some t) \<and>
    (\<forall>t. owner s = Some t \<longrightarrow> progs s t = Spin \<or>
       (\<exists>s'. gl_step api fuel rnd (\<lambda>n. n \<noteq> ''glTexParameterfv'') s s'))"
proof -
  have ok: "lock_ok s" by (rule lock_ok_reachable [OF assms])
  then have g: "guarded 0 (held s t) (progs s t)" for t by (simp add: lock_ok_def)
  have holds: "0 < held s t \<Longrightarrow> owner s = Some t" for t by (auto simp: held_def split: if_splits)
  have own: "enters (progs s t) \<Longrightarrow> owner s = Some t" for t
    using g [of t] holds [of t] by (cases "progs s t") (auto simp: enters_def)
  have rel: "progs s t = Unlock p \<Longrightarrow> owner s = Some t" for t p
    using g [of t] holds [of t] by simp
  have idle: "progs s t = Ret v \<Longrightarrow> owner s \<noteq> Some t" for t v
    using g [of t] ok by (auto simp: held_def lock_ok_def)
  have runs: "progs s t = Spin \<or> (\<exists>s'. gl_step api fuel rnd (\<lambda>n. n \<noteq> ''glTexParameterfv'') s s')"
    if "owner s = Some t" for t
  proof (cases "\<exists>p w. gl_effect api (progs s t) (world s) = Some (p, w)")
    case True
    then show ?thesis by (meson gl_step.effect)
  next
    case False
    then have "(\<exists>v. progs s t = Ret v) \<or> progs s t = Spin \<or> (\<exists>p. progs s t = Lock p) \<or> (\<exists>p. progs s t = Unlock p)"
      by (cases "progs s t") (auto split: prod.splits)
    then show ?thesis using idle that gl_step.acquire gl_step.release by blast
  qed
  have one: "t = u" if "enters (progs s t) \<and> enters (progs s u)" for t u
    using own [of t] own [of u] that by simp
  show ?thesis using own one rel idle runs by (intro conjI allI impI)
qed

text \<open>Two threads that call \<open>glActiveTexture\<close>, the first one inside vitaGL, the second one waiting.\<close>

definition quiet_api :: "unit gl_api" where
  "quiet_api = \<lparr>gl_call = (\<lambda>_ _ gm. (0, gm)), libc_call = (\<lambda>_ _ gm. (0, gm))\<rparr>"

definition quiet_world :: "unit gl_world" where
  "quiet_world = \<lparr>vgl = (), ram = (\<lambda>_. 0), own = gl_state_init\<rparr>"

lemma call_active_texture:
  "gl_entry_call fuel rnd ''glActiveTexture_locked'' [a] = Some (forwards ''glActiveTexture'' [a])"
  by (simp add: gl_entry_call_def gl_imports_def gl_entries_def gl_entries_a_def)

definition two_calls :: "unit gl_sys" where
  "two_calls =
     \<lparr>progs = (\<lambda>_. Ret 0)
        (0 := Gl ''glActiveTexture'' [W 0x84C0] (\<lambda>_. Unlock (Ret 0)), 1 := forwards ''glActiveTexture'' [W 0x84C1]),
      owner = Some 0, depth = 1, world = quiet_world\<rparr>"

lemma two_calls_reached:
  assumes "allowed ''glActiveTexture_locked''"
  shows "(gl_step quiet_api fuel rnd allowed)\<^sup>*\<^sup>* (gl_start quiet_world) two_calls"
proof -
  let ?step = "gl_step quiet_api fuel rnd allowed"
  let ?p = "forwards ''glActiveTexture'' [W 0x84C0]" and ?q = "forwards ''glActiveTexture'' [W 0x84C1]"
  define s0 where "s0 = gl_start quiet_world"
  define s1 where "s1 = s0\<lparr>progs := (progs s0)(0 := ?p)\<rparr>"
  define s2 where "s2 = s1\<lparr>progs := (progs s1)(1 := ?q)\<rparr>"
  have "?step s0 s1"
    unfolding s1_def
    by (rule gl_step.call [where v = 0 and allowed = allowed and name = "''glActiveTexture_locked''" and as = "[W 0x84C0]"]) (simp_all add: s0_def gl_start_def call_active_texture assms)
  moreover have "?step s1 s2"
    unfolding s2_def
    by (rule gl_step.call [where v = 0 and allowed = allowed and name = "''glActiveTexture_locked''" and as = "[W 0x84C1]"]) (simp_all add: s1_def s0_def gl_start_def call_active_texture assms)
  moreover have "?step s2 (s2\<lparr>progs := (progs s2)(0 := Gl ''glActiveTexture'' [W 0x84C0] (\<lambda>_. Unlock (Ret 0))),
      owner := Some 0, depth := depth s2 + 1\<rparr>)"
    by (rule gl_step.acquire) (simp_all add: s2_def s1_def s0_def gl_start_def forwards_def)
  moreover have "s2\<lparr>progs := (progs s2)(0 := Gl ''glActiveTexture'' [W 0x84C0] (\<lambda>_. Unlock (Ret 0))),
      owner := Some 0, depth := depth s2 + 1\<rparr> = two_calls"
    by (simp add: s2_def s1_def s0_def gl_start_def two_calls_def fun_upd_twist)
  ultimately show ?thesis unfolding s0_def by (metis (no_types) rtranclp.rtrancl_into_rtrancl rtranclp.rtrancl_refl)
qed

lemma gl_serialised_witness:
  "enters (progs two_calls 0) \<and> owner two_calls = Some 0 \<and> \<not> enters (progs two_calls 1) \<and> progs two_calls 1 \<noteq> Ret 0"
proof -
  have "(gl_step quiet_api 8 (\<lambda>x. x) (\<lambda>n. n \<noteq> ''glTexParameterfv''))\<^sup>*\<^sup>* (gl_start quiet_world) two_calls"
    by (rule two_calls_reached) simp
  note serial = gl_serialised [OF this]
  have inside: "enters (progs two_calls 0)" by (simp add: two_calls_def enters_def)
  then have "owner two_calls = Some 0" using serial by blast
  moreover have "\<not> enters (progs two_calls 1)" using inside serial by (metis zero_neq_one)
  moreover have "progs two_calls 1 \<noteq> Ret 0" by (simp add: two_calls_def forwards_def)
  ultimately show ?thesis using inside by blast
qed

section \<open>The entry that is not serialised\<close>

text \<open>
  \<open>glTexParameterfv\<close>, imported under its own name, calls vitaGL's \<open>glTexParameterf\<close> without the lock, so
  it can be inside vitaGL together with any wrapper.
\<close>

lemma tex_parameter_unlocked:
  "\<exists>f. (''glTexParameterfv'', 3, f) \<in> set gl_stubs \<and> \<not> guarded 0 0 (f as)"
  unfolding gl_stubs_def by simp

text \<open>
  A wrapper that finds no storage behind a mapped buffer hands out a block of its own.  The size of the
  block is recorded even when the allocation failed, so a later mapping of at most that size does not ask
  the allocator again: it returns the null pointer although memory may be free by then.
\<close>

definition no_storage_api :: "u32 \<Rightarrow> u32 \<Rightarrow> unit gl_api" where
  "no_storage_api sz block =
     \<lparr>gl_call = (\<lambda>f _ gm. (if f = ''glGetBufferParameteriv'' then sz else 0, gm)),
      libc_call = (\<lambda>f _ gm. (if f = ''malloc'' then block else 0, gm))\<rparr>"

lemma staging_not_retried:
  "(case gl_run (no_storage_api 4096 0) (glMapBufferOES_locked 0x8892 0) quiet_world of
      None \<Rightarrow> None
    | Some (r, w) \<Rightarrow> map_option (\<lambda>(r', _). (r, r')) (gl_run (no_storage_api 4096 0x10000) (glMapBufferOES_locked 0x8892 0) w))
   = Some (0, 0)"
  by (simp add: glMapBufferOES_locked_def map_idx_def set_mapped_def do_call_def no_storage_api_def quiet_world_def
      gl_state_init_def Let_def)

end
