(* ===== verification/Gl_Shim.thy ===== *)
theory Gl_Shim
  imports Gl_Lock Imports
begin

text \<open>
  The two ways the game gets the address of a GL function, the import table (\<open>Imports\<close>) and
  \<open>eglGetProcAddress\<close> (\<open>Gl_Lock\<close>), lead to the same wrappers, and every address they hand out is the
  address of a wrapper or of a stub.
\<close>

section \<open>The names\<close>

lemma core_values: "map snd egl_core = gl_wrappers_1 @ gl_wrappers_2"
  unfolding egl_core_def gl_wrappers_1_def gl_wrappers_2_def by simp

lemma core_rows: "list_all (\<lambda>r. snd r = fst r @ ''_locked'') egl_core"
  unfolding egl_core_def by simp

lemma entry_names_a: "map fst (gl_entries_a fuel) = take 13 gl_wrappers_1"
  unfolding gl_entries_a_def gl_wrappers_1_def by simp

lemma entry_names_b: "map fst gl_entries_b = take 30 (drop 13 gl_wrappers_1)"
  unfolding gl_entries_b_def gl_wrappers_1_def by simp

lemma entry_names_c: "map fst gl_entries_c = take 24 (drop 43 gl_wrappers_1)"
  unfolding gl_entries_c_def gl_wrappers_1_def by simp

lemma entry_names_d: "map fst gl_entries_d = take 17 (drop 67 gl_wrappers_1) @ drop 85 gl_wrappers_1"
  unfolding gl_entries_d_def gl_wrappers_1_def by simp

lemma entry_names_e: "map fst gl_entries_e = take 27 gl_wrappers_2"
  unfolding gl_entries_e_def gl_wrappers_2_def by simp

lemma entry_names_f: "set (map fst (gl_entries_f fuel rnd)) =
    {''glViewport_locked'', ''glScissor_locked''} \<union> set (map snd egl_tbl)"
  unfolding gl_entries_f_def egl_tbl_def by (simp add: insert_commute)

lemma wrappers_split_1: "gl_wrappers_1 = take 13 gl_wrappers_1 @ take 30 (drop 13 gl_wrappers_1) @
    take 24 (drop 43 gl_wrappers_1) @ take 17 (drop 67 gl_wrappers_1) @ [''glScissor_locked''] @ drop 85 gl_wrappers_1"
  unfolding gl_wrappers_1_def by simp

lemma wrappers_split_2: "gl_wrappers_2 = take 27 gl_wrappers_2 @ [''glViewport_locked'']"
  unfolding gl_wrappers_2_def by simp

lemma entry_names:
  "fst ` set (gl_entries fuel rnd) = set (gl_wrappers_1 @ gl_wrappers_2) \<union> set (map snd egl_tbl)"
proof -
  have "fst ` set (gl_entries fuel rnd) = set (map fst (gl_entries_a fuel)) \<union> set (map fst gl_entries_b) \<union>
      set (map fst gl_entries_c) \<union> set (map fst gl_entries_d) \<union> set (map fst gl_entries_e) \<union>
      set (map fst (gl_entries_f fuel rnd))"
    by (simp only: gl_entries_def set_append image_Un set_map Un_assoc)
  also have "\<dots> = set (take 13 gl_wrappers_1 @ take 30 (drop 13 gl_wrappers_1) @ take 24 (drop 43 gl_wrappers_1) @
      take 17 (drop 67 gl_wrappers_1) @ [''glScissor_locked''] @ drop 85 gl_wrappers_1) \<union>
      set (take 27 gl_wrappers_2 @ [''glViewport_locked'']) \<union> set (map snd egl_tbl)"
    unfolding entry_names_a entry_names_b entry_names_c entry_names_d entry_names_e entry_names_f
    by (simp only: set_append set_simps) blast
  also have "\<dots> = set gl_wrappers_1 \<union> set gl_wrappers_2 \<union> set (map snd egl_tbl)"
    by (simp only: wrappers_split_1 [symmetric] wrappers_split_2 [symmetric])
  finally show ?thesis by (simp only: set_append)
qed

section \<open>The import table\<close>

lemma locked_row_imported:
  assumes "r \<in> set egl_core"
  shows "dynlib_lookup default_dynlib (fst r) = Some (snd r)"
proof -
  have "snd r \<in> set (locked_targets default_dynlib)"
    using assms core_values locked_targets_declared by (metis image_eqI list.set_map)
  then obtain q where q: "q \<in> set default_dynlib" "snd q = snd r" "ends_with ''_locked'' (snd q)"
    unfolding locked_targets_def by auto
  have "row_ok q" using q(1) rows_a rows_b rows_c rows_d by (auto simp: default_dynlib_def list_all_iff)
  then have "snd q = fst q @ ''_locked''" using q(3) by (simp add: row_ok_def)
  moreover have "snd r = fst r @ ''_locked''" using assms core_rows by (simp add: list_all_iff)
  ultimately have "fst q = fst r" using q(2) by simp
  then have "(fst r, snd r) \<in> set default_dynlib" using q(1,2) by (metis prod.collapse)
  then show ?thesis using keys_distinct by (simp add: dynlib_lookup_map_of)
qed



end
