(* ===== verification/Gl_Attach.thy ===== *)
theory Gl_Attach
  imports Gl_Lock
begin

text \<open>
  The attachment caches of \<open>gl_lock.c\<close>: a texture or a renderbuffer is only attached to a framebuffer when
  that changes something, because vitaGL allocates a new render surface on every attachment.  The game
  must not see the difference: with the caches the framebuffers have the attachments they would have if
  every call had gone to vitaGL.
\<close>

section \<open>What GL promises\<close>

datatype attachment = Nothing | Texture u32 u32 i32 | Renderbuffer u32

type_synonym attachments = "u32 \<times> u32 \<Rightarrow> attachment"

text \<open>
  \<open>attach_law\<close> states the framebuffer operations of OpenGL ES 2 for the target \<open>GL_FRAMEBUFFER\<close> (0x8D40):
  \<open>bound\<close> is the framebuffer bound, \<open>att\<close> what is attached at each point of each framebuffer.  Deleting the
  bound framebuffer binds the default one; deleting a renderbuffer or a texture detaches it from the bound
  framebuffer.
\<close>

definition names_at :: "memory \<Rightarrow> i32 \<Rightarrow> u32 \<Rightarrow> u32 set" where
  "names_at m n p = (\<lambda>i. load32 m (p + 4 * of_nat i)) ` {0..<nat (sint n)}"

definition detach :: "(attachment \<Rightarrow> bool) \<Rightarrow> u32 \<Rightarrow> attachments \<Rightarrow> attachments" where
  "detach P f a = (\<lambda>(g, p). if g = f \<and> P (a (g, p)) then Nothing else a (g, p))"

definition framebuffer_target :: u32 where
  "framebuffer_target = 0x8D40"

definition attach_law :: "'g gl_api \<Rightarrow> ('g \<Rightarrow> u32) \<Rightarrow> ('g \<Rightarrow> attachments) \<Rightarrow> bool" where
  "attach_law api bound att \<longleftrightarrow> (\<forall>g m r g' m' f p tt tex lvl rt rb n a.
     (gl_call api ''glBindFramebuffer'' [W framebuffer_target, W f] (g, m) = (r, g', m') \<longrightarrow>
        bound g' = f \<and> att g' = att g) \<and>
     (gl_call api ''glFramebufferTexture2D'' [W framebuffer_target, W p, W tt, W tex, W lvl] (g, m) = (r, g', m') \<longrightarrow>
        bound g' = bound g \<and> att g' = (att g)((bound g, p) := Texture tt tex lvl)) \<and>
     (gl_call api ''glFramebufferRenderbuffer'' [W framebuffer_target, W p, W rt, W rb] (g, m) = (r, g', m') \<longrightarrow>
        bound g' = bound g \<and> att g' = (att g)((bound g, p) := Renderbuffer rb)) \<and>
     (gl_call api ''glDeleteFramebuffers'' [W n, W a] (g, m) = (r, g', m') \<longrightarrow>
        bound g' = (if bound g \<in> names_at m n a then 0 else bound g) \<and>
        att g' = (\<lambda>(f, p). if f \<in> names_at m n a then Nothing else att g (f, p))) \<and>
     (gl_call api ''glDeleteRenderbuffers'' [W n, W a] (g, m) = (r, g', m') \<longrightarrow>
        bound g' = bound g \<and>
        att g' = detach (\<lambda>x. \<exists>rb. x = Renderbuffer rb \<and> rb \<in> names_at m n a) (bound g) (att g)))"

lemma attach_lawD:
  assumes "attach_law api bound att"
  shows "gl_call api ''glBindFramebuffer'' [W framebuffer_target, W f] (g, m) = (r, g', m') \<Longrightarrow>
      bound g' = f \<and> att g' = att g"
    "gl_call api ''glFramebufferTexture2D'' [W framebuffer_target, W p, W tt, W tex, W lvl] (g, m) = (r, g', m') \<Longrightarrow>
      bound g' = bound g \<and> att g' = (att g)((bound g, p) := Texture tt tex lvl)"
    "gl_call api ''glFramebufferRenderbuffer'' [W framebuffer_target, W p, W rt, W rb] (g, m) = (r, g', m') \<Longrightarrow>
      bound g' = bound g \<and> att g' = (att g)((bound g, p) := Renderbuffer rb)"
    "gl_call api ''glDeleteFramebuffers'' [W n, W a] (g, m) = (r, g', m') \<Longrightarrow>
      bound g' = (if bound g \<in> names_at m n a then 0 else bound g) \<and>
      att g' = (\<lambda>(f, p). if f \<in> names_at m n a then Nothing else att g (f, p))"
    "gl_call api ''glDeleteRenderbuffers'' [W n, W a] (g, m) = (r, g', m') \<Longrightarrow>
      bound g' = bound g \<and>
      att g' = detach (\<lambda>x. \<exists>rb. x = Renderbuffer rb \<and> rb \<in> names_at m n a) (bound g) (att g)"
  using assms unfolding attach_law_def by blast+

section \<open>The calls of the game\<close>

datatype fbo_op =
    Bind u32
  | Attach_Tex u32 u32 i32
  | Attach_Rb u32 u32
  | Delete_Fbos i32 u32
  | Delete_Rbs i32 u32

text \<open>The wrapper the game calls, and the call of vitaGL it stands for.\<close>

fun wrapped :: "fbo_op \<Rightarrow> gl_prog" where
  "wrapped (Bind f) = counted count_bind ''glBindFramebuffer'' [W framebuffer_target, W f]"
| "wrapped (Attach_Tex p tex lvl) = glFramebufferTexture2D_locked framebuffer_target p 0x0DE1 tex lvl"
| "wrapped (Attach_Rb p rb) = glFramebufferRenderbuffer_locked framebuffer_target p 0x8D41 rb"
| "wrapped (Delete_Fbos n a) = glDeleteFramebuffers_locked n a"
| "wrapped (Delete_Rbs n a) = glDeleteRenderbuffers_locked n a"

fun direct :: "fbo_op \<Rightarrow> gl_prog" where
  "direct (Bind f) = forwards ''glBindFramebuffer'' [W framebuffer_target, W f]"
| "direct (Attach_Tex p tex lvl) =
     forwards ''glFramebufferTexture2D'' [W framebuffer_target, W p, W 0x0DE1, W tex, W lvl]"
| "direct (Attach_Rb p rb) = forwards ''glFramebufferRenderbuffer'' [W framebuffer_target, W p, W 0x8D41, W rb]"
| "direct (Delete_Fbos n a) = forwards ''glDeleteFramebuffers'' [W n, W a]"
| "direct (Delete_Rbs n a) = forwards ''glDeleteRenderbuffers'' [W n, W a]"

text \<open>A call of the game in the memory it has prepared.\<close>

fun run_ops :: "'g gl_api \<Rightarrow> (fbo_op \<Rightarrow> gl_prog) \<Rightarrow> (memory \<times> fbo_op) list \<Rightarrow> 'g gl_world \<Rightarrow> 'g gl_world option" where
  "run_ops api how [] w = Some w"
| "run_ops api how ((m, c) # cs) w =
     (case gl_run api (how c) (w\<lparr>ram := m\<rparr>) of None \<Rightarrow> None | Some (_, w') \<Rightarrow> run_ops api how cs w')"

text \<open>
  What the caches rely on: textures and renderbuffers use different attachment points, the name that marks
  a forgotten entry is no object's name, and the bound framebuffer is not deleted.
\<close>

fun orderly :: "(u32 \<Rightarrow> bool) \<Rightarrow> u32 \<Rightarrow> (memory \<times> fbo_op) list \<Rightarrow> bool" where
  "orderly rb_point_p b [] = True"
| "orderly rb_point_p b ((m, c) # cs) =
     (case c of
        Bind f \<Rightarrow> orderly rb_point_p f cs
      | Attach_Tex p tex lvl \<Rightarrow> \<not> rb_point_p p \<and> tex \<noteq> 0xFFFFFFFF \<and> orderly rb_point_p b cs
      | Attach_Rb p rb \<Rightarrow> rb_point_p p \<and> rb \<noteq> 0xFFFFFFFF \<and> orderly rb_point_p b cs
      | Delete_Fbos n a \<Rightarrow> b \<notin> names_at m n a \<and> orderly rb_point_p b cs
      | Delete_Rbs n a \<Rightarrow> orderly rb_point_p b cs)"

section \<open>The invariant of the caches\<close>

definition tex_cache_ok :: "(u32 \<Rightarrow> bool) \<Rightarrow> attachments \<Rightarrow> fbo_attach list \<Rightarrow> bool" where
  "tex_cache_ok rbp a cache \<longleftrightarrow>
     distinct (map (\<lambda>e. (at_fbo e, at_point e)) cache) \<and>
     (\<forall>e\<in>set cache. \<not> rbp (at_point e) \<and>
        (at_tex e \<noteq> 0xFFFFFFFF \<longrightarrow> a (at_fbo e, at_point e) = Texture 0x0DE1 (at_tex e) (at_level e)))"

definition rb_cache_ok :: "(u32 \<Rightarrow> bool) \<Rightarrow> attachments \<Rightarrow> fbo_rb list \<Rightarrow> bool" where
  "rb_cache_ok rbp a cache \<longleftrightarrow>
     distinct (map (\<lambda>e. (rb_fbo e, rb_point e)) cache) \<and>
     (\<forall>e\<in>set cache. rbp (rb_point e) \<and>
        (rb_name e \<noteq> 0xFFFFFFFF \<longrightarrow> a (rb_fbo e, rb_point e) = Renderbuffer (rb_name e)))"

definition caches_ok :: "('g \<Rightarrow> u32) \<Rightarrow> ('g \<Rightarrow> attachments) \<Rightarrow> (u32 \<Rightarrow> bool) \<Rightarrow> 'g gl_world \<Rightarrow> bool" where
  "caches_ok bound att rbp w \<longleftrightarrow>
     cur_fbo (own w) = bound (vgl w) \<and>
     tex_cache_ok rbp (att (vgl w)) (fbo_attach_cache (own w)) \<and>
     rb_cache_ok rbp (att (vgl w)) (fbo_rb_cache (own w))"

lemma first_index_Some: "first_index P xs = Some i \<Longrightarrow> i < length xs \<and> P (xs ! i)"
  by (induction xs arbitrary: i) (auto split: if_splits)

lemma first_index_None: "first_index P xs = None \<Longrightarrow> x \<in> set xs \<Longrightarrow> \<not> P x"
  by (induction xs) (auto split: if_splits)

text \<open>Replacing an entry of a list whose keys are distinct, or adding one, and writing its key.\<close>

lemma key_unique:
  "distinct (map k xs) \<Longrightarrow> i < length xs \<Longrightarrow> e \<in> set (xs[i := y]) \<Longrightarrow> e = y \<or> e \<in> set xs \<and> k e \<noteq> k (xs ! i)"
  by (auto simp: in_set_conv_nth nth_list_update distinct_conv_nth split: if_splits)

lemma keys_update: "k y = k (xs ! i) \<Longrightarrow> map k (xs[i := y]) = map k xs"
  by (metis list_update_id map_update)

lemma tex_cache_hit:
  assumes "tex_cache_ok rbp a cache" "i < length cache" "e = cache ! i"
  shows "tex_cache_ok rbp (a((at_fbo e, at_point e) := Texture 0x0DE1 tex lvl))
    (cache[i := e\<lparr>at_tex := tex, at_level := lvl\<rparr>])"
proof -
  let ?k = "\<lambda>e. (at_fbo e, at_point e)" and ?y = "e\<lparr>at_tex := tex, at_level := lvl\<rparr>"
  have d: "distinct (map ?k cache)" using assms(1) by (simp add: tex_cache_ok_def)
  have "x = ?y \<or> x \<in> set cache \<and> ?k x \<noteq> ?k (cache ! i)" if "x \<in> set (cache[i := ?y])" for x
    by (rule key_unique [OF d assms(2) that])
  moreover have "map ?k (cache[i := ?y]) = map ?k cache" by (rule keys_update) (simp add: assms(3))
  moreover have "\<not> rbp (at_point e)" using assms by (simp add: tex_cache_ok_def)
  ultimately show ?thesis using d assms(1,3) unfolding tex_cache_ok_def by fastforce
qed

lemma tex_cache_new:
  assumes "tex_cache_ok rbp a cache" "\<forall>e\<in>set cache. \<not> (at_fbo e = f \<and> at_point e = p)" "\<not> rbp p"
  shows "tex_cache_ok rbp (a((f, p) := v)) cache"
    "v = Texture 0x0DE1 tex lvl \<Longrightarrow>
     tex_cache_ok rbp (a((f, p) := v)) (cache @ [\<lparr>at_fbo = f, at_point = p, at_tex = tex, at_level = lvl\<rparr>])"
  using assms by (fastforce simp: tex_cache_ok_def)+

lemma tex_cache_other: "tex_cache_ok rbp a cache \<Longrightarrow> rbp p \<Longrightarrow> tex_cache_ok rbp (a((f, p) := v)) cache"
  by (fastforce simp: tex_cache_ok_def)

lemma rb_cache_hit:
  assumes "rb_cache_ok rbp a cache" "i < length cache" "e = cache ! i"
  shows "rb_cache_ok rbp (a((rb_fbo e, rb_point e) := Renderbuffer rb)) (cache[i := e\<lparr>rb_name := rb\<rparr>])"
proof -
  let ?k = "\<lambda>e. (rb_fbo e, rb_point e)" and ?y = "e\<lparr>rb_name := rb\<rparr>"
  have d: "distinct (map ?k cache)" using assms(1) by (simp add: rb_cache_ok_def)
  have "x = ?y \<or> x \<in> set cache \<and> ?k x \<noteq> ?k (cache ! i)" if "x \<in> set (cache[i := ?y])" for x
    by (rule key_unique [OF d assms(2) that])
  moreover have "map ?k (cache[i := ?y]) = map ?k cache" by (rule keys_update) (simp add: assms(3))
  moreover have "rbp (rb_point e)" using assms by (simp add: rb_cache_ok_def)
  ultimately show ?thesis using d assms(1,3) unfolding rb_cache_ok_def by fastforce
qed

lemma rb_cache_new:
  assumes "rb_cache_ok rbp a cache" "\<forall>e\<in>set cache. \<not> (rb_fbo e = f \<and> rb_point e = p)" "rbp p"
  shows "rb_cache_ok rbp (a((f, p) := v)) cache"
    "v = Renderbuffer rb \<Longrightarrow>
     rb_cache_ok rbp (a((f, p) := v)) (cache @ [\<lparr>rb_fbo = f, rb_point = p, rb_name = rb\<rparr>])"
  using assms by (fastforce simp: rb_cache_ok_def)+

lemma rb_cache_other: "rb_cache_ok rbp a cache \<Longrightarrow> \<not> rbp p \<Longrightarrow> rb_cache_ok rbp (a((f, p) := v)) cache"
  by (fastforce simp: rb_cache_ok_def)

section \<open>One call\<close>

definition names_list :: "memory \<Rightarrow> nat \<Rightarrow> u32 \<Rightarrow> u32 list" where
  "names_list m n p = map (\<lambda>i. load32 m (p + 4 * of_nat i)) [0..<n]"

lemma set_names_list: "set (names_list m (nat (sint n)) p) = names_at m n p"
  by (simp add: names_list_def names_at_def)

lemma names_list_Suc: "names_list m (Suc n) p = load32 m p # names_list m n (p + 4)"
  by (simp add: names_list_def map_upt_Suc algebra_simps del: upt_Suc)

lemma run_for_names:
  "gl_run api (for_names n p u k) w = gl_run api k (w\<lparr>own := fold u (names_list (ram w) n p) (own w)\<rparr>)"
proof (induction n arbitrary: p w)
  case 0
  then show ?case by (simp add: names_list_def)
next
  case (Suc n)
  show ?case by (simp add: Suc.IH names_list_Suc)
qed

lemma fold_forget_fbo:
  "cur_fbo (fold forget_fbo xs s) = cur_fbo s \<and>
   fbo_attach_cache (fold forget_fbo xs s) =
     map (\<lambda>e. if at_fbo e \<in> set xs then e\<lparr>at_tex := 0xFFFFFFFF\<rparr> else e) (fbo_attach_cache s) \<and>
   fbo_rb_cache (fold forget_fbo xs s) =
     map (\<lambda>e. if rb_fbo e \<in> set xs then e\<lparr>rb_name := 0xFFFFFFFF\<rparr> else e) (fbo_rb_cache s)"
  by (induction xs arbitrary: s) (auto simp: forget_fbo_def)

lemma fold_forget_rb:
  "cur_fbo (fold forget_rb xs s) = cur_fbo s \<and>
   fbo_attach_cache (fold forget_rb xs s) = fbo_attach_cache s \<and>
   map (\<lambda>e. (rb_fbo e, rb_point e)) (fbo_rb_cache (fold forget_rb xs s)) =
     map (\<lambda>e. (rb_fbo e, rb_point e)) (fbo_rb_cache s) \<and>
   (\<forall>e\<in>set (fbo_rb_cache (fold forget_rb xs s)). rb_name e \<noteq> 0xFFFFFFFF \<longrightarrow>
      e \<in> set (fbo_rb_cache s) \<and> rb_name e \<notin> set xs)"
proof (induction xs arbitrary: s)
  case Nil
  then show ?case by simp
next
  case (Cons x xs)
  have "map (\<lambda>e. (rb_fbo e, rb_point e)) (fbo_rb_cache (forget_rb x s)) =
      map (\<lambda>e. (rb_fbo e, rb_point e)) (fbo_rb_cache s)"
    by (simp add: forget_rb_def)
  moreover have "e \<in> set (fbo_rb_cache s) \<and> rb_name e \<noteq> x"
    if "e \<in> set (fbo_rb_cache (forget_rb x s))" "rb_name e \<noteq> 0xFFFFFFFF" for e
    using that by (auto simp: forget_rb_def split: if_splits)
  moreover have "cur_fbo (forget_rb x s) = cur_fbo s" "fbo_attach_cache (forget_rb x s) = fbo_attach_cache s"
    by (simp_all add: forget_rb_def)
  ultimately show ?case using Cons.IH [of "forget_rb x s"] by auto
qed

lemma forget_tex_ok:
  assumes "tex_cache_ok rbp a cache"
  shows "tex_cache_ok rbp (\<lambda>(f, p). if f \<in> N then Nothing else a (f, p))
    (map (\<lambda>e. if at_fbo e \<in> N then e\<lparr>at_tex := 0xFFFFFFFF\<rparr> else e) cache)"
proof -
  have keys: "map (\<lambda>e. (at_fbo e, at_point e)) (map (\<lambda>e. if at_fbo e \<in> N then e\<lparr>at_tex := 0xFFFFFFFF\<rparr> else e) cache) =
      map (\<lambda>e. (at_fbo e, at_point e)) cache"
    by (induction cache) simp_all
  then show ?thesis using assms unfolding tex_cache_ok_def keys by auto
qed

lemma forget_rb_ok:
  assumes "rb_cache_ok rbp a cache"
  shows "rb_cache_ok rbp (\<lambda>(f, p). if f \<in> N then Nothing else a (f, p))
    (map (\<lambda>e. if rb_fbo e \<in> N then e\<lparr>rb_name := 0xFFFFFFFF\<rparr> else e) cache)"
proof -
  have keys: "map (\<lambda>e. (rb_fbo e, rb_point e)) (map (\<lambda>e. if rb_fbo e \<in> N then e\<lparr>rb_name := 0xFFFFFFFF\<rparr> else e) cache) =
      map (\<lambda>e. (rb_fbo e, rb_point e)) cache"
    by (induction cache) simp_all
  then show ?thesis using assms unfolding rb_cache_ok_def keys by auto
qed

text \<open>What one call does with and without the caches.\<close>

definition same_fbos :: "('g \<Rightarrow> u32) \<Rightarrow> ('g \<Rightarrow> attachments) \<Rightarrow> 'g gl_world \<Rightarrow> 'g gl_world \<Rightarrow> bool" where
  "same_fbos bound att w w' \<longleftrightarrow> bound (vgl w) = bound (vgl w') \<and> att (vgl w) = att (vgl w')"

lemma same_fbosD:
  assumes "same_fbos bound att w w'"
  shows "bound (vgl w') = bound (vgl w)" "att (vgl w') = att (vgl w)"
  using assms by (simp_all add: same_fbos_def)

definition op_ok :: "'g gl_api \<Rightarrow> ('g \<Rightarrow> u32) \<Rightarrow> ('g \<Rightarrow> attachments) \<Rightarrow> (u32 \<Rightarrow> bool) \<Rightarrow> fbo_op \<Rightarrow>
    'g gl_world \<Rightarrow> 'g gl_world \<Rightarrow> u32 \<Rightarrow> bool" where
  "op_ok api bound att rbp c w w' b \<longleftrightarrow>
     (\<exists>w1 w2. gl_run api (wrapped c) w = Some (0, w1) \<and> gl_run api (direct c) w' = Some (0, w2) \<and>
        same_fbos bound att w1 w2 \<and> caches_ok bound att rbp w1 \<and> bound (vgl w1) = b)"

lemma bind_step:
  assumes law: "attach_law api bound att" and ok: "caches_ok bound att rbp w" "same_fbos bound att w w'"
  shows "op_ok api bound att rbp (Bind f) w w' f"
proof -
  obtain r g m where c: "gl_call api ''glBindFramebuffer'' [W framebuffer_target, W f] (vgl w, ram w) = (r, g, m)"
    by (metis surj_pair)
  obtain r' g' m' where c': "gl_call api ''glBindFramebuffer'' [W framebuffer_target, W f] (vgl w', ram w') = (r', g', m')"
    by (metis surj_pair)
  have "bound g = f \<and> att g = att (vgl w)" "bound g' = f \<and> att g' = att (vgl w')"
    using attach_lawD(1) [OF law] c c' by blast+
  then show ?thesis using ok
    by (simp add: op_ok_def counted_def forwards_def count_bind_def do_call_def c c' same_fbos_def caches_ok_def)
qed

lemma tex_step:
  assumes law: "attach_law api bound att" and ok: "caches_ok bound att rbp w" "same_fbos bound att w w'"
    and p: "\<not> rbp p" "tex \<noteq> 0xFFFFFFFF"
  shows "op_ok api bound att rbp (Attach_Tex p tex lvl) w w' (bound (vgl w))"
proof -
  let ?as = "[W framebuffer_target, W p, W 0x0DE1, W tex, W lvl]"
  obtain r g m where c: "gl_call api ''glFramebufferTexture2D'' ?as (vgl w, ram w) = (r, g, m)"
    by (metis surj_pair)
  obtain r' g' m' where c': "gl_call api ''glFramebufferTexture2D'' ?as (vgl w', ram w') = (r', g', m')"
    by (metis surj_pair)
  let ?new = "(att (vgl w))((bound (vgl w), p) := Texture 0x0DE1 tex lvl)"
  have g: "bound g = bound (vgl w)" "att g = ?new" "bound g' = bound (vgl w)" "att g' = ?new"
    using attach_lawD(2) [OF law c] attach_lawD(2) [OF law c'] unfolding same_fbosD [OF ok(2)] by simp_all
  have cur: "cur_fbo (own w) = bound (vgl w)" using ok(1) by (simp add: caches_ok_def)
  have tc: "tex_cache_ok rbp (att (vgl w)) (fbo_attach_cache (own w))"
    and rc: "rb_cache_ok rbp (att (vgl w)) (fbo_rb_cache (own w))"
    using ok(1) by (simp_all add: caches_ok_def)
  have direct: "gl_run api (forwards ''glFramebufferTexture2D'' ?as) w' = Some (0, w'\<lparr>vgl := g', ram := m'\<rparr>)"
    by (simp add: forwards_def do_call_def c')
  let ?P = "\<lambda>e. at_fbo e = bound (vgl w) \<and> at_point e = p"
  show ?thesis
  proof (cases "first_index ?P (fbo_attach_cache (own w))")
    case None
    have no: "\<forall>e\<in>set (fbo_attach_cache (own w)). \<not> ?P e" using first_index_None [OF None] by blast
    show ?thesis
      using None g tex_cache_new [OF tc no p(1)] rb_cache_other [OF rc p(1)]
      by (simp add: op_ok_def direct glFramebufferTexture2D_locked_def Let_def cur do_call_def c
          same_fbos_def caches_ok_def)
  next
    case (Some i)
    define e where "e = fbo_attach_cache (own w) ! i"
    have i: "i < length (fbo_attach_cache (own w))" "at_fbo e = bound (vgl w)" "at_point e = p"
      using first_index_Some [OF Some] by (simp_all add: e_def)
    show ?thesis
    proof (cases "at_tex e = tex \<and> at_level e = lvl")
      case True
      have "e \<in> set (fbo_attach_cache (own w))" using i(1) by (simp add: e_def)
      then have "att (vgl w) (bound (vgl w), p) = Texture 0x0DE1 tex lvl"
        using tc i True p(2) by (auto simp: tex_cache_ok_def)
      then have "?new = att (vgl w)" by auto
      then show ?thesis using True ok(1) g(3,4)
        by (simp add: op_ok_def direct glFramebufferTexture2D_locked_def Let_def cur Some e_def [symmetric] same_fbos_def)
    next
      case False
      have "tex_cache_ok rbp ?new ((fbo_attach_cache (own w))[i := e\<lparr>at_tex := tex, at_level := lvl\<rparr>])"
        using tex_cache_hit [OF tc i(1) e_def, of tex lvl] i(2,3) by simp
      then show ?thesis using False g rb_cache_other [OF rc p(1)]
        by (simp add: op_ok_def direct glFramebufferTexture2D_locked_def Let_def cur Some e_def [symmetric]
            do_call_def c same_fbos_def caches_ok_def) blast?
    qed
  qed
qed

lemma rb_step:
  assumes law: "attach_law api bound att" and ok: "caches_ok bound att rbp w" "same_fbos bound att w w'"
    and p: "rbp p" "rb \<noteq> 0xFFFFFFFF"
  shows "op_ok api bound att rbp (Attach_Rb p rb) w w' (bound (vgl w))"
proof -
  let ?as = "[W framebuffer_target, W p, W 0x8D41, W rb]"
  obtain r g m where c: "gl_call api ''glFramebufferRenderbuffer'' ?as (vgl w, ram w) = (r, g, m)"
    by (metis surj_pair)
  obtain r' g' m' where c': "gl_call api ''glFramebufferRenderbuffer'' ?as (vgl w', ram w') = (r', g', m')"
    by (metis surj_pair)
  let ?new = "(att (vgl w))((bound (vgl w), p) := Renderbuffer rb)"
  have g: "bound g = bound (vgl w)" "att g = ?new" "bound g' = bound (vgl w)" "att g' = ?new"
    using attach_lawD(3) [OF law c] attach_lawD(3) [OF law c'] unfolding same_fbosD [OF ok(2)] by simp_all
  have cur: "cur_fbo (own w) = bound (vgl w)" using ok(1) by (simp add: caches_ok_def)
  have tc: "tex_cache_ok rbp (att (vgl w)) (fbo_attach_cache (own w))"
    and rc: "rb_cache_ok rbp (att (vgl w)) (fbo_rb_cache (own w))"
    using ok(1) by (simp_all add: caches_ok_def)
  have direct: "gl_run api (forwards ''glFramebufferRenderbuffer'' ?as) w' = Some (0, w'\<lparr>vgl := g', ram := m'\<rparr>)"
    by (simp add: forwards_def do_call_def c')
  let ?P = "\<lambda>e. rb_fbo e = bound (vgl w) \<and> rb_point e = p"
  show ?thesis
  proof (cases "first_index ?P (fbo_rb_cache (own w))")
    case None
    have no: "\<forall>e\<in>set (fbo_rb_cache (own w)). \<not> ?P e" using first_index_None [OF None] by blast
    show ?thesis
      using None g rb_cache_new [OF rc no p(1)] tex_cache_other [OF tc p(1)]
      by (simp add: op_ok_def direct glFramebufferRenderbuffer_locked_def Let_def cur do_call_def c
          same_fbos_def caches_ok_def)
  next
    case (Some i)
    define e where "e = fbo_rb_cache (own w) ! i"
    have i: "i < length (fbo_rb_cache (own w))" "rb_fbo e = bound (vgl w)" "rb_point e = p"
      using first_index_Some [OF Some] by (simp_all add: e_def)
    show ?thesis
    proof (cases "rb_name e = rb")
      case True
      have "e \<in> set (fbo_rb_cache (own w))" using i(1) by (simp add: e_def)
      then have "att (vgl w) (bound (vgl w), p) = Renderbuffer rb"
        using rc i True p(2) by (auto simp: rb_cache_ok_def)
      then have "?new = att (vgl w)" by auto
      then show ?thesis using True ok(1) g(3,4)
        by (simp add: op_ok_def direct glFramebufferRenderbuffer_locked_def Let_def cur Some e_def [symmetric] same_fbos_def)
    next
      case False
      have "rb_cache_ok rbp ?new ((fbo_rb_cache (own w))[i := e\<lparr>rb_name := rb\<rparr>])"
        using rb_cache_hit [OF rc i(1) e_def, of rb] i(2,3) by simp
      then show ?thesis using False g tex_cache_other [OF tc p(1)]
        by (simp add: op_ok_def direct glFramebufferRenderbuffer_locked_def Let_def cur Some e_def [symmetric]
            do_call_def c same_fbos_def caches_ok_def) blast?
    qed
  qed
qed

lemma delete_fbos_step:
  assumes law: "attach_law api bound att" and ok: "caches_ok bound att rbp w" "same_fbos bound att w w'"
    and m: "ram w = ram w'" and b: "bound (vgl w) \<notin> names_at (ram w) n a"
  shows "op_ok api bound att rbp (Delete_Fbos n a) w w' (bound (vgl w))"
proof -
  obtain r g m where c: "gl_call api ''glDeleteFramebuffers'' [W n, W a] (vgl w, ram w) = (r, g, m)"
    by (metis surj_pair)
  obtain r' g' m' where c': "gl_call api ''glDeleteFramebuffers'' [W n, W a] (vgl w', ram w') = (r', g', m')"
    by (metis surj_pair)
  let ?N = "names_at (ram w) n a"
  let ?new = "\<lambda>(f, p). if f \<in> ?N then Nothing else att (vgl w) (f, p)"
  have g: "bound g = bound (vgl w)" "att g = ?new" "bound g' = bound (vgl w)" "att g' = ?new"
    using attach_lawD(4) [OF law c] attach_lawD(4) [OF law c'] b unfolding same_fbosD [OF ok(2)] m [symmetric] by simp_all
  let ?s = "fold forget_fbo (names_list (ram w) (nat (sint n)) a) (own w)"
  have "tex_cache_ok rbp ?new (fbo_attach_cache ?s)" "rb_cache_ok rbp ?new (fbo_rb_cache ?s)"
    using ok(1) fold_forget_fbo [of "names_list (ram w) (nat (sint n)) a" "own w"] forget_tex_ok forget_rb_ok
    by (simp_all add: caches_ok_def set_names_list)
  moreover have "cur_fbo ?s = cur_fbo (own w)" using fold_forget_fbo by blast
  ultimately show ?thesis using ok g
    by (simp add: op_ok_def glDeleteFramebuffers_locked_def forwards_def run_for_names do_call_def c c'
        same_fbos_def caches_ok_def)
qed

lemma delete_rbs_step:
  assumes law: "attach_law api bound att" and ok: "caches_ok bound att rbp w" "same_fbos bound att w w'"
    and m: "ram w = ram w'"
  shows "op_ok api bound att rbp (Delete_Rbs n a) w w' (bound (vgl w))"
proof -
  obtain r g m where c: "gl_call api ''glDeleteRenderbuffers'' [W n, W a] (vgl w, ram w) = (r, g, m)"
    by (metis surj_pair)
  obtain r' g' m' where c': "gl_call api ''glDeleteRenderbuffers'' [W n, W a] (vgl w', ram w') = (r', g', m')"
    by (metis surj_pair)
  let ?N = "names_at (ram w) n a"
  let ?new = "detach (\<lambda>x. \<exists>rb. x = Renderbuffer rb \<and> rb \<in> ?N) (bound (vgl w)) (att (vgl w))"
  have g: "bound g = bound (vgl w)" "att g = ?new" "bound g' = bound (vgl w)" "att g' = ?new"
    using attach_lawD(5) [OF law c] attach_lawD(5) [OF law c'] unfolding same_fbosD [OF ok(2)] m [symmetric] by simp_all
  let ?s = "fold forget_rb (names_list (ram w) (nat (sint n)) a) (own w)"
  note f = fold_forget_rb [of "names_list (ram w) (nat (sint n)) a" "own w", unfolded set_names_list]
  have tc: "tex_cache_ok rbp (att (vgl w)) (fbo_attach_cache (own w))"
    and rc: "rb_cache_ok rbp (att (vgl w)) (fbo_rb_cache (own w))"
    using ok(1) by (simp_all add: caches_ok_def)
  have "tex_cache_ok rbp ?new (fbo_attach_cache ?s)"
    using tc f by (fastforce simp: tex_cache_ok_def detach_def)
  moreover have "rb_cache_ok rbp ?new (fbo_rb_cache ?s)"
  proof -
    have keys: "map (\<lambda>e. (rb_fbo e, rb_point e)) (fbo_rb_cache ?s) = map (\<lambda>e. (rb_fbo e, rb_point e)) (fbo_rb_cache (own w))"
      using f by blast
    have keyset: "(\<lambda>e. (rb_fbo e, rb_point e)) ` set (fbo_rb_cache ?s) = (\<lambda>e. (rb_fbo e, rb_point e)) ` set (fbo_rb_cache (own w))"
      using arg_cong [OF keys, of set] by simp
    have "rbp (rb_point e)" if e: "e \<in> set (fbo_rb_cache ?s)" for e
    proof -
      obtain e' where "e' \<in> set (fbo_rb_cache (own w))" "rb_point e' = rb_point e"
      proof -
        have "(rb_fbo e, rb_point e) \<in> (\<lambda>e. (rb_fbo e, rb_point e)) ` set (fbo_rb_cache ?s)" using e by (rule imageI)
        then show ?thesis using that unfolding keyset by auto
      qed
      then show ?thesis using rc by (auto simp: rb_cache_ok_def)
    qed
    moreover have "?new (rb_fbo e, rb_point e) = Renderbuffer (rb_name e)"
      if "e \<in> set (fbo_rb_cache ?s)" "rb_name e \<noteq> 0xFFFFFFFF" for e
      using that rc f by (auto simp: rb_cache_ok_def detach_def)
    ultimately show ?thesis using rc keys by (simp add: rb_cache_ok_def)
  qed
  moreover have "cur_fbo ?s = cur_fbo (own w)" using f by blast
  ultimately show ?thesis using ok g
    by (simp add: op_ok_def glDeleteRenderbuffers_locked_def forwards_def run_for_names do_call_def c c'
        same_fbos_def caches_ok_def)
qed

section \<open>Every sequence of calls\<close>

lemma op_step:
  assumes "attach_law api bound att" "caches_ok bound att rbp w" "same_fbos bound att w w'" "ram w = ram w'"
    and o: "orderly rbp (bound (vgl w)) ((ram w, c) # cs)"
  shows "\<exists>b. op_ok api bound att rbp c w w' b \<and> orderly rbp b cs"
proof (cases c)
  case (Bind f)
  then show ?thesis using bind_step [OF assms(1-3)] o by auto
next
  case (Attach_Tex p tex lvl)
  then show ?thesis using tex_step [OF assms(1-3)] o by auto
next
  case (Attach_Rb p rb)
  then show ?thesis using rb_step [OF assms(1-3)] o by auto
next
  case (Delete_Fbos n a)
  then show ?thesis using delete_fbos_step [OF assms(1-4)] o by auto
next
  case (Delete_Rbs n a)
  then show ?thesis using delete_rbs_step [OF assms(1-4)] o by auto
qed

lemma caches_ok_ram: "caches_ok bound att rbp (w\<lparr>ram := m\<rparr>) = caches_ok bound att rbp w"
  "same_fbos bound att (w\<lparr>ram := m\<rparr>) (w'\<lparr>ram := m\<rparr>) = same_fbos bound att w w'"
  by (simp_all add: caches_ok_def same_fbos_def)

lemma run_ops_agree:
  assumes law: "attach_law api bound att"
  shows "caches_ok bound att rbp w \<Longrightarrow> same_fbos bound att w w' \<Longrightarrow> orderly rbp (bound (vgl w)) cs \<Longrightarrow>
    \<exists>w1 w2. run_ops api wrapped cs w = Some w1 \<and> run_ops api direct cs w' = Some w2 \<and> same_fbos bound att w1 w2"
proof (induction cs arbitrary: w w')
  case Nil
  then show ?case by simp
next
  case (Cons mc cs)
  obtain m c where mc: "mc = (m, c)" by (cases mc)
  let ?w = "w\<lparr>ram := m\<rparr>" and ?w' = "w'\<lparr>ram := m\<rparr>"
  have "orderly rbp (bound (vgl ?w)) ((ram ?w, c) # cs)" using Cons.prems(3) mc by simp
  then obtain b where step: "op_ok api bound att rbp c ?w ?w' b" and rest: "orderly rbp b cs"
    using op_step [OF law, of rbp ?w ?w' c cs] Cons.prems(1,2) by (auto simp: caches_ok_ram)
  obtain w1 w2 where r: "gl_run api (wrapped c) ?w = Some (0, w1)" "gl_run api (direct c) ?w' = Some (0, w2)"
    and agree: "same_fbos bound att w1 w2" "caches_ok bound att rbp w1" "bound (vgl w1) = b"
    using step unfolding op_ok_def by blast
  obtain v1 v2 where "run_ops api wrapped cs w1 = Some v1" "run_ops api direct cs w2 = Some v2" "same_fbos bound att v1 v2"
    using Cons.IH [OF agree(2,1)] rest agree(3) by blast
  then show ?case using r by (simp add: mc)
qed


text \<open>A GL as the standard describes it, for the witness and for the deviation below.\<close>

definition spec_call :: "string \<Rightarrow> arg list \<Rightarrow> (u32 \<times> attachments) \<times> memory \<Rightarrow> u32 \<times> (u32 \<times> attachments) \<times> memory" where
  "spec_call f as gm =
     (case gm of ((b, a), m) \<Rightarrow>
        (0,
         (if f = ''glBindFramebuffer'' then (word_at as 1, a)
          else if f = ''glFramebufferTexture2D''
          then (b, a((b, word_at as 1) := Texture (word_at as 2) (word_at as 3) (word_at as 4)))
          else if f = ''glFramebufferRenderbuffer'' then (b, a((b, word_at as 1) := Renderbuffer (word_at as 3)))
          else if f = ''glDeleteFramebuffers''
          then (let N = names_at m (word_at as 0) (word_at as 1) in
            (if b \<in> N then 0 else b, \<lambda>(f, p). if f \<in> N then Nothing else a (f, p)))
          else if f = ''glDeleteRenderbuffers''
          then (b, detach (\<lambda>x. \<exists>rb. x = Renderbuffer rb \<and> rb \<in> names_at m (word_at as 0) (word_at as 1)) b a)
          else if f = ''glDeleteTextures''
          then (b, detach (\<lambda>x. \<exists>tt t l. x = Texture tt t l \<and> t \<in> names_at m (word_at as 0) (word_at as 1)) b a)
          else (b, a)), m))"

definition spec_gl :: "(u32 \<times> attachments) gl_api" where
  "spec_gl = \<lparr>gl_call = spec_call, libc_call = (\<lambda>_ _ gm. (0, gm))\<rparr>"

lemma spec_gl_law: "attach_law spec_gl fst snd"
  unfolding attach_law_def by (auto simp: spec_gl_def spec_call_def Let_def split: prod.splits)

definition spec_world :: "(u32 \<times> attachments) gl_world" where
  "spec_world = \<lparr>vgl = (0, \<lambda>_. Nothing), ram = (\<lambda>_. 0)(0x1000 := 7), own = gl_state_init\<rparr>"

text \<open>The game renders into texture 7 of framebuffer 1, and attaches both again in the next frame.\<close>

definition spec_frames :: "(memory \<times> fbo_op) list" where
  "spec_frames = map (\<lambda>c. (ram spec_world, c))
     [Bind 1, Attach_Tex 0x8CE0 7 0, Attach_Rb 0x8D00 3, Bind 0, Bind 1, Attach_Tex 0x8CE0 7 0, Attach_Rb 0x8D00 3]"


text \<open>An attachment that changes nothing does not enter vitaGL.\<close>

lemma reattach_free:
  assumes "gl_run api (glFramebufferTexture2D_locked target p tt tex lvl) w = Some (v, w1)"
    "length (fbo_attach_cache (own w)) < 256"
  shows "gl_run api (glFramebufferTexture2D_locked target p tt' tex lvl) w1 = Some (0, w1)"
proof -
  have app: "first_index P (xs @ [y]) = Some (length xs)"
    if "first_index P xs = None" "P y" for P :: "fbo_attach \<Rightarrow> bool" and xs y
    using that by (induction xs) (auto split: if_splits)
  have upd: "first_index P (xs[i := y]) = Some i"
    if "first_index P xs = Some i" "P y" for P :: "fbo_attach \<Rightarrow> bool" and xs y i
    using that by (induction xs arbitrary: i) (auto split: if_splits nat.splits)
  let ?P = "\<lambda>e. at_fbo e = cur_fbo (own w) \<and> at_point e = p"
  show ?thesis
  proof (cases "first_index ?P (fbo_attach_cache (own w))")
    case None
    then show ?thesis using assms
      by (auto simp: glFramebufferTexture2D_locked_def Let_def do_call_def app split: prod.splits)
  next
    case (Some i)
    then have "i < length (fbo_attach_cache (own w))" "?P (fbo_attach_cache (own w) ! i)"
      using first_index_Some [OF Some] by simp_all
    then show ?thesis using assms Some
      by (auto simp: glFramebufferTexture2D_locked_def Let_def do_call_def upd split: prod.splits if_splits)
  qed
qed

text \<open>
  The cache of textures is not told when a texture is deleted.  A texture that gets the name of a deleted
  one (GL hands names out again) is then taken for the one already attached: the framebuffer keeps no
  attachment where it would have the new texture.
\<close>

definition reuse_texture_name :: "(fbo_op \<Rightarrow> gl_prog) \<Rightarrow> gl_prog" where
  "reuse_texture_name how =
     gl_bind (how (Bind 1)) (\<lambda>_. gl_bind (how (Attach_Tex 0x8CE0 7 0)) (\<lambda>_.
     gl_bind (forwards ''glDeleteTextures'' [W 1, W 0x1000]) (\<lambda>_. how (Attach_Tex 0x8CE0 7 0))))"

lemma texture_deletion_unnoticed:
  "map_option (\<lambda>(_, w). snd (vgl w) (1, 0x8CE0)) (gl_run spec_gl (reuse_texture_name wrapped) spec_world) = Some Nothing"
  "map_option (\<lambda>(_, w). snd (vgl w) (1, 0x8CE0)) (gl_run spec_gl (reuse_texture_name direct) spec_world)
    = Some (Texture 0x0DE1 7 0)"
proof -
  have "load32 (ram spec_world) 0x1000 = 7" by (simp add: spec_world_def load32_def)
  then have names: "names_at (ram spec_world) 1 0x1000 = {7}" by (simp add: names_at_def)
  have m: "ram spec_world = (\<lambda>_. 0)(0x1000 := 7)" by (simp add: spec_world_def)
  show "map_option (\<lambda>(_, w). snd (vgl w) (1, 0x8CE0)) (gl_run spec_gl (reuse_texture_name wrapped) spec_world) = Some Nothing"
    using names [unfolded m]
    by (simp add: reuse_texture_name_def gl_run_bind counted_def count_bind_def forwards_def do_call_def
        spec_gl_def spec_call_def spec_world_def gl_state_init_def glFramebufferTexture2D_locked_def Let_def detach_def)
  show "map_option (\<lambda>(_, w). snd (vgl w) (1, 0x8CE0)) (gl_run spec_gl (reuse_texture_name direct) spec_world)
      = Some (Texture 0x0DE1 7 0)"
    by (simp add: reuse_texture_name_def gl_run_bind forwards_def do_call_def spec_gl_def spec_call_def spec_world_def)
qed

end
