(* ===== verification/Gl_Buffer.thy ===== *)
theory Gl_Buffer
  imports Gl_Lock
begin

text \<open>
  The buffer writes of \<open>gl_lock.c\<close>: \<open>glBufferSubData_locked\<close> copies into a buffer's storage itself.  Every
  copy it makes stays inside the storage of the buffer bound at that moment, and the call returns.
\<close>

section \<open>What vitaGL promises\<close>

text \<open>
  \<open>buf gm target\<close> is the buffer bound to a target: the address of its storage and its size.  The queries
  report it and change nothing; a buffer's name is the address of a structure whose first word is the
  address of its storage, or a number below 0x1000 when no buffer is bound.  \<open>errs\<close> counts the errors
  still to be reported, at most \<open>K\<close> of them.
\<close>

type_synonym 'g buffers = "'g \<times> memory \<Rightarrow> u32 \<Rightarrow> u32 \<times> i32"

definition buffer_law :: "'g gl_api \<Rightarrow> 'g buffers \<Rightarrow> ('g \<Rightarrow> nat) \<Rightarrow> nat \<Rightarrow> bool" where
  "buffer_law api buf errs K \<longleftrightarrow> (\<forall>g m f as r g' m' t.
     gl_call api f as (g, m) = (r, g', m') \<longrightarrow>
       errs g' \<le> K \<and>
       (f = ''glGetError'' \<longrightarrow> m' = m \<and> buf (g', m') = buf (g, m) \<and> (r \<noteq> 0 \<longrightarrow> errs g' < errs g)) \<and>
       (f = ''glGetIntegerv'' \<and> as = [W (buffer_binding t), Out] \<and> 0x1000 \<le> r \<longrightarrow>
          load32 m' r = fst (buf (g', m') t)) \<and>
       (f = ''glGetBufferParameteriv'' \<and> as = [W t, W 0x8764, Out] \<longrightarrow>
          m' = m \<and> buf (g', m') = buf (g, m) \<and> r = snd (buf (g, m) t)))"

lemma buffer_lawD:
  assumes "buffer_law api buf errs K" "gl_call api f as (g, m) = (r, g', m')"
  shows "errs g' \<le> K"
    "f = ''glGetError'' \<Longrightarrow> m' = m \<and> buf (g', m') = buf (g, m) \<and> (r \<noteq> 0 \<longrightarrow> errs g' < errs g)"
    "f = ''glGetIntegerv'' \<Longrightarrow> as = [W (buffer_binding t), Out] \<Longrightarrow> 0x1000 \<le> r \<Longrightarrow>
       load32 m' r = fst (buf (g', m') t)"
    "f = ''glGetBufferParameteriv'' \<Longrightarrow> as = [W t, W 0x8764, Out] \<Longrightarrow>
       m' = m \<and> buf (g', m') = buf (g, m) \<and> r = snd (buf (g, m) t)"
  using assms unfolding buffer_law_def by blast+

abbreviation bufs_of :: "'g buffers \<Rightarrow> 'g gl_world \<Rightarrow> u32 \<Rightarrow> u32 \<times> i32" where
  "bufs_of buf w \<equiv> buf (vgl w, ram w)"

section \<open>The copies of a program\<close>

text \<open>The \<open>memcpy\<close> calls a program makes, with the world in which it makes them.\<close>

primrec gl_copies :: "'g gl_api \<Rightarrow> gl_prog \<Rightarrow> 'g gl_world \<Rightarrow> ('g gl_world \<times> u32 \<times> u32 \<times> u32) list" where
  "gl_copies api (Ret v) w = []"
| "gl_copies api Spin w = []"
| "gl_copies api (Lock p) w = gl_copies api p w"
| "gl_copies api (Unlock p) w = gl_copies api p w"
| "gl_copies api (Gl f as q) w = (case do_call (gl_call api) f as w of (r, w') \<Rightarrow> gl_copies api (q r) w')"
| "gl_copies api (Libc f as q) w = (case do_call (libc_call api) f as w of (r, w') \<Rightarrow> gl_copies api (q r) w')"
| "gl_copies api (Load a q) w = gl_copies api (q (load32 (ram w) a)) w"
| "gl_copies api (Store a v p) w = gl_copies api p (w\<lparr>ram := write_bytes (ram w) a (le32 v)\<rparr>)"
| "gl_copies api (Memcpy d s n p) w = (w, d, s, n) # gl_copies api p (w\<lparr>ram := do_memcpy d s n (ram w)\<rparr>)"
| "gl_copies api (Get q) w = gl_copies api (q (own w)) w"
| "gl_copies api (Upd f p) w = gl_copies api p (w\<lparr>own := f (own w)\<rparr>)"

lemma gl_copies_bind:
  "gl_copies api (gl_bind p k) w =
     gl_copies api p w @ (case gl_run api p w of None \<Rightarrow> [] | Some (v, w') \<Rightarrow> gl_copies api (k v) w')"
  by (induction p arbitrary: w) (simp_all split: prod.splits)

lemma copies_drain:
  assumes law: "buffer_law api buf errs K" and c: "c \<in> set (gl_copies api (drain_errors fuel k) w)"
  shows "\<exists>w'. c \<in> set (gl_copies api k w') \<and> bufs_of buf w' = bufs_of buf w \<and> ram w' = ram w"
  using c
proof (induction fuel arbitrary: w)
  case 0
  then show ?case by simp
next
  case (Suc fuel)
  obtain r g m where call: "gl_call api ''glGetError'' [] (vgl w, ram w) = (r, g, m)" by (metis surj_pair)
  let ?w = "w\<lparr>vgl := g, ram := m\<rparr>"
  have same: "bufs_of buf ?w = bufs_of buf w" "ram ?w = ram w"
    using buffer_lawD(2) [OF law call refl] by auto
  show ?case
  proof (cases "r = 0")
    case True
    then show ?thesis using Suc.prems call same by (auto simp: do_call_def)
  next
    case False
    then show ?thesis using Suc.prems Suc.IH [of ?w] call same by (simp add: do_call_def)
  qed
qed

lemma copies_storage:
  assumes law: "buffer_law api buf errs K" and c: "c \<in> set (gl_copies api (vgl_storage fuel t k) w)"
  shows "\<exists>w' p. c \<in> set (gl_copies api (k p) w') \<and> (p \<noteq> 0 \<longrightarrow> p = fst (bufs_of buf w' t))"
proof -
  let ?as = "[W (buffer_binding t), Out]"
  obtain r g m where call: "gl_call api ''glGetIntegerv'' ?as (vgl w, ram w) = (r, g, m)" by (metis surj_pair)
  let ?w = "w\<lparr>vgl := g, ram := m\<rparr>"
  have "c \<in> set (gl_copies api (drain_errors fuel (if r < 0x1000 then k 0 else Load r k)) ?w)"
    using c call by (simp add: vgl_storage_def do_call_def)
  then obtain w' where w': "c \<in> set (gl_copies api (if r < 0x1000 then k 0 else Load r k) w')"
    "bufs_of buf w' = bufs_of buf ?w" "ram w' = ram ?w"
    using copies_drain [OF law] by blast
  show ?thesis
  proof (cases "r < 0x1000")
    case True
    then show ?thesis using w'(1) by auto
  next
    case False
    then have "load32 m r = fst (buf (g, m) t)" using buffer_lawD(3) [OF law call refl refl] by simp
    then show ?thesis using False w' by (intro exI [of _ w'] exI [of _ "load32 (ram w') r"]) simp
  qed
qed

lemma copies_alloc_error:
  assumes law: "buffer_law api buf errs K" and c: "c \<in> set (gl_copies api (alloc_error fuel t sz k) w)"
  shows "\<exists>w' e. c \<in> set (gl_copies api (k e) w')"
proof -
  obtain r g m where call: "gl_call api ''glGetError'' [] (vgl w, ram w) = (r, g, m)" by (metis surj_pair)
  then have c': "c \<in> set (gl_copies api
      (if r = 0 \<and> 0 < sint sz then vgl_storage fuel t (\<lambda>p. k (if p = 0 then 0x505 else r)) else k r)
      (w\<lparr>vgl := g, ram := m\<rparr>))"
    using c by (simp add: alloc_error_def do_call_def)
  show ?thesis
  proof (cases "r = 0 \<and> 0 < sint sz")
    case True
    have "c \<in> set (gl_copies api (vgl_storage fuel t (\<lambda>p. k (if p = 0 then 0x505 else r))) (w\<lparr>vgl := g, ram := m\<rparr>))"
      using c' unfolding if_P [OF True] .
    from copies_storage [OF law this] show ?thesis by blast
  next
    case False
    show ?thesis using c' unfolding if_not_P [OF False] by (intro exI)
  qed
qed

lemma copies_buffer_data:
  assumes law: "buffer_law api buf errs K"
  shows "gl_copies api (glBufferData_locked fuel t sz data usage) w = []"
proof -
  have "c \<notin> set (gl_copies api (glBufferData_locked fuel t sz data usage) w)" for c
  proof
    assume c: "c \<in> set (gl_copies api (glBufferData_locked fuel t sz data usage) w)"
    let ?call = "\<lambda>u k. Gl ''glBufferData'' [W t, W sz, W data, W u] (\<lambda>_. alloc_error fuel t sz k)"
    let ?u = "if 65536 \<le> sint sz \<and> usage \<noteq> 0x88E4 then 0x88E4 else usage"
    let ?retry = "?call 0x88E4 (\<lambda>_. Unlock (Ret 0))"
    have call: "\<exists>w' e. c \<in> set (gl_copies api (k e) w')" if "c \<in> set (gl_copies api (?call u k) w)" for u k w
      using that copies_alloc_error [OF law] by (simp split: prod.splits) blast
    obtain w1 where "c \<in> set (gl_copies api (?call ?u (\<lambda>e. if e \<noteq> 0 then ?retry else Unlock (Ret 0))) w1)"
      using c copies_drain [OF law] unfolding glBufferData_locked_def Let_def gl_copies.simps(3) by blast
    from call [OF this]
    obtain w2 and e :: u32 where "c \<in> set (gl_copies api (if e \<noteq> 0 then ?retry else Unlock (Ret 0)) w2)"
      by blast
    then have "\<exists>w3. c \<in> set (gl_copies api ?retry w3)" by (cases "e = 0") auto
    then obtain w3 where "c \<in> set (gl_copies api ?retry w3)" by blast
    from call [OF this] show False by simp
  qed
  then show ?thesis by (metis list.set_intros(1) neq_Nil_conv)
qed

definition copy_ok :: "'g buffers \<Rightarrow> u32 \<Rightarrow> i32 \<Rightarrow> i32 \<Rightarrow> u32 \<Rightarrow> 'g gl_world \<times> u32 \<times> u32 \<times> u32 \<Rightarrow> bool" where
  "copy_ok buf t offset sz data c \<longleftrightarrow>
     (case c of (w, d, s, n) \<Rightarrow>
        s = data \<and> n = sz \<and> fst (bufs_of buf w t) \<noteq> 0 \<and> d = fst (bufs_of buf w t) + offset \<and>
        sint (offset + sz) \<le> sint (snd (bufs_of buf w t)))"

lemma copies_in_place:
  assumes law: "buffer_law api buf errs K"
    and c: "c \<in> set (gl_copies api (subdata_in_place fuel t offset sz data) w)"
  shows "copy_ok buf t offset sz data c"
proof -
  let ?q = "[W t, W 0x8764, Out]"
  let ?last = "\<lambda>base now. if sint (offset + sz) \<le> sint now then Memcpy (base + offset) data sz (Unlock (Ret 0))
      else Unlock (Ret 0)"
  let ?k = "\<lambda>base. if base = 0 then Unlock (Ret 0)
       else Gl ''glGetBufferParameteriv'' ?q (\<lambda>now. drain_errors fuel (?last base now))"
  obtain w1 base where 1: "c \<in> set (gl_copies api (?k base) w1)" "base \<noteq> 0 \<longrightarrow> base = fst (bufs_of buf w1 t)"
    using copies_storage [OF law, of c fuel t ?k w] c unfolding subdata_in_place_def by blast
  then have base: "base \<noteq> 0" by (cases "base = 0") simp_all
  obtain now g m where call: "gl_call api ''glGetBufferParameteriv'' ?q (vgl w1, ram w1) = (now, g, m)"
    by (metis surj_pair)
  let ?w2 = "w1\<lparr>vgl := g, ram := m\<rparr>"
  have now: "bufs_of buf ?w2 = bufs_of buf w1" "now = snd (bufs_of buf w1 t)"
    using buffer_lawD(4) [OF law call refl refl] by auto
  have "c \<in> set (gl_copies api (drain_errors fuel (?last base now)) ?w2)"
    using 1(1) base call by (simp add: do_call_def)
  then obtain w3 where 3: "c \<in> set (gl_copies api (?last base now) w3)" "bufs_of buf w3 = bufs_of buf ?w2"
    using copies_drain [OF law] by blast
  then have fits: "sint (offset + sz) \<le> sint now" by (cases "sint (offset + sz) \<le> sint now") simp_all
  then have "c = (w3, base + offset, data, sz)" using 3(1) by simp
  then show ?thesis using fits base 1(2) 3(2) now by (simp add: copy_ok_def)
qed

section \<open>The call returns\<close>

definition returns_always :: "'g gl_api \<Rightarrow> gl_prog \<Rightarrow> bool" where
  "returns_always api p \<longleftrightarrow> (\<forall>w. gl_run api p w \<noteq> None)"

lemma returns_simps:
  "returns_always api (Ret v)"
  "returns_always api (Lock p) = returns_always api p"
  "returns_always api (Unlock p) = returns_always api p"
  "returns_always api p \<Longrightarrow> returns_always api (Memcpy d s n p)"
  "(\<And>r. returns_always api (q r)) \<Longrightarrow> returns_always api (Gl f as q)"
  "(\<And>r. returns_always api (q r)) \<Longrightarrow> returns_always api (Load a q)"
  "returns_always api p \<Longrightarrow> returns_always api (Upd u p)"
  by (simp_all add: returns_always_def split: prod.splits)

lemma drain_returns:
  assumes law: "buffer_law api buf errs K" and k: "returns_always api k"
  shows "errs (vgl w) < fuel \<Longrightarrow> gl_run api (drain_errors fuel k) w \<noteq> None"
proof (induction fuel arbitrary: w)
  case 0
  then show ?case by simp
next
  case (Suc fuel)
  obtain r g m where call: "gl_call api ''glGetError'' [] (vgl w, ram w) = (r, g, m)" by (metis surj_pair)
  show ?case
  proof (cases "r = 0")
    case True
    then show ?thesis using k call by (simp add: do_call_def returns_always_def)
  next
    case False
    have "errs g < errs (vgl w)" using buffer_lawD(2) [OF law call refl] False by blast
    then have "errs (vgl (w\<lparr>vgl := g, ram := m\<rparr>)) < fuel" using Suc.prems by simp
    from Suc.IH [OF this] show ?thesis using call False by (simp add: do_call_def)
  qed
qed

text \<open>Every call of vitaGL leaves at most \<open>K\<close> errors, so a loop that follows one needs no more than \<open>K + 1\<close> turns.\<close>

lemma call_drain_returns:
  fixes api :: "'g gl_api"
  assumes "buffer_law api buf errs K" "K < fuel" "\<And>r. returns_always api (k r)"
  shows "returns_always api (Gl f as (\<lambda>r. drain_errors fuel (k r)))"
  unfolding returns_always_def
proof
  fix w :: "'g gl_world"
  obtain r g m where call: "gl_call api f as (vgl w, ram w) = (r, g, m)" by (metis surj_pair)
  have "errs (vgl (w\<lparr>vgl := g, ram := m\<rparr>)) < fuel" using buffer_lawD(1) [OF assms(1) call] assms(2) by simp
  from drain_returns [OF assms(1) assms(3) [of r] this] show "gl_run api (Gl f as (\<lambda>r. drain_errors fuel (k r))) w \<noteq> None"
    using call by (simp add: do_call_def)
qed

lemma storage_returns:
  assumes "buffer_law api buf errs K" "K < fuel" "\<And>p. returns_always api (k p)"
  shows "returns_always api (vgl_storage fuel t k)"
  unfolding vgl_storage_def
  by (rule call_drain_returns [OF assms(1,2)]) (simp add: assms(3) returns_simps(6))

lemma alloc_error_returns:
  assumes "buffer_law api buf errs K" "K < fuel" "\<And>p. returns_always api (k p)"
  shows "returns_always api (alloc_error fuel t sz k)"
  unfolding alloc_error_def by (rule returns_simps(5)) (simp add: assms(3) storage_returns [OF assms(1,2)])

lemma buffer_data_returns:
  assumes "buffer_law api buf errs K" "K < fuel" "errs (vgl w) < fuel"
  shows "gl_run api (glBufferData_locked fuel t sz data usage) w \<noteq> None"
proof -
  let ?call = "\<lambda>u k. Gl ''glBufferData'' [W t, W sz, W data, W u] (\<lambda>_. alloc_error fuel t sz k)"
  have "returns_always api (?call u k)" if "\<And>e. returns_always api (k e)" for u k
    by (rule returns_simps(5)) (rule alloc_error_returns [OF assms(1,2) that])
  then have "returns_always api (?call u (\<lambda>e. if e \<noteq> 0 then ?call 0x88E4 (\<lambda>_. Unlock (Ret 0)) else Unlock (Ret 0)))" for u
    by (simp add: returns_simps)
  then show ?thesis
    unfolding glBufferData_locked_def Let_def gl_run.simps(3) by (intro drain_returns [OF assms(1) _ assms(3)])
qed

lemma in_place_returns:
  assumes "buffer_law api buf errs K" "K < fuel"
  shows "returns_always api (subdata_in_place fuel t offset sz data)"
  unfolding subdata_in_place_def
proof (rule storage_returns [OF assms])
  fix p
  show "returns_always api (if p = 0 then Unlock (Ret 0)
      else Gl ''glGetBufferParameteriv'' [W t, W 0x8764, Out] (\<lambda>now. drain_errors fuel
        (if sint (offset + sz) \<le> sint now then Memcpy (p + offset) data sz (Unlock (Ret 0)) else Unlock (Ret 0))))"
    using call_drain_returns [OF assms] by (simp add: returns_simps)
qed

lemma subdata_returns:
  fixes api :: "'g gl_api"
  assumes law: "buffer_law api buf errs K" "K < fuel"
  shows "gl_run api (glBufferSubData_locked fuel t offset sz data) w \<noteq> None"
proof (cases "sint sz \<le> 0 \<or> data = 0")
  case True
  then show ?thesis by (simp add: glBufferSubData_locked_def)
next
  case False
  let ?rest = "subdata_in_place fuel t offset sz data"
  let ?count = "\<lambda>s. s\<lparr>c_subdata_calls := c_subdata_calls s + 1, c_subdata_bytes := c_subdata_bytes s + sz\<rparr>"
  let ?need = "\<lambda>cur. if sint (offset + sz) < sint cur then cur else offset + sz"
  let ?again = "\<lambda>cur. Gl ''glGetIntegerv'' [W (buffer_binding t), Out] (\<lambda>_.
      Unlock (gl_bind (glBufferData_locked fuel t (?need cur) 0 0x88E4) (\<lambda>_. Lock ?rest)))"
  have again: "returns_always api (?again cur)" for cur
    unfolding returns_always_def
  proof
    fix w :: "'g gl_world"
    obtain r g m where call: "gl_call api ''glGetIntegerv'' [W (buffer_binding t), Out] (vgl w, ram w) = (r, g, m)"
      by (metis surj_pair)
    let ?w = "w\<lparr>vgl := g, ram := m\<rparr>"
    have "errs (vgl ?w) < fuel" using buffer_lawD(1) [OF law(1) call] law(2) by simp
    from buffer_data_returns [OF law this, of t "?need cur" 0 "0x88E4"]
    obtain v w' where "gl_run api (glBufferData_locked fuel t (?need cur) 0 0x88E4) ?w = Some (v, w')" by auto
    then show "gl_run api (?again cur) w \<noteq> None"
      using call in_place_returns [OF law] by (simp add: do_call_def gl_run_bind returns_always_def)
  qed
  have "returns_always api (Upd ?count
      (if sint cur \<le> 0 \<or> sint cur < sint (offset + sz) then ?again cur else ?rest))" for cur
    using again in_place_returns [OF law] by (intro returns_simps(7)) simp
  then have "returns_always api (Gl ''glGetBufferParameteriv'' [W t, W 0x8764, Out] (\<lambda>cur. drain_errors fuel
      (Upd ?count (if sint cur \<le> 0 \<or> sint cur < sint (offset + sz) then ?again cur else ?rest))))"
    by (rule call_drain_returns [OF law])
  then show ?thesis
    unfolding glBufferSubData_locked_def Let_def if_not_P [OF False] returns_always_def gl_run.simps(3) by blast
qed

lemma subdata_copies:
  assumes law: "buffer_law api buf errs K"
    and c: "c \<in> set (gl_copies api (glBufferSubData_locked fuel t offset sz data) w)"
  shows "0 < sint sz \<and> copy_ok buf t offset sz data c"
proof -
  let ?rest = "subdata_in_place fuel t offset sz data"
  let ?count = "\<lambda>s. s\<lparr>c_subdata_calls := c_subdata_calls s + 1, c_subdata_bytes := c_subdata_bytes s + sz\<rparr>"
  let ?need = "\<lambda>cur. if sint (offset + sz) < sint cur then cur else offset + sz"
  let ?again = "\<lambda>cur. Gl ''glGetIntegerv'' [W (buffer_binding t), Out] (\<lambda>_.
      Unlock (gl_bind (glBufferData_locked fuel t (?need cur) 0 0x88E4) (\<lambda>_. Lock ?rest)))"
  let ?body = "\<lambda>cur. if sint cur \<le> 0 \<or> sint cur < sint (offset + sz) then ?again cur else ?rest"
  have go: "\<not> (sint sz \<le> 0 \<or> data = 0)"
    using c by (cases "sint sz \<le> 0 \<or> data = 0") (simp_all add: glBufferSubData_locked_def)
  obtain cur g m where call: "gl_call api ''glGetBufferParameteriv'' [W t, W 0x8764, Out] (vgl w, ram w) = (cur, g, m)"
    by (metis surj_pair)
  have "c \<in> set (gl_copies api (drain_errors fuel (Upd ?count (?body cur))) (w\<lparr>vgl := g, ram := m\<rparr>))"
    using c call unfolding glBufferSubData_locked_def Let_def gl_copies.simps(3) if_not_P [OF go]
    by (simp add: do_call_def)
  from copies_drain [OF law this] obtain w1 where "c \<in> set (gl_copies api (?body cur) w1)"
    unfolding gl_copies.simps(11) by (elim exE conjE)
  moreover have "\<exists>w2. c \<in> set (gl_copies api ?rest w2)" if "c \<in> set (gl_copies api (?again cur) w1)"
    using that by (simp add: gl_copies_bind copies_buffer_data [OF law] split: prod.splits option.splits) blast
  ultimately have "\<exists>w2. c \<in> set (gl_copies api ?rest w2)"
    by (cases "sint cur \<le> 0 \<or> sint cur < sint (offset + sz)") (simp_all only: if_True if_False simp_thms, blast)
  then obtain w2 where "c \<in> set (gl_copies api ?rest w2)" by blast
  from copies_in_place [OF law this] show ?thesis using go by simp
qed

lemma nonneg_sint:
  assumes "0 \<le> sint (x :: i32)"
  shows "int (unat x) = sint x"
proof -
  have "sint x < 2 ^ 32" using sint_lt [of x] by simp
  then have "take_bit 32 (sint x) = sint x" using assms by (simp add: take_bit_int_eq_self)
  then show ?thesis using uint_sint [of x] by simp
qed

lemma sint_add_small:
  assumes "0 \<le> sint (x :: i32)" "0 \<le> sint y" "sint x + sint y < 2 ^ 31"
  shows "sint (x + y) = sint x + sint y"
proof -
  have "int (unat x) = sint x" "int (unat y) = sint y" using assms(1,2) by (simp_all only: nonneg_sint)
  then have "int (unat x + unat y) < 2 ^ 31" using assms(3) by simp
  then have "unat x + unat y < 2 ^ 31" by (simp flip: of_nat_less_iff [where 'a = int])
  then have "sint (of_nat (unat x + unat y) :: i32) = int (unat x + unat y)" by (rule sint_of_nat32)
  then show ?thesis using assms nonneg_sint [of x] nonneg_sint [of y] by simp
qed

lemma copy_in_bounds:
  assumes "copy_ok buf t offset sz data (w, d, s, n)" "0 < sint sz" "0 \<le> sint offset"
    "sint offset + sint sz < 2 ^ 31"
  shows "unat (d - fst (bufs_of buf w t)) + unat n \<le> nat (sint (snd (bufs_of buf w t)))"
proof -
  have "sint (offset + sz) = sint offset + sint sz" using assms by (intro sint_add_small) simp_all
  moreover have "d - fst (bufs_of buf w t) = offset" "n = sz" using assms(1) by (simp_all add: copy_ok_def)
  moreover have "sint (offset + sz) \<le> sint (snd (bufs_of buf w t))" using assms(1) by (simp add: copy_ok_def)
  moreover have "int (unat offset) = sint offset" "int (unat sz) = sint sz"
    by (rule nonneg_sint [OF assms(3)], rule nonneg_sint [OF less_imp_le [OF assms(2)]])
  ultimately have "int (unat offset + unat sz) \<le> sint (snd (bufs_of buf w t))" by (simp only: of_nat_add)
  then have "unat offset + unat sz \<le> nat (sint (snd (bufs_of buf w t)))" by (simp only: nat_le_iff le_nat_iff)
  then show ?thesis using \<open>d - fst (bufs_of buf w t) = offset\<close> \<open>n = sz\<close> by simp
qed


text \<open>A vitaGL with one buffer of 64 bytes at 0x5000.\<close>

definition buffer_memory :: memory where
  "buffer_memory = (\<lambda>_. 0)(0x2001 := 0x50)"

definition one_buffer_api :: "unit gl_api" where
  "one_buffer_api =
     \<lparr>gl_call = (\<lambda>f as (g, m).
        (if f = ''glGetIntegerv'' then 0x2000 else if f = ''glGetBufferParameteriv'' then 64 else 0, (),
         if f = ''glGetIntegerv'' then buffer_memory else m)),
      libc_call = (\<lambda>_ _ gm. (0, gm))\<rparr>"

definition one_buffer_world :: "unit gl_world" where
  "one_buffer_world = \<lparr>vgl = (), ram = buffer_memory, own = gl_state_init\<rparr>"

definition one_buffer :: "unit buffers" where
  "one_buffer gm t = (0x5000, 64)"

lemma buffer_pointer: "load32 buffer_memory 0x2000 = 0x5000"
  by (simp add: load32_def buffer_memory_def)

lemma one_buffer_law: "buffer_law one_buffer_api one_buffer (\<lambda>_. 0) 0"
  unfolding buffer_law_def
  by (auto simp: one_buffer_api_def one_buffer_def buffer_pointer buffer_binding_def)

lemma one_buffer_copies:
  assumes "sint (offset + 16) \<le> 64"
  shows "map snd (gl_copies one_buffer_api (glBufferSubData_locked (Suc 0) 0x8892 offset 16 0x8000) one_buffer_world)
     = [(0x5000 + offset, 0x8000, 16)]"
  using assms
  by (simp add: glBufferSubData_locked_def subdata_in_place_def vgl_storage_def buffer_binding_def do_call_def
      one_buffer_api_def one_buffer_world_def buffer_pointer Let_def)


text \<open>
  A negative offset passes the check, which only looks at the end of the write: 16 bytes are copied in
  front of the storage.
\<close>

lemma subdata_negative_offset:
  "map snd (gl_copies one_buffer_api (glBufferSubData_locked (Suc 0) 0x8892 (- 16) 16 0x8000) one_buffer_world)
     = [(0x4FF0, 0x8000, 16)]"
  using one_buffer_copies [of "- 16"] by simp

end
