(* ===== verification/Files.thy ===== *)
theory Files
  imports Machine
begin

text \<open>
  The file layer of \<open>default_dynlib.c\<close>: what the game's POSIX file calls become on the Vita.  Paths are
  mapped to the card, \<open>open\<close> flags and \<open>struct stat\<close> are converted from bionic's to newlib's layout, and
  the save files are watched, with a cap on the size of the ghosts save.  The C library's own calls are
  the fields of \<open>file_api\<close>.
\<close>

section \<open>Paths\<close>

definition starts :: "string \<Rightarrow> string \<Rightarrow> bool" where
  "starts p s \<longleftrightarrow> take (length p) s = p"

text \<open>\<open>snprintf(out, n, "%s", s)\<close>: at most \<open>n - 1\<close> characters and the closing zero.\<close>

definition snprintf_text :: "nat \<Rightarrow> string \<Rightarrow> string" where
  "snprintf_text n s = take (n - 1) s"

text \<open>\<open>None\<close> is the null pointer; \<open>n\<close> is the size of the caller's buffer, 512 in every caller.\<close>

definition fix_path :: "nat \<Rightarrow> string option \<Rightarrow> string option" where
  "fix_path n path =
     (case path of
        None \<Rightarrow> None
      | Some p \<Rightarrow>
          if starts ''/data/ssx/'' p then Some (snprintf_text n (DATA_PATH @ ''/'' @ drop 10 p))
          else if p = ''/data/ssx'' then Some (snprintf_text n DATA_PATH)
          else if p \<noteq> [] \<and> p ! 0 \<noteq> CHR ''/'' \<and> CHR '':'' \<notin> set p
          then Some (snprintf_text n (DATA_PATH @ ''/'' @ (if starts ''./'' p then drop 2 p else p)))
          else Some p)"

section \<open>Open flags\<close>

text \<open>bionic: O_CREAT 0x40, O_EXCL 0x80, O_TRUNC 0x200, O_APPEND 0x400; newlib: 0x200, 0x800, 0x400, 0x8.\<close>

definition bionic_oflags :: "u32 \<Rightarrow> u32" where
  "bionic_oflags f =
     (let nf = f AND 3;
          nf = (if f AND 0x40 \<noteq> 0 then nf OR 0x200 else nf);
          nf = (if f AND 0x80 \<noteq> 0 then nf OR 0x800 else nf);
          nf = (if f AND 0x200 \<noteq> 0 then nf OR 0x400 else nf) in
      if f AND 0x400 \<noteq> 0 then nf OR 0x8 else nf)"

section \<open>Descriptors\<close>

record 'f file_api =
  sys_open :: "string option \<Rightarrow> u32 \<Rightarrow> 'f \<Rightarrow> int \<times> 'f"
  sys_close :: "int \<Rightarrow> 'f \<Rightarrow> int \<times> 'f"
  sys_write :: "int \<Rightarrow> u8 list \<Rightarrow> 'f \<Rightarrow> int \<times> 'f"
  sys_lseek :: "int \<Rightarrow> int \<Rightarrow> nat \<Rightarrow> 'f \<Rightarrow> int \<times> 'f"
  sys_ftruncate :: "int \<Rightarrow> int \<Rightarrow> 'f \<Rightarrow> int \<times> 'f"

record 'f files =
  save_fd :: "nat list"
  disk :: 'f

definition GHOST_CAP :: int where
  "GHOST_CAP = 64 * 1024 * 1024"

definition SEEK_SET :: nat where "SEEK_SET = 0"

definition SEEK_CUR :: nat where "SEEK_CUR = 1"

fun contains :: "string \<Rightarrow> string \<Rightarrow> bool" where
  "contains [] w \<longleftrightarrow> w = []"
| "contains (c # s) w \<longleftrightarrow> starts w (c # s) \<or> contains s w"

definition save_kind :: "string option \<Rightarrow> nat" where
  "save_kind q =
     (case q of
        None \<Rightarrow> 0
      | Some p \<Rightarrow> if contains p ''/internal/ssxv/'' then (if contains p ''ghosts'' then 2 else 1) else 0)"

definition watched :: "int \<Rightarrow> 'f files \<Rightarrow> bool" where
  "watched fd s \<longleftrightarrow> 0 \<le> fd \<and> fd < 256 \<and> save_fd s ! nat fd \<noteq> 0"

definition open_log :: "'f file_api \<Rightarrow> string option \<Rightarrow> u32 \<Rightarrow> 'f files \<Rightarrow> int \<times> 'f files" where
  "open_log api p f s =
     (let q = fix_path 512 p; (fd, d) = sys_open api q (bionic_oflags f) (disk s) in
      (fd, s\<lparr>disk := d,
        save_fd := (if 0 \<le> fd \<and> fd < 256 then (save_fd s)[nat fd := save_kind q] else save_fd s)\<rparr>))"

definition close_fix :: "'f file_api \<Rightarrow> int \<Rightarrow> 'f files \<Rightarrow> int \<times> 'f files" where
  "close_fix api fd s =
     (let s = (if watched fd s then s\<lparr>save_fd := (save_fd s)[nat fd := 0]\<rparr> else s);
          (r, d) = sys_close api fd (disk s) in
      (r, s\<lparr>disk := d\<rparr>))"

definition write_fix :: "'f file_api \<Rightarrow> int \<Rightarrow> u8 list \<Rightarrow> 'f files \<Rightarrow> int \<times> 'f files" where
  "write_fix api fd buf s =
     (if \<not> watched fd s then (let (r, d) = sys_write api fd buf (disk s) in (r, s\<lparr>disk := d\<rparr>))
      else
        let (pos, d) = sys_lseek api fd 0 SEEK_CUR (disk s); n = int (length buf) in
        if save_fd s ! nat fd = 2 \<and> pos + n > GHOST_CAP
        then let keep = (if pos \<ge> GHOST_CAP then 0 else nat (GHOST_CAP - pos));
                 d = (if keep \<noteq> 0 then snd (sys_write api fd (take keep buf) d) else d);
                 d = snd (sys_lseek api fd (pos + n) SEEK_SET d) in
             (n, s\<lparr>disk := d\<rparr>)
        else let (r, d) = sys_write api fd buf d in (r, s\<lparr>disk := d\<rparr>))"

definition lseek_fix :: "'f file_api \<Rightarrow> int \<Rightarrow> int \<Rightarrow> nat \<Rightarrow> 'f files \<Rightarrow> int \<times> 'f files" where
  "lseek_fix api fd off whence s =
     (let (r, d) = sys_lseek api fd off whence (disk s) in (r, s\<lparr>disk := d\<rparr>))"

definition ftruncate_fix :: "'f file_api \<Rightarrow> int \<Rightarrow> int \<Rightarrow> 'f files \<Rightarrow> int \<times> 'f files" where
  "ftruncate_fix api fd len s =
     (let len = (if watched fd s \<and> save_fd s ! nat fd = 2 \<and> len > GHOST_CAP then GHOST_CAP else len);
          (r, d) = sys_ftruncate api fd len (disk s) in
      (r, s\<lparr>disk := d\<rparr>))"

text \<open>The calls that only translate their paths.\<close>

definition opendir_fix :: "(string option \<Rightarrow> 'd) \<Rightarrow> string option \<Rightarrow> 'd" where
  "opendir_fix opendir p = opendir (fix_path 512 p)"

definition mkdir_fix :: "(string option \<Rightarrow> int \<Rightarrow> int) \<Rightarrow> string option \<Rightarrow> int \<Rightarrow> int" where
  "mkdir_fix mkdir p mode = mkdir (fix_path 512 p) mode"

definition unlink_fix :: "(string option \<Rightarrow> int) \<Rightarrow> string option \<Rightarrow> int" where
  "unlink_fix unlink p = unlink (fix_path 512 p)"

definition rename_fix :: "(string option \<Rightarrow> string option \<Rightarrow> int) \<Rightarrow> string option \<Rightarrow> string option \<Rightarrow> int" where
  "rename_fix rename a c = rename (fix_path 512 a) (fix_path 512 c)"

text \<open>\<open>writev\<close>, which newlib does not have: the sum of the results of plain \<open>write\<close> calls.\<close>

fun writev_stub :: "'f file_api \<Rightarrow> int \<Rightarrow> u8 list list \<Rightarrow> 'f \<Rightarrow> int \<times> 'f" where
  "writev_stub api fd [] d = (0, d)"
| "writev_stub api fd (b # bs) d =
     (let (r, d) = sys_write api fd b d; (n, d) = writev_stub api fd bs d in (r + n, d))"

section \<open>File status\<close>

record newlib_stat =
  n_dev :: u64
  n_ino :: u64
  n_mode :: u32
  n_nlink :: u32
  n_uid :: u32
  n_gid :: u32
  n_rdev :: u64
  n_size :: u64
  n_atime :: u64
  n_mtime :: u64
  n_ctime :: u64

definition le64 :: "u64 \<Rightarrow> u8 list" where
  "le64 v = le32 (ucast v) @ le32 (ucast (drop_bit 32 v))"

text \<open>The 104 bytes of bionic's \<open>struct stat\<close>, in the order of its fields, padding included.\<close>

definition to_bionic_stat :: "newlib_stat \<Rightarrow> u8 list" where
  "to_bionic_stat n =
     le64 (n_dev n) @ replicate 4 0 @ le32 (ucast (n_ino n)) @
     le32 (n_mode n) @ le32 (n_nlink n) @ le32 (n_uid n) @ le32 (n_gid n) @
     le64 (n_rdev n) @ replicate 4 0 @ replicate 4 0 @
     le64 (n_size n) @ le32 512 @ replicate 4 0 @ le64 (word_of_int ((sint (n_size n) + 511) div 512)) @
     le32 (ucast (n_atime n)) @ le32 0 @ le32 (ucast (n_mtime n)) @ le32 0 @ le32 (ucast (n_ctime n)) @ le32 0 @
     le64 (n_ino n)"

text \<open>The caller's structure is filled in only when the call succeeds and the pointer is not null.\<close>

definition stat_fix ::
  "(string option \<Rightarrow> int \<times> newlib_stat) \<Rightarrow> string option \<Rightarrow> u32 \<Rightarrow> memory \<Rightarrow> int \<times> memory" where
  "stat_fix stat p bs m =
     (let (r, s) = stat (fix_path 512 p) in
      (r, if r = 0 \<and> bs \<noteq> 0 then write_bytes m bs (to_bionic_stat s) else m))"

definition fstat_fix :: "(int \<Rightarrow> int \<times> newlib_stat) \<Rightarrow> int \<Rightarrow> u32 \<Rightarrow> memory \<Rightarrow> int \<times> memory" where
  "fstat_fix fstat fd bs m =
     (let (r, s) = fstat fd in
      (r, if r = 0 \<and> bs \<noteq> 0 then write_bytes m bs (to_bionic_stat s) else m))"

section \<open>Sleeping\<close>

text \<open>
  \<open>delay_us\<close>: what the kernel is asked to sleep, and the main thread's statistics, given the process times
  before and after the sleep.
\<close>

record sleep_stats =
  main_sleep_us :: u64
  main_sleep_calls :: u32

definition on_main :: "int \<Rightarrow> int \<Rightarrow> bool" where
  "on_main stats_main_tid tid \<longleftrightarrow> 0 \<le> stats_main_tid \<and> tid = stats_main_tid"

definition delay_us :: "bool \<Rightarrow> bool \<Rightarrow> int \<Rightarrow> u64 \<Rightarrow> u64 \<Rightarrow> sleep_stats \<Rightarrow> u32 \<times> sleep_stats" where
  "delay_us skip main us before after s =
     (let us = (if us < 100 then 100 else us) in
      if \<not> main then (word_of_int us, s)
      else let us = (if skip \<and> 2000 \<le> us then 100 else us) in
        (word_of_int us, s\<lparr>main_sleep_us := main_sleep_us s + (after - before),
          main_sleep_calls := main_sleep_calls s + 1\<rparr>))"

definition usleep_us :: "u32 \<Rightarrow> int" where "usleep_us us = uint us"

definition nanosleep_us :: "(int \<times> int) option \<Rightarrow> int" where
  "nanosleep_us req = (case req of None \<Rightarrow> 0 | Some (sec, nsec) \<Rightarrow> sec * 1000000 + nsec div 1000)"

text \<open>
  \<open>cond_timedwait_timed\<close>: the timed wait of the pthread bridge (its result is \<open>r\<close>), counted on the main thread.
\<close>

record wait_stats =
  main_wait_us :: u64
  main_wait_calls :: u32

definition cond_timedwait_timed :: "bool \<Rightarrow> int \<Rightarrow> u64 \<Rightarrow> u64 \<Rightarrow> wait_stats \<Rightarrow> int \<times> wait_stats" where
  "cond_timedwait_timed main r before after s =
     (r, if main then s\<lparr>main_wait_us := main_wait_us s + (after - before), main_wait_calls := main_wait_calls s + 1\<rparr>
         else s)"

lemma delay_bounds:
  assumes "us < 2 ^ 32"
  shows "100 \<le> unat (fst (delay_us skip main us a b s))"
    "skip \<Longrightarrow> main \<Longrightarrow> unat (fst (delay_us skip main us a b s)) < 2000"
proof -
  have w: "unat (word_of_int k :: u32) = nat k" if "0 \<le> k" "k < 2 ^ 32" for k
    using that by (simp add: unat_eq_nat_uint uint_word_of_int)
  show "100 \<le> unat (fst (delay_us skip main us a b s))"
    using assms w [of us] by (cases "us < 100") (auto simp: delay_us_def Let_def)
  show "unat (fst (delay_us skip main us a b s)) < 2000" if "skip" "main"
    using that assms w [of us] by (auto simp: delay_us_def Let_def)
qed

text \<open>The kernel takes 32 bits: a sleep of 2 ^ 32 microseconds and a few more (72 minutes) is a sleep of a few.\<close>

lemma delay_wraps: "fst (delay_us skip False (2 ^ 32 + 5) a b s) = 5"
  by (simp add: delay_us_def)

section \<open>Paths stay on the card\<close>

lemma length_snprintf: "0 < n \<Longrightarrow> length (snprintf_text n s) < n"
  by (simp add: snprintf_text_def)

lemma data_path_facts: "CHR '':'' \<in> set DATA_PATH" "DATA_PATH ! 0 = CHR ''u''" "length DATA_PATH = 13"
  by (simp_all add: DATA_PATH_def)

text \<open>A mapped path: it starts with \<open>DATA_PATH\<close> and fits the buffer.\<close>

definition on_card :: "string \<Rightarrow> bool" where
  "on_card q \<longleftrightarrow> take 13 q = DATA_PATH \<and> length q < 512"

lemma on_card_snprintf: "on_card (snprintf_text 512 (DATA_PATH @ s))"
  by (simp add: on_card_def snprintf_text_def DATA_PATH_def)

lemma on_card_fixed: 
  assumes "on_card q"
  shows "fix_path 512 (Some q) = Some q"
proof -
  have q: "take 13 q = ''uma0:data/ssx''" using assms by (simp add: on_card_def DATA_PATH_def)
  then obtain r where r: "q = ''uma0:data/ssx'' @ r" by (metis append_take_drop_id)
  then show ?thesis by (simp add: fix_path_def starts_def)
qed

definition absolute :: "string \<Rightarrow> bool" where
  "absolute p \<longleftrightarrow> p = [] \<or> p ! 0 = CHR ''/'' \<or> CHR '':'' \<in> set p"



section \<open>The structure has bionic's layout\<close>

lemma length_le64 [simp]: "length (le64 v) = 8"
  by (simp add: le64_def)

lemma bionic_stat_layout:
  "length (to_bionic_stat n) = 104" "take 8 (drop 48 (to_bionic_stat n)) = le64 (n_size n)"
  by (simp_all add: to_bionic_stat_def)

section \<open>The ghosts save is capped\<close>

text \<open>
  \<open>file_law\<close> states POSIX's regular files opened without \<open>O_APPEND\<close>: \<open>view d fd\<close> is the file's length and
  the descriptor's position.
\<close>

definition file_law :: "'f file_api \<Rightarrow> ('f \<Rightarrow> int \<times> int) \<Rightarrow> int \<Rightarrow> bool" where
  "file_law api view fd \<longleftrightarrow> (\<forall>d r d' l p bs off whence len. view d = (l, p) \<longrightarrow>
     (sys_write api fd bs d = (r, d') \<longrightarrow>
        r \<le> int (length bs) \<and> view d' = (if r \<le> 0 then (l, p) else (max l (p + r), p + r))) \<and>
     (sys_lseek api fd off whence d = (r, d') \<longrightarrow>
        fst (view d') = l \<and> (0 \<le> p \<longrightarrow> 0 \<le> snd (view d')) \<and>
        (whence = SEEK_CUR \<and> off = 0 \<longrightarrow> r = p \<and> view d' = (l, p)) \<and>
        (whence = SEEK_SET \<and> 0 \<le> off \<longrightarrow> view d' = (l, off))) \<and>
     (sys_ftruncate api fd len d = (r, d') \<longrightarrow> view d' = (l, p) \<or> view d' = (len, p)))"

lemma file_lawD:
  assumes "file_law api view fd" "view d = (l, p)"
  shows "sys_write api fd bs d = (r, d') \<Longrightarrow>
      r \<le> int (length bs) \<and> view d' = (if r \<le> 0 then (l, p) else (max l (p + r), p + r))"
    "sys_lseek api fd off whence d = (r, d') \<Longrightarrow> fst (view d') = l \<and> (0 \<le> p \<longrightarrow> 0 \<le> snd (view d'))"
    "sys_lseek api fd 0 SEEK_CUR d = (r, d') \<Longrightarrow> r = p \<and> view d' = (l, p)"
    "sys_lseek api fd off SEEK_SET d = (r, d') \<Longrightarrow> 0 \<le> off \<Longrightarrow> view d' = (l, off)"
    "sys_ftruncate api fd len d = (r, d') \<Longrightarrow> view d' = (l, p) \<or> view d' = (len, p)"
  using assms unfolding file_law_def by blast+

datatype file_op = Write "u8 list" | Seek int nat | Truncate int

fun file_step :: "'f file_api \<Rightarrow> int \<Rightarrow> file_op \<Rightarrow> 'f files \<Rightarrow> int \<times> 'f files" where
  "file_step api fd (Write buf) s = write_fix api fd buf s"
| "file_step api fd (Seek off whence) s = lseek_fix api fd off whence s"
| "file_step api fd (Truncate len) s = ftruncate_fix api fd len s"

definition file_steps :: "'f file_api \<Rightarrow> int \<Rightarrow> file_op list \<Rightarrow> 'f files \<Rightarrow> 'f files" where
  "file_steps api fd ops s = fold (\<lambda>c s. snd (file_step api fd c s)) ops s"

definition ghosts_ok :: "('f \<Rightarrow> int \<times> int) \<Rightarrow> int \<Rightarrow> 'f files \<Rightarrow> bool" where
  "ghosts_ok view fd s \<longleftrightarrow> 0 \<le> fd \<and> fd < 256 \<and> save_fd s ! nat fd = 2 \<and>
     fst (view (disk s)) \<le> GHOST_CAP \<and> 0 \<le> snd (view (disk s))"

lemma capped_write:
  assumes law: "file_law api view fd" and ok: "ghosts_ok view fd s"
  shows "ghosts_ok view fd (snd (write_fix api fd buf s)) \<and>
    (snd (view (disk s)) + int (length buf) > GHOST_CAP \<longrightarrow>
       fst (write_fix api fd buf s) = int (length buf) \<and>
       snd (view (disk (snd (write_fix api fd buf s)))) = snd (view (disk s)) + int (length buf))"
proof -
  obtain l p where v: "view (disk s) = (l, p)" by (cases "view (disk s)")
  have l: "l \<le> GHOST_CAP" "0 \<le> p" and fd: "0 \<le> fd" "fd < 256" "save_fd s ! nat fd = 2"
    using ok v by (simp_all add: ghosts_ok_def)
  then have w: "watched fd s" by (simp add: watched_def)
  obtain pos d where s1: "sys_lseek api fd 0 SEEK_CUR (disk s) = (pos, d)" by (metis surj_pair)
  have d: "pos = p" "view d = (l, p)" using file_lawD(3) [OF law v s1] by simp_all
  let ?n = "int (length buf)"
  show ?thesis
  proof (cases "p + ?n > GHOST_CAP")
    case True
    define keep where "keep = (if p \<ge> GHOST_CAP then 0 else nat (GHOST_CAP - p))"
    define d1 where "d1 = (if keep \<noteq> 0 then snd (sys_write api fd (take keep buf) d) else d)"
    have k: "int keep \<le> GHOST_CAP - p \<or> keep = 0" by (simp add: keep_def)
    have d1: "fst (view d1) \<le> GHOST_CAP"
    proof (cases "keep = 0")
      case True
      then show ?thesis using d l by (simp add: d1_def)
    next
      case False
      obtain r d' where wr: "sys_write api fd (take keep buf) d = (r, d')" by (metis surj_pair)
      have "r \<le> int keep" "view d' = (if r \<le> 0 then (l, p) else (max l (p + r), p + r))"
        using file_lawD(1) [OF law d(2) wr] by auto
      then show ?thesis using False k l(1) wr by (auto simp: d1_def)
    qed
    obtain r d2 where s2: "sys_lseek api fd (p + ?n) SEEK_SET d1 = (r, d2)" by (metis surj_pair)
    have "view d2 = (fst (view d1), p + ?n)"
      using file_lawD(4) [OF law prod.collapse [symmetric] s2] l(2) by simp
    moreover have "write_fix api fd buf s = (?n, s\<lparr>disk := d2\<rparr>)"
      using w fd True s2 [unfolded d1_def]
      by (auto simp: write_fix_def s1 d(1) Let_def keep_def [symmetric] split: if_splits)
    ultimately show ?thesis using d1 fd l(2) v by (simp add: ghosts_ok_def)
  next
    case False
    obtain r d' where wr: "sys_write api fd buf d = (r, d')" by (metis surj_pair)
    have "r \<le> ?n" "view d' = (if r \<le> 0 then (l, p) else (max l (p + r), p + r))"
      using file_lawD(1) [OF law d(2) wr] by auto
    moreover have "write_fix api fd buf s = (r, s\<lparr>disk := d'\<rparr>)"
      using w False wr by (simp add: write_fix_def s1 d(1) Let_def)
    ultimately show ?thesis using False fd l v by (auto simp: ghosts_ok_def)
  qed
qed

lemma file_step_ok:
  assumes law: "file_law api view fd" and ok: "ghosts_ok view fd s"
  shows "ghosts_ok view fd (snd (file_step api fd c s))"
proof (cases c)
  case (Write buf)
  then show ?thesis using capped_write [OF law ok] by simp
next
  case (Seek off whence)
  obtain r d where s: "sys_lseek api fd off whence (disk s) = (r, d)" by (metis surj_pair)
  have "fst (view d) = fst (view (disk s)) \<and> (0 \<le> snd (view (disk s)) \<longrightarrow> 0 \<le> snd (view d))"
    using file_lawD(2) [OF law prod.collapse [symmetric] s] .
  then show ?thesis using Seek ok s by (simp add: lseek_fix_def ghosts_ok_def)
next
  case (Truncate len)
  let ?len = "if len > GHOST_CAP then GHOST_CAP else len"
  have w: "watched fd s" "save_fd s ! nat fd = 2" using ok by (simp_all add: ghosts_ok_def watched_def)
  obtain r d where s: "sys_ftruncate api fd ?len (disk s) = (r, d)" by (metis surj_pair)
  have "view d = view (disk s) \<or> view d = (?len, snd (view (disk s)))"
    using file_lawD(5) [OF law prod.collapse [symmetric] s] by simp
  then have "fst (view d) \<le> GHOST_CAP \<and> 0 \<le> snd (view d)" using ok by (auto simp: ghosts_ok_def)
  then show ?thesis using Truncate ok s w by (simp add: ftruncate_fix_def ghosts_ok_def)
qed


text \<open>A disk with one file of which only the length and the position are kept.\<close>

definition one_file_api :: "(int \<times> int) file_api" where
  "one_file_api =
     \<lparr>sys_open = (\<lambda>_ _ d. (3, d)), sys_close = (\<lambda>_ d. (0, d)),
      sys_write = (\<lambda>_ bs (l, p). (int (length bs),
        if bs = [] then (l, p) else (max l (p + int (length bs)), p + int (length bs)))),
      sys_lseek = (\<lambda>_ off whence (l, p).
        (let q = (if whence = SEEK_SET then off else if whence = SEEK_CUR then p + off else l + off) in
         if 0 \<le> q \<or> (whence = SEEK_CUR \<and> off = 0) then (q, (l, q)) else (- 1, (l, p)))),
      sys_ftruncate = (\<lambda>_ len (l, p). if 0 \<le> len then (0, (len, p)) else (- 1, (l, p)))\<rparr>"

lemma one_file_law: "file_law one_file_api (\<lambda>d. d) fd"
  unfolding file_law_def by (auto simp: one_file_api_def SEEK_SET_def SEEK_CUR_def Let_def split: if_splits)

definition one_file :: "(int \<times> int) files" where
  "one_file = \<lparr>save_fd = (replicate 256 0)[3 := 2], disk = (0, 0)\<rparr>"


text \<open>
  \<open>writev\<close> goes to the plain \<open>write\<close>, and is not capped: the same six bytes grow the file past the cap.
\<close>

lemma writev_not_capped:
  "snd (writev_stub one_file_api 3 [[1, 2, 3, 4, 5, 6]] (0, 67108860)) = (67108866, 67108866)"
  by (simp add: one_file_api_def)

end
