(* ===== verification/Input.thy ===== *)
theory Input
  imports Prelude
begin

text \<open>
  The input half of the frame loop of \<open>main.c\<close>: buttons, sticks and touches of the Vita become Android
  events of the game, once per frame.  An event is a value here; calling the game's entry point with it is
  the code's only use of it.  Further the two counters of the loop that decide something: the movie that is
  reported as finished, and the watch over a game that stops presenting.
\<close>

section \<open>Buttons\<close>

text \<open>Button bits of the controller (psp2/ctrl.h) and the Android key codes they become.\<close>

definition SCE_CTRL_SELECT :: u32 where "SCE_CTRL_SELECT = 0x1"

definition padmap :: "(u32 \<times> nat) list" where
  "padmap =
     [(0x10, 19), (0x40, 20), (0x80, 21), (0x20, 22),
      (0x4000, 96), (0x2000, 97), (0x8000, 99), (0x1000, 100),
      (0x100, 102), (0x200, 103), (0x8, 108), (SCE_CTRL_SELECT, 109)]"

datatype pad_event = Key_Down nat | Key_Up nat | Back_Soft_Key

definition row_events :: "bool \<Rightarrow> u32 \<Rightarrow> u32 \<Rightarrow> u32 \<times> nat \<Rightarrow> pad_event list" where
  "row_events back prev buttons row =
     (case row of (vita, key) \<Rightarrow>
        if (buttons XOR prev) AND vita \<noteq> 0
        then (let down = (buttons AND vita \<noteq> 0) in
          (if down then Key_Down key else Key_Up key) #
          (if down \<and> vita = SCE_CTRL_SELECT \<and> back then [Back_Soft_Key] else []))
        else [])"

text \<open>One frame: the events, and \<open>prev_buttons\<close> afterwards.\<close>

definition pad_frame :: "bool \<Rightarrow> u32 \<Rightarrow> u32 \<Rightarrow> pad_event list \<times> u32" where
  "pad_frame back prev buttons = (concat (map (row_events back prev buttons) padmap), buttons)"

fun pad_frames :: "bool \<Rightarrow> u32 \<Rightarrow> u32 list \<Rightarrow> pad_event list \<times> u32" where
  "pad_frames back prev [] = ([], prev)"
| "pad_frames back prev (b # bs) =
     (let (e, prev) = pad_frame back prev b; (es, prev) = pad_frames back prev bs in (e @ es, prev))"

section \<open>Sticks\<close>

text \<open>
  A stick position \<open>v\<close> (0 to 255) is the axis value \<open>(v - 128) / 128\<close>, exact in single precision; the model
  keeps its numerator.  The dead zone from -0.08 to 0.08 holds the numerators from -10 to 10.
\<close>

definition axis_value :: "nat \<Rightarrow> int" where
  "axis_value v = (let k = int v - 128 in if - 10 \<le> k \<and> k \<le> 10 then 0 else k)"

definition axis_ids :: "nat list" where "axis_ids = [0, 1, 11, 14]"

definition axis_frame :: "int list \<Rightarrow> nat list \<Rightarrow> (nat \<times> int) list \<times> int list" where
  "axis_frame prev_axis v =
     (let ax = map axis_value v in
      (map (\<lambda>i. (axis_ids ! i, ax ! i)) (filter (\<lambda>i. ax ! i \<noteq> prev_axis ! i) [0..<4]), ax))"

section \<open>Touches\<close>

text \<open>
  A report of the panel: the finger's id and the bit patterns of its scaled coordinates.  Two fingers are
  followed, each in a slot whose index is the Android pointer id.
\<close>

record touch_report =
  tid :: nat
  tx :: u32
  ty :: u32

record touch_slot =
  slot_on :: bool
  slot_vid :: nat
  slot_x :: u32
  slot_y :: u32

datatype touch_action = Down | Move | Up

datatype touch_event = Touch touch_action nat u32 u32 | Mouse touch_action u32 u32

definition no_touch :: "touch_slot list" where
  "no_touch = replicate 2 \<lparr>slot_on = False, slot_vid = 0, slot_x = 0, slot_y = 0\<rparr>"

definition find_slot :: "touch_slot list \<Rightarrow> bool list \<Rightarrow> nat \<Rightarrow> nat option" where
  "find_slot slots seen i =
     (let mine = (\<lambda>s. slot_on (slots ! s) \<and> slot_vid (slots ! s) = i);
          free = (\<lambda>s. \<not> slot_on (slots ! s) \<and> \<not> seen ! s) in
      if mine 1 then Some 1 else if mine 0 then Some 0
      else if free 0 then Some 0 else if free 1 then Some 1 else None)"

definition report_step ::
  "bool \<Rightarrow> touch_slot list \<times> bool list \<Rightarrow> touch_report \<Rightarrow> touch_event list \<times> touch_slot list \<times> bool list" where
  "report_step mouse st r =
     (case st of (slots, seen) \<Rightarrow>
        (case find_slot slots seen (tid r) of
           None \<Rightarrow> ([], slots, seen)
         | Some s \<Rightarrow>
             let a = (if slot_on (slots ! s) then Move else Down) in
             (Touch a s (tx r) (ty r) # (if s = 0 \<and> mouse then [Mouse a (tx r) (ty r)] else []),
              slots[s := \<lparr>slot_on = True, slot_vid = tid r, slot_x = tx r, slot_y = ty r\<rparr>],
              seen[s := True])))"

fun report_steps ::
  "bool \<Rightarrow> touch_slot list \<times> bool list \<Rightarrow> touch_report list \<Rightarrow> touch_event list \<times> touch_slot list \<times> bool list" where
  "report_steps mouse st [] = ([], st)"
| "report_steps mouse st (r # rs) =
     (let (e, st) = report_step mouse st r; (es, st) = report_steps mouse st rs in (e @ es, st))"

definition lift_slot :: "bool \<Rightarrow> bool list \<Rightarrow> touch_slot list \<Rightarrow> nat \<Rightarrow> touch_event list \<times> touch_slot list" where
  "lift_slot mouse seen slots s =
     (let t = slots ! s in
      if slot_on t \<and> \<not> seen ! s
      then (Touch Up s (slot_x t) (slot_y t) # (if s = 0 \<and> mouse then [Mouse Up (slot_x t) (slot_y t)] else []),
            slots[s := t\<lparr>slot_on := False\<rparr>])
      else ([], slots))"

text \<open>One frame: the first four reports, then the fingers that were not reported.\<close>

definition touch_frame :: "bool \<Rightarrow> touch_slot list \<Rightarrow> touch_report list \<Rightarrow> touch_event list \<times> touch_slot list" where
  "touch_frame mouse slots reports =
     (let (e, slots, seen) = report_steps mouse (slots, [False, False]) (take 4 reports);
          (u0, slots) = lift_slot mouse seen slots 0;
          (u1, slots) = lift_slot mouse seen slots 1 in
      (e @ u0 @ u1, slots))"

fun touch_frames ::
  "bool \<Rightarrow> touch_slot list \<Rightarrow> touch_report list list \<Rightarrow> touch_event list \<times> touch_slot list" where
  "touch_frames mouse slots [] = ([], slots)"
| "touch_frames mouse slots (f # fs) =
     (let (e, slots) = touch_frame mouse slots f; (es, slots) = touch_frames mouse slots fs in (e @ es, slots))"

section \<open>The finished movie and the stall watch\<close>

text \<open>The movies are not played: 30 frames after one was started the game is told that it ended.\<close>

definition video_step :: "int \<Rightarrow> bool \<times> int \<Rightarrow> bool \<times> bool \<times> int" where
  "video_step frame st =
     (case st of (pending, done_at) \<Rightarrow>
        let done_at = (if pending \<and> done_at = 0 then frame + 30 else done_at) in
        if done_at \<noteq> 0 \<and> frame \<ge> done_at then (True, False, 0) else (False, pending, done_at))"

record stall_watch =
  last_cnt :: nat
  last_frame :: nat
  armed :: bool

definition stall_step :: "nat \<Rightarrow> nat \<Rightarrow> stall_watch \<Rightarrow> bool \<times> stall_watch" where
  "stall_step frame swaps s =
     (if swaps \<noteq> last_cnt s
      then (False, s\<lparr>last_cnt := swaps, last_frame := frame, armed := (armed s \<or> 1000 < swaps)\<rparr>)
      else (armed s \<and> 2400 < frame - last_frame s, s))"

section \<open>Every key goes down and up in turn\<close>

text \<open>The state of one key after a sequence of events: \<open>None\<close> when an event does not fit.\<close>

fun key_run :: "nat \<Rightarrow> bool \<Rightarrow> pad_event list \<Rightarrow> bool option" where
  "key_run k held [] = Some held"
| "key_run k held (Key_Down j # es) = (if j = k then (if held then None else key_run k True es) else key_run k held es)"
| "key_run k held (Key_Up j # es) = (if j = k then (if held then key_run k False es else None) else key_run k held es)"
| "key_run k held (Back_Soft_Key # es) = key_run k held es"

lemma key_run_append:
  "key_run k held (es @ fs) = (case key_run k held es of None \<Rightarrow> None | Some h \<Rightarrow> key_run k h fs)"
  by (induction k held es rule: key_run.induct) auto

lemma key_run_other:
  "snd row \<noteq> k \<Longrightarrow> key_run k held (row_events back prev buttons row) = Some held"
  by (cases row) (simp add: row_events_def Let_def)

lemma xor_and: "((b :: u32) XOR p) AND v = (b AND v) XOR (p AND v)"
  by (rule bit_word_eqI) (auto simp: bit_simps)

lemma single_bit: "(b :: u32) AND push_bit n 1 = (if bit b n then push_bit n 1 else 0)"
  by (rule bit_word_eqI) (auto simp: bit_simps)

lemma key_run_own:
  assumes "\<exists>n<32. v = push_bit n 1"
  shows "key_run k (prev AND v \<noteq> 0) (row_events back prev buttons (v, k)) = Some (buttons AND v \<noteq> 0)"
proof -
  obtain n where v: "v = push_bit n 1" and n: "n < 32" using assms by blast
  then have ne: "v \<noteq> 0" by (simp add: push_bit_eq_0_iff)
  have "prev AND v = (if bit prev n then v else 0)" "buttons AND v = (if bit buttons n then v else 0)"
    using v single_bit by simp_all
  then show ?thesis
    using ne by (cases "bit prev n"; cases "bit buttons n") (simp_all add: row_events_def Let_def xor_and)
qed

lemma key_run_rows:
  assumes "distinct (map snd rows)" "(v, k) \<in> set rows" "\<exists>n<32. v = push_bit n 1"
  shows "key_run k (prev AND v \<noteq> 0) (concat (map (row_events back prev buttons) rows)) = Some (buttons AND v \<noteq> 0)"
  using assms(1,2)
proof (induction rows)
  case Nil
  then show ?case by simp
next
  case (Cons row rows)
  have other: "key_run k h (concat (map (row_events back prev buttons) rs)) = Some h"
    if "k \<notin> snd ` set rs" for rs h
    using that by (induction rs) (auto simp: key_run_append key_run_other)
  show ?case
  proof (cases "row = (v, k)")
    case True
    then have "k \<notin> snd ` set rows" using Cons.prems(1) by auto
    then show ?thesis using True key_run_own [OF assms(3)] other by (simp add: key_run_append)
  next
    case False
    then have "(v, k) \<in> set rows" using Cons.prems(2) by auto
    moreover have "k \<in> snd ` set rows" using calculation by (rule rev_image_eqI) simp
    then have "snd row \<noteq> k" using Cons.prems(1) by auto
    ultimately show ?thesis using Cons by (simp add: key_run_append key_run_other)
  qed
qed

lemma padmap_facts: "distinct (map snd padmap)" "\<forall>(v, k)\<in>set padmap. \<exists>n<32. v = push_bit n 1"
proof -
  show "distinct (map snd padmap)" by (simp add: padmap_def)
  have "\<forall>(v, k)\<in>set padmap. v \<in> {push_bit 4 1, push_bit 6 1, push_bit 7 1, push_bit 5 1, push_bit 14 1, push_bit 13 1,
      push_bit 15 1, push_bit 12 1, push_bit 8 1, push_bit 9 1, push_bit 3 1, push_bit 0 1}"
    by (simp add: padmap_def SCE_CTRL_SELECT_def push_bit_eq_mult)
  moreover have "\<exists>n<32. v = push_bit n (1 :: u32)" if "v \<in> {push_bit 4 1, push_bit 6 1, push_bit 7 1, push_bit 5 1,
      push_bit 14 1, push_bit 13 1, push_bit 15 1, push_bit 12 1, push_bit 8 1, push_bit 9 1, push_bit 3 1, push_bit 0 1}" for v
    using that by (elim insertE emptyE) (rule exI, rule conjI [rotated], assumption, simp)+
  ultimately show "\<forall>(v, k)\<in>set padmap. \<exists>n<32. v = push_bit n 1" by fast
qed

text \<open>
  C19: for every sequence of controller samples and every button of the map, the game sees the key go down
  and up in turn, starting from the state of the first sample, and the key is down after the last frame
  exactly when its button is: no press is lost, repeated or left hanging.
\<close>

theorem pad_keys_alternate:
  assumes "(v, k) \<in> set padmap"
  shows "key_run k (prev AND v \<noteq> 0) (fst (pad_frames back prev samples)) =
    Some (snd (pad_frames back prev samples) AND v \<noteq> 0)"
proof (induction samples arbitrary: prev)
  case Nil
  then show ?case by simp
next
  case (Cons b bs)
  have "\<exists>n<32. v = push_bit n 1" using padmap_facts(2) assms by fast
  then have "key_run k (prev AND v \<noteq> 0) (fst (pad_frame back prev b)) = Some (b AND v \<noteq> 0)"
    using key_run_rows [OF padmap_facts(1) assms] by (simp add: pad_frame_def)
  moreover have "snd (pad_frame back prev b) = b" by (simp add: pad_frame_def)
  ultimately show ?case using Cons.IH [of b]
    by (cases "pad_frames back b bs"; cases "pad_frame back prev b") (simp add: key_run_append)
qed

lemma pad_keys_alternate_witness:
  "fst (pad_frames True 0 [0x4001, 0x4000, 0]) = [Key_Down 96, Key_Down 109, Back_Soft_Key, Key_Up 109, Key_Up 96] \<and>
   key_run 96 False (fst (pad_frames True 0 [0x4001, 0x4000, 0])) = Some False"
proof -
  have "(0x4000, 96) \<in> set padmap" by (simp add: padmap_def)
  from pad_keys_alternate [OF this, of 0 True "[0x4001, 0x4000, 0]"]
  have "key_run 96 False (fst (pad_frames True 0 [0x4001, 0x4000, 0])) = Some False"
    by (simp add: pad_frame_def)
  moreover have "fst (pad_frames True 0 [0x4001, 0x4000, 0]) = [Key_Down 96, Key_Down 109, Back_Soft_Key, Key_Up 109, Key_Up 96]"
    by (simp add: pad_frame_def padmap_def row_events_def SCE_CTRL_SELECT_def)
  ultimately show ?thesis by blast
qed

section \<open>Every finger goes down, moves and goes up\<close>

fun touch_run :: "nat \<Rightarrow> bool \<Rightarrow> touch_event list \<Rightarrow> bool option" where
  "touch_run s down [] = Some down"
| "touch_run s down (Touch a p x y # es) =
     (if p \<noteq> s then touch_run s down es
      else case a of
        Down \<Rightarrow> if down then None else touch_run s True es
      | Move \<Rightarrow> if down then touch_run s True es else None
      | Up \<Rightarrow> if down then touch_run s False es else None)"
| "touch_run s down (Mouse a x y # es) = touch_run s down es"

text \<open>The mouse events that the touches of pointer 0 ask for, and those that were sent.\<close>

fun mirrored :: "touch_event list \<Rightarrow> touch_event list" where
  "mirrored [] = []"
| "mirrored (Touch a p x y # es) = (if p = 0 then [Mouse a x y] else []) @ mirrored es"
| "mirrored (Mouse a x y # es) = mirrored es"

definition mouse_events :: "touch_event list \<Rightarrow> touch_event list" where
  "mouse_events es = filter (\<lambda>e. case e of Mouse _ _ _ \<Rightarrow> True | _ \<Rightarrow> False) es"

lemma touch_run_append:
  "touch_run s d (es @ fs) = (case touch_run s d es of None \<Rightarrow> None | Some d \<Rightarrow> touch_run s d fs)"
  by (induction s d es rule: touch_run.induct) (auto split: touch_action.splits)

lemma mirrored_append: "mirrored (es @ fs) = mirrored es @ mirrored fs"
  by (induction es rule: mirrored.induct) auto

definition touch_ok :: "bool \<Rightarrow> touch_slot list \<Rightarrow> touch_event list \<Rightarrow> touch_slot list \<Rightarrow> bool" where
  "touch_ok mouse slots es slots' \<longleftrightarrow>
     length slots' = 2 \<and>
     (\<forall>s<2. touch_run s (slot_on (slots ! s)) es = Some (slot_on (slots' ! s))) \<and>
     (mouse \<longrightarrow> mouse_events es = mirrored es)"

lemma touch_ok_Nil: "length slots = 2 \<Longrightarrow> touch_ok mouse slots [] slots"
  by (simp add: touch_ok_def mouse_events_def)

lemma touch_ok_append:
  assumes "touch_ok mouse slots es slots'" "touch_ok mouse slots' fs slots''"
  shows "touch_ok mouse slots (es @ fs) slots''"
  using assms by (simp add: touch_ok_def touch_run_append mirrored_append mouse_events_def)

lemma find_slot_less: "find_slot slots seen i = Some s \<Longrightarrow> s < 2"
  by (auto simp: find_slot_def Let_def split: if_splits)

lemma touch_ok_one:
  assumes "length slots = 2" "s < 2" "slot_on t = (a \<noteq> Up)" "slot_on (slots ! s) = (a \<noteq> Down)"
  shows "touch_ok mouse slots (Touch a s x y # (if s = 0 \<and> mouse then [Mouse a x y] else [])) (slots[s := t])"
  using assms by (cases a) (auto simp: touch_ok_def mouse_events_def nth_list_update)

lemma report_step_ok:
  assumes "report_step mouse (slots, seen) r = (es, slots', seen')" "length slots = 2"
  shows "touch_ok mouse slots es slots'"
proof (cases "find_slot slots seen (tid r)")
  case None
  then show ?thesis using assms touch_ok_Nil by (simp add: report_step_def)
next
  case (Some s)
  let ?t = "\<lparr>slot_on = True, slot_vid = tid r, slot_x = tx r, slot_y = ty r\<rparr>"
  let ?a = "if slot_on (slots ! s) then Move else Down"
  have "touch_ok mouse slots (Touch ?a s (tx r) (ty r) # (if s = 0 \<and> mouse then [Mouse ?a (tx r) (ty r)] else []))
      (slots[s := ?t])"
    by (rule touch_ok_one [OF assms(2) find_slot_less [OF Some]]) simp_all
  then show ?thesis using assms(1) Some by (auto simp: report_step_def Let_def)
qed

lemma report_steps_ok:
  "report_steps mouse (slots, seen) rs = (es, slots', seen') \<Longrightarrow> length slots = 2 \<Longrightarrow> touch_ok mouse slots es slots'"
proof (induction rs arbitrary: slots seen es slots' seen')
  case Nil
  then show ?case using touch_ok_Nil by simp
next
  case (Cons r rs)
  obtain e sl se where 1: "report_step mouse (slots, seen) r = (e, sl, se)" by (metis surj_pair)
  obtain f sl' se' where 2: "report_steps mouse (sl, se) rs = (f, sl', se')" by (metis surj_pair)
  have a: "touch_ok mouse slots e sl" by (rule report_step_ok [OF 1 Cons.prems(2)])
  then have "length sl = 2" by (simp add: touch_ok_def)
  then have "touch_ok mouse sl f sl'" by (rule Cons.IH [OF 2])
  then show ?case using touch_ok_append [OF a] Cons.prems(1) 1 2 by auto
qed

lemma lift_slot_ok:
  assumes "lift_slot mouse seen slots s = (es, slots')" "length slots = 2" "s < 2"
  shows "touch_ok mouse slots es slots'"
proof (cases "slot_on (slots ! s) \<and> \<not> seen ! s")
  case True
  let ?t = "slots ! s"
  have "touch_ok mouse slots (Touch Up s (slot_x ?t) (slot_y ?t) #
      (if s = 0 \<and> mouse then [Mouse Up (slot_x ?t) (slot_y ?t)] else [])) (slots[s := ?t\<lparr>slot_on := False\<rparr>])"
    by (rule touch_ok_one [OF assms(2,3)]) (simp_all add: True)
  then show ?thesis using assms(1) True by (simp add: lift_slot_def Let_def)
next
  case False
  then show ?thesis using assms touch_ok_Nil by (auto simp: lift_slot_def Let_def)
qed

lemma touch_frame_ok:
  assumes "touch_frame mouse slots f = (es, slots')" "length slots = 2"
  shows "touch_ok mouse slots es slots'"
proof -
  obtain e sl se where 1: "report_steps mouse (slots, [False, False]) (take 4 f) = (e, sl, se)" by (metis surj_pair)
  obtain u0 sl0 where 2: "lift_slot mouse se sl 0 = (u0, sl0)" by (metis surj_pair)
  obtain u1 sl1 where 3: "lift_slot mouse se sl0 1 = (u1, sl1)" by (metis surj_pair)
  have a: "touch_ok mouse slots e sl" by (rule report_steps_ok [OF 1 assms(2)])
  have b: "touch_ok mouse sl u0 sl0" by (rule lift_slot_ok [OF 2]) (use a in \<open>simp_all add: touch_ok_def\<close>)
  have c: "touch_ok mouse sl0 u1 sl1" by (rule lift_slot_ok [OF 3]) (use b in \<open>simp_all add: touch_ok_def\<close>)
  show ?thesis using touch_ok_append [OF a touch_ok_append [OF b c]] assms(1) 1 2 3
    by (simp add: touch_frame_def)
qed

lemma touch_frames_ok:
  "touch_frames mouse slots fs = (es, slots') \<Longrightarrow> length slots = 2 \<Longrightarrow> touch_ok mouse slots es slots'"
proof (induction fs arbitrary: slots es slots')
  case Nil
  then show ?case using touch_ok_Nil by simp
next
  case (Cons f fs)
  obtain e sl where 1: "touch_frame mouse slots f = (e, sl)" by (metis surj_pair)
  obtain g sl' where 2: "touch_frames mouse sl fs = (g, sl')" by (metis surj_pair)
  have a: "touch_ok mouse slots e sl" by (rule touch_frame_ok [OF 1 Cons.prems(2)])
  then have "length sl = 2" by (simp add: touch_ok_def)
  then have "touch_ok mouse sl g sl'" by (rule Cons.IH [OF 2])
  then show ?case using touch_ok_append [OF a] Cons.prems(1) 1 2 by auto
qed



end
