(* ===== verification/Stubs.thy ===== *)
theory Stubs
  imports Machine
begin

text \<open>
  The functions of \<open>stubs.c\<close> that stand for parts of Android the Vita does not have: processes, sockets,
  locales, the environment.  Most return a constant; the tables give it.  The others are the role of a
  thread's name (\<open>prctl\<close>), the guards of static initialisers, anonymous mappings and a few queries.
\<close>

section \<open>Constant results\<close>

definition EOF_result :: int where "EOF_result = - 1"

definition process_stubs :: "(string \<times> int) list" where
  "process_stubs = [(''fork'', - 1), (''execv'', - 1), (''system'', - 1), (''waitpid'', - 1)]"

definition network_stubs :: "(string \<times> int) list" where
  "network_stubs =
     [(''socket'', - 1), (''connect'', - 1), (''bind'', - 1), (''listen'', - 1), (''accept'', - 1),
      (''send'', - 1), (''sendto'', - 1), (''recv'', - 1), (''recvfrom'', - 1), (''shutdown'', - 1),
      (''setsockopt'', - 1), (''getsockopt'', - 1), (''getsockname'', - 1), (''getpeername'', - 1),
      (''poll'', 0), (''ioctl'', - 1), (''getaddrinfo'', - 2), (''gethostbyname'', 0),
      (''inet_addr'', 0xffffffff)]"

definition unwind_stubs :: "(string \<times> int) list" where
  "unwind_stubs = [(''_Unwind_Backtrace'', 0), (''_Unwind_VRS_Get'', 0)]"

definition library_stubs :: "(string \<times> int) list" where
  "library_stubs =
     [(''tmpnam'', 0), (''statfs'', - 1), (''readlink'', - 1), (''chmod'', 0), (''utime'', 0), (''fsync'', 0),
      (''fwide'', 0)]"

definition environment_stubs :: "(string \<times> int) list" where
  "environment_stubs = [(''getenv'', 0), (''setenv'', 0), (''unsetenv'', 0)]"

definition directory_stubs :: "(string \<times> int) list" where
  "directory_stubs = [(''chdir'', 0), (''ftruncate'', 0)]"

definition nimble_stubs :: "(string \<times> int) list" where
  "nimble_stubs = [(''_ZN2EA6Nimble8Tracking8Tracking9isEnabledEv'', 0)]"

text \<open>
  Of \<open>pthread_bridge.c\<close>: what has no counterpart on the Vita reports success, and a running thread's attributes
  are refused.  The scheduling query stores zeros where it is given room.
\<close>

definition pthread_stubs :: "(string \<times> int) list" where
  "pthread_stubs =
     [(''pthread_mutexattr_setpshared_bridge'', 0), (''pthread_mutexattr_destroy_bridge'', 0),
      (''pthread_attr_setschedpolicy_bridge'', 0), (''pthread_attr_setschedparam_bridge'', 0),
      (''pthread_getattr_np_bridge'', - 1), (''pthread_setschedparam_bridge'', 0)]"

definition pthread_getschedparam_bridge :: "u32 \<Rightarrow> u32 \<Rightarrow> memory \<Rightarrow> int \<times> memory" where
  "pthread_getschedparam_bridge policy param m =
     (let m = (if policy \<noteq> 0 then write_bytes m policy (le32 0) else m);
          m = (if param \<noteq> 0 then write_bytes m param (replicate 4 0) else m) in (0, m))"

text \<open>The microseconds a yield asks the kernel to sleep.\<close>

definition sched_yield_us :: u32 where "sched_yield_us = 100"

definition locale_name :: string where "locale_name = ''C''"
definition time_zone :: "int \<times> string list" where "time_zone = (0, [''UTC'', ''UTC''])"
definition page_size :: u32 where "page_size = 0x1000"

text \<open>\<open>__gnu_Unwind_Find_exidx\<close> finds no table: no exception can be unwound through the game's code.\<close>

definition find_exidx :: "u32 \<Rightarrow> memory \<Rightarrow> u32 \<times> memory" where
  "find_exidx count m = (0, write_bytes m count (le32 0))"

definition syscall_stub :: int where "syscall_stub = - 1"

definition srget_stub :: int where "srget_stub = EOF_result"

definition sysconf :: "int \<Rightarrow> int" where
  "sysconf n = (if n = 84 then 4 else if n = 30 then 0x1000 else - 1)"

text \<open>The page size that \<open>sysconf\<close> reports is the one of the variable, and that of the mappings.\<close>

lemma page_size_agrees: "sysconf 30 = int (unat page_size)"
  by (simp add: sysconf_def page_size_def)

text \<open>Everything that would reach the network fails or finds nothing.\<close>

lemma network_closed: "\<forall>(name, r)\<in>set network_stubs. r < 0 \<or> r = 0xffffffff \<or> name \<in> {''poll'', ''gethostbyname''}"
  by (simp add: network_stubs_def)

section \<open>Thread names\<close>

fun occurs :: "string \<Rightarrow> string \<Rightarrow> bool" where
  "occurs w [] \<longleftrightarrow> w = []"
| "occurs w (c # s) \<longleftrightarrow> take (length w) (c # s) = w \<or> occurs w s"

text \<open>
  \<open>prctl(PR_SET_NAME)\<close>: the priority the kernel is asked for, by the thread's role (a larger number is a
  lower priority), or \<open>None\<close> when it is left alone.
\<close>

definition prctl_priority :: "int \<Rightarrow> int \<Rightarrow> string option \<Rightarrow> int option" where
  "prctl_priority opt main_thread_prio nm =
     (if opt \<noteq> 15 then None
      else case nm of
        None \<Rightarrow> None
      | Some s \<Rightarrow>
          if main_thread_prio = 0 then None
          else if occurs ''Job Thr'' s then Some (main_thread_prio + 4)
          else if occurs ''AssetStream'' s \<or> occurs ''rwfilesys'' s then Some (main_thread_prio + 1)
          else Some (main_thread_prio + 2))"

lemma prctl_below_main: "prctl_priority opt p nm = Some q \<Longrightarrow> p < q \<and> q \<le> p + 4"
  by (auto simp: prctl_priority_def split: if_splits option.splits)

section \<open>Static initialisers\<close>

text \<open>The guard is the first byte of the guard object: 1 once the initialiser has run.\<close>

definition cxa_guard_acquire :: "memory \<Rightarrow> u32 \<Rightarrow> bool" where
  "cxa_guard_acquire m g \<longleftrightarrow> m g = 0"

definition cxa_guard_release :: "memory \<Rightarrow> u32 \<Rightarrow> memory" where
  "cxa_guard_release m g = m(g := 1)"

lemma guard_once: "\<not> cxa_guard_acquire (cxa_guard_release m g) g"
  by (simp add: cxa_guard_acquire_def cxa_guard_release_def)

text \<open>
  Threads that reach the same static object: the compiler's code asks the guard, runs the initialiser if it may,
  and releases the guard.  With \<open>serial\<close> a thread asks only while none is between the two, as the callers of an
  ABI that locks the guard would.
\<close>

datatype static_pc = Reached | Initialising | Passed

record static_state =
  guard_mem :: memory
  static_at :: "nat \<Rightarrow> static_pc"
  inits :: "nat list"

inductive static_step :: "u32 \<Rightarrow> bool \<Rightarrow> static_state \<Rightarrow> static_state \<Rightarrow> bool" for g serial where
  may_init: "static_at s t = Reached \<Longrightarrow> cxa_guard_acquire (guard_mem s) g \<Longrightarrow>
    serial \<Longrightarrow> Initialising \<notin> range (static_at s) \<Longrightarrow>
    static_step g serial s (s\<lparr>static_at := (static_at s)(t := Initialising), inits := inits s @ [t]\<rparr>)"
| may_init_any: "static_at s t = Reached \<Longrightarrow> cxa_guard_acquire (guard_mem s) g \<Longrightarrow> \<not> serial \<Longrightarrow>
    static_step g serial s (s\<lparr>static_at := (static_at s)(t := Initialising), inits := inits s @ [t]\<rparr>)"
| passes: "static_at s t = Reached \<Longrightarrow> \<not> cxa_guard_acquire (guard_mem s) g \<Longrightarrow>
    static_step g serial s (s\<lparr>static_at := (static_at s)(t := Passed)\<rparr>)"
| initialised: "static_at s t = Initialising \<Longrightarrow>
    static_step g serial s (s\<lparr>guard_mem := cxa_guard_release (guard_mem s) g, static_at := (static_at s)(t := Passed)\<rparr>)"

inductive static_reachable :: "u32 \<Rightarrow> bool \<Rightarrow> static_state \<Rightarrow> bool" for g serial where
  start: "m g = 0 \<Longrightarrow> static_reachable g serial \<lparr>guard_mem = m, static_at = (\<lambda>_. Reached), inits = []\<rparr>"
| step: "static_reachable g serial s \<Longrightarrow> static_step g serial s s' \<Longrightarrow> static_reachable g serial s'"

lemma guard_closed:
  "static_reachable g serial s \<Longrightarrow> (\<exists>t. static_at s t = Passed) \<longrightarrow> \<not> cxa_guard_acquire (guard_mem s) g"
  by (induction rule: static_reachable.induct)
    (auto elim!: static_step.cases simp: guard_once split: if_splits)

text \<open>Whoever is past the object finds it initialised; serialised callers initialise it once.\<close>

lemma static_init_serial:
  assumes "static_reachable g True s"
  shows "length (inits s) \<le> 1 \<and> (inits s = [] \<longleftrightarrow> (\<forall>t. static_at s t = Reached)) \<and>
    (inits s = [] \<longrightarrow> cxa_guard_acquire (guard_mem s) g) \<and>
    (inits s \<noteq> [] \<longrightarrow> Initialising \<in> range (static_at s) \<or> \<not> cxa_guard_acquire (guard_mem s) g)"
  using assms
proof (induction rule: static_reachable.induct)
  case (start m)
  then show ?case by (simp add: cxa_guard_acquire_def)
next
  case (step s s')
  from step.hyps(2) show ?case
  proof (cases rule: static_step.cases)
    case (may_init t)
    then have "inits s = []" using step.IH by auto
    then show ?thesis using may_init by (auto simp: image_iff)
  next
    case (passes t)
    then show ?thesis using step.IH by (auto simp: image_iff)
  next
    case (initialised t)
    then show ?thesis using step.IH by (auto simp: guard_once)
  qed simp
qed

text \<open>Two threads that are not serialised can both run the initialiser.\<close>

lemma static_init_twice:
  "\<exists>s. static_reachable g False s \<and> inits s = [1, 2] \<and> static_at s 1 = Passed \<and> static_at s 2 = Passed"
proof -
  let ?m = "(\<lambda>_. 0) :: memory" and ?at = "(\<lambda>_. Reached)(1 := Initialising) :: nat \<Rightarrow> static_pc"
  let ?s0 = "\<lparr>guard_mem = ?m, static_at = (\<lambda>_. Reached), inits = []\<rparr>"
    and ?s1 = "\<lparr>guard_mem = ?m, static_at = ?at, inits = [1]\<rparr>"
    and ?s2 = "\<lparr>guard_mem = ?m, static_at = ?at(2 := Initialising), inits = [1, 2]\<rparr>"
    and ?s3 = "\<lparr>guard_mem = ?m(g := 1), static_at = ?at(2 := Initialising, 1 := Passed), inits = [1, 2]\<rparr>"
    and ?s4 = "\<lparr>guard_mem = ?m(g := 1, g := 1), static_at = ?at(2 := Initialising, 1 := Passed, 2 := Passed), inits = [1, 2]\<rparr>"
  have "static_reachable g False ?s0" by (rule static_reachable.start) simp
  moreover have "static_step g False ?s0 ?s1"
    using may_init_any [of ?s0 1 g False] by (simp add: cxa_guard_acquire_def)
  moreover have "static_step g False ?s1 ?s2"
    using may_init_any [of ?s1 2 g False] by (simp add: cxa_guard_acquire_def)
  moreover have "static_step g False ?s2 ?s3"
    using initialised [of ?s2 1 g False] by (simp add: cxa_guard_release_def)
  moreover have "static_step g False ?s3 ?s4"
    using initialised [of ?s3 2 g False] by (simp add: cxa_guard_release_def)
  ultimately have "static_reachable g False ?s4" by (meson static_reachable.step)
  then show ?thesis by (intro exI [of _ ?s4]) simp
qed

section \<open>Mappings and queries\<close>

text \<open>An anonymous mapping is a zeroed block of the heap; the map's other arguments are ignored.\<close>

definition mmap :: "(u32 \<Rightarrow> u32 \<Rightarrow> u32) \<Rightarrow> u32 \<Rightarrow> memory \<Rightarrow> u32 \<times> memory" where
  "mmap memalign l m =
     (let p = memalign 0x1000 l in
      if p = 0 then (0xffffffff, m) else (p, write_bytes m p (replicate (unat l) 0)))"

text \<open>\<open>munmap\<close> gives the address to \<open>free\<close> whatever the length, so unmapping the end of a mapping is a stray \<open>free\<close>.\<close>

definition munmap :: "(u32 \<Rightarrow> 'h \<Rightarrow> 'h) \<Rightarrow> u32 \<Rightarrow> u32 \<Rightarrow> 'h \<Rightarrow> int \<times> 'h" where
  "munmap free a l h = (0, free a h)"

lemma mapping_zeroed:
  assumes "mmap memalign l m = (p, m2)" "memalign 0x1000 l \<noteq> 0" "i < unat l"
  shows "m2 (p + of_nat i) = 0"
proof -
  have n: "unat l < 2 ^ 32" by (rule order_less_le_trans [OF unsigned_less]) simp
  then have l: "length (replicate (unat l) (0 :: u8)) \<le> 2 ^ 32" by simp
  have "i < 2 ^ 32" using assms(3) n by (rule order.strict_trans)
  then have "unat (p + of_nat i - p) = i" by (simp add: unat_of_nat)
  then show ?thesis using assms write_bytes_apply [OF l, of m p "p + of_nat i"]
    by (auto simp: mmap_def Let_def)
qed

text \<open>\<open>strncpy(b, s, l)\<close> pads with zeros, and ends the string with one only when it is shorter than \<open>l\<close>.\<close>

definition strncpy_bytes :: "u8 list \<Rightarrow> nat \<Rightarrow> u8 list" where
  "strncpy_bytes s l = take l s @ replicate (l - length s) 0"

definition gethostname :: "nat \<Rightarrow> u8 list" where
  "gethostname l = strncpy_bytes [0x76, 0x69, 0x74, 0x61] l"

definition getcwd :: "nat \<Rightarrow> u8 list" where
  "getcwd l = strncpy_bytes (map of_char DATA_PATH) l"

lemma getcwd_unterminated: "0 < l \<Longrightarrow> l \<le> 13 \<Longrightarrow> 0 \<notin> set (getcwd l)"
proof -
  assume "l \<le> 13"
  have "0 \<notin> set (map of_char DATA_PATH :: u8 list)" "length DATA_PATH = 13" by (simp_all add: DATA_PATH_def)
  then show ?thesis using \<open>l \<le> 13\<close> by (auto simp: getcwd_def strncpy_bytes_def dest: in_set_takeD)
qed

end
