(* ===== verification/Engine_Hooks.thy ===== *)
theory Engine_Hooks
  imports Machine
begin

text \<open>
  The functions of \<open>main.c\<close> that the game's engine is redirected to: the wait for the chunks of a streamed
  asset, the CPU copies of textures, and the account of the memory categories.  The engine's own functions
  behind the trampolines are parameters, or results that decide how a hook goes on.
\<close>

section \<open>Streamed assets\<close>

text \<open>The table of translated assets: 64 pairs of an asset and its name.\<close>

definition forget_done :: "u32 \<Rightarrow> (u32 \<times> u32) list \<Rightarrow> (u32 \<times> u32) list" where
  "forget_done asset d = map (\<lambda>(a, n). if a = asset then (0, n) else (a, n)) d"

definition already_done :: "u32 \<Rightarrow> u32 \<Rightarrow> (u32 \<times> u32) list \<Rightarrow> bool" where
  "already_done asset nm d \<longleftrightarrow> (asset, nm) \<in> set d"

text \<open>
  A chunk as the translator's queue holds it: its asset (word 3), its bytes (word 5) and the size of the
  whole file (word 6).
\<close>

record chunk =
  ch_asset :: u32
  ch_have :: u32
  ch_total :: u32

record queue_sum =
  q_have :: u32
  q_total :: u32
  q_chunks :: u32

definition queue_total :: "u32 \<Rightarrow> chunk option list \<Rightarrow> queue_sum" where
  "queue_total asset q =
     fold (\<lambda>c s. case c of
         None \<Rightarrow> s
       | Some c \<Rightarrow>
           if ch_asset c = asset
           then s\<lparr>q_have := q_have s + ch_have c, q_chunks := q_chunks s + 1,
             q_total := (if ch_total c > q_total s then ch_total c else q_total s)\<rparr>
           else s) q \<lparr>q_have = 0, q_total = 0, q_chunks = 0\<rparr>"

text \<open>\<open>queue i\<close> is the translate vector at the \<open>i\<close>-th look (empty when the game has none).\<close>

definition chunks_ready :: "queue_sum \<Rightarrow> bool" where
  "chunks_ready s \<longleftrightarrow> q_chunks s = 0 \<or> q_have s \<ge> q_total s \<or> q_have s \<ge> 1024 * 1024"

function translate_wait :: "u32 \<Rightarrow> (nat \<Rightarrow> chunk option list) \<Rightarrow> nat \<Rightarrow> nat" where
  "translate_wait asset queue waited =
     (if chunks_ready (queue_total asset (queue waited)) \<or> waited \<ge> 4000 then waited
      else translate_wait asset queue (waited + 1))"
  by pat_completeness auto
termination
  by (relation "measure (\<lambda>(asset, queue, waited). 4000 - waited)") auto

declare translate_wait.simps [simp del]

text \<open>
  The translate vector in the game's memory: the word at \<open>gAlloc + 0x30\<close> points at the addresses of its first entry
  and behind its last one, and an entry is the address of a chunk or null.  A vector that reaches to the end
  of the address space is never left by the loop (\<open>None\<close>).
\<close>

partial_function (option) vector_from :: "memory \<Rightarrow> u32 \<Rightarrow> u32 \<Rightarrow> u32 list option" where
  "vector_from m p e =
     (if p < e then do { ws \<leftarrow> vector_from m (p + 4) e; Some (load32 m p # ws) } else Some [])"

definition chunk_at :: "memory \<Rightarrow> u32 \<Rightarrow> chunk option" where
  "chunk_at m c =
     (if c = 0 then None
      else Some \<lparr>ch_asset = load32 m (c + 12), ch_have = load32 m (c + 20), ch_total = load32 m (c + 24)\<rparr>)"

definition translate_queue :: "u32 \<Rightarrow> memory \<Rightarrow> chunk option list option" where
  "translate_queue galloc m =
     (let vec = load32 m (galloc + 0x30) in
      if vec = 0 then Some []
      else map_option (map (chunk_at m)) (vector_from m (load32 m vec) (load32 m (vec + 4))))"

lemma vector_from_words:
  assumes "unat b + 4 * n < 2 ^ 32"
  shows "vector_from m b (b + of_nat (4 * n)) = Some (map (\<lambda>i. load32 m (b + of_nat (4 * i))) [0..<n])"
  using assms
proof (induction n arbitrary: b)
  case 0
  then show ?case by (subst vector_from.simps) simp
next
  case (Suc n)
  have e: "b + of_nat (4 * Suc n) = (b + 4) + of_nat (4 * n)" by simp
  define k where "k = 4 * Suc n"
  have k: "unat b + k < 2 ^ 32" using Suc.prems by (simp add: k_def)
  then have "unat (of_nat k :: u32) = k" by (simp add: unat_of_nat)
  then have "unat (b + of_nat k) = unat b + k" using k by (simp add: unat_word_ariths)
  then have "b < b + of_nat k" by (simp add: word_less_nat_alt k_def)
  then have less: "b < b + of_nat (4 * Suc n)" by (simp only: k_def)
  have "unat (b + 4) = unat b + 4" using Suc.prems by (simp add: unat_word_ariths)
  then have "vector_from m (b + 4) ((b + 4) + of_nat (4 * n)) =
      Some (map (\<lambda>i. load32 m ((b + 4) + of_nat (4 * i))) [0..<n])"
    using Suc.prems by (intro Suc.IH) simp
  then show ?case using less unfolding e
    by (subst vector_from.simps) (simp add: upt_conv_Cons map_Suc_upt [symmetric] o_def ac_simps del: upt_Suc)
qed

text \<open>
  \<open>hook_TranslateStream\<close>: a dead asset (null, or with a zero first word) is reported failed, any other one is
  handed to the engine's \<open>TranslateStream\<close> after the wait.  \<open>mem i\<close> is the memory at the \<open>i\<close>-th look at the
  queue, \<open>orig w\<close> the engine's answer after \<open>w\<close> delays; \<open>None\<close> is a look that does not end.
\<close>

definition translate_looks :: "u32 \<Rightarrow> (nat \<Rightarrow> memory) \<Rightarrow> nat \<Rightarrow> chunk option list" where
  "translate_looks galloc mem i = (case translate_queue galloc (mem i) of Some q \<Rightarrow> q | None \<Rightarrow> [])"

definition hook_TranslateStream ::
  "u32 \<Rightarrow> (nat \<Rightarrow> memory) \<Rightarrow> (nat \<Rightarrow> u32) \<Rightarrow> u32 \<Rightarrow> u32 option" where
  "hook_TranslateStream galloc mem orig asset =
     (if asset = 0 \<or> load32 (mem 0) asset = 0 then Some 3
      else let w = translate_wait asset (translate_looks galloc mem) 0 in
        if list_all (\<lambda>i. translate_queue galloc (mem i) \<noteq> None) [0..<w + 1] then Some (orig w) else None)"

text \<open>Over vectors that end inside the address space the hook always comes back.\<close>

definition vector_ends :: "u32 \<Rightarrow> memory \<Rightarrow> bool" where
  "vector_ends galloc m \<longleftrightarrow>
     (let vec = load32 m (galloc + 0x30); b = load32 m vec; e = load32 m (vec + 4) in
      vec = 0 \<or> b \<le> e \<and> 4 dvd unat (e - b))"

lemma vector_ends_read:
  assumes "vector_ends galloc m"
  shows "translate_queue galloc m \<noteq> None"
proof -
  define vec b e where "vec = load32 m (galloc + 0x30)" and "b = load32 m vec" and "e = load32 m (vec + 4)"
  show ?thesis
  proof (cases "vec = 0")
    case True
    then show ?thesis by (simp add: translate_queue_def vec_def)
  next
    case False
    then have be: "b \<le> e" "4 dvd unat (e - b)"
      using assms by (simp_all add: vector_ends_def Let_def vec_def b_def e_def)
    then obtain n where n: "unat (e - b) = 4 * n" by auto
    have "unat b + 4 * n = unat e" using be(1) by (simp flip: n add: unat_sub word_le_nat_alt)
    then have "unat b + 4 * n < 2 ^ 32" by (simp only:) (rule order_less_le_trans [OF unsigned_less], simp)
    moreover have "e = b + of_nat (4 * n)" by (simp flip: n)
    ultimately have "vector_from m b e \<noteq> None" using vector_from_words [of b n m] by simp
    then show ?thesis by (simp add: translate_queue_def Let_def vec_def b_def e_def)
  qed
qed

lemma translate_hook_returns:
  assumes "\<And>i. vector_ends galloc (mem i)"
  shows "hook_TranslateStream galloc mem orig asset \<noteq> None"
  using vector_ends_read [OF assms] by (simp add: hook_TranslateStream_def Let_def list_all_iff)



section \<open>Memory categories\<close>

text \<open>
  The categories seen so far, and the live and peak bytes of the category named "Render".  \<open>is_render\<close> says
  whether the name behind a category's address is that one.
\<close>

record account =
  memcat :: "u32 list"
  memcat_last :: u32
  memcat_lock_init :: bool
  render_live :: u32
  render_peak :: u32
  render_cat :: u32
  acct_depth :: int

definition memcat_seen :: "u32 \<Rightarrow> account \<Rightarrow> account" where
  "memcat_seen cat s =
     (if cat = 0 \<or> cat = memcat_last s then s
      else if cat \<in> set (memcat s) then s\<lparr>memcat_last := cat\<rparr>
      else if \<not> memcat_lock_init s then s
      else s\<lparr>memcat := (if length (memcat s) < 64 then memcat s @ [cat] else memcat s), memcat_last := cat\<rparr>)"

text \<open>The live count never goes below zero.\<close>

definition render_acct :: "(u32 \<Rightarrow> bool) \<Rightarrow> u32 \<Rightarrow> i32 \<Rightarrow> account \<Rightarrow> account" where
  "render_acct is_render cat delta s =
     (if cat \<noteq> render_cat s \<and> (render_cat s \<noteq> 0 \<or> \<not> is_render cat) then s
      else let c = render_live s; c = (if sint delta < 0 \<and> - delta > c then 0 else c + delta) in
        s\<lparr>render_cat := cat, render_live := c, render_peak := (if c > render_peak s then c else render_peak s)\<rparr>)"

text \<open>
  The two allocation entry points.  \<open>Alloc5\<close> may call \<open>Alloc2\<close> on its way (\<open>inner\<close> is what happens inside the
  engine's function); only the outer one is counted.  The result is the block, zero for a failure.
\<close>

definition hook_CatAlloc5 ::
  "(u32 \<Rightarrow> bool) \<Rightarrow> u32 \<Rightarrow> u32 \<Rightarrow> (account \<Rightarrow> u32 \<times> account) \<Rightarrow> account \<Rightarrow> u32 \<times> account" where
  "hook_CatAlloc5 is_render cat sz inner s =
     (let s = memcat_seen cat s in
      case inner (s\<lparr>acct_depth := acct_depth s + 1\<rparr>) of (p, s) \<Rightarrow>
        let s = s\<lparr>acct_depth := acct_depth s - 1\<rparr> in
        (p, if p \<noteq> 0 then render_acct is_render cat sz s else s))"

definition hook_CatAlloc2 ::
  "(u32 \<Rightarrow> bool) \<Rightarrow> u32 \<Rightarrow> u32 \<Rightarrow> (account \<Rightarrow> u32 \<times> account) \<Rightarrow> account \<Rightarrow> u32 \<times> account" where
  "hook_CatAlloc2 is_render cat sz inner s =
     (if acct_depth s \<noteq> 0 then inner s
      else case inner (memcat_seen cat s) of (p, s) \<Rightarrow> (p, if p \<noteq> 0 then render_acct is_render cat sz s else s))"

text \<open>\<open>usable\<close> is the engine's size of the block, \<open>orig\<close> what its \<open>Free\<close> does to the account (other hooks).\<close>

definition hook_CatFree ::
  "(u32 \<Rightarrow> bool) \<Rightarrow> u32 \<Rightarrow> u32 \<Rightarrow> i32 \<Rightarrow> (account \<Rightarrow> account) \<Rightarrow> account \<Rightarrow> account" where
  "hook_CatFree is_render cat p usable orig s =
     orig (if p \<noteq> 0 \<and> cat = render_cat s then render_acct is_render cat (- usable) s else s)"

text \<open>An allocation that runs through both entry points is counted once, and the peak bounds the live count.\<close>

lemma nested_alloc_counted_once:
  assumes "acct_depth s = 0" "\<And>s. render_live (snd (orig s)) = render_live s \<and> render_cat (snd (orig s)) = render_cat s"
    "render_cat s = cat" "fst (orig ((memcat_seen cat s)\<lparr>acct_depth := 1\<rparr>)) \<noteq> 0"
    "unat (render_live s) + unat sz < 2 ^ 31"
  shows "render_live (snd (hook_CatAlloc5 is_render cat sz (hook_CatAlloc2 is_render cat sz2 orig) s)) =
    render_live s + sz"
proof -
  obtain p t where o: "orig ((memcat_seen cat s)\<lparr>acct_depth := 1\<rparr>) = (p, t)" by (cases "orig ((memcat_seen cat s)\<lparr>acct_depth := 1\<rparr>)")
  have t: "render_live t = render_live s" "render_cat t = cat"
    using assms(2) [of "(memcat_seen cat s)\<lparr>acct_depth := 1\<rparr>"] assms(3) o by (simp_all add: memcat_seen_def)
  have d: "acct_depth (memcat_seen cat s) = 0" using assms(1) by (simp add: memcat_seen_def)
  have "0 \<le> sint sz" using assms(5) sint_of_nat32 [of "unat sz"] by simp
  then show ?thesis using assms(4) o t d
    by (simp add: hook_CatAlloc5_def hook_CatAlloc2_def render_acct_def Let_def)
qed

lemma render_peak_bounds:
  "render_live s \<le> render_peak s \<Longrightarrow>
   render_live (render_acct is_render cat delta s) \<le> render_peak (render_acct is_render cat delta s)"
  by (auto simp: render_acct_def Let_def)

text \<open>The figures of the memory report, in kilobytes.\<close>

definition render_live_kb :: "account \<Rightarrow> u32" where "render_live_kb s = render_live s div 1024"
definition render_peak_kb :: "account \<Rightarrow> u32" where "render_peak_kb s = render_peak s div 1024"

lemma reported_peak_bounds:
  assumes "\<And>t. render_live t \<le> render_peak t \<Longrightarrow> render_live (orig t) \<le> render_peak (orig t)" "render_live s \<le> render_peak s"
  shows "render_live_kb (hook_CatFree is_render cat p usable orig s) \<le> render_peak_kb (hook_CatFree is_render cat p usable orig s)"
proof -
  have mono: "render_live t \<le> render_peak t \<Longrightarrow> render_live_kb t \<le> render_peak_kb t" for t
    by (simp add: render_live_kb_def render_peak_kb_def word_le_nat_alt unat_div div_le_mono)
  have "render_live (hook_CatFree is_render cat p usable orig s) \<le> render_peak (hook_CatFree is_render cat p usable orig s)"
    using assms render_peak_bounds by (simp add: hook_CatFree_def)
  then show ?thesis by (rule mono)
qed

section \<open>Texture copies\<close>

text \<open>
  The textures whose copy the game has locked: a table of at most 2048 addresses.
\<close>

definition TEXSET_N :: nat where "TEXSET_N = 2048"

definition tex_is_sticky :: "u32 \<Rightarrow> u32 list \<Rightarrow> bool" where
  "tex_is_sticky t sticky \<longleftrightarrow> t \<in> set sticky"

definition tex_set_sticky :: "u32 \<Rightarrow> u32 list \<Rightarrow> u32 list" where
  "tex_set_sticky t sticky = (if \<not> tex_is_sticky t sticky \<and> length sticky < TEXSET_N then sticky @ [t] else sticky)"

text \<open>The first entry is overwritten by the last one, which is then dropped.\<close>

fun tex_unsticky :: "u32 \<Rightarrow> u32 list \<Rightarrow> u32 list" where
  "tex_unsticky t [] = []"
| "tex_unsticky t (x # xs) = (if x = t then (if xs = [] then [] else last xs # butlast xs) else x # tex_unsticky t xs)"

record tex_state =
  sticky :: "u32 list"
  tmem :: memory
  acct :: account
  copies_freed :: u32
  bytes_freed :: u32
  copies_recreated :: u32

definition rna_allocator :: "memory \<Rightarrow> u32 \<Rightarrow> u32" where
  "rna_allocator m text_base =
     (let g = text_base + 0x17d0970; a = load32 m (g + 0x6c) in if a = 0 then load32 m (g + 0x14) else a)"

text \<open>
  After the engine's \<open>Flush\<close> (which leaves memory \<open>m\<close> and account \<open>a\<close>) the copy at \<open>tex + 0x40\<close> is freed when
  the texture has a GL name (at \<open>tex + 0x3c\<close>) and was never locked.  The first result is the block given to the
  engine's allocator, whose \<open>Free\<close> is \<open>dealloc\<close>.
\<close>

definition hook_TexFlush ::
  "u32 \<Rightarrow> (u32 \<Rightarrow> memory \<Rightarrow> account \<Rightarrow> memory \<times> account) \<Rightarrow> memory \<Rightarrow> account \<Rightarrow> u32 \<Rightarrow> tex_state \<Rightarrow> u32 option \<times> tex_state" where
  "hook_TexFlush text_base dealloc m a tex s =
     (let s = s\<lparr>tmem := m, acct := a\<rparr>; buf = load32 m (tex + 0x40) in
      if buf = 0 \<or> load32 m (tex + 0x3c) = 0 \<or> tex_is_sticky tex (sticky s) then (None, s)
      else if rna_allocator m text_base = 0 then (None, s)
      else let sz = load32 m (buf - 0x10) in
        case dealloc (buf - 0x10) (write_bytes m (tex + 0x40) (le32 0)) a of (m, a) \<Rightarrow>
          (Some (buf - 0x10), s\<lparr>tmem := m,
            acct := (if render_cat a \<noteq> 0 then render_acct (\<lambda>_. False) (render_cat a) (- sz) a else a),
            copies_freed := copies_freed s + 1, bytes_freed := bytes_freed s + sz\<rparr>))"

text \<open>
  Locking: a copy that is gone is made anew, zeroed, behind a header with its size.  \<open>data_size\<close> is the size
  the engine reports, \<open>alloc\<close> its allocator (zero for a failure).  The allocator's table of functions is read
  before the allocator is tested for null, so a missing allocator faults (\<open>None\<close>).
\<close>

definition hook_TexAcquire ::
  "u32 \<Rightarrow> u32 \<Rightarrow> (u32 \<Rightarrow> memory \<Rightarrow> account \<Rightarrow> u32 \<times> memory \<times> account) \<Rightarrow> u32 \<Rightarrow> tex_state \<Rightarrow> tex_state option" where
  "hook_TexAcquire text_base data_size alloc tex s =
     (let s = s\<lparr>sticky := tex_set_sticky tex (sticky s)\<rparr> in
      if load32 (tmem s) (tex + 0x40) \<noteq> 0 then Some s
      else if rna_allocator (tmem s) text_base = 0 then None
      else case alloc (data_size + 0x10) (tmem s) (acct s) of (raw, m, a) \<Rightarrow>
        if raw = 0 then Some (s\<lparr>tmem := m, acct := a\<rparr>)
        else Some (s\<lparr>tmem := write_bytes (write_bytes (write_bytes m raw (le32 data_size)) (raw + 0x10)
            (replicate (unat data_size) 0)) (tex + 0x40) (le32 (raw + 0x10)), acct := a,
          copies_recreated := copies_recreated s + 1\<rparr>))"

definition hook_TexDestroy :: "u32 \<Rightarrow> tex_state \<Rightarrow> tex_state" where
  "hook_TexDestroy tex s = s\<lparr>sticky := tex_unsticky tex (sticky s)\<rparr>"

text \<open>What the engine does with its textures: flush, lock (with the allocator's answer) and destroy.\<close>

datatype tex_op =
    Flush "u32 \<Rightarrow> memory \<Rightarrow> account \<Rightarrow> memory \<times> account" memory account u32
  | Acquire u32 "u32 \<Rightarrow> memory \<Rightarrow> account \<Rightarrow> u32 \<times> memory \<times> account" u32
  | Destroy u32

fun tex_step :: "u32 \<Rightarrow> tex_op \<Rightarrow> tex_state \<Rightarrow> tex_state option" where
  "tex_step text_base (Flush dealloc m a tex) s = Some (snd (hook_TexFlush text_base dealloc m a tex s))"
| "tex_step text_base (Acquire sz alloc tex) s = hook_TexAcquire text_base sz alloc tex s"
| "tex_step text_base (Destroy tex) s = Some (hook_TexDestroy tex s)"

fun tex_run :: "u32 \<Rightarrow> tex_op list \<Rightarrow> tex_state \<Rightarrow> tex_state option" where
  "tex_run text_base [] s = Some s"
| "tex_run text_base (c # cs) s = Option.bind (tex_step text_base c s) (tex_run text_base cs)"

lemma unsticky_keeps: "t \<in> set xs \<Longrightarrow> t \<noteq> x \<Longrightarrow> t \<in> set (tex_unsticky x xs)"
proof (induction x xs rule: tex_unsticky.induct)
  case (1 t)
  then show ?case by simp
next
  case (2 u x xs)
  then show ?case by (cases xs rule: rev_cases) auto
qed

lemma flush_sticky: "sticky (snd (hook_TexFlush text_base dealloc m a tex s)) = sticky s"
  by (simp add: hook_TexFlush_def Let_def split: prod.split)

lemma acquire_sticky:
  "hook_TexAcquire text_base sz alloc tex s = Some s2 \<Longrightarrow> sticky s2 = tex_set_sticky tex (sticky s)"
  by (auto simp: hook_TexAcquire_def Let_def split: prod.splits if_splits)

lemma tex_step_keeps:
  assumes "t \<in> set (sticky s)" "c \<noteq> Destroy t" "tex_step text_base c s = Some s2"
  shows "t \<in> set (sticky s2)"
proof (cases c)
  case (Flush dealloc m a tex)
  then show ?thesis using assms flush_sticky by auto
next
  case (Acquire sz alloc tex)
  then have "sticky s2 = tex_set_sticky tex (sticky s)" using assms(3) acquire_sticky by simp
  then show ?thesis using assms(1) by (simp add: tex_set_sticky_def)
next
  case (Destroy tex)
  then show ?thesis using assms unsticky_keeps by (auto simp: hook_TexDestroy_def)
qed

lemma tex_run_keeps:
  "t \<in> set (sticky s) \<Longrightarrow> Destroy t \<notin> set ops \<Longrightarrow> tex_run text_base ops s = Some s2 \<Longrightarrow> t \<in> set (sticky s2)"
proof (induction ops arbitrary: s)
  case Nil
  then show ?case by simp
next
  case (Cons c ops)
  then obtain s1 where s1: "tex_step text_base c s = Some s1" "tex_run text_base ops s1 = Some s2"
    by (cases "tex_step text_base c s") auto
  have "t \<in> set (sticky s1)" using Cons.prems s1(1) tex_step_keeps [of t s c] by auto
  then show ?case using Cons s1(2) by auto
qed

text \<open>
  Once a texture was locked (and the table had room for it), no later flush frees its copy, whatever
  else is flushed, locked and destroyed, until the texture itself is destroyed.
\<close>

theorem locked_copies_kept:
  assumes "tex_is_sticky t (sticky s) \<or> length (sticky s) < TEXSET_N" "Destroy t \<notin> set ops"
    and "tex_run text_base (Acquire sz alloc t # ops) s = Some s2"
  shows "fst (hook_TexFlush text_base dealloc m a t s2) = None"
proof -
  obtain s1 where s1: "hook_TexAcquire text_base sz alloc t s = Some s1" "tex_run text_base ops s1 = Some s2"
    using assms(3) by (cases "hook_TexAcquire text_base sz alloc t s") auto
  have "t \<in> set (sticky s1)"
    using assms(1) acquire_sticky [OF s1(1)] by (auto simp: tex_set_sticky_def tex_is_sticky_def)
  then have "t \<in> set (sticky s2)" using tex_run_keeps assms(2) s1(2) by blast
  then show ?thesis by (simp add: hook_TexFlush_def Let_def tex_is_sticky_def)
qed

definition no_account :: account where
  "no_account = \<lparr>memcat = [], memcat_last = 0, memcat_lock_init = True, render_live = 0, render_peak = 0,
     render_cat = 0, acct_depth = 0\<rparr>"

definition demo_textures :: tex_state where
  "demo_textures = \<lparr>sticky = [0x500], tmem = (\<lambda>_. 1), acct = no_account, copies_freed = 0, bytes_freed = 0,
     copies_recreated = 0\<rparr>"

lemma locked_copies_kept_witness:
  "\<exists>s2. tex_run 0 [Acquire 64 (\<lambda>_ m a. (0x2000, m, a)) 0x600, Destroy 0x500] demo_textures = Some s2 \<and>
     sticky s2 = [0x600] \<and> fst (hook_TexFlush 0 (\<lambda>_ m a. (m, a)) (\<lambda>_. 1) no_account 0x600 s2) = None"
proof -
  have l: "load32 (\<lambda>_. 1) 0x640 \<noteq> 0" by (simp add: load32_def)
  have r: "tex_run 0 [Acquire 64 (\<lambda>_ m a. (0x2000, m, a)) 0x600, Destroy 0x500] demo_textures =
      Some (demo_textures\<lparr>sticky := [0x600]\<rparr>)"
    using l by (simp add: demo_textures_def hook_TexAcquire_def hook_TexDestroy_def tex_set_sticky_def tex_is_sticky_def
        TEXSET_N_def Let_def)
  have "fst (hook_TexFlush 0 (\<lambda>_ m a. (m, a)) (\<lambda>_. 1) no_account 0x600 (demo_textures\<lparr>sticky := [0x600]\<rparr>)) = None"
    by (rule locked_copies_kept [OF _ _ r]) (simp_all add: demo_textures_def TEXSET_N_def)
  then show ?thesis using r by (intro exI [of _ "demo_textures\<lparr>sticky := [0x600]\<rparr>"]) simp
qed

text \<open>With 2048 locked textures the table is full, and the next one is not remembered.\<close>

lemma full_table_forgets:
  "length tbl = TEXSET_N \<Longrightarrow> tex_set_sticky t tbl = tbl"
  by (simp add: tex_set_sticky_def)

text \<open>Locking a texture whose copy is gone, with no allocator set up, reads through a null pointer.\<close>

lemma acquire_without_allocator:
  "hook_TexAcquire 0 64 alloc 0x600 (demo_textures\<lparr>tmem := (\<lambda>_. 0)\<rparr>) = None"
  by (simp add: hook_TexAcquire_def rna_allocator_def load32_def Let_def demo_textures_def)

end
