(* ===== verification/Boot.thy ===== *)
theory Boot
  imports Input Files "HOL-Library.Sublist"
begin

text \<open>
  \<open>main\<close> of \<open>main.c\<close>: the boot as a script whose steps may find something missing and end the program with a
  message (\<open>fatal\<close>), and the frame loop, which composes the steps of \<open>Input\<close> with the drawing of the game, the
  presentation and the stall watch.  What the card holds, what the loader answers and which functions the game
  exports are parameters.
\<close>

section \<open>The boot script\<close>

text \<open>An argument of a native function: a number, a new Java string, the asset manager or the activity.\<close>

datatype jarg = Num nat | Str string | Assets | Activity

datatype boot_event =
    Make_Dir string
  | Remove_File string
  | Rename_File string string
  | Trim_Saves
  | Load string u32
  | Relocate string
  | Resolve string
  | Install_Hooks
  | Flush_Caches string
  | Constructors string
  | Shader_Cache string
  | Clocks "nat list"
  | Vgl_Init "nat list"
  | Swap_Interval nat
  | Viewport "nat list"
  | Jni_Init
  | Start_Watchdog
  | On_Load
  | Audio_Install
  | Native string "jarg list"

datatype boot_step =
    Do boot_event
  | Load_Or_Fail string u32 string
  | Need_File string string
  | Need_Symbol string boot_event string
  | Try_Symbol string boot_event

record boot_env =
  file_exists :: "string \<Rightarrow> bool"
  so_load_result :: "string \<Rightarrow> int"
  so_symbol_there :: "string \<Rightarrow> bool"

text \<open>Whether a step goes on, its message when it does not, and what it does when it goes on.\<close>

definition step_ok :: "boot_env \<Rightarrow> boot_step \<Rightarrow> bool" where
  "step_ok env s =
     (case s of
        Load_Or_Fail path a msg \<Rightarrow> 0 \<le> so_load_result env path
      | Need_File path msg \<Rightarrow> file_exists env path
      | Need_Symbol name e msg \<Rightarrow> so_symbol_there env name
      | _ \<Rightarrow> True)"

definition step_message :: "boot_step \<Rightarrow> string" where
  "step_message s =
     (case s of Load_Or_Fail path a msg \<Rightarrow> msg | Need_File path msg \<Rightarrow> msg | Need_Symbol name e msg \<Rightarrow> msg | _ \<Rightarrow> [])"

definition step_events :: "boot_env \<Rightarrow> boot_step \<Rightarrow> boot_event list" where
  "step_events env s =
     (case s of
        Do e \<Rightarrow> [e]
      | Load_Or_Fail path a msg \<Rightarrow> [Load path a]
      | Need_File path msg \<Rightarrow> []
      | Need_Symbol name e msg \<Rightarrow> if so_symbol_there env name then [e] else []
      | Try_Symbol name e \<Rightarrow> if so_symbol_there env name then [e] else [])"

text \<open>The events of a run, and the message it ends with, if it does.\<close>

fun run_boot :: "boot_env \<Rightarrow> boot_step list \<Rightarrow> boot_event list \<times> string option" where
  "run_boot env [] = ([], None)"
| "run_boot env (s # ss) =
     (if step_ok env s then (let (es, r) = run_boot env ss in (step_events env s @ es, r))
      else (step_events env s, Some (step_message s)))"

text \<open>A file of the card's data directory, and the two modules.\<close>

abbreviation data :: "string \<Rightarrow> string" where "data p \<equiv> DATA_PATH @ p"

definition gnustl :: string where "gnustl = data ''/lib/libgnustl_shared.so''"

definition libgame :: string where "libgame = data ''/lib/libgame.so''"

text \<open>A call with the six words of \<open>CALL\<close>: a missing function ends the program.\<close>

abbreviation call :: "string \<Rightarrow> jarg list \<Rightarrow> boot_step" where
  "call f as \<equiv> Need_Symbol f (Native f as) (''missing '' @ f)"

abbreviation try_call :: "string \<Rightarrow> boot_step" where
  "try_call f \<equiv> Try_Symbol f (Native f (Activity # replicate 6 (Num 0)))"

definition boot_files :: "boot_step list" where
  "boot_files =
     [Do (Make_Dir DATA_PATH), Do (Make_Dir (data ''/internal'')), Do (Make_Dir (data ''/obb'')),
      Do (Remove_File (data ''/ssx_prev.log'')), Do (Rename_File (data ''/ssx.log'') (data ''/ssx_prev.log'')),
      Do (Remove_File ''ux0:data/ssx.log''), Do Trim_Saves,
      Need_File libgame (''Missing '' @ libgame), Need_File gnustl (''Missing '' @ gnustl),
      Need_File (data ''/obb/EAMCore.ini'') (''Missing .big assets in '' @ data ''/obb/'')]"

definition boot_modules :: "boot_step list" where
  "boot_modules =
     [Load_Or_Fail gnustl 0x9C000000 ''so_load gnustl'', Do (Relocate gnustl), Do (Resolve gnustl),
      Do (Flush_Caches gnustl), Do (Constructors gnustl),
      Load_Or_Fail libgame 0x94000000 ''so_load libgame'', Do (Relocate libgame), Do (Resolve libgame),
      Do Install_Hooks, Do (Flush_Caches libgame), Do (Constructors libgame)]"

definition boot_graphics :: "boot_step list" where
  "boot_graphics =
     [Need_File ''ur0:data/libshacccg.suprx'' ''libshacccg.suprx missing'',
      Do (Shader_Cache (data ''/shader_cache'')), Do (Make_Dir (data ''/shader_cache'')),
      Do (Clocks [444, 222, 222, 166]), Do (Vgl_Init [0, 960, 544, 22 * 1024 * 1024, 0, 0, 0]),
      Do (Swap_Interval 2), Do (Viewport [0, 0, 960, 544])]"

definition boot_java :: "boot_step list" where
  "boot_java =
     [Do Jni_Init, Do Start_Watchdog, Need_Symbol ''JNI_OnLoad'' On_Load ''missing JNI_OnLoad'', Do Audio_Install]"

text \<open>The first word after the environment is the receiver: null or the activity.\<close>

definition boot_natives :: "boot_step list" where
  "boot_natives =
     [Do (Make_Dir (data ''/external'')), Do (Make_Dir (data ''/internal/ssxv'')),
      try_call ''Java_com_ea_ssx_MainActivity_InitGameApplication'',
      call ''Java_com_ea_EAThread_EAThread_Init'' (replicate 7 (Num 0)),
      call ''Java_com_ea_EAIO_EAIO_StartupNativeImpl''
        [Num 0, Assets, Str ''/data/ssx/internal'', Str ''/data/ssx/external'', Str ''/data/ssx/obb'', Num 0, Num 0],
      call ''Java_com_ea_EAMIO_StorageDirectory_StartupNativeImpl'' (replicate 7 (Num 0)),
      call ''Java_com_ea_EAAudioCore_AndroidEAAudioCore_Init''
        [Num 0, Num 44100, Num 16, Num 2, Num 2048, Num 0, Num 0],
      call ''Java_com_ea_EAMAudio_EAMAudioCoreWrapper_NativeStartup'' (replicate 7 (Num 0)),
      call ''Java_com_ea_VideoPlayer_PlayerAndroid_StartupNativeImpl'' (replicate 7 (Num 0)),
      call ''Java_com_ea_blast_MainActivity_NativeOnCreate'' (replicate 7 (Num 0)),
      call ''Java_com_ea_blast_MainActivity_NativeOnResume'' (Num 0 # Num 1 # replicate 5 (Num 0)),
      call ''Java_com_ea_blast_MainActivity_NativeOnWindowFocusChanged'' (Num 0 # Num 1 # replicate 5 (Num 0)),
      call ''Java_com_ea_blast_MainThread_NativeOnSurfaceCreated'' (Num 0 # Num 1 # replicate 5 (Num 0)),
      call ''Java_com_ea_blast_MainThread_NativeOnSurfaceChanged''
        (Num 0 # Num 960 # Num 544 # replicate 4 (Num 0)),
      try_call ''Java_com_ea_ssx_MainActivity_NativeOnContextResetEvent'',
      try_call ''Java_com_ea_ssx_MainActivity_NativeOnResumeEvent'',
      try_call ''Java_com_ea_ssx_MainActivity_ResumeAudio'',
      try_call ''Java_com_ea_ssx_MainActivity_ResumeVideo'']"

definition boot_script :: "boot_step list" where
  "boot_script = boot_files @ boot_modules @ boot_graphics @ boot_java @ boot_natives"

text \<open>
  \<open>Trim_Saves\<close>: the entries of the save directory (name, whether it is a directory, size) give the paths that
  are removed.
\<close>

definition save_path :: "string \<Rightarrow> string" where
  "save_path name = snprintf_text 512 (data ''/internal/ssxv/'' @ name)"

definition trimmed_saves :: "(string \<times> bool \<times> int) list \<Rightarrow> string list" where
  "trimmed_saves entries =
     map (\<lambda>(name, _). save_path name) (filter (\<lambda>(_, dir, bytes). \<not> dir \<and> bytes > 32 * 1024 * 1024) entries)"

section \<open>The order of the boot\<close>

lemma run_boot_completes: "snd (run_boot env ss) = None \<longleftrightarrow> list_all (step_ok env) ss"
  by (induction ss) (auto split: prod.splits)

lemma run_boot_append:
  "run_boot env (xs @ ys) =
     (if list_all (step_ok env) xs then (fst (run_boot env xs) @ fst (run_boot env ys), snd (run_boot env ys))
      else run_boot env xs)"
  by (induction xs) (auto split: prod.splits)

lemma run_boot_fails:
  "snd (run_boot env ss) = Some m \<Longrightarrow>
   \<exists>xs s ys. ss = xs @ s # ys \<and> list_all (step_ok env) xs \<and> \<not> step_ok env s \<and> m = step_message s"
proof (induction ss)
  case Nil
  then show ?case by simp
next
  case (Cons s ss)
  show ?case
  proof (cases "step_ok env s")
    case True
    then have "snd (run_boot env ss) = Some m" using Cons.prems by (simp split: prod.splits)
    then obtain xs t ys where t: "ss = xs @ t # ys" "list_all (step_ok env) xs" "\<not> step_ok env t" "m = step_message t"
      using Cons.IH by blast
    then have "s # ss = (s # xs) @ t # ys" "list_all (step_ok env) (s # xs)" using True by simp_all
    then show ?thesis using t(3,4) by blast
  next
    case False
    then have "m = step_message s" using Cons.prems by simp
    moreover have "s # ss = [] @ s # ss" "list_all (step_ok env) []" by simp_all
    ultimately show ?thesis using False by blast
  qed
qed

lemma run_boot_events: "fst (run_boot env ss) = concat (map (step_events env) ss)" if "list_all (step_ok env) ss"
  using that by (induction ss) (auto split: prod.splits)

lemma run_boot_within: "set (fst (run_boot env ss)) \<subseteq> (\<Union>s\<in>set ss. set (step_events env s))"
  by (induction ss) (auto split: prod.splits)

fun native :: "boot_event \<Rightarrow> bool" where
  "native (Native f as) \<longleftrightarrow> True"
| "native e \<longleftrightarrow> False"

definition before_natives :: "boot_step list" where
  "before_natives = boot_files @ boot_modules @ boot_graphics @ boot_java"

lemmas script_parts = before_natives_def boot_files_def boot_modules_def boot_graphics_def boot_java_def

lemma no_early_natives: "\<forall>s\<in>set before_natives. list_all (\<lambda>e. \<not> native e) (step_events env s)"
  by (simp add: script_parts step_events_def)


lemma natives_only_late:
  assumes "native e" "e \<in> set (fst (run_boot env before_natives))"
  shows False
proof -
  obtain st where st: "st \<in> set before_natives" "e \<in> set (step_events env st)"
    using assms(2) run_boot_within [of env before_natives] by blast
  then have "list_all (\<lambda>e. \<not> native e) (step_events env st)" using no_early_natives by blast
  then show False using st(2) assms(1) by (simp add: list_all_iff)
qed

text \<open>What has happened, in this order, before the first function of the game's Java interface runs.\<close>

definition prepared :: "boot_event list" where
  "prepared =
     [Load gnustl 0x9C000000, Relocate gnustl, Resolve gnustl, Flush_Caches gnustl, Constructors gnustl,
      Load libgame 0x94000000, Relocate libgame, Resolve libgame, Install_Hooks, Flush_Caches libgame,
      Constructors libgame, Vgl_Init [0, 960, 544, 22 * 1024 * 1024, 0, 0, 0], Viewport [0, 0, 960, 544], Jni_Init,
      On_Load, Audio_Install]"

definition complete_start :: "boot_event list" where
  "complete_start =
     [Make_Dir DATA_PATH, Make_Dir (data ''/internal''), Make_Dir (data ''/obb''),
      Remove_File (data ''/ssx_prev.log''), Rename_File (data ''/ssx.log'') (data ''/ssx_prev.log''),
      Remove_File ''ux0:data/ssx.log'', Trim_Saves,
      Load gnustl 0x9C000000, Relocate gnustl, Resolve gnustl, Flush_Caches gnustl, Constructors gnustl,
      Load libgame 0x94000000, Relocate libgame, Resolve libgame, Install_Hooks, Flush_Caches libgame,
      Constructors libgame, Shader_Cache (data ''/shader_cache''), Make_Dir (data ''/shader_cache''),
      Clocks [444, 222, 222, 166], Vgl_Init [0, 960, 544, 22 * 1024 * 1024, 0, 0, 0], Swap_Interval 2,
      Viewport [0, 0, 960, 544], Jni_Init, Start_Watchdog, On_Load, Audio_Install]"

lemma complete_before_natives:
  assumes "list_all (step_ok env) before_natives"
  shows "fst (run_boot env before_natives) = complete_start"
proof -
  have j: "so_symbol_there env ''JNI_OnLoad''"
    using assms by (simp add: script_parts step_ok_def)
  have "concat (map (step_events env) before_natives) = complete_start"
    using j unfolding script_parts complete_start_def by (simp add: step_events_def)
  then show ?thesis using run_boot_events [OF assms] by simp
qed

lemma prepared_in_order: "subseq prepared complete_start"
  unfolding prepared_def complete_start_def gnustl_def libgame_def by simp


text \<open>A card that holds everything, with a game that lacks \<open>NativeOnResume\<close>: the boot ends there.\<close>

definition demo_boot :: boot_env where
  "demo_boot = \<lparr>file_exists = (\<lambda>_. True), so_load_result = (\<lambda>_. 0),
     so_symbol_there = (\<lambda>f. f \<noteq> ''Java_com_ea_blast_MainActivity_NativeOnResume'')\<rparr>"


section \<open>The frame loop\<close>

text \<open>
  What the game exports, what one frame finds (\<open>plays\<close>: the game started a movie while it drew; \<open>swaps\<close>: how
  often it has presented so far), and what one frame does.  \<open>Dump\<close> is the write through a bad pointer by which
  the stall watch ends the program.
\<close>

record loop_env =
  has_pad :: bool
  has_back :: bool
  has_axis :: bool
  has_touch :: bool
  has_mouse :: bool
  has_video :: bool

record frame_input =
  pad_buttons :: u32
  pad_sticks :: "nat list"
  touch_reports :: "touch_report list"
  plays :: bool
  swaps :: nat

datatype loop_event =
    Pad pad_event
  | Axis nat int
  | Finger touch_event
  | Video_Done nat
  | Draw_Frame
  | Dump
  | Present
  | Wait_Vblank

record loop_state =
  frame_no :: nat
  prev_buttons :: u32
  prev_axis :: "int list"
  touch_slots :: "touch_slot list"
  play_pending :: bool
  video_done_at :: int
  watch :: stall_watch

definition loop_start :: loop_state where
  "loop_start =
     \<lparr>frame_no = 0, prev_buttons = 0, prev_axis = replicate 4 0, touch_slots = no_touch, play_pending = False,
      video_done_at = 0, watch = \<lparr>last_cnt = 0, last_frame = 0, armed = False\<rparr>\<rparr>"

definition video_events :: "loop_env \<Rightarrow> bool \<Rightarrow> loop_event list" where
  "video_events env done = (if done \<and> has_video env then map Video_Done [0..<4] else [])"

text \<open>One frame: the events, and the next state, \<open>None\<close> when the stall watch has ended the program.\<close>

definition frame_step :: "loop_env \<Rightarrow> loop_state \<Rightarrow> frame_input \<Rightarrow> loop_event list \<times> loop_state option" where
  "frame_step env s inp =
     (let n = frame_no s + 1;
          (pe, buttons) = (if has_pad env then pad_frame (has_back env) (prev_buttons s) (pad_buttons inp)
             else ([], prev_buttons s));
          (ae, axes) = (if has_axis env then axis_frame (prev_axis s) (pad_sticks inp) else ([], prev_axis s));
          (te, slots) = (if has_touch env then touch_frame (has_mouse env) (touch_slots s) (touch_reports inp)
             else ([], touch_slots s));
          (done, pending, done_at) = video_step (int n) (play_pending s, video_done_at s);
          (stalled, w) = stall_step n (swaps inp) (watch s);
          es = map Pad pe @ map (\<lambda>(a, v). Axis a v) ae @ map Finger te @ video_events env done @ [Draw_Frame] in
      if stalled then (es @ [Dump], None)
      else (es @ [if swaps inp = 0 then Present else Wait_Vblank],
        Some \<lparr>frame_no = n, prev_buttons = buttons, prev_axis = axes, touch_slots = slots,
          play_pending = (pending \<or> plays inp), video_done_at = done_at, watch = w\<rparr>))"

fun loop_run :: "loop_env \<Rightarrow> loop_state \<Rightarrow> frame_input list \<Rightarrow> loop_event list \<times> loop_state option" where
  "loop_run env s [] = ([], Some s)"
| "loop_run env s (i # is) =
     (case frame_step env s i of
        (es, None) \<Rightarrow> (es, None)
      | (es, Some s) \<Rightarrow> (let (fs, r) = loop_run env s is in (es @ fs, r)))"

fun is_video :: "loop_event \<Rightarrow> bool" where
  "is_video (Video_Done i) \<longleftrightarrow> True"
| "is_video e \<longleftrightarrow> False"

abbreviation reports :: "loop_event list \<Rightarrow> loop_event list" where
  "reports es \<equiv> filter is_video es"

lemma no_report [simp]:
  "reports (map Pad es) = []" "reports (map Finger ts) = []" "reports (map (\<lambda>(a, v). Axis a v) xs) = []"
  by (simp_all add: filter_empty_conv split: prod.splits)

lemma video_events_reports [simp]: "reports (video_events env d) = video_events env d"
  by (auto simp: video_events_def filter_id_conv)

text \<open>The part of a frame the movies see.\<close>

lemma frame_video:
  assumes "frame_step env s i = (es, Some t)"
    and "video_step (int (frame_no s + 1)) (play_pending s, video_done_at s) = (d, p, a)"
  shows "reports es = video_events env d \<and> frame_no t = frame_no s + 1 \<and> play_pending t = (p \<or> plays i) \<and>
    video_done_at t = a"
  using assms by (auto simp: frame_step_def Let_def split: prod.splits if_splits)

lemma waiting_frames:
  assumes "loop_run env s is = (es, Some t)" "play_pending s" "0 < video_done_at s"
    and "int (frame_no s) + int (length is) < video_done_at s"
  shows "reports es = [] \<and> frame_no t = frame_no s + length is \<and> play_pending t \<and> video_done_at t = video_done_at s"
  using assms
proof (induction "is" arbitrary: s es)
  case Nil
  then show ?case by simp
next
  case (Cons i "is")
  obtain e1 u where u: "frame_step env s i = (e1, Some u)"
    using Cons.prems(1) by (cases "frame_step env s i") (auto split: option.splits)
  obtain e2 where e2: "loop_run env u is = (e2, Some t)" "es = e1 @ e2"
    using Cons.prems(1) u by (auto split: prod.splits)
  have v: "video_step (int (frame_no s + 1)) (play_pending s, video_done_at s) = (False, True, video_done_at s)"
    using Cons.prems(2-4) by (simp add: video_step_def Let_def)
  have f: "reports e1 = []" "frame_no u = frame_no s + 1" "play_pending u" "video_done_at u = video_done_at s"
    using frame_video [OF u v] by (simp_all add: video_events_def)
  then have "reports e2 = [] \<and> frame_no t = frame_no u + length is \<and> play_pending t \<and> video_done_at t = video_done_at u"
    using Cons.IH [OF e2(1)] Cons.prems(3,4) by simp
  then show ?case using e2(2) f by simp
qed

lemma loop_run_snoc:
  "loop_run env s (is @ [j]) =
     (case loop_run env s is of
        (es, None) \<Rightarrow> (es, None)
      | (es, Some u) \<Rightarrow> (case frame_step env u j of (fs, r) \<Rightarrow> (es @ fs, r)))"
  by (induction "is" arbitrary: s) (auto split: prod.splits option.splits)


text \<open>A game that exports only the drawing and the player, and starts a movie in its first frame.\<close>

definition player_only :: loop_env where
  "player_only = \<lparr>has_pad = False, has_back = False, has_axis = False, has_touch = False, has_mouse = False,
     has_video = True\<rparr>"

definition idle_frame :: frame_input where
  "idle_frame = \<lparr>pad_buttons = 0, pad_sticks = replicate 4 128, touch_reports = [], plays = False, swaps = 0\<rparr>"

lemma idle_loop: "\<exists>es t. loop_run player_only s (replicate n idle_frame) = (es, Some t)" if "watch s = watch loop_start"
  using that
proof (induction n arbitrary: s)
  case 0
  then show ?case by simp
next
  case (Suc n)
  obtain e t where t: "frame_step player_only s idle_frame = (e, Some t)" "watch t = watch loop_start"
    using Suc.prems
    by (cases "video_step (int (frame_no s + 1)) (play_pending s, video_done_at s)")
      (auto simp: frame_step_def player_only_def idle_frame_def loop_start_def stall_step_def Let_def)
  then show ?case using Suc.IH [of t] by auto
qed


end
