(* ===== verification/Audio_Install.thy ===== *)
theory Audio_Install
  imports Audio_Ring Hooks So_Symbols
begin

text \<open>
  The installation of the audio bridge (\<open>audio_bridge_install\<close> of \<open>audio.c\<close>): the game's \<open>SubmitAudio\<close> is found
  by its name, or at its offset when it is a local symbol, the output thread is started, and the function is
  redirected to \<open>SubmitAudio_hook\<close>.  The kernel's answers to the creation of the thread and to the opening of
  the port are parameters.
\<close>

record audio_bridge =
  s_started :: bool
  output_threads :: nat
  code_memory :: memory

definition submit_name :: "u8 list" where
  "submit_name = map of_char ''_ZN2EA5Audio4Core21AndroidEAAudioCoreJni11SubmitAudioEiPs''"

definition submit_address :: "memory \<Rightarrow> so_module \<Rightarrow> u32 option" where
  "submit_address m md =
     map_option (\<lambda>a. if a = 0 then m_text_base md + 0x4f0528 else a) (so_symbol m md submit_name)"

definition audio_bridge_install :: "ku_memcpy \<Rightarrow> int \<Rightarrow> u32 \<Rightarrow> so_module \<Rightarrow> audio_bridge \<Rightarrow> audio_bridge option" where
  "audio_bridge_install ku th hook md b =
     (if s_started b then Some b
      else case submit_address (code_memory b) md of
        None \<Rightarrow> None
      | Some a \<Rightarrow>
          if a = 0 then Some b
          else if th < 0 then Some b
          else Some (b\<lparr>output_threads := output_threads b + 1,
            code_memory := hook_addr ku a hook (code_memory b), s_started := True\<rparr>))"

text \<open>The output thread runs exactly when the function is redirected, and there is never a second one.\<close>

lemma install_once:
  assumes "audio_bridge_install ku th hook md b = Some b2" "audio_bridge_install ku th2 hook md b2 = Some b3"
    and "s_started b \<longleftrightarrow> output_threads b = 1" "output_threads b \<le> 1"
  shows "output_threads b3 \<le> 1 \<and> (s_started b3 \<longleftrightarrow> output_threads b3 = 1) \<and> (s_started b2 \<longrightarrow> b3 = b2)"
  using assms by (auto simp: audio_bridge_install_def split: option.splits if_splits)

lemma failed_thread_leaves_code:
  "th < 0 \<Longrightarrow> audio_bridge_install ku th hook md b = Some b2 \<Longrightarrow> b2 = b"
  by (auto simp: audio_bridge_install_def split: option.splits if_splits)

section \<open>The output thread\<close>

text \<open>
  \<open>audio_thread\<close> over its first \<open>n\<close> rounds: what it has handed to the port, and its result once it has ended.  The
  chunk is a static array, so each round overwrites the one before.
\<close>

fun chunk_loop :: "nat \<Rightarrow> i16 list \<Rightarrow> ring \<Rightarrow> (i16 list list \<times> ring) option" where
  "chunk_loop 0 chunk st = Some ([], st)"
| "chunk_loop (Suc n) chunk st = do {
     (c, st) \<leftarrow> ring_read_chunk chunk st;
     (cs, st) \<leftarrow> chunk_loop n c st;
     Some (c # cs, st)
   }"

definition audio_thread :: "i32 \<Rightarrow> nat \<Rightarrow> ring \<Rightarrow> (i32 option \<times> i16 list list \<times> ring) option" where
  "audio_thread port n st =
     (if sint port < 0 then Some (Some (- 1), [], st)
      else map_option (\<lambda>(cs, st). (None, cs, st)) (chunk_loop n (replicate 2048 0) st))"

lemma chunk_loop_plays:
  assumes "ring_inv st" "length chunk = 2048"
  shows "\<exists>cs st'. chunk_loop n chunk st = Some (cs, st') \<and> ring_inv st' \<and> queued st' = drop (2048 * n) (queued st) \<and>
    concat cs = take (2048 * n) (queued st) @ replicate (2048 * n - length (queued st)) 0"
  using assms
proof (induction n arbitrary: chunk st)
  case 0
  then show ?case by simp
next
  case (Suc n)
  let ?c = "take 2048 (queued st) @ replicate (2048 - length (queued st)) 0"
  obtain st1 where st1: "ring_read_chunk chunk st = Some (?c, st1)" "ring_inv st1" "queued st1 = drop 2048 (queued st)"
    using ring_read_chunk_takes [OF Suc.prems] by blast
  have len: "length ?c = 2048" by (simp add: min_def)
  obtain cs st2 where st2: "chunk_loop n ?c st1 = Some (cs, st2)" "ring_inv st2" "queued st2 = drop (2048 * n) (queued st1)"
      "concat cs = take (2048 * n) (queued st1) @ replicate (2048 * n - length (queued st1)) 0"
    using Suc.IH [OF st1(2) len] by blast
  have "?c @ concat cs = take (2048 * Suc n) (queued st) @ replicate (2048 * Suc n - length (queued st)) 0"
  proof (cases "length (queued st) \<le> 2048")
    case True
    then show ?thesis by (simp add: st2(4) st1(3) replicate_add [symmetric])
  next
    case False
    then show ?thesis by (simp add: st2(4) st1(3) take_add add.commute del: length_queued)
  qed
  then show ?case using st1(1) st2 by (simp add: st1(3) add.commute)
qed

text \<open>
  With a port the thread never ends, and after \<open>n\<close> rounds it has played the oldest samples of the ring in order,
  with silence behind them; without one it is gone and the ring keeps what it holds.
\<close>

lemma audio_thread_plays:
  assumes "ring_inv st"
  shows "sint port < 0 \<Longrightarrow> audio_thread port n st = Some (Some (- 1), [], st)"
    and "0 \<le> sint port \<Longrightarrow> \<exists>cs st'. audio_thread port n st = Some (None, cs, st') \<and>
      concat cs = take (2048 * n) (queued st) @ replicate (2048 * n - length (queued st)) 0 \<and>
      queued st' = drop (2048 * n) (queued st)"
  using chunk_loop_plays [OF assms, of "replicate 2048 0" n] by (auto simp: audio_thread_def)

text \<open>
  The hook stays in place when the port cannot be opened: the game then submits into a ring that nobody reads,
  and from some point on every submit is dropped.
\<close>

fun submits :: "i16 list list \<Rightarrow> ring \<Rightarrow> ring option" where
  "submits [] st = Some st"
| "submits (xs # xss) st = do { st \<leftarrow> ring_write xs (of_nat (length xs)) st; submits xss st }"

lemma submits_fill:
  assumes "ring_inv st" "\<forall>xs\<in>set xss. length xs < 2 ^ 32" "submits xss st = Some st'"
  shows "ring_inv st' \<and> (\<exists>ys. queued st' = queued st @ ys)"
  using assms
proof (induction xss arbitrary: st)
  case Nil
  then show ?case by simp
next
  case (Cons xs xss)
  have n: "unat (of_nat (length xs) :: u32) = length xs" using Cons.prems(2) by (simp add: unat_of_nat)
  show ?case
  proof (cases "length (queued st) + length xs \<le> 65536")
    case True
    then obtain st1 where "ring_write xs (of_nat (length xs)) st = Some st1" "ring_inv st1" "queued st1 = queued st @ xs"
      using ring_write_accepts [OF Cons.prems(1), of "of_nat (length xs)" xs] n by auto
    then show ?thesis using Cons.IH [of st1] Cons.prems(2,3) by fastforce
  next
    case False
    have "queued (st\<lparr>s_drops := s_drops st + 1\<rparr>) = queued st" by (simp add: queued_def ring_cell_def)
    then show ?thesis
      using ring_write_drop [OF Cons.prems(1), of "of_nat (length xs)" xs] n False Cons.IH [of "st\<lparr>s_drops := s_drops st + 1\<rparr>"] Cons.prems
      by (simp add: ring_inv_def del: length_queued)
  qed
qed

end
