(* ===== verification/Log.thy ===== *)
theory Log
  imports Files "HOL-Library.Sublist"
begin

text \<open>
  The log of \<open>stubs.c\<close>: one descriptor kept for the session, opened when the first line is written, closed and
  opened again once when a write fails.  A line is formatted into a buffer of 1024 bytes, but its formatted
  length is what is written.  The card is a parameter; a text is what the format and its arguments make, with no
  zero byte inside.
\<close>

section \<open>The card and the log\<close>

record 'c card_api =
  sceIoOpen :: "string \<Rightarrow> 'c \<Rightarrow> int \<times> 'c"
  sceIoWrite :: "int \<Rightarrow> string \<Rightarrow> 'c \<Rightarrow> int \<times> 'c"
  sceIoClose :: "int \<Rightarrow> 'c \<Rightarrow> 'c"

record 'c log_state =
  log_fd :: int
  log_lock_init :: bool
  card :: 'c

definition log_init :: "'c \<Rightarrow> 'c log_state" where
  "log_init c = \<lparr>log_fd = - 1, log_lock_init = False, card = c\<rparr>"

definition log_open :: "'c card_api \<Rightarrow> 'c log_state \<Rightarrow> 'c log_state" where
  "log_open api s =
     (case sceIoOpen api (DATA_PATH @ ''/ssx.log'') (card s) of (fd, c) \<Rightarrow>
        if fd < 0
        then (case sceIoOpen api ''ux0:data/ssx.log'' c of (fd, c) \<Rightarrow> s\<lparr>log_fd := fd, card := c\<rparr>)
        else s\<lparr>log_fd := fd, card := c\<rparr>)"

text \<open>
  The bytes \<open>sceIoWrite\<close> reads: the first \<open>n\<close> of the buffer, which holds at most 1023 characters of the text and
  its terminator.  More than 1024 is a read past the buffer.
\<close>

definition line_bytes :: "string \<Rightarrow> string option" where
  "line_bytes line =
     (if length line > 1024 then None else Some (take (length line) (snprintf_text 1024 line @ [CHR 0x00])))"

definition debugPrintf :: "'c card_api \<Rightarrow> string \<Rightarrow> 'c log_state \<Rightarrow> 'c log_state option" where
  "debugPrintf api line s =
     (if line = [] then Some s
      else let s = s\<lparr>log_lock_init := True\<rparr>;
               s = (if log_fd s < 0 then log_open api s else s) in
        if log_fd s < 0 then Some s
        else do {
          b \<leftarrow> line_bytes line;
          let (w, c) = sceIoWrite api (log_fd s) b (card s);
          if 0 \<le> w then Some (s\<lparr>card := c\<rparr>)
          else let s = log_open api (s\<lparr>card := sceIoClose api (log_fd s) c\<rparr>) in
            if log_fd s < 0 then Some s
            else Some (s\<lparr>card := snd (sceIoWrite api (log_fd s) b (card s))\<rparr>) })"

text \<open>\<open>log_vprintf\<close>: the message is cut to its own buffer, and then formatted behind its tag.\<close>

definition log_vprintf :: "'c card_api \<Rightarrow> string \<Rightarrow> string option \<Rightarrow> 'c log_state \<Rightarrow> 'c log_state option" where
  "log_vprintf api tag msg s =
     (case msg of
        None \<Rightarrow> Some s
      | Some msg \<Rightarrow> debugPrintf api (''['' @ tag @ ''] '' @ snprintf_text 1024 msg @ ''\<newline>'') s)"

definition android_log_print :: "'c card_api \<Rightarrow> string \<Rightarrow> string option \<Rightarrow> 'c log_state \<Rightarrow> (int \<times> 'c log_state) option" where
  "android_log_print api tag msg s = map_option (Pair 0) (log_vprintf api tag msg s)"

definition android_log_write :: "'c card_api \<Rightarrow> string \<Rightarrow> string \<Rightarrow> 'c log_state \<Rightarrow> (int \<times> 'c log_state) option" where
  "android_log_write api tag msg s =
     map_option (Pair 0) (debugPrintf api (''['' @ tag @ ''] '' @ msg @ ''\<newline>'') s)"

section \<open>Every line once\<close>

text \<open>
  The documented behaviour of the card: a write that succeeds appends what it is given to the log, and nothing
  else touches it.
\<close>

definition card_law :: "'c card_api \<Rightarrow> ('c \<Rightarrow> string) \<Rightarrow> bool" where
  "card_law api logged \<longleftrightarrow>
     (\<forall>p c. logged (snd (sceIoOpen api p c)) = logged c) \<and>
     (\<forall>fd c. logged (sceIoClose api fd c) = logged c) \<and>
     (\<forall>fd b c. logged (snd (sceIoWrite api fd b c)) =
        (if 0 \<le> fst (sceIoWrite api fd b c) then logged c @ b else logged c))"

lemma card_lawD:
  assumes "card_law api logged"
  shows "sceIoOpen api p c = (fd, c2) \<Longrightarrow> logged c2 = logged c"
    and "logged (sceIoClose api fd c) = logged c"
    and "sceIoWrite api fd b c = (w, c2) \<Longrightarrow> logged c2 = (if 0 \<le> w then logged c @ b else logged c)"
    and "logged (snd (sceIoWrite api fd b c)) = logged c @ b \<or> logged (snd (sceIoWrite api fd b c)) = logged c"
  using assms unfolding card_law_def by (metis fst_conv snd_conv)+

lemma log_open_card: "card_law api logged \<Longrightarrow> logged (card (log_open api s)) = logged (card s)"
proof -
  assume law: "card_law api logged"
  obtain fd c where o: "sceIoOpen api (DATA_PATH @ ''/ssx.log'') (card s) = (fd, c)" by fastforce
  obtain fd2 c2 where o2: "sceIoOpen api ''ux0:data/ssx.log'' c = (fd2, c2)" by fastforce
  show ?thesis using card_lawD(1) [OF law o] card_lawD(1) [OF law o2] by (simp add: log_open_def o o2)
qed

lemma line_bytes_short: "length line \<le> 1023 \<Longrightarrow> line_bytes line = Some line"
  by (simp add: line_bytes_def snprintf_text_def)

lemma line_bytes_defined: "line_bytes line \<noteq> None \<longleftrightarrow> length line \<le> 1024"
  by (simp add: line_bytes_def)

fun log_lines :: "'c card_api \<Rightarrow> string list \<Rightarrow> 'c log_state \<Rightarrow> 'c log_state option" where
  "log_lines api [] s = Some s"
| "log_lines api (l # ls) s = Option.bind (debugPrintf api l s) (log_lines api ls)"

lemma one_line:
  assumes "card_law api logged" "length line \<le> 1023"
  shows "\<exists>t. debugPrintf api line s = Some t \<and>
    (logged (card t) = logged (card s) @ line \<or> logged (card t) = logged (card s))"
proof (cases "line = []")
  case True
  then show ?thesis by (simp add: debugPrintf_def)
next
  case False
  define u where "u = (let s = s\<lparr>log_lock_init := True\<rparr> in if log_fd s < 0 then log_open api s else s)"
  have u: "logged (card u) = logged (card s)" using log_open_card [OF assms(1)] by (simp add: u_def Let_def)
  show ?thesis
  proof (cases "log_fd u < 0")
    case True
    then have "debugPrintf api line s = Some u" using False by (simp add: debugPrintf_def u_def Let_def)
    then show ?thesis using u by blast
  next
    case fd: False
    obtain w c where w: "sceIoWrite api (log_fd u) line (card u) = (w, c)" by fastforce
    note c = card_lawD(3) [OF assms(1) w]
    show ?thesis
    proof (cases "0 \<le> w")
      case True
      have "debugPrintf api line s = Some (u\<lparr>card := c\<rparr>)"
        using \<open>line \<noteq> []\<close> fd True w line_bytes_short [OF assms(2)] unfolding debugPrintf_def Let_def u_def by simp
      then show ?thesis using c True u by simp
    next
      case bad: False
      define v where "v = log_open api (u\<lparr>card := sceIoClose api (log_fd u) c\<rparr>)"
      have v: "logged (card v) = logged (card s)"
        using log_open_card [OF assms(1)] card_lawD(2) [OF assms(1)] c bad u by (simp add: v_def)
      have "debugPrintf api line s =
          Some (if log_fd v < 0 then v else v\<lparr>card := snd (sceIoWrite api (log_fd v) line (card v))\<rparr>)"
        using \<open>line \<noteq> []\<close> fd bad w line_bytes_short [OF assms(2)] unfolding debugPrintf_def Let_def u_def v_def by simp
      then show ?thesis using v card_lawD(4) [OF assms(1), of "log_fd v" line "card v"] by auto
    qed
  qed
qed

definition card_works :: "'c card_api \<Rightarrow> bool" where
  "card_works api \<longleftrightarrow> (\<forall>p c. 0 \<le> fst (sceIoOpen api p c)) \<and> (\<forall>fd b c. 0 \<le> fst (sceIoWrite api fd b c))"

lemma one_line_written:
  assumes "card_law api logged" "length line \<le> 1023" "card_works api"
  shows "\<exists>t. debugPrintf api line s = Some t \<and> logged (card t) = logged (card s) @ line"
proof (cases "line = []")
  case True
  then show ?thesis by (simp add: debugPrintf_def)
next
  case False
  define u where "u = (let s = s\<lparr>log_lock_init := True\<rparr> in if log_fd s < 0 then log_open api s else s)"
  have u: "logged (card u) = logged (card s)" using log_open_card [OF assms(1)] by (simp add: u_def Let_def)
  have "0 \<le> log_fd (log_open api s)" for s :: "'a log_state"
  proof -
    obtain fd c where o: "sceIoOpen api (DATA_PATH @ ''/ssx.log'') (card s) = (fd, c)" by fastforce
    moreover have "0 \<le> fst (sceIoOpen api (DATA_PATH @ ''/ssx.log'') (card s))" using assms(3) by (simp add: card_works_def)
    ultimately show ?thesis by (simp add: log_open_def)
  qed
  then have fd: "\<not> log_fd u < 0" by (simp add: u_def Let_def not_less)
  obtain w c where w: "sceIoWrite api (log_fd u) line (card u) = (w, c)" by fastforce
  moreover have "0 \<le> fst (sceIoWrite api (log_fd u) line (card u))" using assms(3) by (simp add: card_works_def)
  ultimately have "0 \<le> w" by simp
  then have "debugPrintf api line s = Some (u\<lparr>card := c\<rparr>)"
    using False fd w line_bytes_short [OF assms(2)] unfolding debugPrintf_def Let_def u_def by simp
  then show ?thesis using card_lawD(3) [OF assms(1) w] \<open>0 \<le> w\<close> u by simp
qed


text \<open>A card whose first descriptor goes bad after one write: the second line goes to a new descriptor.\<close>

definition flaky_card :: "(nat \<times> string) card_api" where
  "flaky_card =
     \<lparr>sceIoOpen = (\<lambda>p (n, t). (int n + 3, n, t)),
      sceIoWrite = (\<lambda>fd b (n, t). if fd = 3 \<and> t \<noteq> [] then (- 5, Suc n, t) else (int (length b), n, t @ b)),
      sceIoClose = (\<lambda>fd c. c)\<rparr>"


section \<open>Shader sources in the log\<close>

text \<open>
  \<open>dump_src\<close> and the dump of a failed source print a text line by line: the loop looks for the next line feed and
  ends at the end of the text, so a line feed at the end makes no empty line.
\<close>

lemma rest_shorter: "dropWhile P q \<noteq> [] \<Longrightarrow> length (dropWhile P q) - Suc 0 < length q"
  using length_dropWhile_le [of P q] length_greater_0_conv [of "dropWhile P q"] by linarith

function source_lines :: "string \<Rightarrow> string list" where
  "source_lines q =
     (if q = [] then []
      else let e = dropWhile (\<lambda>c. c \<noteq> CHR 0x0A) q; l = takeWhile (\<lambda>c. c \<noteq> CHR 0x0A) q in
        if e = [] then [l] else l # source_lines (tl e))"
  by pat_completeness auto
termination
  by (relation "measure length") (auto simp: rest_shorter)

declare source_lines.simps [simp del]

definition dump_lines :: "string \<Rightarrow> string \<Rightarrow> string list" where
  "dump_lines number q =
     [''--- source of shader '' @ number @ '' ---\<newline>''] @ map (\<lambda>l. l @ [CHR 0x0A]) (source_lines q) @ [''--- end ---\<newline>'']"

lemma source_lines_join:
  "concat (map (\<lambda>l. l @ [CHR 0x0A]) (source_lines q)) = (if q = [] \<or> last q = CHR 0x0A then q else q @ [CHR 0x0A])"
proof (induction q rule: source_lines.induct)
  case (1 q)
  let ?e = "dropWhile (\<lambda>c. c \<noteq> CHR 0x0A) q" and ?l = "takeWhile (\<lambda>c. c \<noteq> CHR 0x0A) q"
  have q: "q = ?l @ ?e" by simp
  show ?case
  proof (cases "q = [] \<or> ?e = []")
    case True
    show ?thesis
    proof (cases "q = []")
      case True
      then show ?thesis by (subst source_lines.simps) simp
    next
      case nonempty: False
      then have all: "\<forall>c \<in> set q. c \<noteq> CHR 0x0A" using True by (simp add: dropWhile_eq_Nil_conv)
      then have "?l = q" by (simp add: takeWhile_eq_all_conv)
      then have "source_lines q = [q]" using nonempty True by (subst source_lines.simps) (simp add: Let_def)
      moreover have "last q \<noteq> CHR 0x0A" using all last_in_set [OF nonempty] by blast
      ultimately show ?thesis using nonempty by simp
    qed
  next
    case False
    then obtain c r where e: "?e = c # r" by (cases ?e) auto
    then have c: "c = CHR 0x0A" using hd_dropWhile [of "\<lambda>c. c \<noteq> CHR 0x0A" q] by simp
    have IH: "concat (map (\<lambda>l. l @ [CHR 0x0A]) (source_lines r)) =
        (if r = [] \<or> last r = CHR 0x0A then r else r @ [CHR 0x0A])"
      using "1.IH" [OF _ refl refl] False e by simp
    have s: "source_lines q = ?l # source_lines r"
      using source_lines.simps [of q] False e by (simp only: Let_def if_False list.sel de_Morgan_disj simp_thms list.distinct)
    obtain l where l: "?l = l" by blast
    have q: "q = l @ CHR 0x0A # r" using q unfolding e c l .
    show ?thesis unfolding s l list.map concat.simps IH by (simp add: q)
  qed
qed

lemma lines_written:
  assumes "card_law api logged" "card_works api"
  shows "\<forall>l \<in> set ls. length l \<le> 1023 \<Longrightarrow>
    \<exists>t. log_lines api ls s = Some t \<and> logged (card t) = logged (card s) @ concat ls"
proof (induction ls arbitrary: s)
  case (Cons l ls)
  obtain t where t: "debugPrintf api l s = Some t" "logged (card t) = logged (card s) @ l"
    using one_line_written [OF assms(1) _ assms(2), of l s] Cons.prems by auto
  obtain v where "log_lines api ls t = Some v" "logged (card v) = logged (card t) @ concat ls"
    using Cons.IH [of t] Cons.prems by auto
  then show ?case using t by simp
qed simp

text \<open>On a working card a source without overlong lines is in the log as it is, between its two marks.\<close>

lemma dump_is_source:
  assumes "card_law api logged" "card_works api" "\<forall>l \<in> set (dump_lines number q). length l \<le> 1023"
  shows "\<exists>t. log_lines api (dump_lines number q) s = Some t \<and>
    logged (card t) = logged (card s) @ ''--- source of shader '' @ number @ '' ---\<newline>'' @
      (if q = [] \<or> last q = CHR 0x0A then q else q @ [CHR 0x0A]) @ ''--- end ---\<newline>''"
proof -
  have "concat (dump_lines number q) = ''--- source of shader '' @ number @ '' ---\<newline>'' @
      (if q = [] \<or> last q = CHR 0x0A then q else q @ [CHR 0x0A]) @ ''--- end ---\<newline>''"
    unfolding dump_lines_def concat_append source_lines_join by simp
  then show ?thesis using lines_written [OF assms(1,2,3), of s] by metis
qed

section \<open>Lines that are too long\<close>

text \<open>
  A longer line is read past the end of the buffer as soon as the log is open; the Android log functions reach
  this with every message of 1018 characters or more, however short the tag.
\<close>

lemma long_line_overreads:
  "1024 < length line \<Longrightarrow> 0 \<le> log_fd s \<Longrightarrow> debugPrintf api line s = None"
  by (auto simp: debugPrintf_def line_bytes_def Let_def)

lemma long_message_overreads:
  "1018 \<le> length msg \<Longrightarrow> 3 \<le> length tag \<Longrightarrow> 0 \<le> log_fd s \<Longrightarrow> log_vprintf api tag (Some msg) s = None"
  unfolding log_vprintf_def by (simp, rule long_line_overreads) (simp_all add: snprintf_text_def)

end
