(* ===== verification/Traces.thy ===== *)
theory Traces
  imports Files
begin

text \<open>
  The lines the hooks and the watchdog of \<open>main.c\<close> put together in buffers of fixed size before they log them:
  the loader's request vectors, the words of a stack that point into the game's code, and the states of the
  registered threads.  A line is the text in its buffer; the models return what the buffer holds.
\<close>

section \<open>Numbers as text\<close>

function digits :: "nat \<Rightarrow> nat \<Rightarrow> nat list" where
  "digits b n = (if n < b \<or> b < 2 then [n] else digits b (n div b) @ [n mod b])"
  by pat_completeness auto
termination
  by (relation "measure (\<lambda>(b, n). n)") auto

declare digits.simps [simp del]

definition digit_char :: "bool \<Rightarrow> nat \<Rightarrow> char" where
  "digit_char upper d = char_of (if d < 10 then 48 + d else (if upper then 55 else 87) + d)"

text \<open>The conversions \<open>%X\<close>, \<open>%p\<close> (newlib's, with its prefix) and \<open>%d\<close>.\<close>

definition hex_upper :: "u32 \<Rightarrow> string" where
  "hex_upper v = map (digit_char True) (digits 16 (unat v))"

definition pointer_text :: "u32 \<Rightarrow> string" where
  "pointer_text v = ''0x'' @ map (digit_char False) (digits 16 (unat v))"

definition decimal :: "int \<Rightarrow> string" where
  "decimal i = (if i < 0 then ''-'' else []) @ map (digit_char False) (digits 10 (nat (abs i)))"

lemma length_digits: "n < b ^ k \<Longrightarrow> 0 < k \<Longrightarrow> 1 < b \<Longrightarrow> length (digits b n) \<le> k"
proof (induction b n arbitrary: k rule: digits.induct)
  case (1 b n)
  show ?case
  proof (cases "n < b")
    case True
    then show ?thesis using 1(3) by (subst digits.simps) simp
  next
    case False
    then have "k \<noteq> 1" using 1(2) by auto
    then have k: "1 < k" using 1(3) by simp
    have "n < b ^ (k - 1) * b" using 1(2) k by (simp add: power_eq_if mult.commute split: if_splits)
    then have "n div b < b ^ (k - 1)" using 1(4) by (simp add: less_mult_imp_div_less)
    then have "length (digits b (n div b)) \<le> k - 1" using 1(1) [of "k - 1"] False 1(4) k by simp
    then show ?thesis using False 1(4) k by (subst digits.simps) simp
  qed
qed

lemma unat_16: "unat (v :: u32) < 16 ^ 8"
  by (rule order_less_le_trans [OF unsigned_less]) simp

lemma length_hex: "length (hex_upper v) \<le> 8" "length (pointer_text v) \<le> 10"
  using length_digits [of "unat v" 16 8] unat_16 [of v] by (simp_all add: hex_upper_def pointer_text_def)

lemma length_decimal: "abs i < 10 ^ 10 \<Longrightarrow> length (decimal i) \<le> 11"
proof -
  assume "abs i < 10 ^ 10"
  then have "nat (abs i) < 10 ^ 10" by (simp add: nat_less_iff)
  then have "length (digits 10 (nat (abs i))) \<le> 10" using length_digits [of "nat (abs i)" 10 10] by simp
  moreover have "length (if i < 0 then ''-'' else []) \<le> 1" by simp
  ultimately show ?thesis unfolding decimal_def length_append length_map by linarith
qed

section \<open>Strings in buffers\<close>

text \<open>\<open>strncat(out, b, n - strlen(out) - 1)\<close>, the difference in unsigned 32-bit arithmetic.\<close>

definition strncat_fit :: "nat \<Rightarrow> string \<Rightarrow> string \<Rightarrow> string" where
  "strncat_fit n out b = out @ take (unat (of_nat n - of_nat (length out) - 1 :: u32)) b"

lemma strncat_room: "length out < n \<Longrightarrow> n < 2 ^ 32 \<Longrightarrow>
    unat (of_nat n - of_nat (length out) - 1 :: u32) = n - length out - 1"
proof -
  assume a: "length out < n" "n < 2 ^ 32"
  have "(of_nat n - of_nat (length out) - 1 :: u32) = of_nat (n - length out - 1)"
    using a(1) by (simp add: of_nat_diff)
  moreover have "n - length out - 1 < 2 ^ 32" using a by simp
  ultimately show ?thesis by (simp add: unat_of_nat)
qed

lemma strncat_fits: "length out < n \<Longrightarrow> n < 2 ^ 32 \<Longrightarrow> length (strncat_fit n out b) < n"
  by (simp add: strncat_fit_def strncat_room)

lemma strncat_whole: "length out + length b < n \<Longrightarrow> n < 2 ^ 32 \<Longrightarrow> strncat_fit n out b = out @ b"
  by (simp add: strncat_fit_def strncat_room)

lemma fold_strncat_fits:
  "length out < n \<Longrightarrow> n < 2 ^ 32 \<Longrightarrow> length (fold (\<lambda>b out. strncat_fit n out b) bs out) < n"
  by (induction bs arbitrary: out) (simp_all add: strncat_fits)

lemma fold_strncat_whole:
  "length out + length (concat bs) < n \<Longrightarrow> n < 2 ^ 32 \<Longrightarrow>
   fold (\<lambda>b out. strncat_fit n out b) bs out = out @ concat bs"
  by (induction bs arbitrary: out) (simp_all add: strncat_whole)

lemma concat_bounded: "\<forall>b \<in> set bs. length b \<le> k \<Longrightarrow> length (concat bs) \<le> length bs * k"
  by (induction bs) auto

section \<open>The request vectors\<close>

definition mailbox_offs :: "u32 list" where "mailbox_offs = [0x2c, 0x30, 0x118, 0x11c]"

text \<open>
  One vector: its descriptor at \<open>GALLOC + off\<close> holds its begin and its end.  The two callers differ in the size
  of the piece's buffer and in when they look at the first element.
\<close>

definition vector_count :: "memory \<Rightarrow> u32 \<Rightarrow> int" where
  "vector_count m v = sint (load32 m (v + 4) - load32 m v) div 4"

definition null_piece :: "u32 \<Rightarrow> string" where
  "null_piece off = '' [+'' @ hex_upper off @ '' null]''"

definition vector_text :: "memory \<Rightarrow> u32 \<Rightarrow> u32 \<Rightarrow> u32 \<Rightarrow> string" where
  "vector_text m galloc off first =
     '' [+'' @ hex_upper off @ '' n='' @ decimal (vector_count m (load32 m (galloc + off))) @ '' e0='' @
     pointer_text first @ '']''"

definition mailbox_piece :: "memory \<Rightarrow> u32 \<Rightarrow> u32 \<Rightarrow> string" where
  "mailbox_piece m galloc off =
     (let v = load32 m (galloc + off) in
      snprintf_text 64 (if v = 0 then null_piece off
        else vector_text m galloc off (if load32 m v \<noteq> 0 then load32 m (load32 m v) else 0)))"

definition mailbox_state :: "memory \<Rightarrow> u32 \<Rightarrow> nat \<Rightarrow> string" where
  "mailbox_state m galloc n = fold (\<lambda>off out. strncat_fit n out (mailbox_piece m galloc off)) mailbox_offs []"

definition sem_piece :: "memory \<Rightarrow> u32 \<Rightarrow> u32 \<Rightarrow> string" where
  "sem_piece m galloc off =
     (let v = load32 m (galloc + off) in
      snprintf_text 80 (if v = 0 then null_piece off
        else vector_text m galloc off (if 0 < vector_count m v then load32 m (load32 m v) else 0)))"

definition sem_vectors :: "memory \<Rightarrow> u32 \<Rightarrow> string" where
  "sem_vectors m galloc = fold (\<lambda>off out. strncat_fit 300 out (sem_piece m galloc off)) mailbox_offs ''vectors:''"

text \<open>The semaphores of the loader's handshake.\<close>

definition sem_label :: "u32 \<Rightarrow> u32 \<Rightarrow> string option" where
  "sem_label galloc a =
     (if a = galloc + 0x134 then Some ''TRANSLATOR'' else if a = galloc + 0x124 then Some ''ACK''
      else if a = galloc + 0x19c then Some ''LOADER'' else None)"

section \<open>The words of a stack\<close>

text \<open>\<open>strcat\<close> of at most 16 pieces: every word of the stack above that points into the game's code.\<close>

fun stack_pieces :: "u32 \<Rightarrow> nat \<Rightarrow> u32 list \<Rightarrow> string list" where
  "stack_pieces text_base n [] = []"
| "stack_pieces text_base n (v # vs) =
     (if \<not> n < 16 then []
      else if v \<ge> text_base \<and> v < text_base + 0x166D000
      then snprintf_text 16 ('' +0x'' @ hex_upper (v - text_base)) # stack_pieces text_base (n + 1) vs
      else stack_pieces text_base n vs)"

definition dtor_line :: "memory \<Rightarrow> u32 \<Rightarrow> u32 \<Rightarrow> string" where
  "dtor_line m text_base sp =
     ''   stack:'' @ concat (stack_pieces text_base 0 (map (\<lambda>i. load32 m (sp + 4 * of_nat i)) [0..<256]))"

section \<open>The watchdog\<close>

datatype thread_status = Running | Ready | Waiting nat | Dormant | Other_Status

definition wait_name :: "nat \<Rightarrow> string" where
  "wait_name wt =
     (case map_of [(1, ''sleep''), (2, ''delay''), (3, ''sema''), (4, ''eventflag''), (5, ''mutex''), (6, ''cond''),
        (8, ''lwmutex''), (10, ''lwcond''), (12, ''msgpipe''), (13, ''thread-end'')] wt of
        Some s \<Rightarrow> s | None \<Rightarrow> ''?'')"

definition status_text :: "thread_status \<Rightarrow> string" where
  "status_text st =
     (case st of Running \<Rightarrow> ''run'' | Ready \<Rightarrow> ''ready'' | Waiting wt \<Rightarrow> ''wait'' @ wait_name wt
      | Dormant \<Rightarrow> ''dormant'' | Other_Status \<Rightarrow> ''?'')"

text \<open>The registered threads with what the kernel says of them, \<open>None\<close> for a thread that is gone.\<close>

fun watchdog_pieces :: "nat \<Rightarrow> (string \<times> thread_status option) list \<Rightarrow> string list" where
  "watchdog_pieces n [] = []"
| "watchdog_pieces n ((name, st) # ts) =
     (if \<not> n < 20 then []
      else case st of
          None \<Rightarrow> watchdog_pieces n ts
        | Some st \<Rightarrow> snprintf_text 64 ('' ['' @ name @ '':'' @ status_text st @ '']'') # watchdog_pieces (n + 1) ts)"

definition watchdog_line :: "(string \<times> thread_status option) list \<Rightarrow> string" where
  "watchdog_line ts = fold (\<lambda>b out. strncat_fit 900 out b) (watchdog_pieces 0 ts) ''WATCHDOG:''"

section \<open>No line leaves its buffer\<close>

lemma vector_count_bound: "abs (vector_count m v) < 10 ^ 10"
proof -
  have "- (2 ^ 31) \<le> sint (x :: i32)" "sint x < 2 ^ 31" for x
    using sint_ge [of x] sint_lt [of x] by simp_all
  from this [of "load32 m (v + 4) - load32 m v"] show ?thesis
    unfolding vector_count_def by (simp add: abs_less_iff) linarith
qed

lemma vector_text_length: "length (vector_text m galloc off f) \<le> 41"
  using length_hex(1) [of off] length_hex(2) [of f] length_decimal [OF vector_count_bound, of m "load32 m (galloc + off)"]
  by (simp add: vector_text_def)

lemma piece_lengths: "length (mailbox_piece m galloc off) \<le> 41" "length (sem_piece m galloc off) \<le> 41"
proof -
  have "length (null_piece off) \<le> 41" using length_hex(1) [of off] by (simp add: null_piece_def)
  then show "length (mailbox_piece m galloc off) \<le> 41" "length (sem_piece m galloc off) \<le> 41"
    using vector_text_length by (auto simp: mailbox_piece_def sem_piece_def Let_def snprintf_text_def min_le_iff_disj)
qed

lemma stack_pieces_bounded:
  "n \<le> 16 \<Longrightarrow> length (stack_pieces tb n vs) \<le> 16 - n \<and> (\<forall>b \<in> set (stack_pieces tb n vs). length b \<le> 15)"
  by (induction tb n vs rule: stack_pieces.induct) (auto simp: snprintf_text_def)

text \<open>No piece is cut, so every number in the line is a complete one.\<close>

lemma stack_piece_whole:
  "snprintf_text 16 ('' +0x'' @ hex_upper v) = '' +0x'' @ hex_upper v"
  using length_hex(1) [of v] by (simp add: snprintf_text_def)

text \<open>
  C37: whatever the game's memory holds, no trace line leaves its buffer: the two lines about the request
  vectors (300 bytes) and the stack line built by unchecked concatenation (400 bytes) even hold all their pieces
  uncut, and the watchdog's line (900 bytes) stays inside for any threads with names of any length.
\<close>

theorem trace_lines_fit:
  "mailbox_state m galloc 300 = concat (map (mailbox_piece m galloc) mailbox_offs) \<and>
   sem_vectors m galloc = ''vectors:'' @ concat (map (sem_piece m galloc) mailbox_offs) \<and>
   length (mailbox_state m galloc 300) < 300 \<and> length (sem_vectors m galloc) < 300 \<and>
   length (dtor_line m text_base sp) < 400 \<and> length (watchdog_line ts) < 900"
proof -
  have len: "length mailbox_offs = 4" by (simp add: mailbox_offs_def)
  have fold: "fold (\<lambda>off out. strncat_fit n out (f off)) offs out = fold (\<lambda>b out. strncat_fit n out b) (map f offs) out"
    for n f out and offs :: "u32 list"
    by (induction offs arbitrary: out) simp_all
  let ?a = "map (mailbox_piece m galloc) mailbox_offs" and ?b = "map (sem_piece m galloc) mailbox_offs"
  have a: "length (concat ?a) \<le> 164" using concat_bounded [of ?a 41] piece_lengths(1) len by simp
  have b: "length (concat ?b) \<le> 164" using concat_bounded [of ?b 41] piece_lengths(2) len by simp
  have 1: "mailbox_state m galloc 300 = concat ?a"
    unfolding mailbox_state_def fold using fold_strncat_whole [of "[]" ?a 300] a by simp
  have 2: "sem_vectors m galloc = ''vectors:'' @ concat ?b"
    unfolding sem_vectors_def fold using fold_strncat_whole [of "''vectors:''" ?b 300] b by simp
  let ?s = "stack_pieces text_base 0 (map (\<lambda>i. load32 m (sp + 4 * of_nat i)) [0..<256])"
  have "length ?s \<le> 16" "\<forall>x \<in> set ?s. length x \<le> 15"
    using stack_pieces_bounded [of 0 text_base "map (\<lambda>i. load32 m (sp + 4 * of_nat i)) [0..<256]"] by simp_all
  then have "length (concat ?s) \<le> 16 * 15"
    using concat_bounded [of ?s 15] mult_le_mono1 [of "length ?s" 16 15] by linarith
  then have 3: "length (dtor_line m text_base sp) < 400" by (simp add: dtor_line_def del: upt_conv_Cons)
  have 4: "length (watchdog_line ts) < 900" unfolding watchdog_line_def by (rule fold_strncat_fits) simp_all
  show ?thesis using 1 2 3 4 a b by simp
qed

end
