(* ===== verification/Trace_Hooks.thy ===== *)
theory Trace_Hooks
  imports Traces Engine_Hooks So_Symbols "HOL-Library.Signed_Division" "HOL-Library.Sublist"
begin

text \<open>
  The hooks of \<open>main.c\<close> that only watch the engine: each looks at its arguments and at memory, logs lines while its
  counter is below its limit, and calls the function it replaces with the arguments it was given.  The engine is a
  program whose calls of hooked functions may nest; the functions behind the trampolines are parameters.
\<close>

section \<open>The hooks\<close>

datatype traced =
    AssetRelease u32 i32 i32
  | ChunkifyFail u32
  | AssetDtor1 u32
  | AssetDtor2 u32
  | SemPost u32 i32
  | SemWait u32 u32
  | LoadingUpdate
  | UnpackUpdate
  | OutOfMemory u32
  | SfUnmap u32

text \<open>What a hook sees of its caller: return address, thread, stack pointer and the time.\<close>

record caller =
  ret_addr :: u32
  thread_id :: u32
  stack_ptr :: u32
  now :: "int \<times> int"

text \<open>
  The counters are the \<open>static int\<close>s of the hooks, one each.  \<open>timespec_at\<close> reads a \<open>struct timespec\<close> in the
  platform's layout.
\<close>

record 'g tracer =
  game :: 'g
  release_n :: i32
  dtor_logged :: i32
  post_c :: i32
  vectors_c :: i32
  wait_c :: i32
  stage_log :: i32
  unmap_n :: i32
  translator_tid :: u32
  done_tab :: "(u32 \<times> u32) list"
  live_peak_freed :: "u32 \<times> u32 \<times> u32"
  lines :: "string list"

record 'g engine =
  mem_of :: "'g \<Rightarrow> memory"
  text_base :: u32
  timespec_at :: "memory \<Rightarrow> u32 \<Rightarrow> int \<times> int"

definition GALLOC :: "'g engine \<Rightarrow> u32" where
  "GALLOC e = text_base e + 0x17ca390"

definition game_word :: "'g engine \<Rightarrow> 'g tracer \<Rightarrow> u32 \<Rightarrow> u32" where
  "game_word e s a = load32 (mem_of e (game s)) a"

definition say :: "string \<Rightarrow> 'g tracer \<Rightarrow> 'g tracer" where
  "say line s = s\<lparr>lines := lines s @ [line]\<rparr>"

definition say_if :: "bool \<Rightarrow> string \<Rightarrow> 'g tracer \<Rightarrow> 'g tracer" where
  "say_if b line s = (if b then say line s else s)"

text \<open>\<open>%u\<close>, \<open>%d\<close>, \<open>%x\<close>, \<open>%08X\<close> and \<open>%s\<close>.\<close>

definition unsigned_text :: "u32 \<Rightarrow> string" where "unsigned_text v = decimal (uint v)"
definition signed_text :: "i32 \<Rightarrow> string" where "signed_text v = decimal (sint v)"
definition hex_lower :: "u32 \<Rightarrow> string" where "hex_lower v = map (digit_char False) (digits 16 (unat v))"
definition hex_08 :: "u32 \<Rightarrow> string" where
  "hex_08 v = replicate (8 - length (hex_upper v)) (CHR ''0'') @ hex_upper v"
definition text_at :: "memory \<Rightarrow> u32 \<Rightarrow> string" where
  "text_at m a = (case cstr m a of Some bs \<Rightarrow> map (\<lambda>b. char_of (unat b)) bs | None \<Rightarrow> [])"

definition release_text :: "'g engine \<Rightarrow> caller \<Rightarrow> u32 \<Rightarrow> i32 \<Rightarrow> i32 \<Rightarrow> 'g tracer \<Rightarrow> string" where
  "release_text e c asset b state s =
     ''Release('' @ pointer_text asset @ '', '' @ signed_text b @ '', '' @ signed_text state @ '') refs='' @
     unsigned_text (drop_bit 2 (game_word e s (asset + 32))) @ '' from game+0x'' @
     hex_upper (ret_addr c - text_base e) @ ''\<newline>''"

definition hook_AssetRelease :: "'g engine \<Rightarrow> caller \<Rightarrow> u32 \<Rightarrow> i32 \<Rightarrow> i32 \<Rightarrow> 'g tracer \<Rightarrow> 'g tracer" where
  "hook_AssetRelease e c asset b state s =
     (say_if (sint (release_n s) < 12) (release_text e c asset b state s) s)\<lparr>release_n := release_n s + 1\<rparr>"

definition hook_ChunkifyFail :: "'g engine \<Rightarrow> u32 \<Rightarrow> 'g tracer \<Rightarrow> 'g tracer" where
  "hook_ChunkifyFail e asset s =
     say (''ChunkifyFail: '' @
       (if asset \<noteq> 0 \<and> game_word e s (asset + 24) \<noteq> 0
        then text_at (mem_of e (game s)) (game_word e s (asset + 24)) else ''?'') @
       '' asset='' @ pointer_text asset @ ''\<newline>'') s"

definition dtor_text :: "'g engine \<Rightarrow> caller \<Rightarrow> u32 \<Rightarrow> 'g tracer \<Rightarrow> string" where
  "dtor_text e c asset s =
     ''~Asset('' @ pointer_text asset @ '') from game+0x'' @ hex_upper (ret_addr c - text_base e) @
     '' size='' @ unsigned_text (game_word e s (asset + 8)) @ ''\<newline>''"

definition log_dtor :: "'g engine \<Rightarrow> caller \<Rightarrow> u32 \<Rightarrow> 'g tracer \<Rightarrow> 'g tracer" where
  "log_dtor e c asset s =
     (if sint (dtor_logged s) < 40
      then say (dtor_line (mem_of e (game s)) (text_base e) (stack_ptr c) @ ''\<newline>'')
        (say (dtor_text e c asset s) s)
      else s)\<lparr>dtor_logged := dtor_logged s + 1\<rparr>"

definition hook_AssetDtor :: "'g engine \<Rightarrow> caller \<Rightarrow> u32 \<Rightarrow> 'g tracer \<Rightarrow> 'g tracer" where
  "hook_AssetDtor e c asset s = (log_dtor e c asset s)\<lparr>done_tab := forget_done asset (done_tab s)\<rparr>"

text \<open>After the original \<open>SemPost\<close>.\<close>

definition post_text :: "caller \<Rightarrow> string \<Rightarrow> i32 \<Rightarrow> string" where
  "post_text c l n = ''sem POST '' @ l @ '' +'' @ signed_text n @ '' (thread '' @ hex_lower (thread_id c) @ '')\<newline>''"

definition hook_SemPost :: "'g engine \<Rightarrow> caller \<Rightarrow> u32 \<Rightarrow> i32 \<Rightarrow> 'g tracer \<Rightarrow> 'g tracer" where
  "hook_SemPost e c sem n s =
     (case sem_label (GALLOC e) sem of
        None \<Rightarrow> s
      | Some l \<Rightarrow>
          (say_if (sint (post_c s) < 400) (post_text c l n) s)\<lparr>post_c := post_c s + 1\<rparr>)"

text \<open>Before the original \<open>SemWait\<close>: the time left of the deadline, in milliseconds, is kept for the line after.\<close>

definition time_left_ms :: "int \<times> int \<Rightarrow> int \<times> int \<Rightarrow> int" where
  "time_left_ms d t = (fst d - fst t) * 1000 + (snd d - snd t) sdiv 1000000"

definition hook_SemWait_before :: "'g engine \<Rightarrow> caller \<Rightarrow> u32 \<Rightarrow> u32 \<Rightarrow> 'g tracer \<Rightarrow> int \<times> 'g tracer" where
  "hook_SemWait_before e c sem tt s =
     (if sem_label (GALLOC e) sem \<noteq> None \<and> tt \<noteq> 0
      then time_left_ms (timespec_at e (mem_of e (game s)) tt) (now c) else - 1,
      if sem = GALLOC e + 0x134 then s\<lparr>translator_tid := thread_id c\<rparr> else s)"

definition wait_text :: "caller \<Rightarrow> string \<Rightarrow> int \<Rightarrow> i32 \<Rightarrow> string" where
  "wait_text c l rel r =
     ''sem WAIT '' @ l @ '' timeout='' @ decimal rel @ ''ms -> '' @ signed_text r @ '' (thread '' @
     hex_lower (thread_id c) @ '')\<newline>''"

definition hook_SemWait_after :: "'g engine \<Rightarrow> caller \<Rightarrow> u32 \<Rightarrow> int \<Rightarrow> i32 \<Rightarrow> 'g tracer \<Rightarrow> 'g tracer" where
  "hook_SemWait_after e c sem rel r s =
     (let s = (if sem = GALLOC e + 0x134
          then (say_if (sint (vectors_c s) < 200) (sem_vectors (mem_of e (game s)) (GALLOC e) @ ''\<newline>'') s)
            \<lparr>vectors_c := vectors_c s + 1\<rparr>
          else s) in
      case sem_label (GALLOC e) sem of
        None \<Rightarrow> s
      | Some l \<Rightarrow>
          (say_if (sint (wait_c s) < 400) (wait_text c l rel r) s)\<lparr>wait_c := wait_c s + 1\<rparr>)"

text \<open>The two stages share their counter, which moves after the original.\<close>

definition stage_before :: "'g engine \<Rightarrow> string \<Rightarrow> 'g tracer \<Rightarrow> 'g tracer" where
  "stage_before e name s =
     say_if (sint (stage_log s) < 200) (name @ '' in '' @ mailbox_state (mem_of e (game s)) (GALLOC e) 300 @ ''\<newline>'') s"

definition stage_after :: "'g engine \<Rightarrow> string \<Rightarrow> 'g tracer \<Rightarrow> 'g tracer" where
  "stage_after e name s =
     (say_if (sint (stage_log s) < 200) (name @ '' out'' @ mailbox_state (mem_of e (game s)) (GALLOC e) 300 @ ''\<newline>'') s)
     \<lparr>stage_log := stage_log s + 1\<rparr>"

text \<open>Words of the failure that point into the loaded game are shown as strings, at most 60 characters each.\<close>

definition memory_text :: "u32 list \<Rightarrow> u32 \<times> u32 \<times> u32 \<Rightarrow> string" where
  "memory_text w k =
     (case k of (live, peak, freed) \<Rightarrow>
        ''OUT OF MEMORY: words'' @ concat (map (\<lambda>v. '' '' @ hex_08 v) w) @ '' (Render live '' @
        unsigned_text (live div 1024) @ ''KB peak '' @ unsigned_text (peak div 1024) @
        ''KB, texture copies freed '' @ unsigned_text (freed div 1024) @ ''KB)\<newline>'')"

definition hook_OutOfMemory :: "'g engine \<Rightarrow> u32 \<Rightarrow> 'g tracer \<Rightarrow> 'g tracer" where
  "hook_OutOfMemory e mf s =
     (let w = map (\<lambda>i. game_word e s (mf + 4 * of_nat i)) [0..<8];
        s = say (memory_text w (live_peak_freed s)) s in
      fold (\<lambda>i s. say_if (w ! i > 0x94000000 \<and> w ! i < 0x95900000)
        (''  str['' @ decimal (int i) @ '']='' @ take 60 (text_at (mem_of e (game s)) (w ! i)) @ ''\<newline>'') s) [0..<8] s)"

definition unmap_text :: "u32 \<Rightarrow> u32 \<Rightarrow> (u32 \<Rightarrow> u32) \<Rightarrow> u32 \<times> u32 \<times> u32 \<times> u32 \<Rightarrow> string" where
  "unmap_text base self w k =
     (case k of (hal, obj, vt, fn) \<Rightarrow>
        ''SfUnmap: this='' @ pointer_text self @ '' flags='' @ hex_08 (w 1) @ '' size='' @ unsigned_text (w 5) @
        '' data='' @ hex_08 (w 6) @ '' buf='' @ unsigned_text (w 10) @ '' hal='' @ hex_08 hal @ '' obj='' @ hex_08 obj @
        '' vt='' @ hex_08 vt @ '' slot15='' @ hex_08 fn @ '' (game+0x'' @
        hex_upper (if fn \<ge> base then fn - base else 0) @ '')\<newline>'')"

definition hook_SfUnmap :: "'g engine \<Rightarrow> u32 \<Rightarrow> 'g tracer \<Rightarrow> 'g tracer" where
  "hook_SfUnmap e self s =
     (let w = (\<lambda>i. game_word e s (self + 4 * i)); hal = w 7;
        obj = (if hal \<noteq> 0 then game_word e s (hal + 0x1eb30) else 0);
        vt = (if obj \<noteq> 0 then game_word e s obj else 0);
        fn = (if vt \<noteq> 0 then game_word e s (vt + 0x3c) else 0) in
      (say_if (sint (unmap_n s) < 8) (unmap_text (text_base e) self w (hal, obj, vt, fn)) s)
      \<lparr>unmap_n := unmap_n s + 1\<rparr>)"

section \<open>Before and after the original\<close>

fun hook_before :: "'g engine \<Rightarrow> caller \<Rightarrow> traced \<Rightarrow> 'g tracer \<Rightarrow> int \<times> 'g tracer" where
  "hook_before e c (AssetRelease a b st) s = (0, hook_AssetRelease e c a b st s)"
| "hook_before e c (ChunkifyFail a) s = (0, hook_ChunkifyFail e a s)"
| "hook_before e c (AssetDtor1 a) s = (0, hook_AssetDtor e c a s)"
| "hook_before e c (AssetDtor2 a) s = (0, hook_AssetDtor e c a s)"
| "hook_before e c (SemPost sem n) s = (0, s)"
| "hook_before e c (SemWait sem tt) s = hook_SemWait_before e c sem tt s"
| "hook_before e c LoadingUpdate s = (0, stage_before e ''LoadingUpdate'' s)"
| "hook_before e c UnpackUpdate s = (0, stage_before e ''UnpackUpdate'' s)"
| "hook_before e c (OutOfMemory mf) s = (0, hook_OutOfMemory e mf s)"
| "hook_before e c (SfUnmap self) s = (0, hook_SfUnmap e self s)"

fun hook_after :: "'g engine \<Rightarrow> caller \<Rightarrow> traced \<Rightarrow> int \<Rightarrow> u32 \<Rightarrow> 'g tracer \<Rightarrow> 'g tracer" where
  "hook_after e c (SemPost sem n) kept r s = hook_SemPost e c sem n s"
| "hook_after e c (SemWait sem tt) kept r s = hook_SemWait_after e c sem kept r s"
| "hook_after e c LoadingUpdate kept r s = stage_after e ''LoadingUpdate'' s"
| "hook_after e c UnpackUpdate kept r s = stage_after e ''UnpackUpdate'' s"
| "hook_after e c _ kept r s = s"

section \<open>The engine with and without them\<close>

text \<open>
  The engine's code: it changes its state, looks at it, and calls traced functions, whose bodies are such code
  too.  A run need not end.
\<close>

datatype 'g code =
    Return u32
  | Change "'g \<Rightarrow> 'g" "'g code"
  | Inspect "'g \<Rightarrow> 'g code"
  | Invoke caller traced "u32 \<Rightarrow> 'g code"

inductive plain_run :: "(traced \<Rightarrow> 'g code) \<Rightarrow> 'g code \<Rightarrow> 'g \<Rightarrow> u32 \<Rightarrow> 'g \<Rightarrow> bool" for body where
  plain_return: "plain_run body (Return r) g r g"
| plain_change: "plain_run body k (f g) r g2 \<Longrightarrow> plain_run body (Change f k) g r g2"
| plain_inspect: "plain_run body (k g) g r g2 \<Longrightarrow> plain_run body (Inspect k) g r g2"
| plain_invoke: "plain_run body (body t) g x g2 \<Longrightarrow> plain_run body (k x) g2 r g3 \<Longrightarrow> plain_run body (Invoke c t k) g r g3"

inductive hooked_run :: "'g engine \<Rightarrow> (traced \<Rightarrow> 'g code) \<Rightarrow> 'g code \<Rightarrow> 'g tracer \<Rightarrow> u32 \<Rightarrow> 'g tracer \<Rightarrow> bool"
  for e body where
  hooked_return: "hooked_run e body (Return r) s r s"
| hooked_change: "hooked_run e body k (s\<lparr>game := f (game s)\<rparr>) r s2 \<Longrightarrow> hooked_run e body (Change f k) s r s2"
| hooked_inspect: "hooked_run e body (k (game s)) s r s2 \<Longrightarrow> hooked_run e body (Inspect k) s r s2"
| hooked_invoke: "hook_before e c t s = (kept, s1) \<Longrightarrow> hooked_run e body (body t) s1 x s2 \<Longrightarrow>
    hooked_run e body (k x) (hook_after e c t kept x s2) r s3 \<Longrightarrow> hooked_run e body (Invoke c t k) s r s3"

lemma game_say [simp]: "game (say l s) = game s" "game (say_if b l s) = game s"
  by (simp_all add: say_def say_if_def)

lemma game_fold_say [simp]: "game (fold (\<lambda>i s. say_if (b i) (l i s) s) is s) = game s"
  by (induction "is" arbitrary: s) simp_all

lemma game_hooks [simp]:
  "game (hook_AssetRelease e c a b st s) = game s"
  "game (hook_ChunkifyFail e a s) = game s"
  "game (hook_AssetDtor e c a s) = game s"
  "game (stage_before e n s) = game s"
  "game (hook_OutOfMemory e a s) = game s"
  "game (hook_SfUnmap e a s) = game s"
  "game (snd (hook_SemWait_before e c a tt s)) = game s"
  by (simp_all add: hook_AssetRelease_def hook_ChunkifyFail_def hook_AssetDtor_def log_dtor_def stage_before_def
      hook_OutOfMemory_def hook_SfUnmap_def hook_SemWait_before_def Let_def)

lemma hook_before_game: "game (snd (hook_before e c t s)) = game s"
  by (cases t) simp_all

lemma hook_after_game [simp]: "game (hook_after e c t kept r s) = game s"
  by (cases t) (simp_all add: hook_SemPost_def hook_SemWait_after_def stage_after_def Let_def split: option.split)

lemma hooked_is_plain: "hooked_run e body p s r s2 \<Longrightarrow> plain_run body p (game s) r (game s2)"
proof (induction rule: hooked_run.induct)
  case (hooked_invoke c t s kept s1 x s2 k r s3)
  then show ?case using hook_before_game [of e c t s] by (auto intro: plain_run.intros)
qed (auto intro: plain_run.intros)

lemma plain_is_hooked: "plain_run body p g r g2 \<Longrightarrow> game s = g \<Longrightarrow> \<exists>s2. hooked_run e body p s r s2 \<and> game s2 = g2"
proof (induction arbitrary: s rule: plain_run.induct)
  case (plain_return r g)
  then show ?case by (auto intro: hooked_run.intros)
next
  case (plain_change k f g r g2)
  from plain_change.IH [of "s\<lparr>game := f g\<rparr>"] show ?case using plain_change.prems by (auto intro: hooked_run.intros)
next
  case (plain_inspect k g r g2)
  from plain_inspect.IH [of s] show ?case using plain_inspect.prems by (auto intro: hooked_run.intros)
next
  case (plain_invoke t g x g2 k r g3 c)
  obtain kept s1 where b: "hook_before e c t s = (kept, s1)" by fastforce
  then have "game s1 = g" using hook_before_game [of e c t s] plain_invoke.prems by simp
  then obtain s2 where s2: "hooked_run e body (body t) s1 x s2" "game s2 = g2" using plain_invoke.IH(1) by blast
  obtain s3 where "hooked_run e body (k x) (hook_after e c t kept x s2) r s3" "game s3 = g3"
    using plain_invoke.IH(2) [of "hook_after e c t kept x s2"] s2(2) by auto
  then show ?case using b s2(1) by (blast intro: hooked_run.intros)
qed


text \<open>A wait on the translator's semaphore is logged, with the vectors, and returns what the original returns.\<close>

lemma traced_wait:
  assumes "text_base e = 0x94000000" "sem_label (GALLOC e) sem = Some ''TRANSLATOR''" "sem = GALLOC e + 0x134"
    "sint (vectors_c s) < 200" "sint (wait_c s) < 400" "lines s = []"
  shows "length (lines (hook_after e c (SemWait sem tt) kept r s)) = 2"
  using assms by (simp add: hook_SemWait_after_def say_if_def say_def Let_def)

section \<open>The tutorial that is suppressed\<close>

text \<open>\<open>hook_FETutorialCheck\<close> never calls the original: there is no tutorial for any key.\<close>

definition hook_FETutorialCheck :: "memory \<Rightarrow> u32 \<Rightarrow> i32 \<Rightarrow> u32 \<times> i32 \<times> string list" where
  "hook_FETutorialCheck m key n =
     (0, n + 1,
      if sint n < 20
      then [''FETutorialCheck(key '' @ hex_08 (if key \<noteq> 0 then load32 m key else 0) @ '') suppressed\<newline>''] else [])"

section \<open>Reports about the memory categories\<close>

text \<open>The large allocations that \<open>memcat_trace\<close> logs, by the name of their category.\<close>

definition category_traced :: "string \<Rightarrow> bool" where
  "category_traced cn \<longleftrightarrow>
     cn = ''Render'' \<or> cn = ''Global'' \<or> prefix ''Sys::'' cn \<or> prefix ''Audio::'' cn \<or> prefix ''GameWorld'' cn \<or>
     prefix ''GP::'' cn \<or> prefix ''FE::'' cn"

definition memcat_trace :: "memory \<Rightarrow> u32 \<Rightarrow> u32 \<Rightarrow> u32 \<Rightarrow> u32 \<Rightarrow> u32 \<Rightarrow> i32 \<Rightarrow> i32 \<times> string list" where
  "memcat_trace m base cat sz name ra n =
     (let cn = text_at m (cat + 0x1E0) in
      if sz < 128 * 1024 \<or> sint n \<ge> 900 \<or> \<not> category_traced cn then (n, [])
      else (n + 1,
        [''memalloc '' @ cn @ '' '' @ unsigned_text (sz div 1024) @ ''KB '' @ [CHR 0x27] @
         (if name \<noteq> 0 then text_at m name else []) @ [CHR 0x27] @ '' from game+0x'' @ hex_upper (ra - base) @ ''\<newline>'']))"

text \<open>One line per category seen; the figures are the engine's own, zero when its function was not found.\<close>

definition memcat_line :: "memory \<Rightarrow> (u32 \<Rightarrow> u32 list) option \<Rightarrow> u32 \<Rightarrow> string" where
  "memcat_line m get_stats cat =
     (let nm = text_at m (cat + 0x1E0); nm = (if nm = [] then ''?'' else nm);
        st = (case get_stats of Some f \<Rightarrow> f cat | None \<Rightarrow> replicate 7 0) in
      ''memstat '' @ nm @ replicate (24 - length nm) (CHR '' '') @ '' stats(KB)'' @
      concat (map (\<lambda>v. '' '' @ unsigned_text (v div 1024)) st) @ ''\<newline>'')"

definition memcat_report :: "memory \<Rightarrow> (u32 \<Rightarrow> u32 list) option \<Rightarrow> account \<Rightarrow> string list" where
  "memcat_report m get_stats s = map (memcat_line m get_stats) (memcat s)"

lemma unsigned_length: "length (unsigned_text v) \<le> 11"
proof -
  have "uint v < 2 ^ 32" using unsigned_less [of v] by simp
  then show ?thesis unfolding unsigned_text_def by (intro length_decimal) simp
qed

text \<open>Small allocations and those of other categories are never logged.\<close>

lemma small_not_traced: "sz < 128 * 1024 \<Longrightarrow> memcat_trace m base cat sz name ra n = (n, [])"
  by (simp add: memcat_trace_def Let_def)

end
