(* ===== verification/Linking.thy ===== *)
theory Linking
  imports So_Link Gl_Shim
begin

text \<open>
  The relocation pass and the import table together: what the words of the game's image hold after
  \<open>so_resolve\<close> has run over the table of \<open>default_dynlib.c\<close>.  A function of the loader is an address, \<open>addr f\<close>.
\<close>

definition c_text :: "string \<Rightarrow> u8 list" where
  "c_text s = map of_char s"

definition game_imports :: "(string \<Rightarrow> u32) \<Rightarrow> (u8 list \<times> u32) list" where
  "game_imports addr = map (\<lambda>(n, f). (c_text n, addr f)) default_dynlib"

section \<open>Names as bytes\<close>

lemma unat_of_char: "unat (of_char c :: u8) = of_char c"
proof -
  have "(of_char c :: u8) = of_nat (of_char c)" by (simp only: of_nat_of_char)
  moreover have "(of_char c :: nat) < 2 ^ 8" by simp
  ultimately show ?thesis by (simp add: unat_of_nat del: of_nat_of_char)
qed

lemma of_char_u8_eq: "(of_char c :: u8) = of_char d \<longleftrightarrow> c = d"
  by (metis unat_of_char of_char_eq_iff)

lemma c_text_eq: "c_text s = c_text t \<longleftrightarrow> s = t"
  unfolding c_text_def by (rule inj_map_eq_map) (simp add: inj_def of_char_u8_eq)

definition zero_free :: "string \<times> string \<Rightarrow> bool" where
  "zero_free r \<longleftrightarrow> CHR 0x00 \<notin> set (fst r)"

lemma zero_free_bytes: "zero_free (n, f) \<Longrightarrow> 0 \<notin> set (c_text n)"
proof
  assume z: "zero_free (n, f)" "0 \<in> set (c_text n)"
  then obtain c where c: "c \<in> set n" "(of_char c :: u8) = 0" by (auto simp: c_text_def)
  have "(of_char (CHR 0x00) :: u8) = 0" by simp
  then have "c = CHR 0x00" using c(2) of_char_u8_eq [of c "CHR 0x00"] by simp
  then show False using z(1) c(1) by (simp add: zero_free_def)
qed

lemma zero_free_rows:
  "list_all zero_free default_dynlib_a" "list_all zero_free default_dynlib_b"
  "list_all zero_free default_dynlib_c" "list_all zero_free default_dynlib_d"
  unfolding default_dynlib_a_def default_dynlib_b_def default_dynlib_c_def default_dynlib_d_def
  by (simp_all add: zero_free_def)

lemma zero_free_table: "list_all zero_free default_dynlib"
  using zero_free_rows by (simp add: default_dynlib_def)

section \<open>Looking a name up\<close>

lemma search_is_lookup:
  assumes "cstr m a = Some (c_text n)" "list_all zero_free t"
  shows "dynlib_search m (map (\<lambda>(n, f). (c_text n, addr f)) t) a = map_option addr (map_of t n)"
  using assms(2)
proof (induction t)
  case Nil
  then show ?case by simp
next
  case (Cons r t)
  obtain k f where r: "r = (k, f)" by fastforce
  have "streq m a (c_text k) \<longleftrightarrow> k = n"
    using streq_iff_cstr zero_free_bytes [of k f] Cons.prems assms(1) by (auto simp: r c_text_eq)
  then show ?case using Cons by (simp add: r)
qed

lemma row_found:
  assumes "cstr m a = Some (c_text n)" "(n, f) \<in> set default_dynlib"
  shows "dynlib_search m (game_imports addr) a = Some (addr f)"
  using search_is_lookup [OF assms(1) zero_free_table] map_of_is_SomeI [OF keys_distinct assms(2)]
  by (simp add: game_imports_def)

lemma row_missing:
  assumes "cstr m a = Some (c_text n)" "n \<notin> fst ` set default_dynlib"
  shows "dynlib_search m (game_imports addr) a = None"
  using search_is_lookup [OF assms(1) zero_free_table] assms(2)
  by (simp add: game_imports_def map_of_eq_None_iff)

section \<open>GL functions\<close>

definition gl_row_ok :: "string \<times> string \<Rightarrow> bool" where
  "gl_row_ok r \<longleftrightarrow> take 2 (fst r) = ''gl'' \<longrightarrow> ends_with ''_locked'' (snd r) \<or> snd r \<in> set (map fst gl_stubs)"

lemma stub_names: "map fst gl_stubs =
    [''glBlendColor'', ''glCompressedTexSubImage2D'', ''glDetachShader'', ''glGetRenderbufferParameteriv'',
     ''glGetShaderPrecisionFormat'', ''glGetTexParameterfv'', ''glGetTexParameteriv'', ''glGetUniformfv'',
     ''glGetUniformiv'', ''glIsBuffer'', ''glIsShader'', ''glSampleCoverage'', ''glTexParameterfv'',
     ''glValidateProgram'']"
  by (simp add: gl_stubs_def)

lemma gl_rows_ab: "list_all gl_row_ok default_dynlib_a" "list_all gl_row_ok default_dynlib_b"
  unfolding default_dynlib_a_def default_dynlib_b_def by (simp_all add: gl_row_ok_def stub_names ends_with_def)

lemma gl_rows_cd: "list_all gl_row_ok default_dynlib_c" "list_all gl_row_ok default_dynlib_d"
  unfolding default_dynlib_c_def default_dynlib_d_def by (simp_all add: gl_row_ok_def stub_names ends_with_def)

lemma gl_row_modelled:
  assumes "(n, f) \<in> set default_dynlib" "take 2 n = ''gl''"
  shows "f \<in> fst ` set (gl_imports fuel rnd)"
proof -
  have "list_all gl_row_ok default_dynlib" using gl_rows_ab gl_rows_cd by (simp add: default_dynlib_def)
  then have "ends_with ''_locked'' f \<or> f \<in> set (map fst gl_stubs)"
    using assms unfolding list_all_iff gl_row_ok_def by fastforce
  then show ?thesis
  proof
    assume "ends_with ''_locked'' f"
    then have "f \<in> set (locked_targets default_dynlib)" using assms(1) by (force simp: locked_targets_def)
    then have "f \<in> set (gl_wrappers_1 @ gl_wrappers_2)" unfolding locked_targets_declared .
    then have "f \<in> fst ` set (gl_entries fuel rnd)"
      unfolding entry_names set_append core_values [symmetric] by simp
    then show ?thesis by (auto simp: gl_imports_def)
  next
    assume "f \<in> set (map fst gl_stubs)"
    then show ?thesis by (auto simp: gl_imports_def)
  qed
qed

section \<open>The words of the image\<close>

lemma import_bound:
  assumes "needs_import md m i" "cstr m (import_name md m i) = Some (c_text n)" "(n, f) \<in> set default_dynlib"
  shows "resolved_word mods (game_imports addr) only md m i = addr f"
  using row_found [OF assms(2,3)] assms(1) by (simp add: resolved_word_def Let_def)

lemma import_from_module:
  assumes "needs_import md m i" "cstr m (import_name md m i) = Some (c_text n)" "n \<notin> fst ` set default_dynlib"
  shows "resolved_word mods (game_imports addr) only md m i = resolved_word mods [] only md m i"
  using row_missing [OF assms(2,3)] assms(1) by (simp add: resolved_word_def Let_def)

text \<open>An image with one entry for \<open>glClear\<close>.\<close>

definition clear_image :: memory where
  "clear_image = (\<lambda>_. 0)
     (0x94000110 := 1, 0x94000204 := 21, 0x94000205 := 1, 0x94000201 := 0x10,
      0x94000301 := 0x67, 0x94000302 := 0x6C, 0x94000303 := 0x43, 0x94000304 := 0x6C, 0x94000305 := 0x65,
      0x94000306 := 0x61, 0x94000307 := 0x72)"

lemma clear_image_reads:
  "num_rels demo_module = 1" "rel_ptr clear_image demo_module 0 = 0x94001000"
  "rel_sym clear_image demo_module 0 = 0x94000110" "rel_type clear_image demo_module 0 = 21"
  "rel_at demo_module 0 = 0x94000200" "import_name demo_module clear_image 0 = 0x94000301"
  "st_shndx clear_image 0x94000110 = 0" "load32 clear_image 0x94001000 = 0"
proof -
  show d: "num_rels demo_module = 1" "rel_at demo_module 0 = 0x94000200" using demo_import_reads by simp_all
  have w: "load32 clear_image 0x94000200 = 0x1000" "load32 clear_image 0x94000204 = 0x115" "load32 clear_image 0x94000110 = 1"
    by (simp_all add: load32_def clear_image_def)
  show p: "rel_ptr clear_image demo_module 0 = 0x94001000" "rel_sym clear_image demo_module 0 = 0x94000110"
    "rel_type clear_image demo_module 0 = 21"
    using w by (simp_all add: rel_ptr_def rel_sym_def rel_type_def d r_offset_def r_info_def r_sym_def r_type_def sym_at_def)
      (simp_all add: demo_module_def)
  show "import_name demo_module clear_image 0 = 0x94000301"
    using w by (simp add: import_name_def p st_name_def) (simp add: demo_module_def)
  show "st_shndx clear_image 0x94000110 = 0" "load32 clear_image 0x94001000 = 0"
    by (simp_all add: st_shndx_def load16_def load32_def clear_image_def)
qed

lemma clear_name: "cstr clear_image 0x94000301 = Some (c_text ''glClear'')"
  by (rule streq_cstr) (simp_all add: clear_image_def c_text_def)

lemma clear_needed: "needs_import demo_module clear_image 0"
  by (simp add: needs_import_def clear_image_reads r_types)

lemma clear_resolvable: "resolvable [] (game_imports addr) True demo_module clear_image"
proof -
  have "\<forall>(k, f) \<in> set (game_imports addr). 0 \<notin> set k"
    using zero_free_table zero_free_bytes by (fastforce simp: game_imports_def list_all_iff)
  then show ?thesis
    using clear_name by (simp add: resolvable_def tables_apart_def clear_image_reads region_apart_def c_text_def)
qed

lemma clear_row: "(''glClear'', ''glClear_locked'') \<in> set default_dynlib"
  by (simp add: default_dynlib_def default_dynlib_b_def)

end
