(* ===== verification/Threads.thy ===== *)
theory Threads
  imports Pthread_Bridge Stubs "HOL-Library.Multiset"
begin

text \<open>
  The life of a thread from \<open>pthread_create_bridge\<close> through \<open>thread_boot_fn\<close> (\<open>pthread_bridge.c\<close>) to \<open>prctl\<close>
  (\<open>stubs.c\<close>), interleaved with everything else that goes on: the block that carries a new thread's function and
  argument, the registry, and the priorities.  The kernel and \<open>malloc\<close> are parameters of the steps.
\<close>

section \<open>Creating and starting\<close>

record threads =
  main_thread_prio :: int
  threads_created :: nat
  registry :: "(int \<times> string) list"
  prio_of :: "int \<Rightarrow> int"
  waiting :: "u32 list"
  lost :: "u32 list"
  tram :: memory
  made :: "(u32 \<times> u32) list"
  begun :: "(int \<times> u32 \<times> u32) list"

text \<open>
  \<open>waiting\<close> holds the \<open>thread_boot\<close> blocks of the threads that were created and have not started, \<open>lost\<close> those
  of failed creations; \<open>made\<close> and \<open>begun\<close> record the functions and arguments asked for and run.
\<close>

definition threads_init :: "memory \<Rightarrow> (int \<Rightarrow> int) \<Rightarrow> threads" where
  "threads_init m p =
     \<lparr>main_thread_prio = 0, threads_created = 0, registry = [], prio_of = p, waiting = [], lost = [], tram = m,
      made = [], begun = []\<rparr>"

text \<open>\<open>info\<close> is the creating thread's priority if the kernel tells it.\<close>

definition note_main_prio :: "int option \<Rightarrow> threads \<Rightarrow> threads" where
  "note_main_prio info s =
     (if main_thread_prio s = 0 then (case info of Some p \<Rightarrow> s\<lparr>main_thread_prio := p\<rparr> | None \<Rightarrow> s) else s)"

text \<open>
  \<open>b\<close> is what \<open>malloc\<close> returned for the block, \<open>r\<close> the result of the real \<open>pthread_create\<close>.  The block is written
  without a test, so a failed \<open>malloc\<close> faults.
\<close>

definition pthread_create_bridge :: "int option \<Rightarrow> u32 \<Rightarrow> int \<Rightarrow> u32 \<Rightarrow> u32 \<Rightarrow> threads \<Rightarrow> (int \<times> threads) option" where
  "pthread_create_bridge info b r fn arg s =
     (let s = note_main_prio info s; s = s\<lparr>threads_created := threads_created s + 1\<rparr> in
      if b = 0 then None
      else let s = s\<lparr>tram := write_bytes (tram s) b (words [fn, arg])\<rparr> in
        Some (r, if r = 0 then s\<lparr>waiting := waiting s @ [b], made := made s @ [(fn, arg)]\<rparr>
                 else s\<lparr>lost := lost s @ [b]\<rparr>))"

definition start_thread :: "int \<Rightarrow> u32 \<Rightarrow> threads \<Rightarrow> threads" where
  "start_thread uid b s =
     (case thread_boot_fn (main_thread_prio s) uid (registry s) of (reg, p) \<Rightarrow>
        s\<lparr>waiting := remove1 b (waiting s), registry := reg,
          prio_of := (case p of Some q \<Rightarrow> (prio_of s)(uid := q) | None \<Rightarrow> prio_of s),
          begun := begun s @ [(uid, load32 (tram s) b, load32 (tram s) (b + 4))]\<rparr>)"

definition prctl :: "int \<Rightarrow> int \<Rightarrow> string option \<Rightarrow> threads \<Rightarrow> threads" where
  "prctl uid opt nm s =
     (if opt = 15
      then s\<lparr>registry := thread_registry_add uid nm (registry s),
        prio_of := (case prctl_priority opt (main_thread_prio s) nm of
          Some q \<Rightarrow> (prio_of s)(uid := q) | None \<Rightarrow> prio_of s)\<rparr>
      else s)"

section \<open>Everything that can happen\<close>

definition block_apart :: "u32 \<Rightarrow> u32 \<Rightarrow> bool" where
  "block_apart a b \<longleftrightarrow> 8 \<le> unat (b - a) \<and> unat (b - a) + 8 \<le> 2 ^ 32"

definition same_block :: "memory \<Rightarrow> memory \<Rightarrow> u32 \<Rightarrow> bool" where
  "same_block m m' b \<longleftrightarrow> load32 m' b = load32 m b \<and> load32 m' (b + 4) = load32 m (b + 4)"

text \<open>
  A creation gets a block apart from those still waiting, as \<open>malloc\<close> promises, and learns the creator's priority
  (a positive number).  A created thread starts once; threads rename themselves at any time; and the rest of the
  program writes memory but not the waiting blocks.
\<close>

inductive thread_step :: "threads \<Rightarrow> threads \<Rightarrow> bool" where
  create: "\<forall>c \<in> set (waiting s). block_apart b c \<Longrightarrow> 0 < p \<Longrightarrow>
     pthread_create_bridge (Some p) b r fn arg s = Some (r, s2) \<Longrightarrow> thread_step s s2"
| starts: "b \<in> set (waiting s) \<Longrightarrow> thread_step s (start_thread uid b s)"
| rename: "thread_step s (prctl uid opt nm s)"
| other: "\<forall>b \<in> set (waiting s). same_block (tram s) m b \<Longrightarrow> thread_step s (s\<lparr>tram := m\<rparr>)"

inductive thread_reachable :: "memory \<Rightarrow> (int \<Rightarrow> int) \<Rightarrow> threads \<Rightarrow> bool" for m p where
  start: "thread_reachable m p (threads_init m p)"
| step: "thread_reachable m p s \<Longrightarrow> thread_step s s2 \<Longrightarrow> thread_reachable m p s2"

section \<open>Every created thread runs what it was created for\<close>

definition block_of :: "memory \<Rightarrow> u32 \<Rightarrow> u32 \<times> u32" where
  "block_of m b = (load32 m b, load32 m (b + 4))"

definition accounted :: "threads \<Rightarrow> bool" where
  "accounted s \<longleftrightarrow>
     mset (made s) = mset (map snd (begun s)) + mset (map (block_of (tram s)) (waiting s))"

definition below_main :: "threads \<Rightarrow> bool" where
  "below_main s \<longleftrightarrow> 0 \<le> main_thread_prio s \<and>
     (main_thread_prio s = 0 \<longrightarrow> waiting s = [] \<and> begun s = []) \<and>
     (\<forall>(uid, c) \<in> set (begun s). main_thread_prio s < prio_of s uid \<and> prio_of s uid \<le> main_thread_prio s + 4)"

lemma block_written [simp]: "block_of (write_bytes m b (le32 fn @ le32 arg)) b = (fn, arg)"
  using flat.load32_written [of 0 "[fn, arg]" m b] flat.load32_written [of 1 "[fn, arg]" m b]
  by (simp add: block_of_def)

lemma block_kept:
  assumes "block_apart b c"
  shows "block_of (write_bytes m b (le32 fn @ le32 arg)) c = block_of m c"
proof -
  have "same_bytes (write_bytes m b (le32 fn @ le32 arg)) m c 8"
    using assms by (intro flat.same_bytes_frame) (simp_all add: block_apart_def)
  from same_bytes_load32 [OF this, of 0] same_bytes_load32 [OF this, of 4] show ?thesis
    by (simp add: block_of_def)
qed

lemma accounted_create:
  assumes "accounted s" "\<forall>c \<in> set (waiting s). block_apart b c" "pthread_create_bridge info b r fn arg s = Some (r, s2)"
  shows "accounted s2"
proof -
  let ?m = "write_bytes (tram s) b (le32 fn @ le32 arg)"
  have same: "waiting (note_main_prio info s) = waiting s" "made (note_main_prio info s) = made s"
    "begun (note_main_prio info s) = begun s" "tram (note_main_prio info s) = tram s" "lost (note_main_prio info s) = lost s"
    by (simp_all add: note_main_prio_def split: option.split)
  have kept: "image_mset (block_of ?m) (mset (waiting s)) = image_mset (block_of (tram s)) (mset (waiting s))"
    using assms(2) by (intro image_mset_cong) (simp add: block_kept)
  show ?thesis
  proof (cases "r = 0")
    case True
    then have "waiting s2 = waiting s @ [b]" "made s2 = made s @ [(fn, arg)]" "begun s2 = begun s" "tram s2 = ?m"
      using assms(3) by (auto simp: pthread_create_bridge_def Let_def same split: if_splits)
    then show ?thesis using assms(1) kept by (simp add: accounted_def)
  next
    case False
    then have "waiting s2 = waiting s" "made s2 = made s" "begun s2 = begun s" "tram s2 = ?m"
      using assms(3) by (auto simp: pthread_create_bridge_def Let_def same split: if_splits)
    then show ?thesis using assms(1) kept by (simp add: accounted_def)
  qed
qed

lemma mset_remove_block: "b \<in> set bs \<Longrightarrow> mset (map f bs) = add_mset (f b) (mset (map f (remove1 b bs)))"
  by (induction bs) (auto simp: add_mset_commute)

lemma accounted_step:
  assumes "thread_step s s2" "accounted s"
  shows "accounted s2"
  using assms(1)
proof cases
  case (create b p r fn arg)
  then show ?thesis using accounted_create [OF assms(2)] by blast
next
  case (starts b uid)
  have "made s2 = made s" "tram s2 = tram s" "waiting s2 = remove1 b (waiting s)"
    "begun s2 = begun s @ [(uid, block_of (tram s) b)]"
    unfolding starts by (simp_all add: start_thread_def thread_boot_fn_def block_of_def)
  then show ?thesis using assms(2) mset_remove_block [OF starts(2), of "block_of (tram s)"] by (simp add: accounted_def)
next
  case (rename uid opt nm)
  then show ?thesis using assms(2) by (simp add: prctl_def accounted_def)
next
  case (other m)
  then have "image_mset (block_of m) (mset (waiting s)) = image_mset (block_of (tram s)) (mset (waiting s))"
    by (intro image_mset_cong) (simp add: same_block_def block_of_def)
  then show ?thesis using assms(2) by (simp add: other accounted_def)
qed

lemma below_create:
  assumes "below_main s" "0 < p" "pthread_create_bridge (Some p) b r fn arg s = Some (r, s2)"
  shows "below_main s2"
  using assms by (auto simp: pthread_create_bridge_def below_main_def note_main_prio_def Let_def split: if_splits)

lemma below_step:
  assumes "thread_step s s2" "below_main s"
  shows "below_main s2"
  using assms(1)
proof cases
  case (create b p r fn arg)
  then show ?thesis using below_create [OF assms(2)] by blast
next
  case (starts b uid)
  have "main_thread_prio s \<noteq> 0" using starts(2) assms(2) by (auto simp: below_main_def)
  then show ?thesis using assms(2) unfolding starts
    by (auto simp: start_thread_def thread_boot_fn_def below_main_def)
next
  case (rename uid opt nm)
  have "prctl_priority opt (main_thread_prio s) nm = Some q \<Longrightarrow> main_thread_prio s < q \<and> q \<le> main_thread_prio s + 4" for q
    by (rule prctl_below_main)
  then show ?thesis using assms(2) unfolding rename
    by (auto simp: prctl_def below_main_def split: option.split)
next
  case (other m)
  then show ?thesis using assms(2) by (simp add: below_main_def)
qed

lemma thread_invariant: "thread_reachable m p s \<Longrightarrow> accounted s \<and> below_main s"
proof (induction rule: thread_reachable.induct)
  case start
  show ?case by (simp add: accounted_def below_main_def threads_init_def)
next
  case (step s s2)
  then show ?case using accounted_step below_step by blast
qed

text \<open>
  C21: in every interleaving of creations, starts, renamings and writes of the rest of the program, the threads
  that have started run the functions with the arguments the game asked for, none twice and none invented, and
  when no created thread is left to start, all of them; and every started thread has a priority below the one
  noted for the main thread, by at most four steps, whatever name it takes.
\<close>

theorem threads_run_below_main:
  assumes "thread_reachable m p s"
  shows "mset (map snd (begun s)) \<subseteq># mset (made s) \<and>
    (waiting s = [] \<longrightarrow> mset (map snd (begun s)) = mset (made s)) \<and>
    (\<forall>(uid, c) \<in> set (begun s). main_thread_prio s < prio_of s uid \<and> prio_of s uid \<le> main_thread_prio s + 4)"
  using thread_invariant [OF assms] by (simp add: accounted_def below_main_def)

text \<open>One worker is created by the main thread (priority 160), starts and takes its name.\<close>

definition one_worker :: threads where
  "one_worker =
     \<lparr>main_thread_prio = 160, threads_created = 1, registry = [(7, ''Job Thread'')], prio_of = (\<lambda>_. 160)(7 := 164),
      waiting = [], lost = [], tram = write_bytes (\<lambda>_. 0) 0x81000000 (words [0x94001000, 5]),
      made = [(0x94001000, 5)], begun = [(7, 0x94001000, 5)]\<rparr>"

lemma one_worker_reachable: "thread_reachable (\<lambda>_. 0) (\<lambda>_. 160) one_worker"
proof -
  let ?s0 = "threads_init (\<lambda>_. 0) (\<lambda>_. 160)"
  let ?m = "write_bytes (\<lambda>_. 0) 0x81000000 (words [0x94001000, 5])"
  let ?s1 = "?s0\<lparr>main_thread_prio := 160, threads_created := 1, waiting := [0x81000000], made := [(0x94001000, 5)], tram := ?m\<rparr>"
  have "pthread_create_bridge (Some 160) 0x81000000 0 0x94001000 5 ?s0 = Some (0, ?s1)"
    by (simp add: pthread_create_bridge_def note_main_prio_def threads_init_def Let_def)
  then have 1: "thread_step ?s0 ?s1" by (intro thread_step.create) (simp_all add: threads_init_def)
  have 2: "thread_step ?s1 (start_thread 7 0x81000000 ?s1)" by (rule thread_step.starts) simp
  have 3: "thread_step (start_thread 7 0x81000000 ?s1) (prctl 7 15 (Some ''Job Thread'') (start_thread 7 0x81000000 ?s1))"
    by (rule thread_step.rename)
  have "prctl 7 15 (Some ''Job Thread'') (start_thread 7 0x81000000 ?s1) = one_worker"
    using block_written [of "\<lambda>_. 0" "0x81000000" "0x94001000" 5]
    by (simp add: start_thread_def thread_boot_fn_def prctl_def thread_registry_add_def prctl_priority_def
        one_worker_def threads_init_def block_of_def)
  then show ?thesis
    using thread_reachable.step [OF thread_reachable.step [OF thread_reachable.step [OF thread_reachable.start 1] 2] 3] by simp
qed

lemma threads_run_below_main_witness:
  "mset (map snd (begun one_worker)) = mset (made one_worker) \<and> 160 < prio_of one_worker 7 \<and> prio_of one_worker 7 \<le> 164"
  using threads_run_below_main [OF one_worker_reachable] by (simp add: one_worker_def)

text \<open>
  The limits: a failed creation loses the block, and a main thread that names itself falls below its own
  workers, whose priority is computed from the one noted before.
\<close>

lemma failed_creation_leaks:
  "pthread_create_bridge info b r fn arg s = Some (r, s2) \<Longrightarrow> r \<noteq> 0 \<Longrightarrow> b \<in> set (lost s2) \<and> waiting s2 = waiting s"
  by (auto simp: pthread_create_bridge_def note_main_prio_def Let_def split: if_splits option.splits)

lemma named_main_below_worker:
  assumes "main_thread_prio s = 160"
  shows "prio_of (prctl 1 15 (Some ''Main'') (start_thread 7 b s)) 7 = 161 \<and>
    prio_of (prctl 1 15 (Some ''Main'') (start_thread 7 b s)) 1 = 162"
  using assms by (simp add: start_thread_def thread_boot_fn_def prctl_def prctl_priority_def)

end
