(* ===== verification/Timing.thy ===== *)
theory Timing
  imports Prelude
begin

text \<open>
  The frame timing at the end of the frame loop of \<open>main.c\<close>: sums and maxima of the times of the frames, reported and
  cleared every 100 frames, and a line of its own for each of the frames 1200 to 1499.  Times are microseconds in 64
  bits, counters have 32; the division by 1000 and by the number of frames in the printed text is left to \<open>printf\<close>.
\<close>

section \<open>One frame\<close>

text \<open>
  The readings of a frame: the process time before and after \<open>DrawFrame\<close> and after the swap, the main thread's sleep
  and wait statistics before and after, and the count of presents.
\<close>

record readings =
  t0 :: u64
  t1 :: u64
  t2 :: u64
  sl0 :: u64
  sl1 :: u64
  slc0 :: u32
  slc1 :: u32
  wt0 :: u64
  wt1 :: u64
  wtc0 :: u32
  wtc1 :: u32
  swap_count :: u32

record sums =
  sum_d :: u64
  sum_s :: u64
  max_d :: u64
  max_s :: u64
  max_f :: u64
  sum_sl :: u64
  sum_wt :: u64
  slow :: u32
  n_frames :: u32

definition no_sums :: sums where
  "no_sums = \<lparr>sum_d = 0, sum_s = 0, max_d = 0, max_s = 0, max_f = 0, sum_sl = 0, sum_wt = 0, slow = 0, n_frames = 0\<rparr>"

record timing =
  last_t2 :: u64
  acc :: sums
  js_last :: u32

definition timing_init :: timing where
  "timing_init = \<lparr>last_t2 = 0, acc = no_sums, js_last = 0\<rparr>"

text \<open>The two lines: a frame of the trace (frame, full frame, draw, sleep, wait, swap) and the report.\<close>

datatype timing_line =
    Ft u32 u64 u64 "u64 \<times> u32" "u64 \<times> u32" u64
  | Report u32 sums u32

text \<open>\<open>d\<close>, \<open>sw\<close>, \<open>fr\<close>, \<open>sl\<close> and \<open>wt\<close>; the first frame has no full time.\<close>

record sample =
  draw :: u64
  swap :: u64
  full :: u64
  slept :: u64
  waited :: u64

definition sample_of :: "u64 \<Rightarrow> readings \<Rightarrow> sample" where
  "sample_of before r =
     \<lparr>draw = t1 r - t0 r, swap = t2 r - t1 r, full = (if before \<noteq> 0 then t2 r - before else 0),
      slept = sl1 r - sl0 r, waited = wt1 r - wt0 r\<rparr>"

definition add_sample :: "sample \<Rightarrow> sums \<Rightarrow> sums" where
  "add_sample x a =
     \<lparr>sum_d = sum_d a + draw x, sum_s = sum_s a + swap x,
      max_d = (if draw x > max_d a then draw x else max_d a), max_s = (if swap x > max_s a then swap x else max_s a),
      max_f = (if full x > max_f a then full x else max_f a),
      sum_sl = sum_sl a + slept x, sum_wt = sum_wt a + waited x,
      slow = (if full x > 34000 then slow a + 1 else slow a), n_frames = n_frames a + 1\<rparr>"

definition frame_timing :: "u32 \<Rightarrow> readings \<Rightarrow> timing \<Rightarrow> timing_line list \<times> timing" where
  "frame_timing frame r s =
     (let x = sample_of (last_t2 s) r; a = add_sample x (acc s); s = s\<lparr>last_t2 := t2 r, acc := a\<rparr>;
        ft = (if 1200 \<le> frame \<and> frame < 1500
          then [Ft frame (full x) (draw x) (slept x, slc1 r - slc0 r) (waited x, wtc1 r - wtc0 r) (swap x)] else []) in
      if frame mod 100 = 0
      then (ft @ [Report frame a (swap_count r - js_last s)], s\<lparr>js_last := swap_count r, acc := no_sums\<rparr>)
      else (ft, s))"

text \<open>The loop: \<open>frame\<close> is counted up before the frame's work.\<close>

fun timing_run :: "u32 \<Rightarrow> readings list \<Rightarrow> timing \<Rightarrow> timing_line list \<times> timing" where
  "timing_run frame [] s = ([], s)"
| "timing_run frame (r # rs) s =
     (let (ls, s) = frame_timing (frame + 1) r s; (ls2, s) = timing_run (frame + 1) rs s in (ls @ ls2, s))"

section \<open>What a report should say\<close>

fun samples :: "u64 \<Rightarrow> readings list \<Rightarrow> sample list" where
  "samples before [] = []"
| "samples before (r # rs) = sample_of before r # samples (t2 r) rs"

text \<open>The figures of a block of frames, each from its definition.\<close>

definition max0 :: "u64 list \<Rightarrow> u64" where
  "max0 xs = Max (set (0 # xs))"

definition figures :: "sample list \<Rightarrow> sums" where
  "figures xs =
     \<lparr>sum_d = sum_list (map draw xs), sum_s = sum_list (map swap xs), max_d = max0 (map draw xs),
      max_s = max0 (map swap xs), max_f = max0 (map full xs), sum_sl = sum_list (map slept xs),
      sum_wt = sum_list (map waited xs), slow = of_nat (length (filter (\<lambda>x. 34000 < full x) xs)),
      n_frames = of_nat (length xs)\<rparr>"

text \<open>The \<open>j\<close>-th report is about the frames \<open>100 * j + 1\<close> to \<open>100 * j + 100\<close>.\<close>

definition block :: "nat \<Rightarrow> 'a list \<Rightarrow> 'a list" where
  "block j xs = take 100 (drop (100 * j) xs)"

definition presents_before :: "readings list \<Rightarrow> nat \<Rightarrow> u32" where
  "presents_before rs j = (if j = 0 then 0 else swap_count (rs ! (100 * j - 1)))"

definition report_of :: "readings list \<Rightarrow> nat \<Rightarrow> timing_line" where
  "report_of rs j =
     Report (of_nat (100 * (j + 1))) (figures (block j (samples 0 rs)))
       (presents_before rs (j + 1) - presents_before rs j)"

fun is_report :: "timing_line \<Rightarrow> bool" where
  "is_report (Report _ _ _) = True"
| "is_report (Ft _ _ _ _ _ _) = False"

section \<open>Proof\<close>

lemma max0_snoc: "max0 (xs @ [x]) = (if x > max0 xs then x else max0 xs)"
proof -
  have "set (0 # xs @ [x]) = insert x (set (0 # xs))" by auto
  then have "max0 (xs @ [x]) = max x (max0 xs)" unfolding max0_def by (simp only: Max_insert finite_set) auto
  then show ?thesis by (auto simp: max_def)
qed

lemma figures_nil: "figures [] = no_sums"
  by (simp add: figures_def no_sums_def max0_def)

lemma figures_snoc: "figures (xs @ [x]) = add_sample x (figures xs)"
  by (simp add: figures_def add_sample_def max0_snoc)

lemma length_samples [simp]: "length (samples t rs) = length rs"
  by (induction t rs rule: samples.induct) simp_all

lemma samples_snoc:
  "samples t (rs @ [r]) = samples t rs @ [sample_of (if rs = [] then t else t2 (last rs)) r]"
  by (induction t rs rule: samples.induct) simp_all

lemma timing_run_snoc:
  "timing_run f (rs @ [r]) s =
     (case timing_run f rs s of (ls, s) \<Rightarrow> case frame_timing (f + of_nat (length rs) + 1) r s of (ls2, s) \<Rightarrow> (ls @ ls2, s))"
  by (induction f rs s rule: timing_run.induct) (auto simp: Let_def algebra_simps split: prod.splits)

lemma frame_mod: "n < 2 ^ 32 \<Longrightarrow> (of_nat n :: u32) mod 100 = 0 \<longleftrightarrow> n mod 100 = 0"
proof -
  assume "n < 2 ^ 32"
  then have "unat (of_nat n mod 100 :: u32) = n mod 100" by (simp add: unat_mod_distrib unat_of_nat)
  then show ?thesis by (metis unat_eq_0)
qed

text \<open>The figures so far are those of the block begun.\<close>

definition timing_inv :: "readings list \<Rightarrow> timing_line list \<Rightarrow> timing \<Rightarrow> bool" where
  "timing_inv rs ls s \<longleftrightarrow>
     (rs \<noteq> [] \<longrightarrow> last_t2 s = t2 (last rs)) \<and> (rs = [] \<longrightarrow> last_t2 s = 0) \<and>
     acc s = figures (block (length rs div 100) (samples 0 rs)) \<and>
     js_last s = presents_before rs (length rs div 100) \<and>
     filter is_report ls = map (report_of rs) [0..<length rs div 100]"

lemma block_earlier: "100 * (j + 1) \<le> length xs \<Longrightarrow> block j (xs @ ys) = block j xs"
  by (simp add: block_def)

lemma block_begun: "block (length xs div 100) (xs @ [x]) = block (length xs div 100) xs @ [x]"
proof -
  have "100 * (length xs div 100) \<le> length xs" "length xs - 100 * (length xs div 100) < 100"
    by (simp, simp add: minus_mult_div_eq_mod)
  then show ?thesis by (simp add: block_def)
qed

lemma report_of_earlier:
  assumes "100 * (j + 1) \<le> length rs"
  shows "report_of (rs @ [r]) j = report_of rs j"
proof -
  have "presents_before (rs @ [r]) i = presents_before rs i" if "i \<le> j + 1" for i
  proof (cases "i = 0")
    case False
    have "100 * i \<le> 100 * (j + 1)" using that by (rule mult_le_mono2)
    then have "100 * i - 1 < length rs" using False assms by linarith
    then show ?thesis by (simp add: presents_before_def nth_append)
  qed (simp add: presents_before_def)
  then show ?thesis using assms block_earlier [of j "samples 0 rs"] by (simp add: report_of_def samples_snoc)
qed

lemma timing_inv_step:
  assumes "timing_inv rs ls s" "frame_timing (of_nat (length rs + 1)) r s = (ls2, s2)" "length rs + 1 < 2 ^ 32"
  shows "timing_inv (rs @ [r]) (ls @ ls2) s2"
proof -
  let ?n = "length rs" and ?xs = "samples 0 rs"
  have prev: "sample_of (last_t2 s) r = sample_of (if rs = [] then 0 else t2 (last rs)) r"
    using assms(1) by (auto simp: timing_inv_def)
  have xs: "samples 0 (rs @ [r]) = ?xs @ [sample_of (last_t2 s) r]" by (simp add: samples_snoc prev)
  have acc: "add_sample (sample_of (last_t2 s) r) (acc s) = figures (block (?n div 100) (samples 0 (rs @ [r])))"
    using assms(1) block_begun [of ?xs] by (simp add: xs figures_snoc timing_inv_def)
  have old: "map (report_of (rs @ [r])) [0..<?n div 100] = filter is_report ls"
    using assms(1) report_of_earlier [of _ rs r] by (auto simp: timing_inv_def)
  have before: "presents_before (rs @ [r]) (?n div 100) = js_last s"
    using assms(1) by (auto simp: timing_inv_def presents_before_def nth_append)
  have t: "last_t2 s2 = t2 r" using assms(2) by (auto simp: frame_timing_def Let_def split: if_splits)
  show ?thesis
  proof (cases "(?n + 1) mod 100 = 0")
    case True
    then have j: "(?n + 1) div 100 = ?n div 100 + 1" "100 * (?n div 100 + 1) = ?n + 1"
      using mult_div_mod_eq [of 100 "?n + 1"] by (simp_all add: div_Suc)
    have word: "(of_nat (?n + 1) :: u32) mod 100 = 0" using frame_mod [OF assms(3)] True by blast
    have now: "presents_before (rs @ [r]) (?n div 100 + 1) = swap_count r"
      using j(2) by (simp add: presents_before_def)
    have empty: "block (?n div 100 + 1) (samples 0 (rs @ [r])) = []" using j(2) by (simp add: block_def)
    have "acc s2 = no_sums" "js_last s2 = swap_count r"
      using assms(2) word by (auto simp: frame_timing_def Let_def simp del: of_nat_add)
    moreover have "filter is_report ls2 = [report_of (rs @ [r]) (?n div 100)]"
      using assms(2) word unfolding report_of_def before now j(2) acc [symmetric]
      by (auto simp: frame_timing_def Let_def simp del: of_nat_add)
    ultimately show ?thesis
      using t old j now empty by (simp add: timing_inv_def figures_nil)
  next
    case False
    then have j: "(?n + 1) div 100 = ?n div 100" by (simp add: div_Suc)
    have word: "\<not> (of_nat (?n + 1) :: u32) mod 100 = 0" using frame_mod [OF assms(3)] False by simp
    have "acc s2 = add_sample (sample_of (last_t2 s) r) (acc s)" "js_last s2 = js_last s" "filter is_report ls2 = []"
      using assms(2) word by (auto simp: frame_timing_def Let_def simp del: of_nat_add)
    then show ?thesis using t old j acc before by (simp add: timing_inv_def)
  qed
qed

lemma timing_inv_run:
  "length rs < 2 ^ 32 \<Longrightarrow> timing_run 0 rs timing_init = (ls, s) \<Longrightarrow> timing_inv rs ls s"
proof (induction rs arbitrary: ls s rule: rev_induct)
  case Nil
  then show ?case
    by (auto simp: timing_inv_def timing_init_def block_def figures_nil presents_before_def)
next
  case (snoc r rs)
  obtain ls1 s1 where 1: "timing_run 0 rs timing_init = (ls1, s1)" by fastforce
  obtain ls2 s2 where 2: "frame_timing (of_nat (length rs + 1)) r s1 = (ls2, s2)" by fastforce
  have "ls = ls1 @ ls2" "s = s2" using snoc.prems(2) 1 2 by (simp_all add: timing_run_snoc add.commute)
  then show ?case using timing_inv_step [OF snoc.IH [OF _ 1] 2] snoc.prems(1) by simp
qed

text \<open>
  Over any number of frames (below the range of the counter) there is exactly one report for every complete
  block of 100 frames, in order; its sums, maxima and counts are those of the 100 frames of the block and of no
  other, so the averages divide by 100, and its presents are those since the report before.
\<close>

theorem timing_reports_exact:
  assumes "length rs < 2 ^ 32"
  shows "filter is_report (fst (timing_run 0 rs timing_init)) = map (report_of rs) [0..<length rs div 100] \<and>
    (\<forall>j < length rs div 100. n_frames (figures (block j (samples 0 rs))) = 100)"
proof -
  obtain ls s where "timing_run 0 rs timing_init = (ls, s)" by fastforce
  moreover have "length (block j (samples 0 rs)) = 100" if "j < length rs div 100" for j
    using that by (simp add: block_def)
  ultimately show ?thesis using timing_inv_run [OF assms] by (auto simp: timing_inv_def figures_def)
qed

text \<open>250 frames of 33 ms each, with a present in each: two reports.\<close>

definition even_frame :: "nat \<Rightarrow> readings" where
  "even_frame k =
     \<lparr>t0 = of_nat (33000 * k + 1000), t1 = of_nat (33000 * k + 32000), t2 = of_nat (33000 * k + 34000),
      sl0 = 0, sl1 = 0, slc0 = 0, slc1 = 0, wt0 = 0, wt1 = 0, wtc0 = 0, wtc1 = 0, swap_count = of_nat (k + 1)\<rparr>"

lemma timing_reports_exact_witness:
  "length (filter is_report (fst (timing_run 0 (map even_frame [0..<250]) timing_init))) = 2"
  using timing_reports_exact [of "map even_frame [0..<250]"] by (simp add: upt_conv_Cons)

end
