(* ===== verification/Elf_Layout.thy ===== *)
theory Elf_Layout
  imports So_Load
begin

text \<open>
  The structures of \<open>elf.h\<close> as the compiler lays them out: fields in order, each at the next offset its type's
  alignment allows.  The loader casts the bytes of the file to these structures; this is right as they have no
  padding, and the offsets that the loader's other models use are those of the declarations.
\<close>

section \<open>Layout of a C structure\<close>

text \<open>The scalar types of the header by their width; \<open>Chars n\<close> is an array of \<open>n\<close> characters.\<close>

datatype ctype = U8 | U16 | U32 | U64 | Chars nat

type_synonym cstruct = "(string \<times> ctype) list"

fun size_of :: "ctype \<Rightarrow> nat" where
  "size_of U8 = 1"
| "size_of U16 = 2"
| "size_of U32 = 4"
| "size_of U64 = 8"
| "size_of (Chars n) = n"

fun align_of :: "ctype \<Rightarrow> nat" where
  "align_of U8 = 1"
| "align_of U16 = 2"
| "align_of U32 = 4"
| "align_of U64 = 8"
| "align_of (Chars n) = 1"

definition round_up :: "nat \<Rightarrow> nat \<Rightarrow> nat" where
  "round_up off k = (off + k - 1) div k * k"

fun offsets :: "nat \<Rightarrow> ctype list \<Rightarrow> nat list" where
  "offsets off [] = []"
| "offsets off (t # ts) = (let p = round_up off (align_of t) in p # offsets (p + size_of t) ts)"

fun end_offset :: "nat \<Rightarrow> ctype list \<Rightarrow> nat" where
  "end_offset off [] = off"
| "end_offset off (t # ts) = end_offset (round_up off (align_of t) + size_of t) ts"

definition sizeof :: "cstruct \<Rightarrow> nat" where
  "sizeof fs = round_up (end_offset 0 (map snd fs)) (fold max (map (align_of \<circ> snd) fs) 1)"

definition offset_of :: "cstruct \<Rightarrow> nat \<Rightarrow> nat" where
  "offset_of fs i = offsets 0 (map snd fs) ! i"

text \<open>The bytes of a structure whose fields have the given values, with zeros as padding.\<close>

fun le_bytes :: "nat \<Rightarrow> nat \<Rightarrow> u8 list" where
  "le_bytes 0 v = []"
| "le_bytes (Suc n) v = of_nat v # le_bytes n (v div 256)"

fun le_value :: "u8 list \<Rightarrow> nat" where
  "le_value [] = 0"
| "le_value (b # bs) = unat b + 256 * le_value bs"

fun encode :: "nat \<Rightarrow> ctype list \<Rightarrow> nat list \<Rightarrow> u8 list" where
  "encode off (t # ts) (v # vs) =
     (let p = round_up off (align_of t) in
      replicate (p - off) 0 @ le_bytes (size_of t) v @ encode (p + size_of t) ts vs)"
| "encode off _ _ = []"

definition struct_bytes :: "cstruct \<Rightarrow> nat list \<Rightarrow> u8 list" where
  "struct_bytes fs vs = encode 0 (map snd fs) vs"

definition field_at :: "cstruct \<Rightarrow> memory \<Rightarrow> u32 \<Rightarrow> nat \<Rightarrow> nat" where
  "field_at fs m a i = le_value (read_bytes m (a + of_nat (offset_of fs i)) (size_of (snd (fs ! i))))"

section \<open>The structures\<close>

definition Elf32_Ehdr :: cstruct where
  "Elf32_Ehdr =
     [(''e_ident'', Chars 16), (''e_type'', U16), (''e_machine'', U16), (''e_version'', U32), (''e_entry'', U32),
      (''e_phoff'', U32), (''e_shoff'', U32), (''e_flags'', U32), (''e_ehsize'', U16), (''e_phentsize'', U16),
      (''e_phnum'', U16), (''e_shentsize'', U16), (''e_shnum'', U16), (''e_shstrndx'', U16)]"

definition Elf64_Ehdr :: cstruct where
  "Elf64_Ehdr =
     [(''e_ident'', Chars 16), (''e_type'', U16), (''e_machine'', U16), (''e_version'', U32), (''e_entry'', U64),
      (''e_phoff'', U64), (''e_shoff'', U64), (''e_flags'', U32), (''e_ehsize'', U16), (''e_phentsize'', U16),
      (''e_phnum'', U16), (''e_shentsize'', U16), (''e_shnum'', U16), (''e_shstrndx'', U16)]"

definition Elf32_Shdr :: cstruct where
  "Elf32_Shdr =
     [(''sh_name'', U32), (''sh_type'', U32), (''sh_flags'', U32), (''sh_addr'', U32), (''sh_offset'', U32),
      (''sh_size'', U32), (''sh_link'', U32), (''sh_info'', U32), (''sh_addralign'', U32), (''sh_entsize'', U32)]"

definition Elf64_Shdr :: cstruct where
  "Elf64_Shdr =
     [(''sh_name'', U32), (''sh_type'', U32), (''sh_flags'', U64), (''sh_addr'', U64), (''sh_offset'', U64),
      (''sh_size'', U64), (''sh_link'', U32), (''sh_info'', U32), (''sh_addralign'', U64), (''sh_entsize'', U64)]"

definition Elf32_Sym :: cstruct where
  "Elf32_Sym =
     [(''st_name'', U32), (''st_value'', U32), (''st_size'', U32), (''st_info'', U8), (''st_other'', U8),
      (''st_shndx'', U16)]"

definition Elf64_Sym :: cstruct where
  "Elf64_Sym =
     [(''st_name'', U32), (''st_info'', U8), (''st_other'', U8), (''st_shndx'', U16), (''st_value'', U64),
      (''st_size'', U64)]"

definition Elf32_Rel :: cstruct where "Elf32_Rel = [(''r_offset'', U32), (''r_info'', U32)]"
definition Elf64_Rel :: cstruct where "Elf64_Rel = [(''r_offset'', U64), (''r_info'', U64)]"

definition Elf32_Rela :: cstruct where
  "Elf32_Rela = [(''r_offset'', U32), (''r_info'', U32), (''r_addend'', U32)]"

definition Elf64_Rela :: cstruct where
  "Elf64_Rela = [(''r_offset'', U64), (''r_info'', U64), (''r_addend'', U64)]"

definition Elf32_Phdr :: cstruct where
  "Elf32_Phdr =
     [(''p_type'', U32), (''p_offset'', U32), (''p_vaddr'', U32), (''p_paddr'', U32), (''p_filesz'', U32),
      (''p_memsz'', U32), (''p_flags'', U32), (''p_align'', U32)]"

definition Elf64_Phdr :: cstruct where
  "Elf64_Phdr =
     [(''p_type'', U32), (''p_flags'', U32), (''p_offset'', U64), (''p_vaddr'', U64), (''p_paddr'', U64),
      (''p_filesz'', U64), (''p_memsz'', U64), (''p_align'', U64)]"

text \<open>The members of the union \<open>d_un\<close> have one width.\<close>

definition Elf32_Dyn :: cstruct where "Elf32_Dyn = [(''d_tag'', U32), (''d_un'', U32)]"
definition Elf64_Dyn :: cstruct where "Elf64_Dyn = [(''d_tag'', U64), (''d_un'', U64)]"

definition elf_structs :: "cstruct list" where
  "elf_structs =
     [Elf32_Ehdr, Elf64_Ehdr, Elf32_Shdr, Elf64_Shdr, Elf32_Sym, Elf64_Sym, Elf32_Rel, Elf64_Rel, Elf32_Rela,
      Elf64_Rela, Elf32_Phdr, Elf64_Phdr, Elf32_Dyn, Elf64_Dyn]"

lemmas elf_defs = Elf32_Ehdr_def Elf64_Ehdr_def Elf32_Shdr_def Elf64_Shdr_def Elf32_Sym_def Elf64_Sym_def
  Elf32_Rel_def Elf64_Rel_def Elf32_Rela_def Elf64_Rela_def Elf32_Phdr_def Elf64_Phdr_def Elf32_Dyn_def Elf64_Dyn_def

section \<open>Packing the symbol and relocation words\<close>

definition ELF32_R_INFO :: "u32 \<Rightarrow> u32 \<Rightarrow> u32" where
  "ELF32_R_INFO n t = push_bit 8 n + (t AND 0xff)"

lemma r_info_roundtrip:
  assumes "unat n < 2 ^ 24" "unat t < 2 ^ 8"
  shows "r_sym (ELF32_R_INFO n t) = n" "r_type (ELF32_R_INFO n t) = t"
proof -
  have low: "x AND 0xff = take_bit 8 x" for x :: u32
  proof -
    have "(0xff :: u32) = mask 8" by (simp add: mask_eq_exp_minus_1)
    then show ?thesis by (simp only: take_bit_eq_mask)
  qed
  have ty: "take_bit 8 t = t"
    using assms(2) by (simp add: word_eq_iff_unsigned [where 'a = nat] unsigned_take_bit_eq take_bit_nat_eq_self)
  have "ELF32_R_INFO n t = of_nat (unat n * 256 + unat t)"
    unfolding ELF32_R_INFO_def low ty by (simp add: push_bit_eq_mult)
  moreover have big: "unat n * 256 + unat t < 2 ^ 32" using assms by simp
  ultimately have u: "unat (ELF32_R_INFO n t) = unat n * 256 + unat t" by (simp only: unat_of_nat) simp
  have "unat (r_sym (ELF32_R_INFO n t)) = unat n"
    unfolding r_sym_def unsigned_drop_bit_eq u
    using assms(2) take_bit_nat_eq_self [OF big] by (simp add: drop_bit_eq_div)
  then show "r_sym (ELF32_R_INFO n t) = n" by (rule word_unat_eq_iff [THEN iffD2])
  have "unat (r_type (ELF32_R_INFO n t)) = unat t"
    unfolding r_type_def low unsigned_take_bit_eq u
    using assms(2) take_bit_nat_eq_self [OF big] by (simp add: take_bit_eq_mod)
  then show "r_type (ELF32_R_INFO n t) = t" by (rule word_unat_eq_iff [THEN iffD2])
qed

section \<open>What was written is read\<close>

lemma length_le_bytes [simp]: "length (le_bytes n v) = n"
  by (induction n v rule: le_bytes.induct) simp_all

lemma le_value_le_bytes: "le_value (le_bytes n v) = v mod 256 ^ n"
proof (induction n v rule: le_bytes.induct)
  case (2 n v)
  have "unat (of_nat v :: u8) = v mod 256" by (simp add: unat_of_nat)
  then show ?case using 2 by (simp add: mod_mult2_eq)
qed simp

lemma le_bytes_unrolled:
  "le_bytes 2 v = [of_nat v, of_nat (v div 2 ^ 8)]"
  "le_bytes 4 v = [of_nat v, of_nat (v div 2 ^ 8), of_nat (v div 2 ^ 16), of_nat (v div 2 ^ 24)]"
proof -
  have "le_bytes (Suc (Suc 0)) v = [of_nat v, of_nat (v div 2 ^ 8)]" by simp
  moreover have "Suc (Suc 0) = 2" by simp
  ultimately show "le_bytes 2 v = [of_nat v, of_nat (v div 2 ^ 8)]" by (simp only:)
  have "le_bytes (Suc (Suc (Suc (Suc 0)))) v = [of_nat v, of_nat (v div 2 ^ 8), of_nat (v div 2 ^ 16), of_nat (v div 2 ^ 24)]"
    by (simp add: div_mult2_eq [symmetric])
  moreover have "Suc (Suc (Suc (Suc 0))) = 4" by simp
  ultimately show "le_bytes 4 v = [of_nat v, of_nat (v div 2 ^ 8), of_nat (v div 2 ^ 16), of_nat (v div 2 ^ 24)]"
    by (simp only:)
qed

lemma low_byte:
  fixes w :: "'a::len word"
  shows "(of_nat (unat w div 2 ^ k) :: u8) = ucast (drop_bit k w)"
proof -
  have "unat (drop_bit k w) = unat w div 2 ^ k" by (simp only: unat_drop_bit_eq) (simp add: drop_bit_eq_div)
  then show ?thesis by (metis of_nat_unat)
qed

lemma le_bytes_le32: "le_bytes 4 (unat w) = le32 w"
  unfolding le_bytes_unrolled low_byte by (simp add: le32_def)

lemma le_bytes_le16: "le_bytes 2 (unat w) = le16 w"
  unfolding le_bytes_unrolled low_byte by (simp add: le16_def)

lemma load32_of_bytes: "read_bytes m a 4 = le32 w \<Longrightarrow> load32 m a = w"
proof -
  assume "read_bytes m a 4 = le32 w"
  then have b: "le32 w = [m a, m (a + 1), m (a + 2), m (a + 3)]" by (simp add: read_bytes_def upt_conv_Cons)
  show "load32 m a = w" by (rule load32_le32) (simp_all add: b)
qed

lemma load16_of_bytes: "read_bytes m a 2 = le16 w \<Longrightarrow> load16 m a = w"
proof -
  assume "read_bytes m a 2 = le16 w"
  then have "m a = ucast w" "m (a + 1) = ucast (drop_bit 8 w)"
    by (simp_all add: read_bytes_def upt_conv_Cons le16_def)
  then have "load16 m a = ucast (ucast w :: u8) OR push_bit 8 (ucast (ucast (drop_bit 8 w) :: u8))"
    by (simp add: load16_def)
  also have "\<dots> = w"
    by (rule bit_word_eqI) (auto simp: bit_or_iff bit_push_bit_iff bit_ucast_iff bit_drop_bit_eq not_less intro: ccontr)
  finally show ?thesis .
qed

lemma round_up_le: "0 < k \<Longrightarrow> off \<le> round_up off k"
  unfolding round_up_def using div_mod_decomp [of "off + k - 1" k] mod_less_divisor [of k "off + k - 1"] by linarith

lemma align_pos [simp]: "0 < align_of t"
  by (cases t) simp_all

lemma length_offsets [simp]: "length (offsets off ts) = length ts"
  by (induction off ts rule: offsets.induct) (simp_all add: Let_def)

lemma length_encode: "length vs = length ts \<Longrightarrow> off + length (encode off ts vs) = end_offset off ts"
proof (induction off ts vs rule: encode.induct)
  case (1 off t ts v vs)
  then show ?case using round_up_le [of "align_of t" off] by (simp add: Let_def)
qed simp_all

lemma encode_field:
  "length vs = length ts \<Longrightarrow> i < length ts \<Longrightarrow>
   off \<le> offsets off ts ! i \<and> offsets off ts ! i - off + size_of (ts ! i) \<le> length (encode off ts vs) \<and>
   take (size_of (ts ! i)) (drop (offsets off ts ! i - off) (encode off ts vs)) = le_bytes (size_of (ts ! i)) (vs ! i)"
proof (induction off ts vs arbitrary: i rule: encode.induct)
  case (1 off t ts v vs)
  let ?p = "round_up off (align_of t)"
  have p: "off \<le> ?p" by (rule round_up_le) simp
  show ?case
  proof (cases i)
    case 0
    then show ?thesis using p by (simp add: Let_def)
  next
    case (Suc j)
    have j: "length vs = length ts" "j < length ts" using 1 Suc by simp_all
    note IH = 1(1) [OF refl j]
    have "offsets (?p + size_of t) ts ! j - off =
        (?p - off) + size_of t + (offsets (?p + size_of t) ts ! j - (?p + size_of t))"
      using IH p by simp
    then show ?thesis using IH p Suc by (simp add: Let_def, intro conjI; linarith)
  qed
qed simp_all

lemma read_inside:
  assumes "k + n \<le> length bs" "length bs < 2 ^ 32"
  shows "read_bytes (write_bytes m a bs) (a + of_nat k) n = take n (drop k bs)"
proof (rule nth_equalityI)
  fix i
  assume "i < length (read_bytes (write_bytes m a bs) (a + of_nat k) n)"
  then have i: "i < n" by simp
  have "unat (a + of_nat k + of_nat i - a) = k + i"
  proof -
    have "a + of_nat k + of_nat i - a = (of_nat (k + i) :: u32)" by simp
    moreover have "k + i < 2 ^ 32" using assms i by simp
    ultimately show ?thesis by (simp only: unat_of_nat) simp
  qed
  then show "read_bytes (write_bytes m a bs) (a + of_nat k) n ! i = take n (drop k bs) ! i"
    using assms i by (simp add: write_bytes_apply)
qed (use assms in simp)

lemma written_field:
  assumes "length vs = length fs" "i < length fs" "length (struct_bytes fs vs) < 2 ^ 32"
  shows "read_bytes (write_bytes m a (struct_bytes fs vs)) (a + of_nat (offset_of fs i)) (size_of (snd (fs ! i))) =
    le_bytes (size_of (snd (fs ! i))) (vs ! i)"
  using encode_field [of vs "map snd fs" i 0] assms
  by (simp add: struct_bytes_def offset_of_def read_inside)

text \<open>Any structure: the fields have the values that were written, as far as their width goes.\<close>

lemma struct_roundtrip:
  assumes "length vs = length fs" "i < length fs" "length (struct_bytes fs vs) < 2 ^ 32"
  shows "field_at fs (write_bytes m a (struct_bytes fs vs)) a i = vs ! i mod 256 ^ size_of (snd (fs ! i))"
  using written_field [OF assms] by (simp add: field_at_def le_value_le_bytes)

lemma word_field:
  assumes "length vs = length fs" "i < length fs" "length (struct_bytes fs vs) < 2 ^ 32"
    "snd (fs ! i) = U32" "vs ! i = unat w"
  shows "load32 (write_bytes m a (struct_bytes fs vs)) (a + of_nat (offset_of fs i)) = w"
  using written_field [OF assms(1-3), of m a] assms(4,5) by (intro load32_of_bytes) (simp add: le_bytes_le32)

lemma half_field:
  assumes "length vs = length fs" "i < length fs" "length (struct_bytes fs vs) < 2 ^ 32"
    "snd (fs ! i) = U16" "vs ! i = unat w"
  shows "load16 (write_bytes m a (struct_bytes fs vs)) (a + of_nat (offset_of fs i)) = w"
  using written_field [OF assms(1-3), of m a] assms(4,5) by (intro load16_of_bytes) (simp add: le_bytes_le16)

lemma byte_field:
  assumes "length vs = length fs" "i < length fs" "length (struct_bytes fs vs) < 2 ^ 32"
    "snd (fs ! i) = U8" "vs ! i = unat (w :: u8)"
  shows "write_bytes m a (struct_bytes fs vs) (a + of_nat (offset_of fs i)) = w"
  using written_field [OF assms(1-3), of m a] assms(4,5) by (simp add: read_bytes_def)

section \<open>The loader's accessors\<close>

lemma packed: "list_all (\<lambda>fs. sizeof fs = sum_list (map (size_of \<circ> snd) fs)) elf_structs"
  by (simp add: elf_structs_def elf_defs sizeof_def round_up_def)

lemma length_struct: "length vs = length fs \<Longrightarrow> length (struct_bytes fs vs) = end_offset 0 (map snd fs)"
  using length_encode [of vs "map snd fs" 0] by (simp add: struct_bytes_def)

definition sym_bytes :: "u32 \<Rightarrow> u32 \<Rightarrow> u32 \<Rightarrow> u8 \<Rightarrow> u8 \<Rightarrow> u16 \<Rightarrow> u8 list" where
  "sym_bytes nm val sz info oth shndx =
     struct_bytes Elf32_Sym [unat nm, unat val, unat sz, unat info, unat oth, unat shndx]"

definition rel_bytes :: "u32 \<Rightarrow> u32 \<Rightarrow> u8 list" where
  "rel_bytes off info = struct_bytes Elf32_Rel [unat off, unat info]"

definition dyn_bytes :: "u32 \<Rightarrow> u32 \<Rightarrow> u8 list" where
  "dyn_bytes tag un = struct_bytes Elf32_Dyn [unat tag, unat un]"

definition ehdr_bytes :: "nat \<Rightarrow> u16 \<Rightarrow> u16 \<Rightarrow> u32 \<Rightarrow> u32 \<Rightarrow> u32 \<Rightarrow> u32 \<Rightarrow> u32 \<Rightarrow> u16 \<Rightarrow> u16 \<Rightarrow> u16 \<Rightarrow> u16 \<Rightarrow> u16 \<Rightarrow> u16 \<Rightarrow> u8 list" where
  "ehdr_bytes ident ty mach ver entry phoff shoff flags ehsz phsz phnum shsz shnum shstrndx =
     struct_bytes Elf32_Ehdr
       [ident, unat ty, unat mach, unat ver, unat entry, unat phoff, unat shoff, unat flags, unat ehsz, unat phsz,
        unat phnum, unat shsz, unat shnum, unat shstrndx]"

definition phdr_bytes :: "u32 \<Rightarrow> u32 \<Rightarrow> u32 \<Rightarrow> u32 \<Rightarrow> u32 \<Rightarrow> u32 \<Rightarrow> u32 \<Rightarrow> u32 \<Rightarrow> u8 list" where
  "phdr_bytes ty off va pa fsz msz fl al =
     struct_bytes Elf32_Phdr [unat ty, unat off, unat va, unat pa, unat fsz, unat msz, unat fl, unat al]"

lemmas layout_simps = offset_of_def round_up_def Let_def

lemma elf_offsets:
  "offset_of Elf32_Sym 0 = 0" "offset_of Elf32_Sym (Suc 0) = 4" "offset_of Elf32_Sym 3 = 12" "offset_of Elf32_Sym 5 = 14"
  "offset_of Elf32_Rel 0 = 0" "offset_of Elf32_Rel (Suc 0) = 4" "offset_of Elf32_Dyn 0 = 0" "offset_of Elf32_Dyn (Suc 0) = 4"
  "offset_of Elf32_Ehdr 5 = 28" "offset_of Elf32_Ehdr 6 = 32" "offset_of Elf32_Ehdr 10 = 44"
  "offset_of Elf32_Ehdr 12 = 48" "offset_of Elf32_Ehdr 13 = 50"
  by (simp_all add: layout_simps Elf32_Sym_def Elf32_Rel_def Elf32_Dyn_def Elf32_Ehdr_def)

lemma phdr_offsets: "i < 8 \<Longrightarrow> offset_of Elf32_Phdr i = 4 * i"
proof -
  have "offsets 0 (map snd Elf32_Phdr) = map (\<lambda>i. 4 * i) [0..<8]"
    by (simp add: layout_simps Elf32_Phdr_def upt_conv_Cons)
  then show "i < 8 \<Longrightarrow> offset_of Elf32_Phdr i = 4 * i" by (simp add: offset_of_def)
qed

lemma elf_sizes:
  "sizeof Elf32_Ehdr = 52" "sizeof Elf32_Phdr = 32" "sizeof Elf32_Shdr = 40" "sizeof Elf32_Sym = 16"
  "sizeof Elf32_Rel = 8" "sizeof Elf32_Dyn = 8"
  by (simp_all add: sizeof_def round_up_def Elf32_Ehdr_def Elf32_Phdr_def Elf32_Shdr_def Elf32_Sym_def Elf32_Rel_def
      Elf32_Dyn_def)

lemma sym_fields:
  assumes "m2 = write_bytes m a (sym_bytes nm val sz info oth shndx)"
  shows "st_name m2 a = nm" "st_value m2 a = val" "st_info m2 a = info" "st_shndx m2 a = shndx"
proof -
  let ?vs = "[unat nm, unat val, unat sz, unat info, unat oth, unat shndx]"
  have l: "length ?vs = length Elf32_Sym" "length (struct_bytes Elf32_Sym ?vs) < 2 ^ 32"
    by (simp_all add: Elf32_Sym_def length_struct round_up_def)
  have m2: "m2 = write_bytes m a (struct_bytes Elf32_Sym ?vs)" by (simp only: assms sym_bytes_def)
  have "i < length Elf32_Sym" if "i < 6" for i using that by (simp add: Elf32_Sym_def)
  note i = this
  have t: "snd (Elf32_Sym ! 0) = U32" "snd (Elf32_Sym ! 1) = U32" "snd (Elf32_Sym ! 3) = U8" "snd (Elf32_Sym ! 5) = U16"
    by (simp_all add: Elf32_Sym_def)
  show "st_name m2 a = nm" using word_field [OF l(1) i l(2) t(1), of nm m a]
    by (simp add: m2 st_name_def elf_offsets)
  show "st_value m2 a = val" using word_field [OF l(1) i l(2) t(2), of val m a]
    by (simp add: m2 st_value_def elf_offsets)
  show "st_info m2 a = info" using byte_field [OF l(1) i l(2) t(3), of info m a]
    by (simp add: m2 st_info_def elf_offsets)
  show "st_shndx m2 a = shndx" using half_field [OF l(1) i l(2) t(4), of shndx m a]
    by (simp add: m2 st_shndx_def elf_offsets)
qed

lemma rel_fields:
  assumes "m2 = write_bytes m a (rel_bytes off info)"
  shows "r_offset m2 a = off" "r_info m2 a = info"
proof -
  let ?vs = "[unat off, unat info]"
  have l: "length ?vs = length Elf32_Rel" "length (struct_bytes Elf32_Rel ?vs) < 2 ^ 32"
    by (simp_all add: Elf32_Rel_def length_struct round_up_def)
  have i: "i < length Elf32_Rel" if "i < 2" for i using that by (simp add: Elf32_Rel_def)
  have t: "snd (Elf32_Rel ! 0) = U32" "snd (Elf32_Rel ! 1) = U32" by (simp_all add: Elf32_Rel_def)
  have m2: "m2 = write_bytes m a (struct_bytes Elf32_Rel ?vs)" by (simp only: assms rel_bytes_def)
  show "r_offset m2 a = off" using word_field [OF l(1) i l(2) t(1), of off m a]
    by (simp add: m2 r_offset_def elf_offsets)
  show "r_info m2 a = info" using word_field [OF l(1) i l(2) t(2), of info m a]
    by (simp add: m2 r_info_def elf_offsets)
qed

lemma dyn_fields:
  assumes "m2 = write_bytes m (m_dynamic md + of_nat (sizeof Elf32_Dyn * i)) (dyn_bytes tag un)"
  shows "dyn_tag m2 md i = tag" "dyn_ptr m2 md i = un"
proof -
  let ?vs = "[unat tag, unat un]" and ?a = "m_dynamic md + of_nat (8 * i)"
  have l: "length ?vs = length Elf32_Dyn" "length (struct_bytes Elf32_Dyn ?vs) < 2 ^ 32"
    by (simp_all add: Elf32_Dyn_def length_struct round_up_def)
  have i: "i < length Elf32_Dyn" if "i < 2" for i using that by (simp add: Elf32_Dyn_def)
  have t: "snd (Elf32_Dyn ! 0) = U32" "snd (Elf32_Dyn ! 1) = U32" by (simp_all add: Elf32_Dyn_def)
  have m2: "m2 = write_bytes m ?a (struct_bytes Elf32_Dyn ?vs)" by (simp only: assms dyn_bytes_def elf_sizes)
  show "dyn_tag m2 md i = tag" using word_field [OF l(1) i l(2) t(1), of tag m ?a]
    by (simp add: m2 dyn_tag_def elf_offsets)
  show "dyn_ptr m2 md i = un" using word_field [OF l(1) i l(2) t(2), of un m ?a]
    by (simp add: m2 dyn_ptr_def elf_offsets add.assoc)
qed

lemma ehdr_fields:
  assumes "m2 = write_bytes m a
    (ehdr_bytes ident ty mach ver entry phoff shoff flags ehsz phsz phnum shsz shnum shstrndx)"
  shows "e_phoff m2 a = phoff" "e_shoff m2 a = shoff" "e_phnum m2 a = unat phnum" "e_shnum m2 a = unat shnum"
    "e_shstrndx m2 a = unat shstrndx"
proof -
  let ?vs = "[ident, unat ty, unat mach, unat ver, unat entry, unat phoff, unat shoff, unat flags, unat ehsz, unat phsz,
    unat phnum, unat shsz, unat shnum, unat shstrndx]"
  have l: "length ?vs = length Elf32_Ehdr" "length (struct_bytes Elf32_Ehdr ?vs) < 2 ^ 32"
    by (simp_all add: Elf32_Ehdr_def length_struct round_up_def)
  have i: "i < length Elf32_Ehdr" if "i < 14" for i using that by (simp add: Elf32_Ehdr_def)
  have t: "snd (Elf32_Ehdr ! 5) = U32" "snd (Elf32_Ehdr ! 6) = U32" "snd (Elf32_Ehdr ! 10) = U16"
    "snd (Elf32_Ehdr ! 12) = U16" "snd (Elf32_Ehdr ! 13) = U16" by (simp_all add: Elf32_Ehdr_def)
  have m2: "m2 = write_bytes m a (struct_bytes Elf32_Ehdr ?vs)" by (simp only: assms ehdr_bytes_def)
  show "e_phoff m2 a = phoff" using word_field [OF l(1) i l(2) t(1), of phoff m a]
    by (simp add: m2 e_phoff_def elf_offsets)
  show "e_shoff m2 a = shoff" using word_field [OF l(1) i l(2) t(2), of shoff m a]
    by (simp add: m2 e_shoff_def elf_offsets)
  show "e_phnum m2 a = unat phnum" using half_field [OF l(1) i l(2) t(3), of phnum m a]
    by (simp add: m2 e_phnum_def elf_offsets)
  show "e_shnum m2 a = unat shnum" using half_field [OF l(1) i l(2) t(4), of shnum m a]
    by (simp add: m2 e_shnum_def elf_offsets)
  show "e_shstrndx m2 a = unat shstrndx" using half_field [OF l(1) i l(2) t(5), of shstrndx m a]
    by (simp add: m2 e_shstrndx_def elf_offsets)
qed

lemma phdr_word:
  assumes "i < 8" "m2 = write_bytes m a (phdr_bytes ty off va pa fsz msz fl al)"
  shows "load32 m2 (a + of_nat (4 * i)) = [ty, off, va, pa, fsz, msz, fl, al] ! i"
proof -
  let ?vs = "map unat [ty, off, va, pa, fsz, msz, fl, al]"
  have l: "length ?vs = length Elf32_Phdr" "length (struct_bytes Elf32_Phdr ?vs) < 2 ^ 32"
    by (simp_all add: Elf32_Phdr_def length_struct round_up_def)
  have i: "i < length Elf32_Phdr" using assms(1) by (simp add: Elf32_Phdr_def)
  have "map snd Elf32_Phdr = replicate 8 U32" by (simp add: Elf32_Phdr_def numeral_eq_Suc)
  then have t: "snd (Elf32_Phdr ! i) = U32" using assms(1) i by (metis nth_map nth_replicate)
  have v: "?vs ! i = unat ([ty, off, va, pa, fsz, msz, fl, al] ! i)" using assms(1) by (simp del: list.map)
  have m2: "m2 = write_bytes m a (struct_bytes Elf32_Phdr ?vs)" by (simp add: assms(2) phdr_bytes_def)
  show ?thesis using word_field [OF l(1) i l(2) t v, of m a] phdr_offsets [OF assms(1)] by (simp only: m2)
qed

lemma phdr_fields:
  assumes "m2 = write_bytes m a (phdr_bytes ty off va pa fsz msz fl al)"
  shows "p_type m2 a = ty" "p_offset m2 a = off" "p_vaddr m2 a = va" "p_filesz m2 a = fsz" "p_memsz m2 a = msz"
    "p_flags m2 a = fl" "p_align m2 a = al"
  using phdr_word [OF _ assms, of 0] phdr_word [OF _ assms, of 1] phdr_word [OF _ assms, of 2]
    phdr_word [OF _ assms, of 4] phdr_word [OF _ assms, of 5] phdr_word [OF _ assms, of 6] phdr_word [OF _ assms, of 7]
  by (simp_all add: p_type_def p_offset_def p_vaddr_def p_filesz_def p_memsz_def p_flags_def p_align_def)

lemma table_strides:
  "sym_at md (n + 1) = sym_at md n + of_nat (sizeof Elf32_Sym)"
  "i + 1 < m_num_reldyn md \<Longrightarrow> rel_at md (i + 1) = rel_at md i + of_nat (sizeof Elf32_Rel)"
  "m_num_reldyn md \<le> i \<Longrightarrow> rel_at md (i + 1) = rel_at md i + of_nat (sizeof Elf32_Rel)"
  by (simp_all add: sym_at_def rel_at_def elf_sizes algebra_simps)


end
