(* ===== verification/Elf_Values.thy ===== *)
theory Elf_Values
  imports So_Load So_Link Elf_Layout
begin

text \<open>
  The values that \<open>elf.h\<close> names for the fields the loader looks at, as tables of a name and a number, and its
  macros for \<open>st_info\<close>, \<open>st_other\<close> and the 64-bit \<open>r_info\<close>.  The lemmas say which of the legal values the loader of
  \<open>so_util.c\<close> acts on, ignores or refuses, and where that is not what the values mean.
\<close>

section \<open>Identification\<close>

definition ident_values :: "(string \<times> u32) list" where
  "ident_values =
    [(''EI_MAG0'', 0), (''ELFMAG0'', 127), (''EI_MAG1'', 1), (''ELFMAG1'', 69), (''EI_MAG2'', 2),
     (''ELFMAG2'', 76), (''EI_MAG3'', 3), (''ELFMAG3'', 70), (''SELFMAG'', 4), (''EI_CLASS'', 4),
     (''ELFCLASSNONE'', 0), (''ELFCLASS32'', 1), (''ELFCLASS64'', 2), (''ELFCLASSNUM'', 3), (''EI_DATA'', 5),
     (''ELFDATANONE'', 0), (''ELFDATA2LSB'', 1), (''ELFDATA2MSB'', 2), (''ELFDATANUM'', 3), (''EI_VERSION'', 6),
     (''EI_OSABI'', 7), (''ELFOSABI_NONE'', 0), (''ELFOSABI_SYSV'', 0), (''ELFOSABI_HPUX'', 1),
     (''ELFOSABI_NETBSD'', 2), (''ELFOSABI_GNU'', 3), (''ELFOSABI_LINUX'', 3), (''ELFOSABI_SOLARIS'', 6),
     (''ELFOSABI_AIX'', 7), (''ELFOSABI_IRIX'', 8), (''ELFOSABI_FREEBSD'', 9), (''ELFOSABI_TRU64'', 10),
     (''ELFOSABI_MODESTO'', 11), (''ELFOSABI_OPENBSD'', 12), (''ELFOSABI_ARM_AEABI'', 64), (''ELFOSABI_ARM'', 97),
     (''ELFOSABI_STANDALONE'', 255), (''EI_ABIVERSION'', 8), (''EI_PAD'', 9)]"

text \<open>The four bytes \<open>so_load\<close> compares, and all that it looks at: class, data encoding and machine are not checked.\<close>

definition ELFMAG :: "u8 list" where
  "ELFMAG = [0x7f, 0x45, 0x4c, 0x46]"

lemma magic_from_values:
  "map (\<lambda>n. ucast (the (map_of ident_values n)) :: u8) [''ELFMAG0'', ''ELFMAG1'', ''ELFMAG2'', ''ELFMAG3''] = ELFMAG"
  by (simp add: ident_values_def ELFMAG_def)

section \<open>Segments\<close>

definition segment_types :: "(string \<times> u32) list" where
  "segment_types =
    [(''PT_NULL'', 0), (''PT_LOAD'', 1), (''PT_DYNAMIC'', 2), (''PT_INTERP'', 3), (''PT_NOTE'', 4),
     (''PT_SHLIB'', 5), (''PT_PHDR'', 6), (''PT_TLS'', 7), (''PT_NUM'', 8), (''PT_LOOS'', 0x60000000),
     (''PT_GNU_EH_FRAME'', 0x6474e550), (''PT_GNU_STACK'', 0x6474e551), (''PT_GNU_RELRO'', 0x6474e552),
     (''PT_LOSUNW'', 0x6ffffffa), (''PT_SUNWBSS'', 0x6ffffffa), (''PT_SUNWSTACK'', 0x6ffffffb),
     (''PT_HISUNW'', 0x6fffffff), (''PT_HIOS'', 0x6fffffff), (''PT_LOPROC'', 0x70000000),
     (''PT_HIPROC'', 0x7fffffff)]"

definition segment_flags :: "(string \<times> u32) list" where
  "segment_flags =
    [(''PF_X'', 1), (''PF_W'', 2), (''PF_R'', 4), (''PF_MASKOS'', 0xff00000), (''PF_MASKPROC'', 0xf0000000)]"

definition arm_section_values :: "(string \<times> u32) list" where
  "arm_section_values =
    [(''SHF_ARM_ENTRYSECT'', 0x10000000), (''SHF_ARM_COMDEF'', 0x80000000), (''PF_ARM_SB'', 0x10000000),
     (''PF_ARM_PI'', 0x20000000), (''PF_ARM_ABS'', 0x40000000), (''PT_ARM_EXIDX'', 0x70000001),
     (''SHT_ARM_EXIDX'', 0x70000001), (''SHT_ARM_PREEMPTMAP'', 0x70000002), (''SHT_ARM_ATTRIBUTES'', 0x70000003)]"

lemma segment_values_agree:
  "map_of segment_types ''PT_LOAD'' = Some PT_LOAD" "map_of segment_flags ''PF_X'' = Some PF_X"
  by (simp_all add: segment_types_def segment_flags_def PT_LOAD_def PF_X_def)

text \<open>
  Of the legal segment types only \<open>PT_LOAD\<close> has an effect: a module's thread-local storage (\<open>PT_TLS\<close>) is not set
  up, and its unwind table (\<open>PT_ARM_EXIDX\<close>) is not registered.
\<close>

lemma other_segments: "(n, v) \<in> set segment_types \<Longrightarrow> n \<noteq> ''PT_LOAD'' \<Longrightarrow> v \<noteq> PT_LOAD"
  unfolding segment_types_def PT_LOAD_def by auto

lemma segment_ignored:
  "(n, v) \<in> set segment_types \<Longrightarrow> n \<noteq> ''PT_LOAD'' \<Longrightarrow> p_type (lmem s) p = v \<Longrightarrow>
   load_segment api ku load_addr d p s = Some (Next s)"
  using other_segments by (auto simp: load_segment_def)

lemma unwind_table_ignored:
  "Some (p_type (lmem s) p) = map_of arm_section_values ''PT_ARM_EXIDX'' \<Longrightarrow>
   load_segment api ku load_addr d p s = Some (Next s)"
  by (simp add: arm_section_values_def load_segment_def PT_LOAD_def)

section \<open>Dynamic entries\<close>

definition dynamic_tags :: "(string \<times> u32) list" where
  "dynamic_tags =
    [(''DT_NULL'', 0), (''DT_NEEDED'', 1), (''DT_PLTRELSZ'', 2), (''DT_PLTGOT'', 3), (''DT_HASH'', 4),
     (''DT_STRTAB'', 5), (''DT_SYMTAB'', 6), (''DT_RELA'', 7), (''DT_RELASZ'', 8), (''DT_RELAENT'', 9),
     (''DT_STRSZ'', 10), (''DT_SYMENT'', 11), (''DT_INIT'', 12), (''DT_FINI'', 13), (''DT_SONAME'', 14),
     (''DT_RPATH'', 15), (''DT_SYMBOLIC'', 16), (''DT_REL'', 17), (''DT_RELSZ'', 18), (''DT_RELENT'', 19),
     (''DT_PLTREL'', 20), (''DT_DEBUG'', 21), (''DT_TEXTREL'', 22), (''DT_JMPREL'', 23), (''DT_BIND_NOW'', 24),
     (''DT_INIT_ARRAY'', 25), (''DT_FINI_ARRAY'', 26), (''DT_INIT_ARRAYSZ'', 27), (''DT_FINI_ARRAYSZ'', 28),
     (''DT_RUNPATH'', 29), (''DT_FLAGS'', 30), (''DT_ENCODING'', 32), (''DT_PREINIT_ARRAY'', 32),
     (''DT_PREINIT_ARRAYSZ'', 33), (''DT_SYMTAB_SHNDX'', 34), (''DT_NUM'', 35), (''DT_LOOS'', 0x6000000d),
     (''DT_HIOS'', 0x6ffff000), (''DT_LOPROC'', 0x70000000)]"

lemma dynamic_tags_agree:
  "map_of dynamic_tags ''DT_NEEDED'' = Some DT_NEEDED" "map_of dynamic_tags ''DT_SONAME'' = Some DT_SONAME"
  by (simp_all add: dynamic_tags_def DT_NEEDED_def DT_SONAME_def)

text \<open>
  The loader takes its tables from the sections, by name; of the dynamic entries it reads \<open>DT_SONAME\<close> and \<open>DT_NEEDED\<close>
  only, so a section with none of the first leaves the module without a name.
\<close>

lemma other_tags_ignored:
  "(\<And>i. i < m_num_dynamic md \<Longrightarrow> dyn_tag m md i \<noteq> DT_SONAME) \<Longrightarrow> find_soname m md = md"
proof -
  assume none: "\<And>i. i < m_num_dynamic md \<Longrightarrow> dyn_tag m md i \<noteq> DT_SONAME"
  have "fold (\<lambda>i md. if dyn_tag m md i = DT_SONAME then md\<lparr>m_soname := m_dynstr md + dyn_ptr m md i\<rparr> else md) is md = md"
    if "\<forall>i\<in>set is. i < m_num_dynamic md" for "is"
    using that none by (induction "is") auto
  then show ?thesis by (simp add: find_soname_def)
qed

section \<open>Symbols\<close>

definition special_sections :: "(string \<times> u32) list" where
  "special_sections =
    [(''SHN_UNDEF'', 0), (''SHN_LORESERVE'', 0xff00), (''SHN_LOPROC'', 0xff00), (''SHN_BEFORE'', 0xff00),
     (''SHN_AFTER'', 0xff01), (''SHN_HIPROC'', 0xff1f), (''SHN_LOOS'', 0xff20), (''SHN_HIOS'', 0xff3f),
     (''SHN_ABS'', 0xfff1), (''SHN_COMMON'', 0xfff2), (''SHN_XINDEX'', 0xffff), (''SHN_HIRESERVE'', 0xffff)]"

definition binding_values :: "(string \<times> u32) list" where
  "binding_values =
    [(''STB_LOCAL'', 0), (''STB_GLOBAL'', 1), (''STB_WEAK'', 2), (''STB_NUM'', 3), (''STB_LOOS'', 10),
     (''STB_GNU_UNIQUE'', 10), (''STB_HIOS'', 12), (''STB_LOPROC'', 13), (''STB_HIPROC'', 15)]"

definition symbol_types :: "(string \<times> u32) list" where
  "symbol_types =
    [(''STT_NOTYPE'', 0), (''STT_OBJECT'', 1), (''STT_FUNC'', 2), (''STT_SECTION'', 3), (''STT_FILE'', 4),
     (''STT_COMMON'', 5), (''STT_TLS'', 6), (''STT_NUM'', 7), (''STT_LOOS'', 10), (''STT_GNU_IFUNC'', 10),
     (''STT_HIOS'', 12), (''STT_LOPROC'', 13), (''STT_HIPROC'', 15)]"

definition visibility_values :: "(string \<times> u32) list" where
  "visibility_values =
    [(''STV_DEFAULT'', 0), (''STV_INTERNAL'', 1), (''STV_HIDDEN'', 2), (''STV_PROTECTED'', 3)]"

definition ELF32_ST_BIND :: "u8 \<Rightarrow> u8" where "ELF32_ST_BIND v = drop_bit 4 v"
definition ELF32_ST_TYPE :: "u8 \<Rightarrow> u8" where "ELF32_ST_TYPE v = v AND 0xf"
definition ELF32_ST_INFO :: "u8 \<Rightarrow> u8 \<Rightarrow> u8" where "ELF32_ST_INFO bnd t = push_bit 4 bnd + (t AND 0xf)"
definition ELF32_ST_VISIBILITY :: "u8 \<Rightarrow> u8" where "ELF32_ST_VISIBILITY v = v AND 3"

text \<open>The 64-bit macros for the one byte are the same.\<close>

definition ELF64_ST_BIND :: "u8 \<Rightarrow> u8" where "ELF64_ST_BIND v = ELF32_ST_BIND v"
definition ELF64_ST_TYPE :: "u8 \<Rightarrow> u8" where "ELF64_ST_TYPE v = ELF32_ST_TYPE v"
definition ELF64_ST_INFO :: "u8 \<Rightarrow> u8 \<Rightarrow> u8" where "ELF64_ST_INFO bnd t = ELF32_ST_INFO bnd t"
definition ELF64_ST_VISIBILITY :: "u8 \<Rightarrow> u8" where "ELF64_ST_VISIBILITY v = ELF32_ST_VISIBILITY v"

lemma nibbles: "(v :: u8) AND 0xf = take_bit 4 v"
proof -
  have "(0xf :: u8) = mask 4" by (simp add: mask_eq_exp_minus_1)
  then show ?thesis by (simp only: take_bit_eq_mask)
qed

lemma unat_nibbles: "unat (ELF32_ST_BIND v) = unat v div 16" "unat (ELF32_ST_TYPE v) = unat v mod 16"
  unfolding ELF32_ST_BIND_def ELF32_ST_TYPE_def nibbles unsigned_drop_bit_eq unsigned_take_bit_eq
  using unsigned_less [of v, where 'a = nat] by (simp_all add: drop_bit_eq_div take_bit_eq_mod)

lemma st_info_roundtrip:
  assumes "unat bnd < 16" "unat t < 16"
  shows "ELF32_ST_BIND (ELF32_ST_INFO bnd t) = bnd" "ELF32_ST_TYPE (ELF32_ST_INFO bnd t) = t"
proof -
  have t: "take_bit 4 t = t"
    using assms(2) by (simp add: word_eq_iff_unsigned [where 'a = nat] unsigned_take_bit_eq take_bit_nat_eq_self)
  have "ELF32_ST_INFO bnd t = of_nat (unat bnd * 16 + unat t)"
    unfolding ELF32_ST_INFO_def nibbles t by (simp add: push_bit_eq_mult)
  moreover have "unat bnd * 16 + unat t < 2 ^ 8" using assms by simp
  ultimately have u: "unat (ELF32_ST_INFO bnd t) = unat bnd * 16 + unat t" by (simp only: unat_of_nat) simp
  show "ELF32_ST_BIND (ELF32_ST_INFO bnd t) = bnd" "ELF32_ST_TYPE (ELF32_ST_INFO bnd t) = t"
    using assms(2) by (simp_all only: word_unat_eq_iff unat_nibbles u) simp_all
qed

text \<open>
  \<open>so_symbol\<close> compares \<open>st_info\<close> with \<open>SHN_UNDEF\<close>, a section index: the only symbols it leaves out are local ones
  without a type, so a local function or object is found like an exported one.
\<close>

lemma info_test: "v = 0 \<longleftrightarrow> ELF32_ST_BIND v = 0 \<and> ELF32_ST_TYPE v = 0"
proof -
  have "unat v = 0 \<longleftrightarrow> unat v div 16 = 0 \<and> unat v mod 16 = 0" by presburger
  then show ?thesis by (simp only: word_unat_eq_iff unat_nibbles unsigned_0)
qed

lemma local_symbols_found:
  assumes "st_info m (sym_at md i) = ELF32_ST_INFO 0 2" "st_shndx m (sym_at md i) \<noteq> 0"
    "streq m (m_dynstr md + st_name m (sym_at md i)) name"
  shows "sym_matches m md name i"
  using assms by (simp add: sym_matches_def ELF32_ST_INFO_def)

text \<open>An absolute symbol (\<open>SHN_ABS\<close>) has a value that does not move with the module, but the base is added to it.\<close>

lemma absolute_symbol_moved:
  assumes "Some (ucast (st_shndx m (sym_at md i))) = map_of special_sections ''SHN_ABS''"
    and "st_info m (sym_at md i) \<noteq> 0" "streq m (m_dynstr md + st_name m (sym_at md i)) name" "m_text_base md \<noteq> 0"
  shows "sym_matches m md name i \<and> sym_addr m md i \<noteq> st_value m (sym_at md i)"
proof -
  have "st_shndx m (sym_at md i) \<noteq> 0" using assms(1) by (auto simp: special_sections_def)
  then show ?thesis using assms by (simp add: sym_matches_def sym_addr_def)
qed

section \<open>Relocations\<close>

definition arm_relocs_a :: "(string \<times> u32) list" where
  "arm_relocs_a =
    [(''R_ARM_NONE'', 0), (''R_ARM_PC24'', 1), (''R_ARM_ABS32'', 2), (''R_ARM_REL32'', 3), (''R_ARM_PC13'', 4),
     (''R_ARM_ABS16'', 5), (''R_ARM_ABS12'', 6), (''R_ARM_THM_ABS5'', 7), (''R_ARM_ABS8'', 8),
     (''R_ARM_SBREL32'', 9), (''R_ARM_THM_PC22'', 10), (''R_ARM_THM_PC8'', 11), (''R_ARM_AMP_VCALL9'', 12),
     (''R_ARM_SWI24'', 13), (''R_ARM_TLS_DESC'', 13), (''R_ARM_THM_SWI8'', 14), (''R_ARM_XPC25'', 15),
     (''R_ARM_THM_XPC22'', 16), (''R_ARM_TLS_DTPMOD32'', 17), (''R_ARM_TLS_DTPOFF32'', 18),
     (''R_ARM_TLS_TPOFF32'', 19), (''R_ARM_COPY'', 20), (''R_ARM_GLOB_DAT'', 21), (''R_ARM_JUMP_SLOT'', 22),
     (''R_ARM_RELATIVE'', 23), (''R_ARM_GOTOFF'', 24), (''R_ARM_GOTPC'', 25), (''R_ARM_GOT32'', 26),
     (''R_ARM_PLT32'', 27), (''R_ARM_CALL'', 28), (''R_ARM_JUMP24'', 29), (''R_ARM_THM_JUMP24'', 30),
     (''R_ARM_BASE_ABS'', 31), (''R_ARM_ALU_PCREL_7_0'', 32), (''R_ARM_ALU_PCREL_15_8'', 33),
     (''R_ARM_ALU_PCREL_23_15'', 34), (''R_ARM_LDR_SBREL_11_0'', 35), (''R_ARM_ALU_SBREL_19_12'', 36),
     (''R_ARM_ALU_SBREL_27_20'', 37), (''R_ARM_TARGET1'', 38), (''R_ARM_SBREL31'', 39), (''R_ARM_V4BX'', 40),
     (''R_ARM_TARGET2'', 41), (''R_ARM_PREL31'', 42), (''R_ARM_MOVW_ABS_NC'', 43), (''R_ARM_MOVT_ABS'', 44),
     (''R_ARM_MOVW_PREL_NC'', 45), (''R_ARM_MOVT_PREL'', 46), (''R_ARM_THM_MOVW_ABS_NC'', 47),
     (''R_ARM_THM_MOVT_ABS'', 48), (''R_ARM_THM_MOVW_PREL_NC'', 49), (''R_ARM_THM_MOVT_PREL'', 50),
     (''R_ARM_THM_JUMP19'', 51), (''R_ARM_THM_JUMP6'', 52), (''R_ARM_THM_ALU_PREL_11_0'', 53),
     (''R_ARM_THM_PC12'', 54), (''R_ARM_ABS32_NOI'', 55), (''R_ARM_REL32_NOI'', 56), (''R_ARM_ALU_PC_G0_NC'', 57),
     (''R_ARM_ALU_PC_G0'', 58), (''R_ARM_ALU_PC_G1_NC'', 59), (''R_ARM_ALU_PC_G1'', 60), (''R_ARM_ALU_PC_G2'', 61),
     (''R_ARM_LDR_PC_G1'', 62), (''R_ARM_LDR_PC_G2'', 63), (''R_ARM_LDRS_PC_G0'', 64), (''R_ARM_LDRS_PC_G1'', 65),
     (''R_ARM_LDRS_PC_G2'', 66), (''R_ARM_LDC_PC_G0'', 67), (''R_ARM_LDC_PC_G1'', 68), (''R_ARM_LDC_PC_G2'', 69)]"

definition arm_relocs_b :: "(string \<times> u32) list" where
  "arm_relocs_b =
    [(''R_ARM_ALU_SB_G0_NC'', 70), (''R_ARM_ALU_SB_G0'', 71), (''R_ARM_ALU_SB_G1_NC'', 72),
     (''R_ARM_ALU_SB_G1'', 73), (''R_ARM_ALU_SB_G2'', 74), (''R_ARM_LDR_SB_G0'', 75), (''R_ARM_LDR_SB_G1'', 76),
     (''R_ARM_LDR_SB_G2'', 77), (''R_ARM_LDRS_SB_G0'', 78), (''R_ARM_LDRS_SB_G1'', 79), (''R_ARM_LDRS_SB_G2'', 80),
     (''R_ARM_LDC_SB_G0'', 81), (''R_ARM_LDC_SB_G1'', 82), (''R_ARM_LDC_SB_G2'', 83), (''R_ARM_MOVW_BREL_NC'', 84),
     (''R_ARM_MOVT_BREL'', 85), (''R_ARM_MOVW_BREL'', 86), (''R_ARM_THM_MOVW_BREL_NC'', 87),
     (''R_ARM_THM_MOVT_BREL'', 88), (''R_ARM_THM_MOVW_BREL'', 89), (''R_ARM_TLS_GOTDESC'', 90),
     (''R_ARM_TLS_CALL'', 91), (''R_ARM_TLS_DESCSEQ'', 92), (''R_ARM_THM_TLS_CALL'', 93),
     (''R_ARM_PLT32_ABS'', 94), (''R_ARM_GOT_ABS'', 95), (''R_ARM_GOT_PREL'', 96), (''R_ARM_GOT_BREL12'', 97),
     (''R_ARM_GOTOFF12'', 98), (''R_ARM_GOTRELAX'', 99), (''R_ARM_GNU_VTENTRY'', 100),
     (''R_ARM_GNU_VTINHERIT'', 101), (''R_ARM_THM_PC11'', 102), (''R_ARM_THM_PC9'', 103),
     (''R_ARM_TLS_GD32'', 104), (''R_ARM_TLS_LDM32'', 105), (''R_ARM_TLS_LDO32'', 106), (''R_ARM_TLS_IE32'', 107),
     (''R_ARM_TLS_LE32'', 108), (''R_ARM_TLS_LDO12'', 109), (''R_ARM_TLS_LE12'', 110), (''R_ARM_TLS_IE12GP'', 111),
     (''R_ARM_ME_TOO'', 128), (''R_ARM_THM_TLS_DESCSEQ'', 129), (''R_ARM_THM_TLS_DESCSEQ16'', 129),
     (''R_ARM_THM_TLS_DESCSEQ32'', 130), (''R_ARM_THM_GOT_BREL12'', 131), (''R_ARM_IRELATIVE'', 160),
     (''R_ARM_RXPC25'', 249), (''R_ARM_RSBREL32'', 250), (''R_ARM_THM_RPC22'', 251), (''R_ARM_RREL32'', 252),
     (''R_ARM_RABS22'', 253), (''R_ARM_RPC24'', 254), (''R_ARM_RBASE'', 255)]"

definition arm_relocs :: "(string \<times> u32) list" where
  "arm_relocs = arm_relocs_a @ arm_relocs_b"

definition relocated_types :: "string list" where
  "relocated_types = [''R_ARM_ABS32'', ''R_ARM_GLOB_DAT'', ''R_ARM_JUMP_SLOT'', ''R_ARM_RELATIVE'']"

lemma relocs_a_supported:
  "list_all (\<lambda>(n, v). v \<in> {R_ARM_ABS32, R_ARM_RELATIVE, R_ARM_GLOB_DAT, R_ARM_JUMP_SLOT} \<longleftrightarrow> n \<in> set relocated_types) arm_relocs_a"
  unfolding arm_relocs_a_def relocated_types_def r_types by simp

lemma relocs_b_supported:
  "list_all (\<lambda>(n, v). v \<in> {R_ARM_ABS32, R_ARM_RELATIVE, R_ARM_GLOB_DAT, R_ARM_JUMP_SLOT} \<longleftrightarrow> n \<in> set relocated_types) arm_relocs_b"
  unfolding arm_relocs_b_def relocated_types_def r_types by simp

text \<open>
  Of the relocation types of the ARM architecture \<open>so_relocate\<close> carries out four; an entry of any other type ends the
  program, \<open>R_ARM_NONE\<close> (which asks for nothing) and \<open>R_ARM_COPY\<close> included.
\<close>

lemma arm_relocs_supported:
  assumes "(n, v) \<in> set arm_relocs" "rel_type m md i = v"
  shows "relocate_one ku md i m = None \<longleftrightarrow> n \<notin> set relocated_types"
proof -
  have "v \<in> {R_ARM_ABS32, R_ARM_RELATIVE, R_ARM_GLOB_DAT, R_ARM_JUMP_SLOT} \<longleftrightarrow> n \<in> set relocated_types"
    using assms(1) relocs_a_supported relocs_b_supported by (auto simp: arm_relocs_def list_all_iff)
  then show ?thesis using assms(2) by (auto simp: relocate_one_def Let_def)
qed

text \<open>\<open>r_info\<close> of the 64-bit entries.\<close>

definition ELF64_R_SYM :: "u64 \<Rightarrow> u64" where "ELF64_R_SYM v = drop_bit 32 v"
definition ELF64_R_TYPE :: "u64 \<Rightarrow> u64" where "ELF64_R_TYPE v = v AND 0xffffffff"
definition ELF64_R_INFO :: "u64 \<Rightarrow> u64 \<Rightarrow> u64" where "ELF64_R_INFO n t = push_bit 32 n + t"

lemma r_info64_roundtrip:
  assumes "unat n < 2 ^ 32" "unat t < 2 ^ 32"
  shows "ELF64_R_SYM (ELF64_R_INFO n t) = n" "ELF64_R_TYPE (ELF64_R_INFO n t) = t"
proof -
  have low: "x AND 0xffffffff = take_bit 32 x" for x :: u64
  proof -
    have "(0xffffffff :: u64) = mask 32" by (simp add: mask_eq_exp_minus_1)
    then show ?thesis by (simp only: take_bit_eq_mask)
  qed
  have "ELF64_R_INFO n t = of_nat (unat n * 2 ^ 32 + unat t)"
    by (simp add: ELF64_R_INFO_def push_bit_eq_mult)
  moreover have "unat n * 2 ^ 32 + unat t < 2 ^ 64" using assms by simp
  ultimately have u: "unat (ELF64_R_INFO n t) = unat n * 2 ^ 32 + unat t" by (simp only: unat_of_nat) simp
  have "unat (ELF64_R_SYM (ELF64_R_INFO n t)) = unat n"
    unfolding ELF64_R_SYM_def unsigned_drop_bit_eq u using assms by (simp add: drop_bit_eq_div take_bit_eq_mod)
  then show "ELF64_R_SYM (ELF64_R_INFO n t) = n" by (simp only: word_unat_eq_iff)
  have "unat (ELF64_R_TYPE (ELF64_R_INFO n t)) = unat t"
    unfolding ELF64_R_TYPE_def low unsigned_take_bit_eq u using assms(2) by (simp add: take_bit_eq_mod)
  then show "ELF64_R_TYPE (ELF64_R_INFO n t) = t" by (simp only: word_unat_eq_iff)
qed

end
