(* ===== verification/Elf_Ignored.thy ===== *)
theory Elf_Ignored
  imports Elf_Values
begin

text \<open>
  The values of \<open>elf.h\<close> for fields that \<open>so_load\<close> never looks at: type, machine and version of a file, types and
  flags of sections, the dynamic entries of the extensions and the flags they carry.  The lemmas say so of the
  loader's definitions: none of these values can change what is loaded, and a library for another machine is not refused.
\<close>

section \<open>The file header\<close>

definition object_types :: "(string \<times> u32) list" where
  "object_types =
    [(''ET_NONE'', 0), (''ET_REL'', 1), (''ET_EXEC'', 2), (''ET_DYN'', 3), (''ET_CORE'', 4), (''ET_NUM'', 5),
     (''ET_LOOS'', 0xfe00), (''ET_HIOS'', 0xfeff), (''ET_LOPROC'', 0xff00), (''ET_HIPROC'', 0xffff)]"

definition machines_a :: "(string \<times> u32) list" where
  "machines_a =
    [(''EM_NONE'', 0), (''EM_M32'', 1), (''EM_SPARC'', 2), (''EM_386'', 3), (''EM_68K'', 4), (''EM_88K'', 5),
     (''EM_IAMCU'', 6), (''EM_860'', 7), (''EM_MIPS'', 8), (''EM_S370'', 9), (''EM_MIPS_RS3_LE'', 10),
     (''EM_PARISC'', 15), (''EM_VPP500'', 17), (''EM_SPARC32PLUS'', 18), (''EM_960'', 19), (''EM_PPC'', 20),
     (''EM_PPC64'', 21), (''EM_S390'', 22), (''EM_SPU'', 23), (''EM_V800'', 36), (''EM_FR20'', 37),
     (''EM_RH32'', 38), (''EM_RCE'', 39), (''EM_ARM'', 40), (''EM_FAKE_ALPHA'', 41), (''EM_SH'', 42),
     (''EM_SPARCV9'', 43), (''EM_TRICORE'', 44), (''EM_ARC'', 45), (''EM_H8_300'', 46), (''EM_H8_300H'', 47),
     (''EM_H8S'', 48), (''EM_H8_500'', 49), (''EM_IA_64'', 50), (''EM_MIPS_X'', 51), (''EM_COLDFIRE'', 52),
     (''EM_68HC12'', 53), (''EM_MMA'', 54), (''EM_PCP'', 55), (''EM_NCPU'', 56), (''EM_NDR1'', 57),
     (''EM_STARCORE'', 58), (''EM_ME16'', 59), (''EM_ST100'', 60), (''EM_TINYJ'', 61), (''EM_X86_64'', 62),
     (''EM_PDSP'', 63), (''EM_PDP10'', 64), (''EM_PDP11'', 65), (''EM_FX66'', 66), (''EM_ST9PLUS'', 67),
     (''EM_ST7'', 68), (''EM_68HC16'', 69), (''EM_68HC11'', 70), (''EM_68HC08'', 71), (''EM_68HC05'', 72),
     (''EM_SVX'', 73), (''EM_ST19'', 74), (''EM_VAX'', 75), (''EM_CRIS'', 76), (''EM_JAVELIN'', 77),
     (''EM_FIREPATH'', 78), (''EM_ZSP'', 79), (''EM_MMIX'', 80), (''EM_HUANY'', 81), (''EM_PRISM'', 82),
     (''EM_AVR'', 83), (''EM_FR30'', 84), (''EM_D10V'', 85), (''EM_D30V'', 86), (''EM_V850'', 87),
     (''EM_M32R'', 88), (''EM_MN10300'', 89), (''EM_MN10200'', 90), (''EM_PJ'', 91), (''EM_OPENRISC'', 92),
     (''EM_ARC_COMPACT'', 93), (''EM_XTENSA'', 94), (''EM_VIDEOCORE'', 95), (''EM_TMM_GPP'', 96),
     (''EM_NS32K'', 97), (''EM_TPC'', 98), (''EM_SNP1K'', 99), (''EM_ST200'', 100), (''EM_IP2K'', 101),
     (''EM_MAX'', 102), (''EM_CR'', 103), (''EM_F2MC16'', 104), (''EM_MSP430'', 105), (''EM_BLACKFIN'', 106),
     (''EM_SE_C33'', 107), (''EM_SEP'', 108), (''EM_ARCA'', 109), (''EM_UNICORE'', 110), (''EM_EXCESS'', 111),
     (''EM_DXP'', 112), (''EM_ALTERA_NIOS2'', 113), (''EM_CRX'', 114), (''EM_XGATE'', 115), (''EM_C166'', 116),
     (''EM_M16C'', 117), (''EM_DSPIC30F'', 118), (''EM_CE'', 119), (''EM_M32C'', 120)]"

definition machines_b :: "(string \<times> u32) list" where
  "machines_b =
    [(''EM_TSK3000'', 131), (''EM_RS08'', 132), (''EM_SHARC'', 133), (''EM_ECOG2'', 134), (''EM_SCORE7'', 135),
     (''EM_DSP24'', 136), (''EM_VIDEOCORE3'', 137), (''EM_LATTICEMICO32'', 138), (''EM_SE_C17'', 139),
     (''EM_TI_C6000'', 140), (''EM_TI_C2000'', 141), (''EM_TI_C5500'', 142), (''EM_TI_ARP32'', 143),
     (''EM_TI_PRU'', 144), (''EM_MMDSP_PLUS'', 160), (''EM_CYPRESS_M8C'', 161), (''EM_R32C'', 162),
     (''EM_TRIMEDIA'', 163), (''EM_QDSP6'', 164), (''EM_8051'', 165), (''EM_STXP7X'', 166), (''EM_NDS32'', 167),
     (''EM_ECOG1X'', 168), (''EM_MAXQ30'', 169), (''EM_XIMO16'', 170), (''EM_MANIK'', 171), (''EM_CRAYNV2'', 172),
     (''EM_RX'', 173), (''EM_METAG'', 174), (''EM_MCST_ELBRUS'', 175), (''EM_ECOG16'', 176), (''EM_CR16'', 177),
     (''EM_ETPU'', 178), (''EM_SLE9X'', 179), (''EM_L10M'', 180), (''EM_K10M'', 181), (''EM_AARCH64'', 183),
     (''EM_AVR32'', 185), (''EM_STM8'', 186), (''EM_TILE64'', 187), (''EM_TILEPRO'', 188),
     (''EM_MICROBLAZE'', 189), (''EM_CUDA'', 190), (''EM_TILEGX'', 191), (''EM_CLOUDSHIELD'', 192),
     (''EM_COREA_1ST'', 193), (''EM_COREA_2ND'', 194), (''EM_ARC_COMPACT2'', 195), (''EM_OPEN8'', 196),
     (''EM_RL78'', 197), (''EM_VIDEOCORE5'', 198), (''EM_78KOR'', 199), (''EM_56800EX'', 200), (''EM_BA1'', 201),
     (''EM_BA2'', 202), (''EM_XCORE'', 203), (''EM_MCHP_PIC'', 204), (''EM_KM32'', 210), (''EM_KMX32'', 211),
     (''EM_EMX16'', 212), (''EM_EMX8'', 213), (''EM_KVARC'', 214), (''EM_CDP'', 215), (''EM_COGE'', 216),
     (''EM_COOL'', 217), (''EM_NORC'', 218), (''EM_CSR_KALIMBA'', 219), (''EM_Z80'', 220), (''EM_VISIUM'', 221),
     (''EM_FT32'', 222), (''EM_MOXIE'', 223), (''EM_AMDGPU'', 224), (''EM_RISCV'', 243), (''EM_BPF'', 247),
     (''EM_NUM'', 248), (''EM_ARC_A5'', 93), (''EM_ALPHA'', 0x9026)]"

definition machines :: "(string \<times> u32) list" where
  "machines = machines_a @ machines_b"

definition version_values :: "(string \<times> u32) list" where
  "version_values =
    [(''EV_NONE'', 0), (''EV_CURRENT'', 1), (''EV_NUM'', 2)]"

definition e_type :: "memory \<Rightarrow> u32 \<Rightarrow> u16" where "e_type m d = load16 m (d + 16)"
definition e_machine :: "memory \<Rightarrow> u32 \<Rightarrow> u16" where "e_machine m d = load16 m (d + 18)"
definition e_version :: "memory \<Rightarrow> u32 \<Rightarrow> u32" where "e_version m d = load32 m (d + 20)"

text \<open>The fields of a header the loader reads, and the same header with other bytes from \<open>EI_CLASS\<close> to \<open>e_version\<close>.\<close>

definition same_header :: "memory \<Rightarrow> memory \<Rightarrow> u32 \<Rightarrow> bool" where
  "same_header m m' d \<longleftrightarrow> read_bytes m' d 4 = read_bytes m d 4 \<and> e_phoff m' d = e_phoff m d \<and> e_shoff m' d = e_shoff m d \<and>
     e_phnum m' d = e_phnum m d \<and> e_shnum m' d = e_shnum m d \<and> e_shstrndx m' d = e_shstrndx m d"

lemma off_header: "unat ((d + k) - (d + 4) :: u32) = unat (k - 4)"
  by simp

lemma header_ignored:
  assumes "length bs = 20"
  shows "same_header m (write_bytes m (d + 4) bs) d"
proof -
  have b: "write_bytes m (d + 4) bs (d + k) = m (d + k)" if "20 \<le> unat (k - 4)" for k
    using assms that by (simp add: write_bytes_apply)
  have b0: "write_bytes m (d + 4) bs d = m d" using b [of 0] by simp
  show ?thesis
    unfolding same_header_def read_bytes_def e_phoff_def e_shoff_def e_phnum_def e_shnum_def e_shstrndx_def
      load32_def load16_def
    by (simp add: add.assoc b b0 upt_rec)
qed

text \<open>So a header that names any of the machines is as good as any other.\<close>

lemma any_machine_loaded:
  assumes "(n, v) \<in> set machines"
  shows "\<exists>m'. e_machine m' d = ucast v \<and> same_header m m' d"
proof -
  let ?bs = "replicate 14 0 @ le16 (ucast v) @ replicate 4 (0 :: u8)"
  let ?m = "write_bytes m (d + 4) ?bs"
  have l: "length ?bs = 20" by (simp add: le16_def)
  have "read_bytes ?m (d + 18) 2 = le16 (ucast v)"
    using l by (simp add: read_bytes_def write_bytes_apply upt_rec nth_append le16_def)
  then have "e_machine ?m d = ucast v" unfolding e_machine_def by (rule load16_of_bytes)
  then show ?thesis using header_ignored [OF l] by blast
qed

section \<open>Sections\<close>

definition section_types :: "(string \<times> u32) list" where
  "section_types =
    [(''SHT_NULL'', 0), (''SHT_PROGBITS'', 1), (''SHT_SYMTAB'', 2), (''SHT_STRTAB'', 3), (''SHT_RELA'', 4),
     (''SHT_HASH'', 5), (''SHT_DYNAMIC'', 6), (''SHT_NOTE'', 7), (''SHT_NOBITS'', 8), (''SHT_REL'', 9),
     (''SHT_SHLIB'', 10), (''SHT_DYNSYM'', 11), (''SHT_INIT_ARRAY'', 14), (''SHT_FINI_ARRAY'', 15),
     (''SHT_PREINIT_ARRAY'', 16), (''SHT_GROUP'', 17), (''SHT_SYMTAB_SHNDX'', 18), (''SHT_NUM'', 19),
     (''SHT_LOOS'', 0x60000000), (''SHT_GNU_ATTRIBUTES'', 0x6ffffff5), (''SHT_GNU_HASH'', 0x6ffffff6),
     (''SHT_GNU_LIBLIST'', 0x6ffffff7), (''SHT_CHECKSUM'', 0x6ffffff8), (''SHT_LOSUNW'', 0x6ffffffa),
     (''SHT_SUNW_move'', 0x6ffffffa), (''SHT_SUNW_COMDAT'', 0x6ffffffb), (''SHT_SUNW_syminfo'', 0x6ffffffc),
     (''SHT_GNU_verdef'', 0x6ffffffd), (''SHT_GNU_verneed'', 0x6ffffffe), (''SHT_GNU_versym'', 0x6fffffff),
     (''SHT_HISUNW'', 0x6fffffff), (''SHT_HIOS'', 0x6fffffff), (''SHT_LOPROC'', 0x70000000),
     (''SHT_HIPROC'', 0x7fffffff), (''SHT_LOUSER'', 0x80000000), (''SHT_HIUSER'', 0x8fffffff)]"

definition section_flags :: "(string \<times> u32) list" where
  "section_flags =
    [(''SHF_WRITE'', 1), (''SHF_ALLOC'', 2), (''SHF_EXECINSTR'', 4), (''SHF_MERGE'', 16), (''SHF_STRINGS'', 32),
     (''SHF_INFO_LINK'', 64), (''SHF_LINK_ORDER'', 128), (''SHF_OS_NONCONFORMING'', 256), (''SHF_GROUP'', 512),
     (''SHF_TLS'', 1024), (''SHF_COMPRESSED'', 2048), (''SHF_MASKOS'', 0xff00000), (''SHF_MASKPROC'', 0xf0000000),
     (''SHF_ORDERED'', 0x40000000), (''SHF_EXCLUDE'', 0x80000000)]"

text \<open>
  The loader knows a section by its name: type and flags, the two words behind the name, do not matter, so a
  compressed section (\<open>SHF_COMPRESSED\<close>) or one without contents (\<open>SHT_NOBITS\<close>) is taken like any other.
\<close>

lemma section_kind_ignored:
  fixes m shdr i
  defines "sh \<equiv> shdr + of_nat (40 * i)"
  assumes "length bs = 8" "\<And>s. streq (write_bytes m (sh + 4) bs) (shstr + load32 m sh) s = streq m (shstr + load32 m sh) s"
  shows "scan_section (write_bytes m (sh + 4) bs) shdr shstr i md = scan_section m shdr shstr i md"
proof -
  have b: "write_bytes m (sh + 4) bs (sh + k) = m (sh + k)" if "8 \<le> unat (k - 4)" for k
    using assms(2) that by (simp add: write_bytes_apply)
  have b0: "write_bytes m (sh + 4) bs sh = m sh" using b [of 0] by simp
  have "load32 (write_bytes m (sh + 4) bs) sh = load32 m sh"
    "load32 (write_bytes m (sh + 4) bs) (sh + 12) = load32 m (sh + 12)"
    "load32 (write_bytes m (sh + 4) bs) (sh + 20) = load32 m (sh + 20)"
    unfolding load32_def by (simp_all add: add.assoc b b0)
  then show ?thesis unfolding scan_section_def Let_def sh_def [symmetric] by (simp only: assms(3))
qed

section \<open>Dynamic entries\<close>

definition value_tags :: "(string \<times> u32) list" where
  "value_tags =
    [(''DT_VALRNGLO'', 0x6ffffd00), (''DT_GNU_PRELINKED'', 0x6ffffdf5), (''DT_GNU_CONFLICTSZ'', 0x6ffffdf6),
     (''DT_GNU_LIBLISTSZ'', 0x6ffffdf7), (''DT_CHECKSUM'', 0x6ffffdf8), (''DT_PLTPADSZ'', 0x6ffffdf9),
     (''DT_MOVEENT'', 0x6ffffdfa), (''DT_MOVESZ'', 0x6ffffdfb), (''DT_FEATURE_1'', 0x6ffffdfc),
     (''DT_POSFLAG_1'', 0x6ffffdfd), (''DT_SYMINSZ'', 0x6ffffdfe), (''DT_SYMINENT'', 0x6ffffdff),
     (''DT_VALRNGHI'', 0x6ffffdff)]"

definition address_tags :: "(string \<times> u32) list" where
  "address_tags =
    [(''DT_ADDRRNGLO'', 0x6ffffe00), (''DT_GNU_HASH'', 0x6ffffef5), (''DT_TLSDESC_PLT'', 0x6ffffef6),
     (''DT_TLSDESC_GOT'', 0x6ffffef7), (''DT_GNU_CONFLICT'', 0x6ffffef8), (''DT_GNU_LIBLIST'', 0x6ffffef9),
     (''DT_CONFIG'', 0x6ffffefa), (''DT_DEPAUDIT'', 0x6ffffefb), (''DT_AUDIT'', 0x6ffffefc),
     (''DT_PLTPAD'', 0x6ffffefd), (''DT_MOVETAB'', 0x6ffffefe), (''DT_SYMINFO'', 0x6ffffeff),
     (''DT_ADDRRNGHI'', 0x6ffffeff)]"

definition version_tags :: "(string \<times> u32) list" where
  "version_tags =
    [(''DT_VERSYM'', 0x6ffffff0), (''DT_RELACOUNT'', 0x6ffffff9), (''DT_RELCOUNT'', 0x6ffffffa),
     (''DT_FLAGS_1'', 0x6ffffffb), (''DT_VERDEF'', 0x6ffffffc), (''DT_VERDEFNUM'', 0x6ffffffd),
     (''DT_VERNEED'', 0x6ffffffe), (''DT_VERNEEDNUM'', 0x6fffffff)]"

definition filter_tags :: "(string \<times> u32) list" where
  "filter_tags =
    [(''DT_AUXILIARY'', 0x7ffffffd), (''DT_FILTER'', 0x7fffffff)]"

definition extension_tags :: "(string \<times> u32) list" where
  "extension_tags = value_tags @ address_tags @ version_tags @ filter_tags"

lemma extension_tags_unknown: "(n, v) \<in> set extension_tags \<Longrightarrow> v \<noteq> DT_SONAME \<and> v \<noteq> DT_NEEDED"
  unfolding extension_tags_def value_tags_def address_tags_def version_tags_def filter_tags_def DT_SONAME_def DT_NEEDED_def
  by auto

text \<open>Symbol versions, filters and the GNU hash table have no effect: symbols are found by their names alone.\<close>

lemma extensions_ignored:
  assumes "\<And>i. i < m_num_dynamic md \<Longrightarrow> dyn_tag m md i \<in> snd ` set extension_tags"
  shows "find_soname m md = md"
  using assms extension_tags_unknown by (intro other_tags_ignored) fastforce

text \<open>The flags of \<open>DT_FLAGS\<close> and \<open>DT_FLAGS_1\<close> are single bits, and are never read.\<close>

definition dynamic_flags :: "(string \<times> u32) list" where
  "dynamic_flags =
    [(''DF_ORIGIN'', 1), (''DF_SYMBOLIC'', 2), (''DF_TEXTREL'', 4), (''DF_BIND_NOW'', 8), (''DF_STATIC_TLS'', 16)]"

definition state_flags :: "(string \<times> u32) list" where
  "state_flags =
    [(''DF_1_NOW'', 1), (''DF_1_GLOBAL'', 2), (''DF_1_GROUP'', 4), (''DF_1_NODELETE'', 8), (''DF_1_LOADFLTR'', 16),
     (''DF_1_INITFIRST'', 32), (''DF_1_NOOPEN'', 64), (''DF_1_ORIGIN'', 128), (''DF_1_DIRECT'', 256),
     (''DF_1_TRANS'', 512), (''DF_1_INTERPOSE'', 1024), (''DF_1_NODEFLIB'', 2048), (''DF_1_NODUMP'', 0x1000),
     (''DF_1_CONFALT'', 0x2000), (''DF_1_ENDFILTEE'', 0x4000), (''DF_1_DISPRELDNE'', 0x8000),
     (''DF_1_DISPRELPND'', 0x10000), (''DF_1_NODIRECT'', 0x20000), (''DF_1_IGNMULDEF'', 0x40000),
     (''DF_1_NOKSYMS'', 0x80000), (''DF_1_NOHDR'', 0x100000), (''DF_1_EDITED'', 0x200000),
     (''DF_1_NORELOC'', 0x400000), (''DF_1_SYMINTPOSE'', 0x800000), (''DF_1_GLOBAUDIT'', 0x1000000),
     (''DF_1_SINGLETON'', 0x2000000), (''DF_1_STUB'', 0x4000000), (''DF_1_PIE'', 0x8000000)]"

lemma flags_single_bits:
  "map snd dynamic_flags = map (\<lambda>n. push_bit n 1) [0..<5]" "map snd state_flags = map (\<lambda>n. push_bit n 1) [0..<28]"
  by (simp_all add: dynamic_flags_def state_flags_def upt_rec)

end
