(* ===== verification/Jni_Strings.thy ===== *)
theory Jni_Strings
  imports Jni_Objects So_Symbols
begin

text \<open>
  The strings of the fake JNI environment (\<open>jni_patch.c\<close>) over the byte memory.  A Java string is the address
  of a C string (\<open>cstr\<close>): \<open>NewString\<close> keeps the low byte of every UTF-16 unit, \<open>GetStringChars\<close> widens the bytes
  again.  newlib's \<open>malloc\<close>, \<open>calloc\<close> and \<open>free\<close> are parameters with their state; \<open>None\<close> is a string without an
  end in memory or a write through a null pointer.

  \<open>narrow_units\<close> and \<open>widen_bytes\<close> say what the two conversions do to the contents; the loops are shown to
  do that, and a string of Latin-1 characters to survive both.
\<close>

section \<open>Operations\<close>

type_synonym 'e malloc_fun = "u32 \<Rightarrow> 'e \<Rightarrow> u32 \<times> 'e"

definition strdup :: "'e malloc_fun \<Rightarrow> u32 \<Rightarrow> 'e java_heap \<Rightarrow> (u32 \<times> 'e java_heap) option" where
  "strdup malloc s h = do {
     bs \<leftarrow> cstr (jmem h) s;
     let (p, e) = malloc (of_nat (length bs + 1)) (jext h);
     Some (p, h\<lparr>jmem := (if p = 0 then jmem h else write_bytes (jmem h) p (bs @ [0])), jext := e\<rparr>)
   }"

definition NewStringUTF :: "'e malloc_fun \<Rightarrow> u32 \<Rightarrow> 'e java_heap \<Rightarrow> (u32 \<times> 'e java_heap) option" where
  "NewStringUTF malloc s h =
     (let h = h\<lparr>jni_n_str := jni_n_str h + 1\<rparr> in if s \<noteq> 0 then strdup malloc s h else Some (0, h))"

definition jni_new_string :: "'e malloc_fun \<Rightarrow> u32 \<Rightarrow> 'e java_heap \<Rightarrow> (u32 \<times> 'e java_heap) option" where
  "jni_new_string malloc s h = strdup malloc s h"

text \<open>A reference below \<open>0x10000\<close> is no string: the address \<open>blank\<close> of the empty literal is given out instead.\<close>

definition GetStringUTFChars :: "u32 \<Rightarrow> u32 \<Rightarrow> u32 \<Rightarrow> memory \<Rightarrow> u32 \<times> memory" where
  "GetStringUTFChars blank s isCopy m = (if s < 0x10000 then blank else s, store_flag isCopy 0 m)"

definition ReleaseStringUTFChars :: "u32 \<Rightarrow> u32 \<Rightarrow> 'e java_heap \<Rightarrow> 'e java_heap" where
  "ReleaseStringUTFChars s c h = h"

definition GetStringUTFLength :: "u32 \<Rightarrow> memory \<Rightarrow> u32 option" where
  "GetStringUTFLength s m = (if s = 0 then Some 0 else map_option (\<lambda>bs. of_nat (length bs)) (cstr m s))"

definition GetStringLength :: "u32 \<Rightarrow> memory \<Rightarrow> u32 option" where
  "GetStringLength s m = (if s = 0 then Some 0 else map_option (\<lambda>bs. of_nat (length bs)) (cstr m s))"

text \<open>The loop of \<open>NewString\<close>, from index \<open>i\<close> with \<open>n\<close> units left.\<close>

fun narrow_from :: "nat \<Rightarrow> nat \<Rightarrow> u32 \<Rightarrow> u32 \<Rightarrow> memory \<Rightarrow> memory" where
  "narrow_from 0 i s r m = m"
| "narrow_from (Suc n) i s r m =
     narrow_from n (Suc i) s r (m(r + of_nat i := ucast (load16 m (s + of_nat (2 * i)))))"

definition NewString :: "'e calloc_fun \<Rightarrow> u32 \<Rightarrow> i32 \<Rightarrow> 'e java_heap \<Rightarrow> (u32 \<times> 'e java_heap) option" where
  "NewString calloc s len h =
     (let h = h\<lparr>jni_n_str := jni_n_str h + 1\<rparr>; (r, e) = calloc 1 (len + 1) (jext h); n = nat (sint len) in
      if r = 0 then (if 0 < n then None else Some (0, h\<lparr>jext := e\<rparr>))
      else Some (r, h\<lparr>jmem := narrow_from n 0 s r (write_bytes (jmem h) r (replicate (unat (len + 1)) 0)), jext := e\<rparr>))"

text \<open>The loop of \<open>GetStringChars\<close>.\<close>

fun widen_from :: "nat \<Rightarrow> nat \<Rightarrow> u32 \<Rightarrow> u32 \<Rightarrow> memory \<Rightarrow> memory" where
  "widen_from 0 i s r m = m"
| "widen_from (Suc n) i s r m =
     widen_from n (Suc i) s r (write_bytes m (r + of_nat (2 * i)) (le16 (ucast (m (s + of_nat i)))))"

definition GetStringChars :: "'e calloc_fun \<Rightarrow> u32 \<Rightarrow> u32 \<Rightarrow> 'e java_heap \<Rightarrow> (u32 \<times> 'e java_heap) option" where
  "GetStringChars calloc s c h = do {
     bs \<leftarrow> cstr (jmem h) s;
     let n = length bs;
     let (r, e) = calloc (of_nat (n + 1)) 2 (jext h);
     let m = (if r = 0 then jmem h else write_bytes (jmem h) r (replicate (2 * (n + 1)) 0));
     if r = 0 \<and> 0 < n then None
     else Some (r, h\<lparr>jmem := store_flag c 1 (widen_from n 0 s r m), jext := e\<rparr>)
   }"

definition ReleaseStringChars :: "(u32 \<Rightarrow> 'e \<Rightarrow> 'e) \<Rightarrow> u32 \<Rightarrow> u32 \<Rightarrow> 'e java_heap \<Rightarrow> 'e java_heap" where
  "ReleaseStringChars free s c h = h\<lparr>jext := free c (jext h)\<rparr>"

definition GetStringUTFRegion :: "u32 \<Rightarrow> u32 \<Rightarrow> u32 \<Rightarrow> u32 \<Rightarrow> memory \<Rightarrow> memory" where
  "GetStringUTFRegion s start len buf m =
     (write_bytes m buf (read_bytes m (s + start) (unat len)))(buf + len := 0)"

section \<open>Contents\<close>

definition narrow_units :: "u16 list \<Rightarrow> u8 list" where
  "narrow_units us = map ucast us"

definition widen_bytes :: "u8 list \<Rightarrow> u16 list" where
  "widen_bytes bs = map ucast bs"

definition read_units :: "memory \<Rightarrow> u32 \<Rightarrow> nat \<Rightarrow> u16 list" where
  "read_units m a n = map (\<lambda>i. load16 m (a + of_nat (2 * i))) [0..<n]"

lemma length_units [simp]:
  "length (read_units m a n) = n" "length (narrow_units us) = length us" "length (widen_bytes bs) = length bs"
  by (simp_all add: read_units_def narrow_units_def widen_bytes_def)

text \<open>Two blocks of memory that share no byte.\<close>

definition blocks_apart :: "u32 \<Rightarrow> nat \<Rightarrow> u32 \<Rightarrow> nat \<Rightarrow> bool" where
  "blocks_apart a n b k \<longleftrightarrow> list_all (\<lambda>i. list_all (\<lambda>j. a + of_nat i \<noteq> b + of_nat j) [0..<k]) [0..<n]"

lemma blocks_apartD: "blocks_apart a n b k \<Longrightarrow> i < n \<Longrightarrow> j < k \<Longrightarrow> a + of_nat i \<noteq> b + of_nat j"
  by (simp add: blocks_apart_def list_all_iff)

lemma blocks_apart_sub: "blocks_apart a n b k \<Longrightarrow> n' \<le> n \<Longrightarrow> k' \<le> k \<Longrightarrow> blocks_apart a n' b k'"
  by (simp add: blocks_apart_def list_all_iff)

lemma written_apart:
  assumes "blocks_apart a n b (length bs)" "i < n" "length bs < 2 ^ 32"
  shows "write_bytes m b bs (a + of_nat i) = m (a + of_nat i)"
proof -
  have "\<not> unat (a + of_nat i - b) < length bs"
  proof
    assume l: "unat (a + of_nat i - b) < length bs"
    have "a + of_nat i = b + of_nat (unat (a + of_nat i - b))" by simp
    then show False using blocks_apartD [OF assms(1,2) l] by blast
  qed
  then show ?thesis using assms(3) by (simp add: write_bytes_apply)
qed

lemma write_bytes_append: "write_bytes m a (xs @ ys) = write_bytes (write_bytes m a xs) (a + of_nat (length xs)) ys"
  by (induction xs arbitrary: m a) (simp_all add: add.assoc)

lemma written_byte:
  "k < length bs \<Longrightarrow> length bs < 2 ^ 32 \<Longrightarrow> write_bytes m a bs (a + of_nat k) = bs ! k"
  by (simp add: write_bytes_apply unat_of_nat)

text \<open>The conversion loops write the contents.\<close>

lemma narrow_from_writes:
  assumes "blocks_apart s (2 * (i + n)) r (i + n)"
  shows "narrow_from n i s r m = write_bytes m (r + of_nat i) (narrow_units (map (\<lambda>k. load16 m (s + of_nat (2 * k))) [i..<i + n]))"
  using assms
proof (induction n arbitrary: i m)
  case 0
  then show ?case by (simp add: narrow_units_def)
next
  case (Suc n)
  let ?m = "m(r + of_nat i := ucast (load16 m (s + of_nat (2 * i))))"
  have same: "load16 ?m (s + of_nat (2 * k)) = load16 m (s + of_nat (2 * k))" if "k < i + Suc n" for k
    using blocks_apartD [OF Suc.prems, of "2 * k" i] blocks_apartD [OF Suc.prems, of "2 * k + 1" i] that
    by (simp add: load16_def ac_simps)
  have "narrow_from n (Suc i) s r ?m =
      write_bytes ?m (r + of_nat (Suc i)) (narrow_units (map (\<lambda>k. load16 ?m (s + of_nat (2 * k))) [Suc i..<Suc i + n]))"
    by (rule Suc.IH) (use Suc.prems in simp)
  also have "map (\<lambda>k. load16 ?m (s + of_nat (2 * k))) [Suc i..<Suc i + n] = map (\<lambda>k. load16 m (s + of_nat (2 * k))) [Suc i..<i + Suc n]"
    by (rule map_cong) (use same in auto)
  finally show ?case by (simp add: narrow_units_def upt_conv_Cons ac_simps del: upt_Suc of_nat_mult fun_upd_apply)
qed

lemma widen_from_writes:
  assumes "blocks_apart s (i + n) r (2 * (i + n))"
  shows "widen_from n i s r m = write_bytes m (r + of_nat (2 * i)) (concat (map (\<lambda>k. le16 (ucast (m (s + of_nat k)))) [i..<i + n]))"
  using assms
proof (induction n arbitrary: i m)
  case 0
  then show ?case by simp
next
  case (Suc n)
  let ?w = "le16 (ucast (m (s + of_nat i)))"
  let ?m = "write_bytes m (r + of_nat (2 * i)) ?w"
  have same: "?m (s + of_nat k) = m (s + of_nat k)" if "k < i + Suc n" for k
    using blocks_apartD [OF Suc.prems that, of "2 * i"] blocks_apartD [OF Suc.prems that, of "2 * i + 1"]
    by (simp add: le16_def ac_simps)
  have "widen_from n (Suc i) s r ?m =
      write_bytes ?m (r + of_nat (2 * Suc i)) (concat (map (\<lambda>k. le16 (ucast (?m (s + of_nat k)))) [Suc i..<Suc i + n]))"
    by (rule Suc.IH) (use Suc.prems in simp)
  also have "map (\<lambda>k. le16 (ucast (?m (s + of_nat k)))) [Suc i..<Suc i + n] = map (\<lambda>k. le16 (ucast (m (s + of_nat k)))) [Suc i..<i + Suc n]"
  proof (rule map_cong)
    fix k assume "k \<in> set [Suc i..<i + Suc n]"
    then show "le16 (ucast (?m (s + of_nat k))) = le16 (ucast (m (s + of_nat k)))" by (subst same) auto
  qed simp
  finally have "widen_from (Suc n) i s r m =
      write_bytes ?m (r + of_nat (2 * i) + of_nat (length ?w)) (concat (map (\<lambda>k. le16 (ucast (m (s + of_nat k)))) [Suc i..<i + Suc n]))"
    by (simp add: ac_simps)
  then show ?case by (simp add: write_bytes_append upt_conv_Cons ac_simps del: upt_Suc of_nat_mult)
qed

text \<open>A string that lies in memory with a zero behind it is read up to its first zero.\<close>

lemma cstr_of_bytes:
  "\<forall>k < length bs. m (a + of_nat k) = bs ! k \<Longrightarrow> m (a + of_nat (length bs)) = 0 \<Longrightarrow>
   cstr m a = Some (takeWhile (\<lambda>b. b \<noteq> 0) bs)"
proof (induction bs arbitrary: a)
  case Nil
  then show ?case by (subst cstr.simps) simp
next
  case (Cons b bs)
  have b: "m a = b" using Cons.prems(1) by force
  have "\<forall>k < length bs. m (a + 1 + of_nat k) = bs ! k"
  proof (intro allI impI)
    fix k assume "k < length bs"
    then have "m (a + of_nat (Suc k)) = (b # bs) ! Suc k" using Cons.prems(1) by (metis Suc_less_eq length_Cons)
    then show "m (a + 1 + of_nat k) = bs ! k" by (simp add: add.assoc)
  qed
  then have "cstr m (a + 1) = Some (takeWhile (\<lambda>b. b \<noteq> 0) bs)"
    using Cons.prems(2) by (intro Cons.IH) (simp_all add: add.assoc)
  then show ?case using b by (subst cstr.simps) simp
qed

lemma cstr_bytes:
  "cstr m a = Some bs \<Longrightarrow> 0 \<notin> set bs \<and> (\<forall>k < length bs. m (a + of_nat k) = bs ! k) \<and> m (a + of_nat (length bs)) = 0"
proof (induction bs arbitrary: a)
  case Nil
  then show ?case by (subst (asm) cstr.simps) (simp split: if_splits bind_splits)
next
  case (Cons b bs)
  from Cons.prems have "m a \<noteq> 0" "m a = b" "cstr m (a + 1) = Some bs"
    by (subst (asm) cstr.simps, auto split: if_splits bind_splits)+
  then show ?case using Cons.IH [of "a + 1"] by (auto simp: nth_Cons add.assoc split: nat.split)
qed

lemma zeros_written:
  "k < n \<Longrightarrow> n < 2 ^ 32 \<Longrightarrow> write_bytes m a (replicate n 0) (a + of_nat k) = 0"
  by (simp add: written_byte)

section \<open>The conversions\<close>

text \<open>\<open>NewString\<close> makes the C string of the units' low bytes, up to the first that is zero.\<close>

lemma NewString_contents:
  assumes len: "len = of_nat n" "n < 2 ^ 31" and new: "calloc 1 (len + 1) (jext h) = (r, e)" "r \<noteq> 0"
    and apart: "blocks_apart s (2 * n) r (n + 1)"
  shows "\<exists>h'. NewString calloc s len h = Some (r, h') \<and> jext h' = e \<and>
    cstr (jmem h') r = Some (takeWhile (\<lambda>b. b \<noteq> 0) (narrow_units (read_units (jmem h) s n)))"
proof -
  have n: "nat (sint len) = n" "n < 2 ^ 31" using len by (simp_all add: sint_of_nat32)
  have "len + 1 = of_nat (n + 1)" using len by simp
  moreover have "unat (of_nat (n + 1) :: u32) = n + 1" using n(2) by (simp add: unat_of_nat del: of_nat_add of_nat_Suc)
  ultimately have n1: "unat (len + 1) = n + 1" by (simp only:)
  let ?u = "narrow_units (read_units (jmem h) s n)" and ?m = "write_bytes (jmem h) r (replicate (n + 1) 0)"
  have same: "?m (s + of_nat k) = jmem h (s + of_nat k)" if "k < 2 * n" for k
    by (rule written_apart) (use apart that n in simp_all)
  have "load16 ?m (s + of_nat (2 * k)) = load16 (jmem h) (s + of_nat (2 * k))" if "k < n" for k
    using same [of "2 * k"] same [of "2 * k + 1"] that by (simp add: load16_def ac_simps)
  then have units: "map (\<lambda>k. load16 ?m (s + of_nat (2 * k))) [0..<0 + n] = read_units (jmem h) s n"
    unfolding read_units_def by (intro map_cong) simp_all
  define m' where "m' = write_bytes ?m r ?u"
  have loop: "narrow_from n 0 s r ?m = m'"
    using narrow_from_writes [of s 0 n r ?m] blocks_apart_sub [OF apart] units by (simp add: m'_def)
  have "cstr m' r = Some (takeWhile (\<lambda>b. b \<noteq> 0) ?u)"
  proof (rule cstr_of_bytes)
    show "\<forall>k < length ?u. m' (r + of_nat k) = ?u ! k" using n by (simp add: m'_def written_byte)
    have "unat (r + of_nat n - r) = n" using n by (simp add: unat_of_nat)
    then have "m' (r + of_nat n) = ?m (r + of_nat n)" using n unfolding m'_def by (subst write_bytes_apply) simp_all
    then show "m' (r + of_nat (length ?u)) = 0" using zeros_written [of n "n + 1" "jmem h" r] n by simp
  qed
  then show ?thesis using new n n1 loop by (simp add: NewString_def)
qed

text \<open>\<open>GetStringChars\<close> makes the terminated units of the string's bytes, and says that they are a copy.\<close>

lemma read_units_written:
  assumes "\<forall>k < 2 * length us. m (a + of_nat k) = concat (map le16 us) ! k"
  shows "read_units m a (length us) = us"
  using assms
proof (induction us arbitrary: a)
  case Nil
  then show ?case by (simp add: read_units_def)
next
  case (Cons u us)
  have b: "m (a + of_nat k) = le16 u ! k" if "k < 2" for k
    using Cons.prems [rule_format, of k] that by (simp add: nth_append)
  have "load16 m a = u"
    using b [of 0] b [of 1] by (intro bit_word_eqI) (auto simp: load16_def le16_def bit_simps)
  moreover have "\<forall>k < 2 * length us. m (a + 2 + of_nat k) = concat (map le16 us) ! k"
  proof (intro allI impI)
    fix k assume "k < 2 * length us"
    then show "m (a + 2 + of_nat k) = concat (map le16 us) ! k"
      using Cons.prems [rule_format, of "k + 2"] by (simp add: nth_append ac_simps)
  qed
  then have "read_units m (a + 2) (length us) = us" by (rule Cons.IH)
  ultimately show ?case
    by (simp add: read_units_def upt_conv_Cons map_Suc_upt [symmetric] o_def ac_simps del: upt_Suc)
qed

lemma GetStringChars_contents:
  assumes str: "cstr (jmem h) s = Some bs" "length bs < 2 ^ 30"
    and new: "calloc (of_nat (length bs + 1)) 2 (jext h) = (q, e)" "q \<noteq> 0"
    and apart: "blocks_apart s (length bs) q (2 * (length bs + 1))"
    and flag: "c \<noteq> 0 \<Longrightarrow> blocks_apart q (2 * (length bs + 1)) c 4"
  shows "\<exists>h'. GetStringChars calloc s c h = Some (q, h') \<and>
    read_units (jmem h') q (length bs + 1) = widen_bytes bs @ [0] \<and> (c \<noteq> 0 \<longrightarrow> load32 (jmem h') c = 1)"
proof -
  let ?n = "length bs" and ?m = "write_bytes (jmem h) q (replicate (2 * (length bs + 1)) 0)"
  let ?d = "concat (map le16 (widen_bytes bs))"
  have d: "length ?d = 2 * ?n" by (simp add: length_concat o_def widen_bytes_def sum_list_triv)
  have same: "?m (s + of_nat k) = bs ! k" if "k < ?n" for k
    using cstr_bytes [OF str(1)] written_apart [of s ?n q "replicate (2 * (?n + 1)) 0" k "jmem h"] apart that str(2) by simp
  then have "concat (map (\<lambda>k. le16 (ucast (?m (s + of_nat k)))) [0..<0 + ?n]) = ?d"
    unfolding widen_bytes_def by (intro arg_cong [of _ _ concat] nth_equalityI) simp_all
  then have loop: "widen_from ?n 0 s q ?m = write_bytes ?m q ?d"
    using widen_from_writes [of s 0 ?n q ?m] blocks_apart_sub [OF apart] by simp
  let ?w = "write_bytes ?m q ?d"
  have "?w (q + of_nat k) = concat (map le16 (widen_bytes bs @ [0])) ! k" if "k < 2 * (?n + 1)" for k
  proof (cases "k < 2 * ?n")
    case True
    then show ?thesis using d str(2) by (simp add: written_byte nth_append)
  next
    case False
    have "unat (q + of_nat k - q) = k" using that str(2) by (simp add: unat_of_nat)
    then have "?w (q + of_nat k) = ?m (q + of_nat k)" using False d str(2) by (subst write_bytes_apply) simp_all
    moreover have "le16 0 ! (k - 2 * ?n) = 0" using that False by (auto simp: le16_def nth_Cons split: nat.split)
    ultimately show ?thesis using zeros_written [OF that] False d str(2) by (simp add: nth_append)
  qed
  note w = this
  let ?f = "store_flag c 1 ?w"
  have "?f (q + of_nat k) = ?w (q + of_nat k)" if "k < 2 * (?n + 1)" for k
    using flag that by (auto simp: store_flag_def intro!: written_apart)
  then have "read_units ?f q (length (widen_bytes bs @ [0])) = widen_bytes bs @ [0]"
    using w by (intro read_units_written) simp
  moreover have "load32 ?f c = 1" if "c \<noteq> 0"
    using flat.load32_written [of 0 "[1]" ?w c] that by (simp add: store_flag_def)
  ultimately show ?thesis using str new loop by (simp add: GetStringChars_def)
qed

lemma widen_narrow:
  assumes "\<forall>u\<in>set us. 0 < u \<and> u < 256"
  shows "takeWhile (\<lambda>b. b \<noteq> 0) (narrow_units us) = narrow_units us \<and> widen_bytes (narrow_units us) = us"
proof -
  have same: "(ucast (ucast u :: u8) :: u16) = u" if "u < 256" for u
  proof -
    have "unat u < 256" using that by (simp add: word_less_nat_alt)
    then have "unat (ucast (ucast u :: u8) :: u16) = unat u" by (simp add: unsigned_ucast_eq take_bit_eq_mod unat_mod_distrib)
    then show ?thesis by (simp only: word_unat_eq_iff)
  qed
  have "(ucast u :: u8) \<noteq> 0" if "u \<in> set us" for u
    using same [of u] assms that by force
  then have "takeWhile (\<lambda>b. b \<noteq> 0) (narrow_units us) = narrow_units us"
    unfolding takeWhile_eq_all_conv narrow_units_def by auto
  moreover have "widen_bytes (narrow_units us) = us"
    using assms same by (simp add: widen_bytes_def narrow_units_def map_idI)
  ultimately show ?thesis by simp
qed

text \<open>
  A string of Latin-1 characters without a zero survives the passage through the environment: the C string that
  \<open>NewString\<close> makes has the length of the units, and \<open>GetStringChars\<close> gives the units back, terminated.  The blocks
  that \<open>calloc\<close> returns have to exist and to be apart from what is read while they are filled.
\<close>
theorem java_string_roundtrip:
  assumes units: "read_units (jmem h) s (length us) = us" "\<forall>u\<in>set us. 0 < u \<and> u < 256" "length us < 2 ^ 30"
    and first: "calloc 1 (of_nat (length us) + 1) (jext h) = (r, e)" "r \<noteq> 0" "blocks_apart s (2 * length us) r (length us + 1)"
    and second: "calloc (of_nat (length us + 1)) 2 e = (q, e')" "q \<noteq> 0" "blocks_apart r (length us) q (2 * (length us + 1))"
  shows "\<exists>h1 h2. NewString calloc s (of_nat (length us)) h = Some (r, h1) \<and>
    GetStringLength r (jmem h1) = Some (of_nat (length us)) \<and>
    GetStringChars calloc r 0 h1 = Some (q, h2) \<and> read_units (jmem h2) q (length us + 1) = us @ [0]"
proof -
  obtain h1 where h1: "NewString calloc s (of_nat (length us)) h = Some (r, h1)" "jext h1 = e"
      "cstr (jmem h1) r = Some (narrow_units us)"
    using NewString_contents [where len = "of_nat (length us)" and h = h and calloc = calloc, OF refl _ first] units widen_narrow [OF units(2)] by auto
  obtain h2 where "GetStringChars calloc r 0 h1 = Some (q, h2)" "read_units (jmem h2) q (length us + 1) = us @ [0]"
    using GetStringChars_contents [of h1 r "narrow_units us" calloc q e' 0] h1 second units widen_narrow [OF units(2)] by auto
  then show ?thesis using h1 first(2) by (auto simp: GetStringLength_def)
qed

definition demo_java :: "u32 java_heap" where
  "demo_java = \<lparr>jmem = (\<lambda>_. 0)(0x1000 := 83, 0x1002 := 88), jext = 0x2000,
     jni_n_str = 0, jni_n_arr = 0, jni_b_arr = 0, jni_n_del = 0\<rparr>"

definition demo_calloc :: "u32 calloc_fun" where
  "demo_calloc c z e = (e, e + 0x100)"

theorem java_string_roundtrip_witness:
  "\<exists>h1 h2. NewString demo_calloc 0x1000 2 demo_java = Some (0x2000, h1) \<and> GetStringLength 0x2000 (jmem h1) = Some 2 \<and>
    GetStringChars demo_calloc 0x2000 0 h1 = Some (0x2100, h2) \<and> read_units (jmem h2) 0x2100 3 = [83, 88, 0]"
proof -
  have "read_units (jmem demo_java) 0x1000 (length [83, 88]) = [83, 88]"
    by (simp add: read_units_def demo_java_def load16_def upt_rec)
  moreover have "blocks_apart 0x1000 (2 * length [83, 88 :: u16]) 0x2000 (length [83, 88 :: u16] + 1)"
    by (simp add: blocks_apart_def upt_rec)
  moreover have "blocks_apart 0x2000 (length [83, 88 :: u16]) 0x2100 (2 * (length [83, 88 :: u16] + 1))"
    by (simp add: blocks_apart_def upt_rec)
  ultimately show ?thesis
    using java_string_roundtrip [where h = demo_java and us = "[83, 88]" and s = "0x1000" and r = "0x2000" and q = "0x2100"
        and calloc = demo_calloc and e = "0x2100" and e' = "0x2200"]
    by (simp add: demo_calloc_def demo_java_def numeral_3_eq_3)
qed

text \<open>Other characters do not: the euro sign comes back as another character.\<close>

lemma string_truncated: "widen_bytes (narrow_units [0x20AC]) = [0xAC]"
  by (simp add: widen_bytes_def narrow_units_def)

text \<open>\<open>NewStringUTF\<close> copies the string with its terminator; a null reference stays one, and both are counted.\<close>

lemma NewStringUTF_contents:
  assumes "cstr (jmem h) s = Some bs" "length bs < 2 ^ 31" "malloc (of_nat (length bs + 1)) (jext h) = (p, e)" "s \<noteq> 0" "p \<noteq> 0"
  shows "\<exists>h'. NewStringUTF malloc s h = Some (p, h') \<and> cstr (jmem h') p = Some bs \<and> jni_n_str h' = jni_n_str h + 1"
proof -
  let ?m = "write_bytes (jmem h) p (bs @ [0])"
  have "\<forall>k < length bs. ?m (p + of_nat k) = bs ! k" "?m (p + of_nat (length bs)) = 0"
    using assms(2) written_byte [of _ "bs @ [0]" "jmem h" p] by (simp_all add: nth_append)
  moreover have "takeWhile (\<lambda>b. b \<noteq> 0) bs = bs" unfolding takeWhile_eq_all_conv using cstr_bytes [OF assms(1)] by auto
  ultimately have "cstr ?m p = Some bs" using cstr_of_bytes [of bs ?m p] by simp
  then show ?thesis using assms by (simp add: NewStringUTF_def strdup_def Let_def)
qed

end
