(* ===== verification/Frame_Present.thy ===== *)
theory Frame_Present
  imports Prelude
begin

text \<open>
  Who presents a frame.  The game's render thread presents through Java's \<open>eglSwapBuffers\<close> (\<open>egl_swap\<close> of
  \<open>jni_patch.c\<close>), which counts the call and goes to \<open>loader_present\<close> (\<open>main.c\<close>); the frame loop of the main thread
  presents in its place as long as that count is zero, and waits for the display afterwards.  The model
  interleaves the main thread (thread 0) with any number of threads of the game.  A step is one access to
  \<open>jni_swap_count\<close>, to the number of presents or to the GL lock, or vitaGL's swap; the increments of the two
  counters are a load and a store, as the code has no atomic access there.

  \<open>calls\<close> counts the stores of \<open>egl_swap\<close>, \<open>looped\<close> the presents of the loop that have begun, and \<open>shown\<close> lists vitaGL's
  swaps: by whom, and whether the count was zero at that moment.
\<close>

datatype presenter = Loop | Java

datatype present_pc =
    Elsewhere
  | Counting u32              \<comment> \<open>in \<open>egl_swap\<close>, the count is read\<close>
  | Entered presenter         \<comment> \<open>in \<open>loader_present\<close>\<close>
  | Numbering presenter u32   \<comment> \<open>the number of presents is read\<close>
  | Locking presenter
  | Swapping presenter        \<comment> \<open>with the GL lock\<close>
  | Unlocking presenter

record present_state =
  jni_swap_count :: u32
  present_n :: u32
  gl_owner :: "nat option"
  at :: "nat \<Rightarrow> present_pc"
  calls :: nat
  looped :: nat
  waited :: nat
  shown :: "(presenter \<times> bool) list"

definition present_init :: present_state where
  "present_init = \<lparr>jni_swap_count = 0, present_n = 0, gl_owner = None, at = (\<lambda>_. Elsewhere),
     calls = 0, looped = 0, waited = 0, shown = []\<rparr>"

inductive present_step :: "present_state \<Rightarrow> present_state \<Rightarrow> bool" where
  loop_presents: "at s 0 = Elsewhere \<Longrightarrow> jni_swap_count s = 0 \<Longrightarrow>
    present_step s (s\<lparr>at := (at s)(0 := Entered Loop), looped := looped s + 1\<rparr>)"
| loop_waits: "at s 0 = Elsewhere \<Longrightarrow> jni_swap_count s \<noteq> 0 \<Longrightarrow>
    present_step s (s\<lparr>waited := waited s + 1\<rparr>)"
| swap_load: "at s t = Elsewhere \<Longrightarrow>
    present_step s (s\<lparr>at := (at s)(t := Counting (jni_swap_count s))\<rparr>)"
| swap_store: "at s t = Counting c \<Longrightarrow>
    present_step s (s\<lparr>jni_swap_count := c + 1, at := (at s)(t := Entered Java), calls := calls s + 1\<rparr>)"
| number_load: "at s t = Entered p \<Longrightarrow>
    present_step s (s\<lparr>at := (at s)(t := Numbering p (present_n s))\<rparr>)"
| number_store: "at s t = Numbering p n \<Longrightarrow>
    present_step s (s\<lparr>present_n := n + 1, at := (at s)(t := Locking p)\<rparr>)"
| lock: "at s t = Locking p \<Longrightarrow> gl_owner s = None \<Longrightarrow>
    present_step s (s\<lparr>gl_owner := Some t, at := (at s)(t := Swapping p)\<rparr>)"
| swap: "at s t = Swapping p \<Longrightarrow>
    present_step s (s\<lparr>shown := shown s @ [(p, jni_swap_count s = 0)], at := (at s)(t := Unlocking p)\<rparr>)"
| unlock: "at s t = Unlocking p \<Longrightarrow>
    present_step s (s\<lparr>gl_owner := None, at := (at s)(t := Elsewhere)\<rparr>)"

inductive present_reachable :: "present_state \<Rightarrow> bool" where
  start: "present_reachable present_init"
| step: "present_reachable s \<Longrightarrow> present_step s s' \<Longrightarrow> present_reachable s'"

section \<open>The invariant\<close>

fun holds_gl :: "present_pc \<Rightarrow> bool" where
  "holds_gl (Swapping p) \<longleftrightarrow> True"
| "holds_gl (Unlocking p) \<longleftrightarrow> True"
| "holds_gl _ \<longleftrightarrow> False"

text \<open>A present of the given kind that has begun and is not yet shown.\<close>

fun on_the_way :: "presenter \<Rightarrow> present_pc \<Rightarrow> bool" where
  "on_the_way p (Entered q) \<longleftrightarrow> p = q"
| "on_the_way p (Numbering q n) \<longleftrightarrow> p = q"
| "on_the_way p (Locking q) \<longleftrightarrow> p = q"
| "on_the_way p (Swapping q) \<longleftrightarrow> p = q"
| "on_the_way p _ \<longleftrightarrow> False"

definition late_loop :: "(presenter \<times> bool) list \<Rightarrow> nat" where
  "late_loop xs = length (filter (\<lambda>x. x = (Loop, False)) xs)"

definition by_loop :: "(presenter \<times> bool) list \<Rightarrow> nat" where
  "by_loop xs = length (filter (\<lambda>x. fst x = Loop) xs)"

lemma tallies [simp]:
  "late_loop [] = 0" "by_loop [] = 0"
  "late_loop (xs @ [x]) = late_loop xs + (if x = (Loop, False) then 1 else 0)"
  "by_loop (xs @ [x]) = by_loop xs + (if fst x = Loop then 1 else 0)"
  by (simp_all add: late_loop_def by_loop_def)

definition count_ok :: "present_state \<Rightarrow> bool" where
  "count_ok s \<longleftrightarrow> calls s < 2 ^ 32 \<longrightarrow>
     unat (jni_swap_count s) \<le> calls s \<and> (calls s > 0 \<longrightarrow> jni_swap_count s \<noteq> 0) \<and>
     (\<forall>t c. at s t = Counting c \<longrightarrow> unat c \<le> calls s)"

definition lock_ok :: "present_state \<Rightarrow> bool" where
  "lock_ok s \<longleftrightarrow> (\<forall>t. holds_gl (at s t) \<longrightarrow> gl_owner s = Some t)"

definition loop_ok :: "present_state \<Rightarrow> bool" where
  "loop_ok s \<longleftrightarrow> (\<forall>t. on_the_way Loop (at s t) \<longrightarrow> t = 0) \<and>
     looped s = by_loop (shown s) + (if on_the_way Loop (at s 0) then 1 else 0)"

definition late_ok :: "present_state \<Rightarrow> bool" where
  "late_ok s \<longleftrightarrow> calls s < 2 ^ 32 \<longrightarrow>
     late_loop (shown s) + (if on_the_way Loop (at s 0) then 1 else 0) \<le> 1 \<and> (calls s = 0 \<longrightarrow> late_loop (shown s) = 0)"

lemmas present_inv_defs = count_ok_def lock_ok_def loop_ok_def late_ok_def

lemma init_ok: "count_ok present_init" "lock_ok present_init" "loop_ok present_init" "late_ok present_init"
  by (simp_all add: present_inv_defs present_init_def)

lemma next_count:
  assumes "unat (c :: u32) \<le> n" "n + 1 < 2 ^ 32"
  shows "unat (c + 1) \<le> n + 1 \<and> c + 1 \<noteq> 0"
proof -
  have "unat c + 1 < 2 ^ 32" using assms by simp
  then have "unat (c + 1) = unat c + 1" by (simp add: unat_word_ariths)
  then show ?thesis using assms(1) by auto
qed

lemma count_step:
  assumes "present_step s s'" "count_ok s"
  shows "count_ok s'"
  using assms
proof (cases rule: present_step.cases)
  case (swap_store t c)
  show ?thesis unfolding count_ok_def
  proof (intro impI)
    assume "calls s' < 2 ^ 32"
    then have n: "calls s + 1 < 2 ^ 32" using swap_store by simp
    then have ok: "unat c \<le> calls s" "\<forall>t c. at s t = Counting c \<longrightarrow> unat c \<le> calls s"
      using assms(2) swap_store by (auto simp: count_ok_def)
    then show "unat (jni_swap_count s') \<le> calls s' \<and> (calls s' > 0 \<longrightarrow> jni_swap_count s' \<noteq> 0) \<and>
        (\<forall>t c. at s' t = Counting c \<longrightarrow> unat c \<le> calls s')"
      using swap_store next_count [OF ok(1) n] by (auto simp: le_Suc_eq)
  qed
qed (auto simp: count_ok_def)

lemma lock_step:
  assumes "present_step s s'" "lock_ok s"
  shows "lock_ok s'"
  using assms
proof (cases rule: present_step.cases)
  case (unlock t p)
  then have "gl_owner s = Some t" using assms(2) unfolding lock_ok_def by (metis holds_gl.simps(2))
  then show ?thesis using unlock assms(2) by (auto simp: lock_ok_def)
qed (auto simp: lock_ok_def)

text \<open>For the presents of the loop a step begins one, shows one, or leaves them alone.\<close>

lemma loop_view:
  assumes "present_step s s'"
  obtains (quiet) "\<And>u. on_the_way Loop (at s' u) = on_the_way Loop (at s u)" "shown s' = shown s" "looped s' = looped s"
      "calls s \<le> calls s'"
    | (begun) "at s 0 = Elsewhere" "jni_swap_count s = 0" "s' = s\<lparr>at := (at s)(0 := Entered Loop), looped := looped s + 1\<rparr>"
    | (drawn) t p where "at s t = Swapping p"
      "s' = s\<lparr>shown := shown s @ [(p, jni_swap_count s = 0)], at := (at s)(t := Unlocking p)\<rparr>"
  using assms
proof (cases rule: present_step.cases)
  case loop_presents
  then show ?thesis by (intro begun)
next
  case (swap t p)
  then show ?thesis by (intro drawn)
qed (rule quiet; auto)+

lemma loop_step:
  assumes "present_step s s'" "loop_ok s"
  shows "loop_ok s'"
  using assms(1)
proof (cases rule: loop_view)
  case quiet
  then show ?thesis using assms(2) by (simp add: loop_ok_def)
next
  case begun
  then show ?thesis using assms(2) by (simp add: loop_ok_def)
next
  case (drawn t p)
  then have "p = Loop \<Longrightarrow> t = 0" using assms(2) unfolding loop_ok_def by (metis on_the_way.simps(4))
  then show ?thesis using drawn assms(2) by (cases "t = 0"; cases p) (simp_all add: loop_ok_def)
qed

lemma late_step:
  assumes "present_step s s'" "count_ok s" "loop_ok s" "late_ok s"
  shows "late_ok s'"
  using assms(1)
proof (cases rule: loop_view)
  case quiet
  then show ?thesis using assms(4) by (simp add: late_ok_def)
next
  case begun
  then show ?thesis using assms(2,4) by (auto simp: late_ok_def count_ok_def)
next
  case (drawn t p)
  then have "p = Loop \<Longrightarrow> t = 0" using assms(3) unfolding loop_ok_def by (metis on_the_way.simps(4))
  moreover have "calls s = 0 \<Longrightarrow> jni_swap_count s = 0" using assms(2) by (simp add: count_ok_def unat_eq_0)
  ultimately show ?thesis using drawn assms(4) by (cases "t = 0"; cases p) (simp_all add: late_ok_def)
qed

lemma present_inv:
  "present_reachable s \<Longrightarrow> count_ok s \<and> lock_ok s \<and> loop_ok s \<and> late_ok s"
  by (induction rule: present_reachable.induct) (use init_ok count_step lock_step loop_step late_step in auto)

section \<open>The loop hands over\<close>

lemma present_reachable_steps:
  "present_step\<^sup>*\<^sup>* s s' \<Longrightarrow> present_reachable s \<Longrightarrow> present_reachable s'"
  by (induction rule: rtranclp_induct) (auto intro: present_reachable.step)

lemma calls_grow: "present_step s s' \<Longrightarrow> calls s \<le> calls s'"
  by (erule present_step.cases) auto

lemma loop_begins_no_more:
  assumes "present_step\<^sup>*\<^sup>* s s'" "present_reachable s" "0 < calls s"
  shows "calls s' < 2 ^ 32 \<longrightarrow> looped s' = looped s \<and> 0 < calls s'"
  using assms(1)
proof (induction rule: rtranclp_induct)
  case base
  then show ?case using assms(3) by simp
next
  case (step y z)
  show ?case
  proof
    assume "calls z < 2 ^ 32"
    then have y: "calls y < 2 ^ 32" using calls_grow [OF step.hyps(2)] by simp
    then have "looped y = looped s" "0 < calls y" using step.IH by simp_all
    moreover have "count_ok y" using present_inv present_reachable_steps [OF step.hyps(1) assms(2)] by blast
    then have count: "jni_swap_count y \<noteq> 0" using y \<open>0 < calls y\<close> by (simp add: count_ok_def)
    have "looped z = looped y" using step.hyps(2) count by (cases rule: loop_view) simp_all
    ultimately show "looped z = looped s \<and> 0 < calls z" using calls_grow [OF step.hyps(2)] by simp
  qed
qed

text \<open>
  C26: the frame loop stops presenting once the game presents itself.  After the first counted \<open>eglSwapBuffers\<close>, in
  every continuation of every interleaving with fewer than \<open>2 ^ 32\<close> of them, the loop begins no further present, at
  most one that it had begun before is still shown, and at no time do two threads hold the GL lock around a swap.
\<close>
theorem loop_stops_presenting:
  assumes "present_reachable s" "0 < calls s" "present_step\<^sup>*\<^sup>* s s'" "calls s' < 2 ^ 32"
  shows "looped s' = looped s \<and> by_loop (shown s') \<le> by_loop (shown s) + 1 \<and> late_loop (shown s') \<le> 1 \<and>
    (\<forall>t u. holds_gl (at s' t) \<and> holds_gl (at s' u) \<longrightarrow> t = u)"
proof -
  have s: "loop_ok s" using present_inv [OF assms(1)] by blast
  have s': "lock_ok s'" "loop_ok s'" "late_ok s'"
    using present_inv [OF present_reachable_steps [OF assms(3,1)]] by blast+
  have "looped s' = looped s" using loop_begins_no_more [OF assms(3,1,2)] assms(4) by blast
  moreover have "by_loop (shown s') \<le> looped s'" "looped s \<le> by_loop (shown s) + 1"
    using s s'(2) by (auto simp: loop_ok_def)
  moreover have "late_loop (shown s') \<le> 1" using s'(3) assms(4) by (auto simp: late_ok_def)
  moreover have "t = u" if "holds_gl (at s' t)" "holds_gl (at s' u)" for t u
    using s'(1) that unfolding lock_ok_def by (metis option.inject)
  ultimately show ?thesis by auto
qed

definition after_swap :: present_state where
  "after_swap = present_init\<lparr>jni_swap_count := 1, at := (\<lambda>_. Elsewhere)(1 := Entered Java), calls := 1\<rparr>"

theorem loop_stops_presenting_witness:
  "looped (after_swap\<lparr>waited := 1\<rparr>) = 0 \<and> late_loop (shown (after_swap\<lparr>waited := 1\<rparr>)) \<le> 1"
proof -
  have "present_step present_init (present_init\<lparr>at := (\<lambda>_. Elsewhere)(1 := Counting 0)\<rparr>)"
    using swap_load [of present_init 1] by (simp add: present_init_def)
  moreover have "present_step (present_init\<lparr>at := (\<lambda>_. Elsewhere)(1 := Counting 0)\<rparr>) after_swap"
    using swap_store [of "present_init\<lparr>at := (\<lambda>_. Elsewhere)(1 := Counting 0)\<rparr>" 1 0]
    by (simp add: present_init_def after_swap_def)
  ultimately have "present_reachable after_swap" by (blast intro: present_reachable.intros)
  moreover have "present_step after_swap (after_swap\<lparr>waited := 1\<rparr>)"
    using loop_waits [of after_swap] by (simp add: after_swap_def present_init_def)
  then have "present_step\<^sup>*\<^sup>* after_swap (after_swap\<lparr>waited := 1\<rparr>)" by (rule r_into_rtranclp)
  moreover have "looped after_swap = 0" "0 < calls after_swap" "calls (after_swap\<lparr>waited := 1\<rparr>) < 2 ^ 32"
    by (simp_all add: after_swap_def present_init_def)
  ultimately show ?thesis using loop_stops_presenting [of after_swap "after_swap\<lparr>waited := 1\<rparr>"] by simp
qed

text \<open>
  The increment of the count is not atomic: two threads that present at once can leave it at one, which the
  timing report then counts as a single present.
\<close>

lemma swap_count_loses:
  "\<exists>s. present_reachable s \<and> calls s = 2 \<and> jni_swap_count s = 1"
proof -
  let ?at = "(\<lambda>_. Elsewhere)(1 := Counting 0, 2 := Counting 0) :: nat \<Rightarrow> present_pc"
  let ?a = "present_init\<lparr>at := (\<lambda>_. Elsewhere)(1 := Counting 0)\<rparr>" and ?b = "present_init\<lparr>at := ?at\<rparr>"
  let ?c = "present_init\<lparr>jni_swap_count := 1, at := ?at(1 := Entered Java), calls := 1\<rparr>"
  let ?d = "present_init\<lparr>jni_swap_count := 1, at := ?at(1 := Entered Java, 2 := Entered Java), calls := 2\<rparr>"
  have a: "present_step present_init ?a" using swap_load [of present_init 1] by (simp add: present_init_def)
  have b: "present_step ?a ?b" using swap_load [of ?a 2] by (simp add: present_init_def)
  have c: "present_step ?b ?c" using swap_store [of ?b 1 0] by (simp add: present_init_def)
  have d: "present_step ?c ?d" using swap_store [of ?c 2 0] by (simp add: present_init_def numeral_2_eq_2)
  have "present_reachable ?d"
    by (rule present_reachable.step [OF present_reachable.step [OF present_reachable.step
          [OF present_reachable.step [OF present_reachable.start a] b] c] d])
  then show ?thesis by (intro exI [of _ ?d]) simp
qed

end
