(* ===== verification/Runtime_Stubs.thy ===== *)
theory Runtime_Stubs
  imports Stubs Traces "HOL-Library.List_Lexorder"
begin

text \<open>
  The rest of \<open>stubs.c\<close>: the functions of the C and C++ run time that end the program, compare texts by the
  one locale there is, and tell the processor time.
\<close>

section \<open>Ending the program\<close>

text \<open>Each logs one line and aborts; the line is all that is left to see.\<close>

definition assert2 :: "string \<Rightarrow> int \<Rightarrow> string \<Rightarrow> string \<Rightarrow> string" where
  "assert2 f l fn e = ''ASSERT '' @ f @ '':'' @ decimal l @ '' '' @ fn @ '': '' @ e @ ''\<newline>''"

definition cxa_pure_virtual :: string where "cxa_pure_virtual = ''pure virtual call\<newline>''"
definition stack_chk_fail :: string where "stack_chk_fail = ''stack smash\<newline>''"
definition stack_chk_guard :: u32 where "stack_chk_guard = 0x42"

text \<open>The unwinder's hooks, which do nothing.\<close>

definition unwind_cpp_pr0 :: "'s \<Rightarrow> 's" where "unwind_cpp_pr0 s = s"
definition unwind_cpp_pr1 :: "'s \<Rightarrow> 's" where "unwind_cpp_pr1 s = s"

section \<open>Comparing texts\<close>

text \<open>\<open>strcmp\<close> and \<open>wcscmp\<close> by their sign, on texts without their terminators.\<close>

fun compare_texts :: "'a::linorder list \<Rightarrow> 'a list \<Rightarrow> int" where
  "compare_texts [] [] = 0"
| "compare_texts [] (b # bs) = - 1"
| "compare_texts (a # as) [] = 1"
| "compare_texts (a # as) (b # bs) = (if a = b then compare_texts as bs else if a < b then - 1 else 1)"

definition strcoll :: "u8 list \<Rightarrow> u8 list \<Rightarrow> int" where "strcoll a b = compare_texts a b"
definition wcscoll :: "u32 list \<Rightarrow> u32 list \<Rightarrow> int" where "wcscoll a b = compare_texts a b"

text \<open>The order of the locale is the lexicographic one, so it is total and texts are equal only to themselves.\<close>

lemma compare_texts_lexicographic:
  "compare_texts a b = (if a < b then - 1 else if a = b then 0 else 1)"
  by (induction a b rule: compare_texts.induct) auto

section \<open>Processor time and numbers\<close>

text \<open>The process time in microseconds, cut to the 32 bits of \<open>clock_t\<close>.\<close>

definition clock :: "u64 \<Rightarrow> u32" where
  "clock process_time = ucast process_time"

text \<open>A difference of two readings is exact while less than \<open>2 ^ 32\<close> microseconds lie between them.\<close>

lemma clock_difference:
  assumes "unat t + d < 2 ^ 64" "d < 2 ^ 32"
  shows "unat (clock (t + of_nat d) - clock t) = d"
proof -
  have d: "unat (of_nat d :: u64) = d" using assms(2) by (simp add: unat_of_nat)
  then have "unat (t + of_nat d) = unat t + d" using assms(1) by (simp add: unat_word_ariths)
  then have "unat (clock (t + of_nat d)) = unat (clock t + of_nat d)"
    by (simp add: clock_def unsigned_ucast_eq unat_word_ariths unat_of_nat take_bit_eq_mod mod_add_left_eq mod_add_right_eq)
  then have "clock (t + of_nat d) = clock t + of_nat d" by (simp only: word_unat_eq_iff)
  then show ?thesis using assms(2) by (simp add: unat_of_nat)
qed

text \<open>\<open>__isinf\<close> on the bits of a double.\<close>

definition isinf_double :: "u64 \<Rightarrow> bool" where
  "isinf_double bits \<longleftrightarrow> bits AND 0x7fffffffffffffff = 0x7ff0000000000000"

end
