(* ===== verification/Pthread_Handles.thy ===== *)
theory Pthread_Handles
  imports Pthread_Bridge
begin

text \<open>
  The functions of \<open>pthread_bridge.c\<close> that hand a thread or a key on to the real library as it is, the timed wait
  on a semaphore, and the start of the watchdog (\<open>main.c\<close>).  The library is the record \<open>pthread_api\<close> over a
  world of its own.
\<close>

section \<open>Threads and keys\<close>

record 'w pthread_api =
  api_join :: "u32 \<Rightarrow> u32 \<Rightarrow> 'w \<Rightarrow> int \<times> 'w"
  api_detach :: "u32 \<Rightarrow> 'w \<Rightarrow> int \<times> 'w"
  api_exit :: "u32 \<Rightarrow> 'w \<Rightarrow> 'w"
  api_key_create :: "u32 \<Rightarrow> u32 \<Rightarrow> 'w \<Rightarrow> int \<times> 'w"
  api_key_delete :: "u32 \<Rightarrow> 'w \<Rightarrow> int \<times> 'w"
  api_getspecific :: "u32 \<Rightarrow> 'w \<Rightarrow> u32"
  api_setspecific :: "u32 \<Rightarrow> u32 \<Rightarrow> 'w \<Rightarrow> int \<times> 'w"

definition pthread_join_bridge :: "'w pthread_api \<Rightarrow> u32 \<Rightarrow> u32 \<Rightarrow> 'w \<Rightarrow> int \<times> 'w" where
  "pthread_join_bridge api t ret = api_join api t ret"

definition pthread_detach_bridge :: "'w pthread_api \<Rightarrow> u32 \<Rightarrow> 'w \<Rightarrow> int \<times> 'w" where
  "pthread_detach_bridge api t = api_detach api t"

definition pthread_exit_bridge :: "'w pthread_api \<Rightarrow> u32 \<Rightarrow> 'w \<Rightarrow> 'w" where
  "pthread_exit_bridge api ret = api_exit api ret"

definition pthread_key_create_bridge :: "'w pthread_api \<Rightarrow> u32 \<Rightarrow> u32 \<Rightarrow> 'w \<Rightarrow> int \<times> 'w" where
  "pthread_key_create_bridge api k d = api_key_create api k d"

definition pthread_key_delete_bridge :: "'w pthread_api \<Rightarrow> u32 \<Rightarrow> 'w \<Rightarrow> int \<times> 'w" where
  "pthread_key_delete_bridge api k = api_key_delete api k"

definition pthread_getspecific_bridge :: "'w pthread_api \<Rightarrow> u32 \<Rightarrow> 'w \<Rightarrow> u32" where
  "pthread_getspecific_bridge api k w = api_getspecific api k w"

definition pthread_setspecific_bridge :: "'w pthread_api \<Rightarrow> u32 \<Rightarrow> u32 \<Rightarrow> 'w \<Rightarrow> int \<times> 'w" where
  "pthread_setspecific_bridge api k v = api_setspecific api k v"

text \<open>
  The identity that \<open>pthread_self_bridge\<close> makes up for the main thread is not translated back: joining or
  detaching it hands the library a handle it never gave out.
\<close>

lemma main_handle_passed_on:
  "pthread_join_bridge api (pthread_self_bridge 0) ret = api_join api 0x4D41494E ret"
  "pthread_detach_bridge api (pthread_self_bridge 0) = api_detach api 0x4D41494E"
  by (simp_all add: pthread_join_bridge_def pthread_detach_bridge_def pthread_self_bridge_def)

section \<open>The timed wait\<close>

text \<open>
  \<open>arrives t\<close> says whether a post comes within \<open>t\<close> microseconds when the count is zero (\<open>None\<close>: ever); without a
  timeout and without a post the wait does not return.  The handle is not tested here, as it is in \<open>sem_wait_bridge\<close>.
\<close>

definition sem_timedwait_bridge ::
  "(nat \<Rightarrow> u32 option) \<Rightarrow> (u32 option \<Rightarrow> bool) \<Rightarrow> u32 \<Rightarrow> (int \<times> int) option \<Rightarrow> int \<times> int \<Rightarrow> kernel_sems \<Rightarrow>
    (int \<times> kernel_sems) option" where
  "sem_timedwait_bridge create arrives a ts now k =
     (let (i, k) = ksem_get create a k; t = sem_timeout ts now in
      case sema k i of
        None \<Rightarrow> Some (- 1, if t = None then k else k\<lparr>errno := ETIMEDOUT\<rparr>)
      | Some c \<Rightarrow>
          if 0 < c then Some (0, k\<lparr>sema := (sema k)(i \<mapsto> c - 1)\<rparr>)
          else if arrives t then Some (0, k)
          else if t = None then None
          else Some (- 1, k\<lparr>errno := ETIMEDOUT\<rparr>))"

text \<open>A wait with a deadline within the hour returns; one whose deadline is past is a try, but for the error number.\<close>

lemma timed_wait_returns:
  assumes "ts = Some d" "time_left d now \<le> 3600 * 1000000"
  shows "sem_timedwait_bridge create arrives a ts now k \<noteq> None"
  using assms by (auto simp: sem_timedwait_bridge_def sem_timeout_def Let_def split: prod.split option.split)

lemma past_deadline_tries:
  assumes "ts = Some d" "time_left d now \<le> 0" "\<not> arrives (Some 0)"
  shows "\<exists>r k'. sem_timedwait_bridge create arrives a ts now k = Some (r, k') \<and>
    r = fst (sem_trywait_bridge create a k) \<and> sema k' = sema (snd (sem_trywait_bridge create a k)) \<and>
    (r \<noteq> 0 \<longrightarrow> errno k' = ETIMEDOUT)"
proof -
  have t: "sem_timeout ts now = Some 0" using assms by (auto simp: sem_timeout_def Let_def)
  obtain i k1 where g: "ksem_get create a k = (i, k1)" by (cases "ksem_get create a k")
  show ?thesis
    using t assms(3) by (cases "sema k1 i") (simp_all add: sem_timedwait_bridge_def sem_trywait_bridge_def g)
qed

text \<open>The microseconds of a deadline within the hour fit the kernel's 32 bits.\<close>

lemma timeout_exact:
  assumes "sem_timeout (Some d) now = Some t" "0 \<le> time_left d now"
  shows "int (unat t) = time_left d now"
proof -
  obtain n where n: "time_left d now = int n" using assms(2) nonneg_int_cases by blast
  then have "n \<le> 3600 * 1000000" "t = of_nat n"
    using assms(1) by (auto simp: sem_timeout_def Let_def split: if_splits)
  then show ?thesis by (simp add: n unat_of_nat)
qed

section \<open>The watchdog thread\<close>

text \<open>\<open>main\<close> enters itself in the registry and starts the watchdog if the kernel creates its thread.\<close>

definition start_watchdog :: "int \<Rightarrow> int \<Rightarrow> (int \<times> string) list \<Rightarrow> (int \<times> string) list \<times> bool" where
  "start_watchdog self t reg = (thread_registry_add self (Some ''main'') reg, 0 \<le> t)"

lemma watchdog_knows_main:
  "length reg < 64 \<or> self \<in> fst ` set reg \<Longrightarrow> map_of (fst (start_watchdog self t reg)) self = Some ''main''"
proof -
  assume room: "length reg < 64 \<or> self \<in> fst ` set reg"
  have rename: "map_of (map (\<lambda>(u, k). if u = self then (u, n) else (u, k)) reg) self = Some n"
    if "self \<in> fst ` set reg" for n :: string
    using that
  proof (induction reg)
    case (Cons p reg)
    then show ?case by (cases p; cases "fst p = self") simp_all
  qed simp
  show ?thesis
  proof (cases "self \<in> fst ` set reg")
    case True
    then show ?thesis using rename [OF True, of "take 31 ''main''"] by (simp add: start_watchdog_def thread_registry_add_def)
  next
    case False
    then have "map_of reg self = None" by (simp add: map_of_eq_None_iff)
    then show ?thesis using False room by (simp add: start_watchdog_def thread_registry_add_def map_add_def)
  qed
qed

end
