(* ===== verification/Loader_Globals.thy ===== *)
theory Loader_Globals
  imports Input
begin

text \<open>
  The constants and counters of the loader that stand outside its components: where the two modules are loaded and
  the sizes the program asks the Vita for (\<open>main.c\<close>), and the functions of the Java method table with a state of
  their own, the notification numbers and the start of a movie (\<open>jni_patch.c\<close>).
\<close>

section \<open>Addresses and sizes\<close>

definition LOAD_ADDR_GAME :: u32 where "LOAD_ADDR_GAME = 0x94000000"
definition LOAD_ADDR_GNUSTL :: u32 where "LOAD_ADDR_GNUSTL = 0x9C000000"

definition MEMORY_NEWLIB_MB :: i32 where "MEMORY_NEWLIB_MB = 293"
definition newlib_heap_size_user :: i32 where "newlib_heap_size_user = MEMORY_NEWLIB_MB * 1024 * 1024"
definition sceLibcHeapSize :: u32 where "sceLibcHeapSize = 8 * 1024 * 1024"
definition sceUserMainThreadStackSize :: u32 where "sceUserMainThreadStackSize = 1 * 1024 * 1024"

text \<open>The game's image may take 128 MB before it meets the C++ library, whatever the size of that.\<close>

lemma images_apart:
  assumes "unat x < 128 * 2 ^ 20" "unat y < 2 ^ 32 - 128 * 2 ^ 20"
  shows "LOAD_ADDR_GAME + x \<noteq> LOAD_ADDR_GNUSTL + y"
proof
  assume "LOAD_ADDR_GAME + x = LOAD_ADDR_GNUSTL + y"
  then have "x = 0x8000000 + y" by (simp add: LOAD_ADDR_GAME_def LOAD_ADDR_GNUSTL_def algebra_simps)
  moreover have "unat (0x8000000 + y :: u32) = 128 * 2 ^ 20 + unat y"
    using assms(2) by (subst unat_add_lem [THEN iffD1]) simp_all
  ultimately show False using assms(1) by simp
qed

text \<open>The heap size is computed as a signed int: it is what it says up to 2047 MB, and 293 MB is within.\<close>

lemma megabytes_signed:
  assumes "0 \<le> sint (n :: i32)" "sint n \<le> 2047"
  shows "sint (n * 1024 * 1024) = sint n * 2 ^ 20"
proof -
  have "n * 1024 * 1024 = word_of_int (sint n * 2 ^ 20)" by (simp add: algebra_simps)
  moreover have "sint n * 2 ^ 20 < 2 ^ 31" using assms by simp
  ultimately show ?thesis using assms(1) by (simp only: sint_sbintrunc') (simp add: signed_take_bit_int_eq_self_iff)
qed

lemma newlib_heap: "sint newlib_heap_size_user = 293 * 2 ^ 20"
  using megabytes_signed [of MEMORY_NEWLIB_MB] by (simp add: newlib_heap_size_user_def MEMORY_NEWLIB_MB_def)

section \<open>Notification numbers\<close>

text \<open>\<open>static int n = 1; return n++;\<close>: the number given out, and the next one.\<close>

definition notif_id :: "i32 \<Rightarrow> i32 \<times> i32" where
  "notif_id n = (n, n + 1)"

fun notif_ids :: "nat \<Rightarrow> i32 \<Rightarrow> i32 list" where
  "notif_ids 0 n = []"
| "notif_ids (Suc k) n = (case notif_id n of (r, n) \<Rightarrow> r # notif_ids k n)"

lemma notif_ids_from: "notif_ids k n = map (\<lambda>i. n + of_nat i) [0..<k]"
proof (induction k arbitrary: n)
  case (Suc k)
  have "map (\<lambda>i. n + 1 + of_nat i) [0..<k] = map (\<lambda>i. n + of_nat i) [Suc 0..<Suc k]"
    by (simp only: map_Suc_upt [symmetric] map_map) (simp add: algebra_simps)
  then show ?case using Suc by (simp add: notif_id_def upt_conv_Cons del: upt_Suc)
qed simp

lemma notif_ids_distinct:
  assumes "k \<le> 2 ^ 32"
  shows "distinct (notif_ids k n)"
proof -
  have "i = j" if "i < k" "j < k" "n + of_nat i = n + of_nat j" for i j
  proof -
    have "unat (of_nat i :: i32) = unat (of_nat j :: i32)" using that(3) by (simp only: add_left_cancel)
    then show ?thesis using that(1,2) assms by (simp add: unat_of_nat)
  qed
  then show ?thesis by (auto simp: notif_ids_from distinct_map inj_on_def)
qed

section \<open>The start of a movie\<close>

text \<open>\<open>video_play\<close> sets \<open>jni_video_play_pending\<close>, which the frame loop's \<open>video_step\<close> reads.\<close>

definition video_play :: "bool \<times> int \<Rightarrow> bool \<times> int" where
  "video_play st = (True, snd st)"

text \<open>
  A movie that is started while another one runs is reported as ended with the first, however shortly before it
  was started.
\<close>

lemma second_movie_shares_end:
  assumes "0 < f" "video_step f (video_play (False, 0)) = (d, p, e)"
  shows "video_step (f + 30) (video_play (p, e)) = (True, False, 0)"
  using assms by (auto simp: video_step_def video_play_def)

end
