(* ===== verification/Spec2Isabelle.thy ===== *)
theory Spec2Isabelle
  imports Audio_Threads Trampolines Heap Imports So_Link So_Load Jni_Slots Jni_Methods Jni_Assets Jni_Audio Pthread_Bridge
    Gl_Serial Gl_Shim Gl_Attach Gl_Buffer Files Input Stubs Engine_Hooks Boot Audio_Install Log Trace_Hooks
    Linking Threads Timing Elf_Layout Elf_Values Elf_Ignored Jni_Strings Frame_Present Runtime_Stubs Pthread_Handles
    Loader_Globals
begin

text \<open>
  ssx-vita runs the Android game SSX on the PS Vita: \<open>main.c\<close> loads the game's ARM libraries, patches and hooks
  them, gives them an import table and a fake Java environment, and drives the frame loop.  This development models
  the loader (\<open>src/loader\<close>) component by component.  Everything that is not under \<open>src\<close> (the Vita's kernel and
  kubridge, vitaGL, newlib, the game itself) is a parameter of the definitions that use it, with the documented
  behaviour a proof needs as a named hypothesis (\<open>ku_memcpy_law\<close>, \<open>card_law\<close>, \<open>buffer_law\<close> and the like), and every
  such hypothesis has an instance in a witness.

  How the parts work together.  At boot (\<open>Boot\<close>) the loader reads a module into memory (\<open>So_Load\<close>, with the layouts
  of \<open>Elf_Layout\<close>), relocates it and binds its imports (\<open>So_Symbols\<close>, \<open>So_Link\<close>) to the rows of the import table
  (\<open>Imports\<close>; \<open>Linking\<close> and the theorem below compose the two), writes hooks and trampolines into its code (\<open>Arm\<close>,
  \<open>Hooks\<close>, \<open>Trampolines\<close>, \<open>Audio_Install\<close>), and runs its constructors.  The game then calls back into the loader:
  allocation (\<open>Heap\<close>), threads and locks (\<open>Pthread_Bridge\<close>, \<open>Threads\<close>), files (\<open>Files\<close>), GL (\<open>Gl_Lock\<close>), Java
  (\<open>Jni_Methods\<close>, \<open>Jni_Assets\<close>), sound (\<open>Audio_Ring\<close>), logging (\<open>Log\<close>).

  The theories, and the code each models:

  \<^item> \<open>Prelude\<close>, \<open>Machine\<close>: machine integers, C arrays with checked copies (\<open>None\<close> is a copy that leaves its array),
    the 32-bit byte memory with little-endian words, and \<open>kuKernelCpuUnrestrictedMemcpy\<close> as the locale \<open>kubridge\<close>,
    interpreted on the memory (\<open>flat\<close>).
  \<^item> \<open>Arm\<close>, \<open>Hooks\<close>, \<open>Trampolines\<close>, \<open>Audio_Install\<close>: the few ARM and Thumb instructions the loader writes, with
    their semantics; \<open>hook_thumb\<close>, \<open>hook_arm\<close>, \<open>hook_addr\<close> and \<open>so_symbol\<close> based installation (\<open>so_util.c\<close>);
    \<open>make_trampoline\<close>, \<open>patch_spin\<close>, \<open>patch_null_guard\<close>, \<open>install_hooks\<close> (\<open>main.c\<close>); \<open>audio_bridge_install\<close>
    (\<open>audio.c\<close>). The lemmas run the written words and compare with the original instructions.
  \<^item> \<open>So_Symbols\<close>, \<open>So_Load\<close>, \<open>So_Link\<close>, \<open>Elf_Layout\<close>, \<open>Elf_Values\<close>, \<open>Elf_Ignored\<close>: \<open>so_hash\<close>, \<open>so_symbol\<close>, \<open>so_load\<close>,
    \<open>so_relocate\<close>, \<open>so_resolve\<close>, \<open>so_initialize\<close> (\<open>so_util.c\<close>) and the structures of \<open>elf.h\<close> and the values it
    names for their fields, with which of them the loader acts on, ignores or refuses.  Relocation and resolution
    are two interpretations of the locale \<open>reloc_pass\<close> (a pass that writes one word per entry).
  \<^item> \<open>Imports\<close>, \<open>Linking\<close>: the table \<open>default_dynlib\<close> (\<open>default_dynlib.c\<close>), its redirection rules, and the lookup of
    names as bytes in memory.
  \<^item> \<open>Heap\<close>, \<open>Emerg_Set\<close>: \<open>malloc\<close> and its relatives of \<open>default_dynlib.c\<close> over big blocks, newlib, the emergency
    blocks and the scratch buffer, against a set of live blocks; the open-addressing set \<open>emerg_set\<close> is reached
    through the locale \<open>pointer_set\<close> (interpreted as \<open>emerg\<close>).
  \<^item> \<open>Audio_Ring\<close>, \<open>Audio_Threads\<close>: \<open>ring_write\<close>, \<open>ring_read_chunk\<close>, \<open>SubmitAudio_hook\<close> and the output thread
    (\<open>audio.c\<close>), first as a refinement of a bounded queue (locale \<open>bounded_fifo\<close>, interpreted as \<open>audio\<close>), then
    with the two threads interleaved at single loads and stores of the cursors.
  \<^item> \<open>Jni_Slots\<close>, \<open>Jni_Methods\<close>, \<open>Jni_Objects\<close>, \<open>Jni_Strings\<close>, \<open>Jni_Assets\<close>, \<open>Jni_Audio\<close>: the 233 slots of the
    environment, class and method lookup and dispatch, arrays, references and strings in the byte memory, the asset
    manager with the rewriting of \<open>memory.cfg\<close>, and the \<open>AudioTrack\<close> (\<open>jni_patch.c\<close>).
  \<^item> \<open>Pthread_Lazy\<close>, \<open>Pthread_Bridge\<close>, \<open>Pthread_Handles\<close>, \<open>Threads\<close>: lazy creation of real mutexes as a step
    relation of any number of threads; mutexes, conditions, attributes, semaphores and once over the byte memory,
    thread handles, keys and timed waits (\<open>pthread_bridge.c\<close>); and the life of a thread from creation to its name
    (\<open>prctl\<close> of \<open>stubs.c\<close>), interleaved with the rest of the program.
  \<^item> \<open>Gl_Prog\<close>, \<open>Gl_Lock\<close>, \<open>Gl_Serial\<close>, \<open>Gl_Attach\<close>, \<open>Gl_Buffer\<close>, \<open>Gl_Shim\<close>, \<open>Glsl\<close>: the wrappers of \<open>gl_lock.c\<close> and
    the GL functions of \<open>default_dynlib.c\<close> as trees of effects, with a semantics for one thread and one that
    interleaves threads at each effect; the caches of framebuffer attachments, buffer writes inside their storage,
    the shim behind \<open>eglGetProcAddress\<close>, and the three passes over shader sources.
  \<^item> \<open>Files\<close>, \<open>Log\<close>, \<open>Stubs\<close>, \<open>Runtime_Stubs\<close>: paths, open flags, the cap on the ghosts save, sleeping
    (\<open>default_dynlib.c\<close>); the log of \<open>stubs.c\<close> and the dumps of shader sources; constant stubs and the few with
    logic, among them the guards of function-local statics, also with the threads that meet at one.
  \<^item> \<open>Input\<close>, \<open>Timing\<close>, \<open>Boot\<close>, \<open>Frame_Present\<close>, \<open>Loader_Globals\<close>: buttons, sticks, touches, movies and the stall
    watch of the frame loop, its timing report, the order of \<open>main\<close> (\<open>main.c\<close>), who presents a frame when the
    game's threads do it too, and the constants and counters beside.
  \<^item> \<open>Engine_Hooks\<close>, \<open>Traces\<close>, \<open>Trace_Hooks\<close>: the hooks that change what the engine does (waiting for chunks,
    texture copies, memory categories), the lines the tracing hooks and the watchdog put together in fixed buffers,
    and the hooks that only watch, around engine code whose calls may nest (\<open>main.c\<close>).

  What the lemmas show.  Refinements of an abstract object: the audio ring (a queue), the allocator (a set of live
  blocks), an open asset (a stream).  Safety in every interleaving: the audio threads, lazy mutexes, serialised GL,
  started threads, presented frames.  Written code does what it replaces: hooks, trampolines and patches executed
  on the machine. Transparency: attachment caches, tracing hooks.  Bounds: shader passes, buffer writes, trace
  lines, log lines. Round trips: mutexes, ELF structures.  Termination and liveness: the chunk wait, movies, key
  events, open addressing. Error paths: loading, opening assets, the order of the boot, a failing card.  Lemmas
  beside the properties show where the code goes wrong (for example \<open>once_runs_twice\<close>, \<open>big_stack_lowers\<close>,
  \<open>long_line_overreads\<close>, \<open>failed_creation_leaks\<close>, \<open>getcwd_unterminated\<close>, \<open>copy_flag_overrun\<close>, \<open>static_init_twice\<close>,
  \<open>local_symbols_found\<close>).

  Bounds and fuel.  Machine integers keep their width, so wrap-around is part of the models.  The loops \<open>while
  (glGetError())\<close> get a number of rounds; the theorems hold for every number, and a run that needs more has no
  result (\<open>Spin\<close>, \<open>None\<close>), which the buffer theorem excludes by its hypothesis on pending errors.  The loop of
  \<open>translate_wait\<close> ends by its own limit of 4000 rounds, the read loops by what is left to read.  Hash chains and
  strings without an end in memory are \<open>partial_function\<close>s; the symbol theorem proves that they return.

  Not modelled: the files of vitaGL, newlib and the kernel; text formatting beyond what decides a buffer
  (floating-point figures of reports); the accelerometer, which is off by default; the fake \<open>FILE\<close> objects behind
  \<open>__sF\<close>, of which only the address is taken; the relocations and flags of \<open>elf.h\<close> for other machines, its notes and
  versions, which no code reads; the build files.
\<close>



end
